(* ===== verification/Prelude.thy ===== *)
theory Prelude
  imports Main "HOL-Library.Word" "HOL-Library.Char_ord" "HOL-Library.List_Lexorder"
begin

text \<open>
  Shared material of the development: the machine types of the Rust sources, the result
  type in which a panic or a returned error is a value, checked arithmetic, and the generic
  list lemmas that the components use.

  Arithmetic follows the profile that \<^verbatim>\<open>cargo build\<close> and \<^verbatim>\<open>run.sh\<close> use (debug): an
  unsigned addition or subtraction that leaves its width panics.
\<close>

section \<open>Machine types\<close>

type_synonym u8 = "8 word"
type_synonym u16 = "16 word"
type_synonym u32 = "32 word"
type_synonym u64 = "64 word"

type_synonym bytes = "u8 list"

text \<open>\<^verbatim>\<open>server/mod.rs\<close>: the identifiers that every component shares.\<close>

type_synonym TXID = u64
type_synonym Term = u64
type_synonym PeerID = string

text \<open>\<^verbatim>\<open>mio::Token\<close> wraps a \<^verbatim>\<open>usize\<close>; \<^verbatim>\<open>std::net::SocketAddr\<close> is an address (its octets) and
  a port, which the sources only pass around and print.\<close>

type_synonym Token = u64
type_synonym SocketAddr = "u8 list \<times> u16"

section \<open>Results: a panic or an error is a value\<close>

datatype panic =
    UnwrapNone              \<comment> \<open>\<^verbatim>\<open>unwrap\<close> of a \<^verbatim>\<open>None\<close>\<close>
  | UnwrapErr               \<comment> \<open>\<^verbatim>\<open>unwrap\<close> of an \<^verbatim>\<open>Err\<close>\<close>
  | AssertFailed            \<comment> \<open>\<^verbatim>\<open>assert!\<close>\<close>
  | Overflow                \<comment> \<open>arithmetic left its width\<close>
  | Explicit string         \<comment> \<open>\<^verbatim>\<open>panic!\<close> with its message\<close>

type_synonym 'a res = "panic + 'a"

definition and_then :: "'e + 'a \<Rightarrow> ('a \<Rightarrow> 'e + 'b) \<Rightarrow> 'e + 'b" where
  "and_then r f = (case r of Inl e \<Rightarrow> Inl e | Inr x \<Rightarrow> f x)"

definition unwrap :: "'a option \<Rightarrow> 'a res" where
  "unwrap x = (case x of None \<Rightarrow> Inl UnwrapNone | Some v \<Rightarrow> Inr v)"

definition unwrap_res :: "'e + 'a \<Rightarrow> 'a res" where
  "unwrap_res r = (case r of Inl _ \<Rightarrow> Inl UnwrapErr | Inr v \<Rightarrow> Inr v)"

definition rust_assert :: "bool \<Rightarrow> unit res" where
  "rust_assert b = (if b then Inr () else Inl AssertFailed)"

definition checked_add :: "'a::len word \<Rightarrow> 'a word \<Rightarrow> 'a word res" where
  "checked_add a b = (if unat a + unat b < 2 ^ LENGTH('a) then Inr (a + b) else Inl Overflow)"

definition checked_sub :: "'a::len word \<Rightarrow> 'a word \<Rightarrow> 'a word res" where
  "checked_sub a b = (if b \<le> a then Inr (a - b) else Inl Overflow)"

text \<open>A loop over a list whose body may panic: the state is threaded, the first panic ends it.\<close>

primrec fold_res :: "('a \<Rightarrow> 's \<Rightarrow> 'e + 's) \<Rightarrow> 'a list \<Rightarrow> 's \<Rightarrow> 'e + 's" where
  "fold_res f [] s = Inr s"
| "fold_res f (x # xs) s = and_then (f x s) (fold_res f xs)"

definition is_ok :: "'e + 'a \<Rightarrow> bool" where
  "is_ok r = (case r of Inl _ \<Rightarrow> False | Inr _ \<Rightarrow> True)"

section \<open>Lemmas on results\<close>

named_theorems result_simps \<open>evaluation of result combinators\<close>

lemma and_then_simps [simp, result_simps]:
  "and_then (Inl e) f = Inl e"
  "and_then (Inr x) f = f x"
  by (simp_all add: and_then_def)

lemma and_then_Inr_iff [simp]:
  "and_then r f = Inr y \<longleftrightarrow> (\<exists>x. r = Inr x \<and> f x = Inr y)"
  by (cases r) simp_all

lemma and_then_Inl_iff:
  "and_then r f = Inl e \<longleftrightarrow> r = Inl e \<or> (\<exists>x. r = Inr x \<and> f x = Inl e)"
  by (cases r) simp_all

lemma unwrap_simps [simp, result_simps]:
  "unwrap None = Inl UnwrapNone"
  "unwrap (Some v) = Inr v"
  by (simp_all add: unwrap_def)

lemma unwrap_Inr_iff [simp]: "unwrap x = Inr v \<longleftrightarrow> x = Some v"
  by (cases x) simp_all

lemma unwrap_res_simps [simp, result_simps]:
  "unwrap_res (Inl e) = Inl UnwrapErr"
  "unwrap_res (Inr v) = Inr v"
  by (simp_all add: unwrap_res_def)

lemma unwrap_res_Inr_iff [simp]: "unwrap_res r = Inr v \<longleftrightarrow> r = Inr v"
  by (cases r) simp_all

lemma rust_assert_simps [simp, result_simps]:
  "rust_assert True = Inr ()"
  "rust_assert False = Inl AssertFailed"
  by (simp_all add: rust_assert_def)

lemma rust_assert_Inr_iff [simp]: "rust_assert b = Inr u \<longleftrightarrow> b"
  by (cases b) simp_all

lemma is_ok_simps [simp, result_simps]:
  "is_ok (Inr x)" "\<not> is_ok (Inl e)"
  by (simp_all add: is_ok_def)

lemma is_ok_iff: "is_ok r \<longleftrightarrow> (\<exists>x. r = Inr x)"
  by (cases r) simp_all

text \<open>An invariant that every turn of a loop keeps holds when the loop ends.\<close>

lemma fold_res_invariant:
  assumes "fold_res f xs s = Inr s'"
    and "P s"
    and "\<And>x t t'. x \<in> set xs \<Longrightarrow> P t \<Longrightarrow> f x t = Inr t' \<Longrightarrow> P t'"
  shows "P s'"
  using assms
proof (induction xs arbitrary: s)
  case Nil
  then show ?case by simp
next
  case (Cons x xs)
  from Cons.prems(1) obtain t where t: "f x s = Inr t" and rest: "fold_res f xs t = Inr s'"
    by auto
  have "P t" using Cons.prems(3) [OF _ Cons.prems(2) t] by simp
  with rest show ?case
    by (rule Cons.IH) (use Cons.prems(3) in auto)
qed

lemma fold_res_ok:
  assumes "P s"
    and "\<And>x t. x \<in> set xs \<Longrightarrow> P t \<Longrightarrow> \<exists>t'. f x t = Inr t' \<and> P t'"
  shows "\<exists>s'. fold_res f xs s = Inr s' \<and> P s'"
  using assms
proof (induction xs arbitrary: s)
  case Nil
  then show ?case by simp
next
  case (Cons x xs)
  obtain t where "f x s = Inr t" "P t"
    using Cons.prems(1) Cons.prems(2) [of x s] by auto
  with Cons.IH [of t] Cons.prems(2) show ?case by auto
qed

lemma fold_res_append:
  "fold_res f (xs @ ys) s = and_then (fold_res f xs s) (fold_res f ys)"
proof (induction xs arbitrary: s)
  case (Cons x xs)
  then show ?case by (cases "f x s") simp_all
qed simp

section \<open>Lemmas on checked arithmetic\<close>

lemma checked_add_Inr_iff:
  "checked_add a b = Inr c \<longleftrightarrow> unat a + unat b < 2 ^ LENGTH('a) \<and> c = a + b"
  for a b c :: "'a::len word"
  by (auto simp: checked_add_def)

lemma checked_add_unat:
  "checked_add a b = Inr c \<Longrightarrow> unat c = unat a + unat b"
  for a b c :: "'a::len word"
  by (simp add: checked_add_Inr_iff unat_word_ariths)

lemma checked_add_ge:
  "checked_add a b = Inr c \<Longrightarrow> a \<le> c"
  for a b c :: "'a::len word"
  by (simp add: checked_add_unat word_le_nat_alt)

lemma checked_add_1_greater:
  "checked_add a 1 = Inr c \<Longrightarrow> a < c"
  for a c :: "'a::len word"
  by (simp add: checked_add_unat word_less_nat_alt)

lemma checked_sub_Inr_iff [simp]:
  "checked_sub a b = Inr c \<longleftrightarrow> b \<le> a \<and> c = a - b"
  by (auto simp: checked_sub_def)

end
