(* ===== verification/Btree_Map.thy ===== *)
theory Btree_Map
  imports Prelude
begin

text \<open>
  \<^verbatim>\<open>std::collections::BTreeMap\<close>, as far as the sources use it: an association list kept in
  strictly increasing key order, so that iteration (\<^verbatim>\<open>iter\<close>, \<^verbatim>\<open>iter_mut\<close>, \<^verbatim>\<open>keys().next()\<close>)
  reads the entries in the order the Rust collection gives them.  The interface is the
  locale \<open>ordered_map\<close>; the list model interprets it.
\<close>

section \<open>The model\<close>

type_synonym ('k, 'v) btree = "('k \<times> 'v) list"

fun bt_insert :: "'k::linorder \<Rightarrow> 'v \<Rightarrow> ('k, 'v) btree \<Rightarrow> ('k, 'v) btree" where
  "bt_insert k v [] = [(k, v)]"
| "bt_insert k v (e # m) =
     (if k < fst e then (k, v) # e # m
      else if fst e < k then e # bt_insert k v m
      else (k, v) # m)"

fun bt_remove :: "'k::linorder \<Rightarrow> ('k, 'v) btree \<Rightarrow> ('k, 'v) btree" where
  "bt_remove k [] = []"
| "bt_remove k (e # m) = (if fst e = k then m else e # bt_remove k m)"

fun bt_get :: "('k::linorder, 'v) btree \<Rightarrow> 'k \<Rightarrow> 'v option" where
  "bt_get [] k = None"
| "bt_get (e # m) k = (if fst e = k then Some (snd e) else bt_get m k)"

text \<open>\<^verbatim>\<open>get_mut\<close> followed by writes through the reference.\<close>

definition bt_modify :: "'k::linorder \<Rightarrow> ('v \<Rightarrow> 'v) \<Rightarrow> ('k, 'v) btree \<Rightarrow> ('k, 'v) btree" where
  "bt_modify k f m = map (\<lambda>e. if fst e = k then (fst e, f (snd e)) else e) m"

definition bt_keys :: "('k::linorder, 'v) btree \<Rightarrow> 'k list" where
  "bt_keys m = map fst m"

definition bt_inv :: "('k::linorder, 'v) btree \<Rightarrow> bool" where
  "bt_inv m \<longleftrightarrow> sorted_wrt (<) (bt_keys m)"

section \<open>The interface\<close>

text \<open>What a client may rely on: lookups after every update, keys in strict order, and the
  least key first.\<close>

locale ordered_map =
  fixes empty :: "'m"
    and insert :: "'k::linorder \<Rightarrow> 'v \<Rightarrow> 'm \<Rightarrow> 'm"
    and remove :: "'k \<Rightarrow> 'm \<Rightarrow> 'm"
    and get :: "'m \<Rightarrow> 'k \<Rightarrow> 'v option"
    and keys :: "'m \<Rightarrow> 'k list"
    and inv :: "'m \<Rightarrow> bool"
  assumes inv_empty: "inv empty"
    and keys_empty: "keys empty = []"
    and inv_insert: "inv m \<Longrightarrow> inv (insert k v m)"
    and inv_remove: "inv m \<Longrightarrow> inv (remove k m)"
    and get_insert: "inv m \<Longrightarrow> get (insert k v m) k' = (if k' = k then Some v else get m k')"
    and get_remove: "inv m \<Longrightarrow> get (remove k m) k' = (if k' = k then None else get m k')"
    and keys_get: "k \<in> set (keys m) \<longleftrightarrow> get m k \<noteq> None"
    and keys_sorted: "inv m \<Longrightarrow> sorted_wrt (<) (keys m)"
begin

lemma keys_distinct: "inv m \<Longrightarrow> distinct (keys m)"
  using keys_sorted strict_sorted_iff by blast

lemma set_keys_insert: "inv m \<Longrightarrow> set (keys (insert k v m)) = Set.insert k (set (keys m))"
  by (auto simp: keys_get get_insert split: if_splits)

lemma set_keys_remove: "inv m \<Longrightarrow> set (keys (remove k m)) = set (keys m) - {k}"
  by (auto simp: keys_get get_remove split: if_splits)

lemma get_after_insert_remove:
  "inv m \<Longrightarrow> get (remove k (insert k v m)) k' = (if k' = k then None else get m k')"
  by (simp add: get_remove get_insert inv_insert)

lemma first_key_least:
  assumes "inv m" and "keys m = k # ks" and "k' \<in> set (keys m)"
  shows "k \<le> k'"
  using keys_sorted [OF assms(1)] assms(2,3) by auto

end

section \<open>The list model implements the interface\<close>

lemma bt_keys_simps [simp]:
  "bt_keys [] = []"
  "bt_keys (e # m) = fst e # bt_keys m"
  "bt_keys (m @ n) = bt_keys m @ bt_keys n"
  by (simp_all add: bt_keys_def)

lemma bt_inv_simps [simp]:
  "bt_inv []"
  "bt_inv (e # m) \<longleftrightarrow> (\<forall>k \<in> set (bt_keys m). fst e < k) \<and> bt_inv m"
  by (auto simp: bt_inv_def)

lemma bt_inv_append:
  "bt_inv (m @ n) \<longleftrightarrow>
     bt_inv m \<and> bt_inv n \<and> (\<forall>j \<in> set (bt_keys m). \<forall>k \<in> set (bt_keys n). j < k)"
  by (auto simp: bt_inv_def sorted_wrt_append)

lemma set_bt_keys_insert [simp]: "set (bt_keys (bt_insert k v m)) = insert k (set (bt_keys m))"
  by (induction m) auto

lemma set_bt_keys_remove: "set (bt_keys (bt_remove k m)) \<subseteq> set (bt_keys m)"
  by (induction m) auto

lemma bt_inv_insert [simp]: "bt_inv m \<Longrightarrow> bt_inv (bt_insert k v m)"
  by (induction m) auto

lemma bt_inv_remove [simp]: "bt_inv m \<Longrightarrow> bt_inv (bt_remove k m)"
  using set_bt_keys_remove by (induction m) fastforce+

lemma bt_get_None_iff: "bt_get m k = None \<longleftrightarrow> k \<notin> set (bt_keys m)"
  by (induction m) auto

lemma bt_get_insert [simp]: "bt_get (bt_insert k v m) k' = (if k' = k then Some v else bt_get m k')"
  by (induction m) auto

lemma bt_get_remove [simp]:
  "bt_inv m \<Longrightarrow> bt_get (bt_remove k m) k' = (if k' = k then None else bt_get m k')"
  by (induction m) (auto simp: bt_get_None_iff)

interpretation btm: ordered_map "[]" bt_insert bt_remove bt_get bt_keys bt_inv
  by unfold_locales (auto simp: bt_get_None_iff bt_inv_def [symmetric])

section \<open>Further lemmas on the list model\<close>

lemma bt_get_in_set: "bt_get m k = Some v \<Longrightarrow> (k, v) \<in> set m"
  by (induction m) (auto split: if_splits)

lemma bt_get_of_set: "bt_inv m \<Longrightarrow> (k, v) \<in> set m \<Longrightarrow> bt_get m k = Some v"
  by (induction m) (force simp: bt_keys_def)+

lemma bt_get_append:
  "bt_get (m @ n) k = (case bt_get m k of None \<Rightarrow> bt_get n k | Some v \<Rightarrow> Some v)"
  by (induction m) auto

lemma bt_insert_last: "\<forall>j \<in> set (bt_keys m). j < k \<Longrightarrow> bt_insert k v m = m @ [(k, v)]"
  by (induction m) auto

lemma bt_remove_first [simp]: "bt_remove (fst e) (e # m) = m"
  by simp

lemma bt_keys_modify [simp]: "bt_keys (bt_modify k f m) = bt_keys m"
  by (induction m) (auto simp: bt_modify_def)

lemma bt_inv_modify [simp]: "bt_inv (bt_modify k f m) \<longleftrightarrow> bt_inv m"
  by (simp add: bt_inv_def)

lemma bt_get_modify [simp]:
  "bt_get (bt_modify k f m) k' = (if k' = k then map_option f (bt_get m k) else bt_get m k')"
  by (induction m) (auto simp: bt_modify_def)

lemma bt_get_remove_Some:
  "bt_inv m \<Longrightarrow> bt_get (bt_remove k m) k' = Some v \<Longrightarrow> bt_get m k' = Some v"
  by (simp split: if_splits)

end
