(* ===== verification/Acked_Log.thy ===== *)
theory Acked_Log
  imports Btree_Map
begin

text \<open>
  \<^verbatim>\<open>server/acked_log.rs\<close>: the replication log.  A pending entry waits for acknowledgements,
  a committed one has been learned.  The record \<open>InMemoryLog\<close> has the fields of the Rust
  struct, the operations of \<^verbatim>\<open>impl AckedLog for InMemoryLog\<close> are translated one by one, and
  the contract that a server relies on is the locale \<open>acked_log\<close>, which the
  operations interpret.
\<close>

section \<open>Data\<close>

record 't LogEntry =
  le_txid :: TXID
  le_term :: Term
  le_last_txid :: TXID
  le_last_term :: Term
  le_entry :: 't

record 't Acked =
  acks :: "PeerID list"
  inner :: "'t LogEntry"

record 't InMemoryLog =
  pending :: "(TXID, 't Acked) btree"
  committed :: "(TXID, 't LogEntry) btree"
  quorum :: nat
  last_learned_txid :: TXID
  last_learned_term :: Term
  last_accepted_txid :: TXID
  last_accepted_term :: Term

section \<open>Operations\<close>

definition log_append :: "Term \<Rightarrow> TXID \<Rightarrow> 't \<Rightarrow> 't InMemoryLog \<Rightarrow> 't InMemoryLog res" where
  "log_append term txid entry l =
     and_then (rust_assert (last_accepted_txid l < txid)) (\<lambda>_.
       Inr (l\<lparr>pending := bt_insert txid
                 \<lparr>acks = [],
                  inner = \<lparr>le_txid = txid, le_term = term,
                           le_last_txid = last_accepted_txid l,
                           le_last_term = last_accepted_term l,
                           le_entry = entry\<rparr>\<rparr>
                 (pending l),
              last_accepted_txid := txid,
              last_accepted_term := term\<rparr>))"

definition log_get :: "'t InMemoryLog \<Rightarrow> TXID \<Rightarrow> 't option" where
  "log_get l txid =
     (case bt_get (pending l) txid of
        Some al \<Rightarrow> Some (le_entry (inner al))
      | None \<Rightarrow> map_option le_entry (bt_get (committed l) txid))"

text \<open>The first loop of \<^verbatim>\<open>ack_up_to\<close>.  Its pattern \<^verbatim>\<open>(txid, ent)\<close> shadows the parameter
  \<^verbatim>\<open>txid\<close>, so the comparison is between an entry and its own key, and the loop stops at the
  first entry that passes it.\<close>

definition push_ack :: "PeerID \<Rightarrow> 't Acked \<Rightarrow> 't Acked" where
  "push_ack peer ent =
     (if peer \<in> set (acks ent) then ent else ent\<lparr>acks := acks ent @ [peer]\<rparr>)"

fun ack_loop :: "PeerID \<Rightarrow> (TXID, 't Acked) btree \<Rightarrow> (TXID, 't Acked) btree" where
  "ack_loop peer [] = []"
| "ack_loop peer ((txid, ent) # rest) =
     (if le_txid (inner ent) \<le> txid then (txid, push_ack peer ent) # rest
      else (txid, ent) # ack_loop peer rest)"

text \<open>What both draining loops do with the entry they removed.\<close>

definition learn_entry :: "TXID \<Rightarrow> 't Acked \<Rightarrow> 't InMemoryLog \<Rightarrow> 't InMemoryLog" where
  "learn_entry key ent l =
     l\<lparr>last_learned_term := le_term (inner ent),
       last_learned_txid := le_txid (inner ent),
       committed := bt_insert key (inner ent) (committed l)\<rparr>"

text \<open>The second loop of \<^verbatim>\<open>ack_up_to\<close>: the first pending entry is removed as long as it has
  a quorum.\<close>

function quorum_loop :: "'t InMemoryLog \<Rightarrow> (Term \<times> TXID) list \<Rightarrow> 't InMemoryLog \<times> (Term \<times> TXID) list" where
  "quorum_loop l reached_quorum =
     (case pending l of
        [] \<Rightarrow> (l, reached_quorum)
      | (txid, ent) # _ \<Rightarrow>
          if length (acks ent) < quorum l then (l, reached_quorum)
          else quorum_loop (learn_entry txid ent (l\<lparr>pending := bt_remove txid (pending l)\<rparr>))
                 (reached_quorum @ [(le_term (inner ent), le_txid (inner ent))]))"
  by pat_completeness auto
termination
  by (relation "measure (\<lambda>(l, _). length (pending l))") (auto simp: learn_entry_def)

definition ack_up_to ::
  "TXID \<Rightarrow> PeerID \<Rightarrow> 't InMemoryLog \<Rightarrow> 't InMemoryLog \<times> (Term \<times> TXID) list" where
  "ack_up_to txid peer l = quorum_loop (l\<lparr>pending := ack_loop peer (pending l)\<rparr>) []"

text \<open>The loop of \<^verbatim>\<open>commit_up_to\<close>.  The entry is stored under the parameter \<^verbatim>\<open>txid\<close>, not under
  its own \<^verbatim>\<open>next_txid\<close>.\<close>

function commit_loop ::
  "TXID \<Rightarrow> 't InMemoryLog \<Rightarrow> (Term \<times> TXID) list \<Rightarrow> 't InMemoryLog \<times> (Term \<times> TXID) list" where
  "commit_loop txid l reached_quorum =
     (case pending l of
        [] \<Rightarrow> (l, reached_quorum)
      | (next_txid, ent) # _ \<Rightarrow>
          if txid < next_txid then (l, reached_quorum)
          else commit_loop txid (learn_entry txid ent (l\<lparr>pending := bt_remove next_txid (pending l)\<rparr>))
                 (reached_quorum @ [(le_term (inner ent), le_txid (inner ent))]))"
  by pat_completeness auto
termination
  by (relation "measure (\<lambda>(_, l, _). length (pending l))") (auto simp: learn_entry_def)

definition commit_up_to ::
  "TXID \<Rightarrow> 't InMemoryLog \<Rightarrow> 't InMemoryLog \<times> (Term \<times> TXID) list" where
  "commit_up_to txid l = commit_loop txid l []"

text \<open>The debugging views of \<^verbatim>\<open>impl ViewableLog\<close>.\<close>

definition log_acked :: "'t InMemoryLog \<Rightarrow> (Term \<times> TXID) list" where
  "log_acked l = map (\<lambda>(txid, a). (le_term (inner a), txid)) (pending l)"

definition log_learned :: "'t InMemoryLog \<Rightarrow> (Term \<times> TXID) list" where
  "log_learned l = map (\<lambda>(txid, e). (le_term e, txid)) (committed l)"

text \<open>The empty log that \<^verbatim>\<open>Server::run\<close> builds for \<open>n\<close> peers.\<close>

definition empty_log :: "nat \<Rightarrow> 't InMemoryLog" where
  "empty_log n =
     \<lparr>pending = [], committed = [], quorum = n div 2 + 1,
      last_learned_txid = 0, last_learned_term = 0,
      last_accepted_txid = 0, last_accepted_term = 0\<rparr>"

declare quorum_loop.simps [simp del] commit_loop.simps [simp del]

section \<open>Specification vocabulary\<close>

text \<open>The pending entries form a chain from the learned position to the accepted one: each
  entry names its predecessor, keys grow, and an entry is stored under its own txid.\<close>

fun linked :: "TXID \<Rightarrow> Term \<Rightarrow> (TXID, 't Acked) btree \<Rightarrow> TXID \<Rightarrow> Term \<Rightarrow> bool" where
  "linked x t [] x' t' = (x = x' \<and> t = t')"
| "linked x t ((k, a) # r) x' t' =
     (le_txid (inner a) = k \<and> x < k \<and> le_last_txid (inner a) = x \<and> le_last_term (inner a) = t \<and>
      linked k (le_term (inner a)) r x' t')"

definition log_inv :: "'t InMemoryLog \<Rightarrow> bool" where
  "log_inv l \<longleftrightarrow>
     linked (last_learned_txid l) (last_learned_term l) (pending l)
            (last_accepted_txid l) (last_accepted_term l) \<and>
     bt_inv (committed l) \<and> (\<forall>e \<in> set (pending l). distinct (acks (snd e)))"

definition entry_id :: "TXID \<times> 't Acked \<Rightarrow> Term \<times> TXID" where
  "entry_id e = (le_term (inner (snd e)), le_txid (inner (snd e)))"

text \<open>Learning a run of entries, each stored under the key that \<open>key\<close> gives.\<close>

definition learn_all ::
  "(TXID \<Rightarrow> TXID) \<Rightarrow> (TXID, 't Acked) btree \<Rightarrow> 't InMemoryLog \<Rightarrow> 't InMemoryLog" where
  "learn_all key es l = fold (\<lambda>e. learn_entry (key (fst e)) (snd e)) es l"

text \<open>The one-shot description of a draining loop: the longest run of pending entries that
  satisfy \<open>P\<close> is learned and reported, the rest stays pending.\<close>

definition drain_spec ::
  "(TXID \<times> 't Acked \<Rightarrow> bool) \<Rightarrow> (TXID \<Rightarrow> TXID) \<Rightarrow> 't InMemoryLog \<Rightarrow> 't InMemoryLog \<times> (Term \<times> TXID) list" where
  "drain_spec P key l =
     (learn_all key (takeWhile P (pending l)) (l\<lparr>pending := dropWhile P (pending l)\<rparr>),
      map entry_id (takeWhile P (pending l)))"

section \<open>Chains\<close>

lemma linked_append:
  "linked x t (p @ q) x' t' \<longleftrightarrow> (\<exists>y u. linked x t p y u \<and> linked y u q x' t')"
  by (induction p arbitrary: x t) (auto, blast)

lemma linked_keys:
  "linked x t p x' t' \<Longrightarrow> x \<le> x' \<and> (\<forall>k \<in> set (bt_keys p). x < k \<and> k \<le> x')"
proof (induction p arbitrary: x t)
  case (Cons e p)
  obtain k a where e: "e = (k, a)" by (cases e)
  from Cons.prems have "x < k" and "linked k (le_term (inner a)) p x' t'" by (auto simp: e)
  with Cons.IH [of k "le_term (inner a)"] show ?case by (auto simp: e)
qed simp

lemma linked_bt_inv: "linked x t p x' t' \<Longrightarrow> bt_inv p"
proof (induction p arbitrary: x t)
  case (Cons e p)
  obtain k a where e: "e = (k, a)" by (cases e)
  from Cons.prems have "linked k (le_term (inner a)) p x' t'" by (auto simp: e)
  with Cons.IH linked_keys [OF this] show ?case by (auto simp: e)
qed simp

lemma linked_own_key: "linked x t p x' t' \<Longrightarrow> (k, a) \<in> set p \<Longrightarrow> le_txid (inner a) = k"
  by (induction p arbitrary: x t) auto

lemma log_invD:
  assumes "log_inv l"
  shows "bt_inv (pending l)" "bt_inv (committed l)"
    "last_learned_txid l \<le> last_accepted_txid l"
    "\<forall>k \<in> set (bt_keys (pending l)). last_learned_txid l < k \<and> k \<le> last_accepted_txid l"
proof -
  from assms have "linked (last_learned_txid l) (last_learned_term l) (pending l)
      (last_accepted_txid l) (last_accepted_term l)" and c: "bt_inv (committed l)"
    by (simp_all add: log_inv_def)
  note this(1) [THEN linked_bt_inv] this(1) [THEN linked_keys]
  with c show "bt_inv (pending l)" "bt_inv (committed l)"
    "last_learned_txid l \<le> last_accepted_txid l"
    "\<forall>k \<in> set (bt_keys (pending l)). last_learned_txid l < k \<and> k \<le> last_accepted_txid l"
    by simp_all
qed

section \<open>The draining loops meet their one-shot description\<close>

lemma learn_entry_simps [simp]:
  "pending (learn_entry k a l) = pending l"
  "quorum (learn_entry k a l) = quorum l"
  "last_accepted_txid (learn_entry k a l) = last_accepted_txid l"
  "last_accepted_term (learn_entry k a l) = last_accepted_term l"
  "last_learned_txid (learn_entry k a l) = le_txid (inner a)"
  "last_learned_term (learn_entry k a l) = le_term (inner a)"
  "committed (learn_entry k a l) = bt_insert k (inner a) (committed l)"
  "learn_entry k a (l\<lparr>pending := p\<rparr>) = (learn_entry k a l)\<lparr>pending := p\<rparr>"
  by (simp_all add: learn_entry_def)

lemma learn_all_simps [simp]:
  "learn_all key [] l = l"
  "learn_all key (e # es) l = learn_all key es (learn_entry (key (fst e)) (snd e) l)"
  by (simp_all add: learn_all_def)

lemma learn_all_frame [simp]:
  "pending (learn_all key es l) = pending l"
  "quorum (learn_all key es l) = quorum l"
  "last_accepted_txid (learn_all key es l) = last_accepted_txid l"
  "last_accepted_term (learn_all key es l) = last_accepted_term l"
  by (induction es arbitrary: l) simp_all

lemma drain_step:
  assumes "pending l = e # p" and "P e"
  shows "drain_spec P key l =
    (let (l', ids) = drain_spec P key (learn_entry (key (fst e)) (snd e) (l\<lparr>pending := p\<rparr>))
     in (l', entry_id e # ids))"
  using assms by (simp add: drain_spec_def Let_def)

lemma quorum_loop_eq:
  "quorum_loop l acc =
     (let (l', ids) = drain_spec (\<lambda>e. quorum l \<le> length (acks (snd e))) (\<lambda>k. k) l in (l', acc @ ids))"
proof (induction l acc rule: quorum_loop.induct)
  case (1 l acc)
  show ?case
  proof (cases "pending l")
    case Nil
    then show ?thesis by (simp add: quorum_loop.simps [of l acc] drain_spec_def)
  next
    case (Cons e p)
    obtain k a where e: "e = (k, a)" by (cases e)
    show ?thesis
    proof (cases "quorum l \<le> length (acks a)")
      case True
      have "drain_spec (\<lambda>e. quorum l \<le> length (acks (snd e))) (\<lambda>k. k) l =
          (let (l', ids) = drain_spec (\<lambda>e. quorum l \<le> length (acks (snd e))) (\<lambda>k. k)
                             (learn_entry k a (l\<lparr>pending := p\<rparr>))
           in (l', entry_id e # ids))"
        using drain_step [OF Cons, of "\<lambda>e. quorum l \<le> length (acks (snd e))" "\<lambda>k. k"] True
        by (simp add: e)
      with True Cons 1 [OF Cons e [symmetric]] show ?thesis
        by (simp add: quorum_loop.simps [of l acc] e entry_id_def split: prod.splits)
    next
      case False
      with Cons show ?thesis
        by (simp add: quorum_loop.simps [of l acc] drain_spec_def e)
    qed
  qed
qed

lemma commit_loop_eq:
  "commit_loop txid l acc =
     (let (l', ids) = drain_spec (\<lambda>e. fst e \<le> txid) (\<lambda>_. txid) l in (l', acc @ ids))"
proof (induction txid l acc rule: commit_loop.induct)
  case (1 txid l acc)
  show ?case
  proof (cases "pending l")
    case Nil
    then show ?thesis by (simp add: commit_loop.simps [of txid l acc] drain_spec_def)
  next
    case (Cons e p)
    obtain k a where e: "e = (k, a)" by (cases e)
    show ?thesis
    proof (cases "k \<le> txid")
      case True
      have "drain_spec (\<lambda>e. fst e \<le> txid) (\<lambda>_. txid) l =
          (let (l', ids) = drain_spec (\<lambda>e. fst e \<le> txid) (\<lambda>_. txid)
                             (learn_entry txid a (l\<lparr>pending := p\<rparr>))
           in (l', entry_id e # ids))"
        using drain_step [OF Cons, of "\<lambda>e. fst e \<le> txid" "\<lambda>_. txid"] True by (simp add: e)
      with True Cons 1 [OF Cons e [symmetric]] show ?thesis
        by (simp add: commit_loop.simps [of txid l acc] e entry_id_def split: prod.splits)
    next
      case False
      with Cons show ?thesis
        by (simp add: commit_loop.simps [of txid l acc] drain_spec_def e not_le)
    qed
  qed
qed

section \<open>What draining keeps and produces\<close>

lemma learn_all_last:
  "learn_all key es l = l \<and> es = [] \<or>
   (es \<noteq> [] \<and> last_learned_txid (learn_all key es l) = le_txid (inner (snd (last es))) \<and>
    last_learned_term (learn_all key es l) = le_term (inner (snd (last es))))"
proof (induction es arbitrary: l)
  case (Cons e es)
  then show ?case by (cases es) (auto dest: meta_spec [of _ "learn_entry _ _ l"])
qed simp

lemma learn_all_linked:
  assumes "linked (last_learned_txid l) (last_learned_term l) (es @ p) x' t'"
  shows "linked (last_learned_txid (learn_all key es l)) (last_learned_term (learn_all key es l)) p x' t'"
  using assms by (induction es arbitrary: l) auto

lemma learn_all_committed_inv:
  "bt_inv (committed l) \<Longrightarrow> bt_inv (committed (learn_all key es l))"
  by (induction es arbitrary: l) simp_all

lemma drain_spec_inv:
  assumes "log_inv l"
  shows "log_inv (fst (drain_spec P key l))"
proof -
  have "linked (last_learned_txid l) (last_learned_term l)
      (takeWhile P (pending l) @ dropWhile P (pending l)) (last_accepted_txid l) (last_accepted_term l)"
    using assms by (simp add: log_inv_def)
  then show ?thesis
    using assms learn_all_linked [of "l\<lparr>pending := dropWhile P (pending l)\<rparr>"]
      learn_all_committed_inv [of "l\<lparr>pending := dropWhile P (pending l)\<rparr>"]
    by (auto simp: log_inv_def drain_spec_def dest: set_dropWhileD)
qed

lemma drain_spec_learned_mono:
  assumes "log_inv l"
  shows "last_learned_txid l \<le> last_learned_txid (fst (drain_spec P key l))"
proof (cases "takeWhile P (pending l)")
  case Nil
  then show ?thesis by (simp add: drain_spec_def)
next
  case (Cons e es)
  let ?d = "takeWhile P (pending l)"
  have "last ?d \<in> set ?d" using Cons last_in_set by (metis list.distinct(1))
  then have mem: "last ?d \<in> set (pending l)" by (rule set_takeWhileD [THEN conjunct1])
  then have "le_txid (inner (snd (last ?d))) = fst (last ?d)"
    using assms linked_own_key [of _ _ "pending l" _ _ "fst (last ?d)" "snd (last ?d)"]
    by (auto simp: log_inv_def)
  moreover have "last_learned_txid l < fst (last ?d)"
    using log_invD(4) [OF assms] mem by (auto simp: bt_keys_def)
  ultimately show ?thesis
    using learn_all_last [of key ?d "l\<lparr>pending := dropWhile P (pending l)\<rparr>"] Cons
    by (auto simp: drain_spec_def)
qed

section \<open>Acknowledging the first entry\<close>

lemma ack_loop_keys [simp]: "bt_keys (ack_loop peer p) = bt_keys p"
  by (induction peer p rule: ack_loop.induct) simp_all

lemma push_ack_simps [simp]:
  "inner (push_ack peer a) = inner a"
  "distinct (acks (push_ack peer a)) \<longleftrightarrow> distinct (acks a)"
  "set (acks (push_ack peer a)) = insert peer (set (acks a))"
  by (auto simp: push_ack_def)

lemma ack_loop_linked [simp]:
  "linked x t (ack_loop peer p) x' t' \<longleftrightarrow> linked x t p x' t'"
  by (induction peer p arbitrary: x t rule: ack_loop.induct) auto

lemma ack_loop_first:
  assumes "linked x t p x' t'"
  shows "ack_loop peer p = (case p of [] \<Rightarrow> [] | (k, a) # r \<Rightarrow> (k, push_ack peer a) # r)"
  using assms by (cases p) auto

lemma ack_loop_distinct:
  "\<forall>e \<in> set p. distinct (acks (snd e)) \<Longrightarrow> \<forall>e \<in> set (ack_loop peer p). distinct (acks (snd e))"
  by (induction peer p rule: ack_loop.induct) auto

lemma log_inv_ack_loop: "log_inv l \<Longrightarrow> log_inv (l\<lparr>pending := ack_loop peer (pending l)\<rparr>)"
  using ack_loop_distinct [of "pending l" peer] by (simp add: log_inv_def)

lemma bt_get_ack_loop:
  "map_option inner (bt_get (ack_loop peer p) k) = map_option inner (bt_get p k)"
  by (induction peer p rule: ack_loop.induct) auto

text \<open>\<open>ack_up_to\<close> and \<open>commit_up_to\<close> as one shot.\<close>

lemma ack_up_to_eq:
  "ack_up_to txid peer l =
     drain_spec (\<lambda>e. quorum l \<le> length (acks (snd e))) (\<lambda>k. k) (l\<lparr>pending := ack_loop peer (pending l)\<rparr>)"
  by (simp add: ack_up_to_def quorum_loop_eq split: prod.splits)

lemma commit_up_to_eq:
  "commit_up_to txid l = drain_spec (\<lambda>e. fst e \<le> txid) (\<lambda>_. txid) l"
  by (simp add: commit_up_to_def commit_loop_eq split: prod.splits)

section \<open>Lookups\<close>

lemma learn_all_get_own:
  "bt_inv es \<Longrightarrow> bt_get (committed (learn_all (\<lambda>k. k) es l)) k =
     (case bt_get es k of Some a \<Rightarrow> Some (inner a) | None \<Rightarrow> bt_get (committed l) k)"
proof (induction es arbitrary: l)
  case (Cons e es)
  have "fst e = k \<Longrightarrow> bt_get es k = None"
    using Cons.prems by (auto simp: bt_get_None_iff)
  with Cons show ?case by (auto split: option.splits)
qed simp

lemma learn_all_get_const:
  "bt_get (committed (learn_all (\<lambda>_. t) es l)) k =
     (if k = t \<and> es \<noteq> [] then Some (inner (snd (last es))) else bt_get (committed l) k)"
  by (induction es arbitrary: l) auto

lemma bt_inv_takeWhile: "bt_inv p \<Longrightarrow> bt_inv (takeWhile P p)"
  by (metis bt_inv_append takeWhile_dropWhile_id)

lemma bt_inv_dropWhile: "bt_inv p \<Longrightarrow> bt_inv (dropWhile P p)"
  by (metis bt_inv_append takeWhile_dropWhile_id)

lemma drain_spec_get:
  assumes "bt_inv (pending l)"
  shows "log_get (fst (drain_spec P (\<lambda>k. k) l)) k = log_get l k"
proof -
  let ?d = "takeWhile P (pending l)" and ?r = "dropWhile P (pending l)"
  have "bt_inv (?d @ ?r)" using assms by simp
  then have disj: "bt_get ?d k \<noteq> None \<Longrightarrow> bt_get ?r k = None"
    unfolding bt_inv_append bt_get_None_iff by fastforce
  have "bt_get (pending l) k = (case bt_get ?d k of None \<Rightarrow> bt_get ?r k | Some v \<Rightarrow> Some v)"
    using bt_get_append [of ?d ?r k] by simp
  then show ?thesis
    using disj bt_inv_takeWhile [OF assms, of P]
    by (auto simp: drain_spec_def log_get_def learn_all_get_own split: option.splits)
qed

lemma log_get_ack_loop: "log_get (l\<lparr>pending := ack_loop peer (pending l)\<rparr>) k = log_get l k"
  using bt_get_ack_loop [of peer "pending l" k]
  by (auto simp: log_get_def split: option.splits)

section \<open>The contract of a replication log\<close>

text \<open>What \<^verbatim>\<open>trait AckedLog\<close> promises to a server: an append past the accepted position
  succeeds and moves it, acknowledging keeps every entry readable, and neither
  acknowledging nor committing moves the accepted position or takes the learned one back.\<close>

locale acked_log =
  fixes append :: "Term \<Rightarrow> TXID \<Rightarrow> 't \<Rightarrow> 'l \<Rightarrow> 'l res"
    and get :: "'l \<Rightarrow> TXID \<Rightarrow> 't option"
    and ack :: "TXID \<Rightarrow> PeerID \<Rightarrow> 'l \<Rightarrow> 'l \<times> (Term \<times> TXID) list"
    and commit :: "TXID \<Rightarrow> 'l \<Rightarrow> 'l \<times> (Term \<times> TXID) list"
    and learned :: "'l \<Rightarrow> TXID"
    and accepted :: "'l \<Rightarrow> TXID"
    and accepted_term :: "'l \<Rightarrow> Term"
    and inv :: "'l \<Rightarrow> bool"
  assumes append_ok: "accepted l < x \<Longrightarrow> \<exists>l'. append t x e l = Inr l'"
    and append_assert: "append t x e l = Inr l' \<Longrightarrow> accepted l < x"
    and append_inv: "inv l \<Longrightarrow> append t x e l = Inr l' \<Longrightarrow> inv l'"
    and append_accepted: "append t x e l = Inr l' \<Longrightarrow> accepted l' = x \<and> accepted_term l' = t"
    and append_learned: "append t x e l = Inr l' \<Longrightarrow> learned l' = learned l"
    and append_get: "append t x e l = Inr l' \<Longrightarrow> get l' y = (if y = x then Some e else get l y)"
    and ack_inv: "inv l \<Longrightarrow> inv (fst (ack x p l))"
    and ack_accepted: "accepted (fst (ack x p l)) = accepted l"
    and ack_accepted_term: "accepted_term (fst (ack x p l)) = accepted_term l"
    and ack_learned: "inv l \<Longrightarrow> learned l \<le> learned (fst (ack x p l))"
    and ack_get: "inv l \<Longrightarrow> get (fst (ack x p l)) y = get l y"
    and commit_inv: "inv l \<Longrightarrow> inv (fst (commit x l))"
    and commit_accepted: "accepted (fst (commit x l)) = accepted l"
    and commit_accepted_term: "accepted_term (fst (commit x l)) = accepted_term l"
    and commit_learned: "inv l \<Longrightarrow> learned l \<le> learned (fst (commit x l))"
    and learned_le_accepted: "inv l \<Longrightarrow> learned l \<le> accepted l"
begin

text \<open>A leader's step: append one entry and acknowledge it.\<close>

lemma append_then_ack:
  assumes "inv l" and "append t x e l = Inr l'"
  shows "inv (fst (ack y p l'))" and "accepted (fst (ack y p l')) = x"
    and "accepted_term (fst (ack y p l')) = t" and "get (fst (ack y p l')) x = Some e"
    and "learned l \<le> learned (fst (ack y p l'))"
proof -
  have i: "inv l'" using append_inv [OF assms] .
  show "inv (fst (ack y p l'))" using ack_inv [OF i] .
  show "accepted (fst (ack y p l')) = x" "accepted_term (fst (ack y p l')) = t"
    using append_accepted [OF assms(2)] by (simp_all add: ack_accepted ack_accepted_term)
  show "get (fst (ack y p l')) x = Some e"
    using append_get [OF assms(2)] by (simp add: ack_get [OF i])
  show "learned l \<le> learned (fst (ack y p l'))"
    using ack_learned [OF i] append_learned [OF assms(2)] by simp
qed

text \<open>An entry stays readable while later ones are appended and acknowledged.\<close>

lemma append_then_ack_keeps:
  assumes "inv l" and "append t x e l = Inr l'" and "z \<noteq> x"
  shows "get (fst (ack y p l')) z = get l z"
  using append_get [OF assms(2)] assms(3) ack_get [OF append_inv [OF assms(1,2)]] by simp

end

section \<open>\<open>InMemoryLog\<close> meets the contract\<close>

lemma log_append_Inr:
  "log_append t x e l = Inr l' \<longleftrightarrow>
     last_accepted_txid l < x \<and>
     l' = l\<lparr>pending := bt_insert x \<lparr>acks = [], inner = \<lparr>le_txid = x, le_term = t,
              le_last_txid = last_accepted_txid l, le_last_term = last_accepted_term l,
              le_entry = e\<rparr>\<rparr> (pending l),
            last_accepted_txid := x, last_accepted_term := t\<rparr>"
  by (auto simp: log_append_def)

lemma log_append_inv:
  assumes "log_inv l" and "log_append t x e l = Inr l'"
  shows "log_inv l'"
proof -
  have "\<forall>j \<in> set (bt_keys (pending l)). j < x"
    using log_invD(4) [OF assms(1)] assms(2) by (auto simp: log_append_Inr)
  then show ?thesis
    using assms by (auto simp: log_append_Inr log_inv_def bt_insert_last linked_append)
qed

lemma drain_frame [simp]:
  "last_accepted_txid (fst (drain_spec P key l)) = last_accepted_txid l"
  "last_accepted_term (fst (drain_spec P key l)) = last_accepted_term l"
  "quorum (fst (drain_spec P key l)) = quorum l"
  by (simp_all add: drain_spec_def)

lemma log_append_ok: "last_accepted_txid l < x \<Longrightarrow> \<exists>l'. log_append t x e l = Inr l'"
  by (simp add: log_append_Inr)

lemma log_append_assert: "log_append t x e l = Inr l' \<Longrightarrow> last_accepted_txid l < x"
  by (simp add: log_append_Inr)

lemma log_append_accepted:
  "log_append t x e l = Inr l' \<Longrightarrow> last_accepted_txid l' = x \<and> last_accepted_term l' = t"
  by (simp add: log_append_Inr)

lemma log_append_learned: "log_append t x e l = Inr l' \<Longrightarrow> last_learned_txid l' = last_learned_txid l"
  by (simp add: log_append_Inr)

lemma log_append_get:
  "log_append t x e l = Inr l' \<Longrightarrow> log_get l' y = (if y = x then Some e else log_get l y)"
  by (auto simp: log_append_Inr log_get_def split: option.splits)

lemma ack_up_to_inv: "log_inv l \<Longrightarrow> log_inv (fst (ack_up_to x p l))"
  by (simp add: ack_up_to_eq drain_spec_inv log_inv_ack_loop)

lemma ack_up_to_accepted:
  "last_accepted_txid (fst (ack_up_to x p l)) = last_accepted_txid l"
  "last_accepted_term (fst (ack_up_to x p l)) = last_accepted_term l"
  by (simp_all add: ack_up_to_eq)

lemma ack_up_to_learned_mono:
  "log_inv l \<Longrightarrow> last_learned_txid l \<le> last_learned_txid (fst (ack_up_to x p l))"
  using drain_spec_learned_mono [OF log_inv_ack_loop] by (simp add: ack_up_to_eq)

lemma ack_up_to_get: "log_inv l \<Longrightarrow> log_get (fst (ack_up_to x p l)) y = log_get l y"
  using drain_spec_get [OF log_invD(1) [OF log_inv_ack_loop]]
  by (simp add: ack_up_to_eq log_get_ack_loop)

lemma commit_up_to_inv: "log_inv l \<Longrightarrow> log_inv (fst (commit_up_to x l))"
  by (simp add: commit_up_to_eq drain_spec_inv)

lemma commit_up_to_accepted:
  "last_accepted_txid (fst (commit_up_to x l)) = last_accepted_txid l"
  "last_accepted_term (fst (commit_up_to x l)) = last_accepted_term l"
  by (simp_all add: commit_up_to_eq)

lemma commit_up_to_learned_mono:
  "log_inv l \<Longrightarrow> last_learned_txid l \<le> last_learned_txid (fst (commit_up_to x l))"
  by (simp add: commit_up_to_eq drain_spec_learned_mono)

lemmas log_contract =
  log_append_ok log_append_assert log_append_inv log_append_accepted log_append_learned
  log_append_get ack_up_to_inv ack_up_to_accepted ack_up_to_learned_mono ack_up_to_get
  commit_up_to_inv commit_up_to_accepted commit_up_to_learned_mono log_invD(3)

interpretation iml: acked_log log_append log_get ack_up_to commit_up_to
    last_learned_txid last_accepted_txid last_accepted_term log_inv
  by unfold_locales (fact log_contract)+

lemma log_ops_quorum:
  "log_append t x e l = Inr l' \<Longrightarrow> quorum l' = quorum l"
  "quorum (fst (ack_up_to x p l)) = quorum l"
  "quorum (fst (commit_up_to x l)) = quorum l"
  by (auto simp: log_append_Inr ack_up_to_eq commit_up_to_eq)

end
