(* ===== verification/Clock.thy ===== *)
theory Clock
  imports Prelude
begin

text \<open>
  \<^verbatim>\<open>clock.rs\<close>: time stamps with their derived lexicographic order, and the settable clock of
  the simulator.  \<^verbatim>\<open>RealClock\<close> reads the operating system; a handler that calls
  \<^verbatim>\<open>clock.now()\<close> takes the readings as an argument, one for each call site, so that nothing is
  assumed about two readings in one handler.
\<close>

section \<open>Time stamps\<close>

text \<open>The \<^verbatim>\<open>time\<close> crate has an \<^verbatim>\<open>i64\<close> and an \<^verbatim>\<open>i32\<close> here; no property depends on their range, and the sums of the handlers belong to the crate.\<close>

datatype Timespec = Timespec (sec: int) (nsec: int)

instantiation Timespec :: linorder
begin

definition less_eq_Timespec :: "Timespec \<Rightarrow> Timespec \<Rightarrow> bool" where
  "less_eq_Timespec a b \<longleftrightarrow> sec a < sec b \<or> (sec a = sec b \<and> nsec a \<le> nsec b)"

definition less_Timespec :: "Timespec \<Rightarrow> Timespec \<Rightarrow> bool" where
  "less_Timespec a b \<longleftrightarrow> sec a < sec b \<or> (sec a = sec b \<and> nsec a < nsec b)"

instance
  by standard (auto simp: less_eq_Timespec_def less_Timespec_def intro: Timespec.expand)

end

lemma Timespec_less_simps [simp]:
  "Timespec a b < Timespec c d \<longleftrightarrow> a < c \<or> (a = c \<and> b < d)"
  "Timespec a b \<le> Timespec c d \<longleftrightarrow> a < c \<or> (a = c \<and> b \<le> d)"
  by (simp_all add: less_eq_Timespec_def less_Timespec_def)

section \<open>\<open>TestClock\<close>\<close>

text \<open>\<^verbatim>\<open>as i32\<close> reinterprets the bits; \<^verbatim>\<open>+=\<close> on \<^verbatim>\<open>i32\<close> and \<^verbatim>\<open>*\<close> on \<^verbatim>\<open>u32\<close> are checked.\<close>

definition i32_ok :: "int \<Rightarrow> bool" where
  "i32_ok n \<longleftrightarrow> - (2 ^ 31) \<le> n \<and> n < 2 ^ 31"

definition checked_mul_u32 :: "u32 \<Rightarrow> u32 \<Rightarrow> u32 res" where
  "checked_mul_u32 a b = (if unat a * unat b < 2 ^ 32 then Inr (a * b) else Inl Overflow)"

definition TestClock_new :: Timespec where
  "TestClock_new = Timespec 0 0"

definition TestClock_sleep_ms :: "u32 \<Rightarrow> Timespec \<Rightarrow> Timespec res" where
  "TestClock_sleep_ms ms inner =
     and_then (checked_mul_u32 (ms mod 1000000) 1000000) (\<lambda>ns.
       let n = nsec inner + sint ns in
       if \<not> i32_ok n then Inl Overflow
       else if n > 1000000000
         then Inr (Timespec (sec inner + n div 1000000000) (n mod 1000000000))
         else Inr (Timespec (sec inner) n))"

text \<open>The time a stamp denotes, in nanoseconds.\<close>

definition total_ns :: "Timespec \<Rightarrow> int" where
  "total_ns t = sec t * 1000000000 + nsec t"

section \<open>Properties\<close>

lemma checked_mul_u32_small:
  assumes "uint ms \<le> 2147"
  shows "\<exists>ns. checked_mul_u32 (ms mod 1000000) 1000000 = Inr ns \<and> sint ns = uint ms * 1000000"
proof -
  have "int (unat ms) \<le> 2147" using assms by simp
  then have nat: "unat ms \<le> 2147" by linarith
  have mod: "ms mod 1000000 = ms"
    using nat by (simp add: word_unat_eq_iff unat_mod_distrib)
  have u: "uint (ms * 1000000) = uint ms * 1000000"
    using assms by (simp add: uint_word_ariths)
  have "sint (ms * 1000000) = uint (ms * 1000000)"
  proof -
    have "0 \<le> uint ms * 1000000" "uint ms * 1000000 < 2 ^ 31" using assms by simp_all
    then have "- (2 ^ 31) \<le> uint ms * 1000000" "uint ms * 1000000 < 2 ^ 31" by linarith+
    then show ?thesis
      using signed_take_bit_int_eq_self [of 31 "uint ms * 1000000"] by (simp add: sint_uint u)
  qed
  then show ?thesis
    using nat mod u by (simp add: checked_mul_u32_def)
qed

text \<open>While a simulator step is at most 1147 milliseconds, \<^verbatim>\<open>TestClock::sleep_ms\<close> does not
  panic, moves the clock by exactly the milliseconds asked for, and keeps the nanosecond
  field between 0 and a full second.\<close>

theorem TestClock_sleep_exact:
  assumes "uint ms \<le> 1147" and "0 \<le> nsec t" and "nsec t \<le> 1000000000"
  shows "\<exists>t'. TestClock_sleep_ms ms t = Inr t' \<and>
     total_ns t' = total_ns t + uint ms * 1000000 \<and>
     0 \<le> nsec t' \<and> nsec t' \<le> 1000000000"
proof -
  obtain ns where ns: "checked_mul_u32 (ms mod 1000000) 1000000 = Inr ns"
    and s: "sint ns = uint ms * 1000000"
    using checked_mul_u32_small [of ms] assms(1) by auto
  let ?n = "nsec t + sint ns"
  have "0 \<le> uint ms * 1000000" by simp
  then have "0 \<le> ?n" "?n < 2147483648" using assms s by linarith+
  then have "0 \<le> ?n" "i32_ok ?n" by (simp_all add: i32_ok_def)
  moreover have "?n = ?n div 1000000000 * 1000000000 + ?n mod 1000000000" by simp
  ultimately show ?thesis
    using ns s assms
    by (cases "?n > 1000000000")
      (auto simp: TestClock_sleep_ms_def Let_def total_ns_def algebra_simps
        intro: less_imp_le [OF pos_mod_bound])
qed

theorem TestClock_sleep_exact_witness:
  "\<exists>t'. TestClock_sleep_ms 500 (Timespec 3 700000000) = Inr t' \<and>
     total_ns t' = total_ns (Timespec 3 700000000) + 500 * 1000000 \<and>
     0 \<le> nsec t' \<and> nsec t' \<le> 1000000000"
  using TestClock_sleep_exact [of 500 "Timespec 3 700000000"] by simp

text \<open>A sleep of 4295 milliseconds or more (below a thousand seconds) does not advance the
  clock: the millisecond count overflows 32 bits when it is scaled to nanoseconds.\<close>

theorem TestClock_sleep_overflows:
  assumes "4295 \<le> unat ms" and "unat ms < 1000000"
  shows "TestClock_sleep_ms ms t = Inl Overflow"
proof -
  have "unat (ms mod 1000000) = unat ms"
    using assms by (simp add: unat_mod_distrib)
  then show ?thesis
    using assms by (simp add: TestClock_sleep_ms_def checked_mul_u32_def)
qed

theorem TestClock_sleep_overflows_witness:
  "TestClock_sleep_ms 5000 (Timespec 0 0) = Inl Overflow"
  by (rule TestClock_sleep_overflows) simp_all

end
