(* ===== verification/Node_State.thy ===== *)
theory Node_State
  imports Clock
begin

text \<open>
  \<^verbatim>\<open>server/mod.rs\<close>: envelopes, replication peers, and the role of a node (leader, candidate,
  follower or initial) with its lease.  The predicates of \<^verbatim>\<open>impl State\<close> are translated one
  by one.  \<open>tadd\<close> stands for \<^verbatim>\<open>Timespec + Duration::seconds\<close> of the \<^verbatim>\<open>time\<close> crate.
\<close>

section \<open>Data\<close>

definition SERVER_CLIENTS :: Token where "SERVER_CLIENTS = 0"
definition SERVER_PEERS :: Token where "SERVER_PEERS = 1"
definition PEER_BROADCAST :: Token where "PEER_BROADCAST = - 1"

text \<open>Lease durations in seconds.\<close>

definition LEADER_DURATION :: nat where "LEADER_DURATION = 12"
definition LEADER_REFRESH :: nat where "LEADER_REFRESH = 6"

record Envelope =
  address :: "SocketAddr option"
  tok :: Token
  msg :: bytes

record RepPeer =
  rp_last_accepted_term :: Term
  rp_last_accepted_txid :: TXID
  rp_max_sent_txid :: TXID
  rp_tok :: Token
  rp_id :: PeerID
  rp_addr :: "SocketAddr option"

datatype State =
    Leader (lterm: Term) (lhave: "Token list") (lneed: u8) (luntil: Timespec)
  | Candidate (cterm: Term) (chave: "Token list") (cneed: u8) (cuntil: Timespec)
  | Follower (fterm: Term) (fid: PeerID) (ftok: Token) (fleader_addr: SocketAddr) (funtil: Timespec)
  | Init

section \<open>Operations of \<^verbatim>\<open>impl State\<close>\<close>

fun valid_leader :: "State \<Rightarrow> Timespec \<Rightarrow> bool" where
  "valid_leader (Leader _ _ _ until) now = (now < until)"
| "valid_leader (Follower _ _ _ _ until) now = (now < until)"
| "valid_leader _ now = False"

fun valid_candidate :: "State \<Rightarrow> Timespec \<Rightarrow> bool" where
  "valid_candidate (Candidate _ _ _ until) now = (now < until)"
| "valid_candidate _ now = False"

fun is_leader :: "State \<Rightarrow> bool" where
  "is_leader (Leader _ _ _ _) = True"
| "is_leader _ = False"

fun is_follower :: "State \<Rightarrow> bool" where
  "is_follower (Follower _ _ _ _ _) = True"
| "is_follower _ = False"

fun is_following :: "State \<Rightarrow> PeerID \<Rightarrow> bool" where
  "is_following (Follower _ lid _ _ _) i = (lid = i)"
| "is_following _ i = False"

fun is_candidate :: "State \<Rightarrow> bool" where
  "is_candidate (Candidate _ _ _ _) = True"
| "is_candidate _ = False"

fun should_extend_leadership ::
  "(Timespec \<Rightarrow> nat \<Rightarrow> Timespec) \<Rightarrow> State \<Rightarrow> Timespec \<Rightarrow> bool" where
  "should_extend_leadership tadd (Leader _ _ _ until) now =
     (tadd now LEADER_REFRESH \<ge> until \<and> now < until)"
| "should_extend_leadership tadd _ now = False"

fun can_extend_lead :: "State \<Rightarrow> bool" where
  "can_extend_lead (Candidate _ have' need _) = (length have' > unat need)"
| "can_extend_lead (Leader _ have' need _) = (length have' > unat need)"
| "can_extend_lead _ = False"

fun following :: "State \<Rightarrow> PeerID \<Rightarrow> bool" where
  "following (Follower _ fid' _ _ _) i = (i = fid')"
| "following _ i = False"

fun state_until :: "State \<Rightarrow> Timespec option" where
  "state_until (Leader _ _ _ until) = Some until"
| "state_until (Candidate _ _ _ until) = Some until"
| "state_until (Follower _ _ _ _ until) = Some until"
| "state_until Init = None"

fun state_term :: "State \<Rightarrow> Term option" where
  "state_term (Leader t _ _ _) = Some t"
| "state_term (Candidate t _ _ _) = Some t"
| "state_term (Follower t _ _ _ _) = Some t"
| "state_term Init = None"

section \<open>Lemmas\<close>

lemma valid_leader_cases:
  "valid_leader s now \<Longrightarrow> is_leader s \<or> is_follower s"
  by (cases s) simp_all

lemma valid_leader_not_candidate:
  "valid_leader s now \<Longrightarrow> \<not> valid_candidate s now'"
  by (cases s) simp_all

lemma valid_leader_term: "valid_leader s now \<Longrightarrow> \<exists>t. state_term s = Some t"
  by (cases s) simp_all

lemma following_is_following: "following s i = is_following s i"
  by (cases s) auto

lemma following_iff: "following s i \<longleftrightarrow> (\<exists>t k a u. s = Follower t i k a u)"
  by (cases s) auto

lemma valid_candidate_iff: "valid_candidate s now \<longleftrightarrow> (\<exists>t h n u. s = Candidate t h n u \<and> now < u)"
  by (cases s) auto

lemma valid_leader_iff:
  "valid_leader s now \<longleftrightarrow>
     (\<exists>t h n u. s = Leader t h n u \<and> now < u) \<or> (\<exists>t i k a u. s = Follower t i k a u \<and> now < u)"
  by (cases s) auto

lemma is_leader_iff: "is_leader s \<longleftrightarrow> (\<exists>t h n u. s = Leader t h n u)"
  by (cases s) auto

lemma should_extend_leadership_valid:
  "should_extend_leadership tadd s now \<Longrightarrow> is_leader s \<and> valid_leader s now"
  by (cases s) auto

lemma expired_iff:
  "\<not> valid_leader s now \<and> \<not> valid_candidate s now \<longleftrightarrow>
     (case state_until s of None \<Rightarrow> True | Some u \<Rightarrow> u \<le> now)"
  by (cases s) auto

end
