(* ===== verification/Msg_Log.thy ===== *)
theory Msg_Log
  imports Prelude
begin

text \<open>
  \<^verbatim>\<open>serialization.rs\<close>, the messages that describe a replicated mutation.  A message is a
  record of its fields: a singular field is an \<open>option\<close>, a repeated one a list.  The
  constructor, \<^verbatim>\<open>is_initialized\<close>, \<^verbatim>\<open>clear\<close> and \<^verbatim>\<open>==\<close> are definitions, and the accessors of one
  field are one definition, a record of functions; \<^verbatim>\<open>==\<close> ignores the cached size.  The contracts of
  the accessors are the locales \<open>singular_field\<close> and \<open>mutable_field\<close>, interpreted for every singular
  field of every message.
\<close>

section \<open>Unknown fields and the mutation type\<close>

text \<open>\<^verbatim>\<open>protobuf::UnknownFields\<close>: the fields a reader did not recognise, by number.\<close>

datatype UnknownValue =
    UFixed32 u32
  | UFixed64 u64
  | UVarint u64
  | ULengthDelimited bytes

type_synonym UnknownFields = "(u32 \<times> UnknownValue) list"

datatype MutationType = KVSET | KVCAS | KVDEL

definition MutationType_value :: "MutationType \<Rightarrow> int" where
  "MutationType_value t = (case t of KVSET \<Rightarrow> 1 | KVCAS \<Rightarrow> 2 | KVDEL \<Rightarrow> 3)"

definition MutationType_from_i32 :: "int \<Rightarrow> MutationType option" where
  "MutationType_from_i32 v =
     (if v = 1 then Some KVSET else if v = 2 then Some KVCAS else if v = 3 then Some KVDEL else None)"

named_theorems msg_accessors \<open>definitions of the message constructors and accessors\<close>

section \<open>The contract of a singular field\<close>

text \<open>The accessors of a field: of a repeated one, of a scalar one, and of one that is held by pointer and
  can be borrowed and taken.  A function on the value stands for what a caller does through a mutable
  borrow; taking gives the value and what is left of the message.\<close>

record ('m, 'v) Field =
  field_clear :: "'m \<Rightarrow> 'm"
  field_set :: "'v \<Rightarrow> 'm \<Rightarrow> 'm"
  field_get :: "'m \<Rightarrow> 'v"

record ('m, 'v) RepeatedField = "('m, 'v) Field" +
  rep_mut :: "('v \<Rightarrow> 'v) \<Rightarrow> 'm \<Rightarrow> 'm"
  rep_take :: "'m \<Rightarrow> 'v \<times> 'm"

record ('m, 'v) ScalarField = "('m, 'v) Field" +
  field_has :: "'m \<Rightarrow> bool"

record ('m, 'v) SingularField = "('m, 'v) ScalarField" +
  field_mut :: "('v \<Rightarrow> 'v) \<Rightarrow> 'm \<Rightarrow> 'm"
  field_take :: "'m \<Rightarrow> 'v \<times> 'm"

locale singular_field =
  fixes F :: "('m, 'v, 'z) ScalarField_scheme"
    and dflt :: 'v
  assumes has_set: "field_has F (field_set F v m)"
    and get_set: "field_get F (field_set F v m) = v"
    and set_set: "field_set F v (field_set F w m) = field_set F v m"
    and has_clear: "\<not> field_has F (field_clear F m)"
    and get_unset: "\<not> field_has F m \<Longrightarrow> field_get F m = dflt"
    and clear_set: "field_clear F (field_set F v m) = field_clear F m"
    and set_get: "field_has F m \<Longrightarrow> field_set F (field_get F m) m = m"
begin

lemma get_clear: "field_get F (field_clear F m) = dflt"
  by (rule get_unset) (rule has_clear)

lemma set_inj: "field_set F v m = field_set F w m \<Longrightarrow> v = w"
  using get_set by metis

lemma has_iff_set: "field_has F m \<longleftrightarrow> (\<exists>v. m = field_set F v m)"
  using has_set set_get by metis

end

text \<open>A change through a borrow is a change of the value that \<^verbatim>\<open>get\<close> gives, default included.\<close>

locale mutable_field = singular_field F dflt
  for F :: "('m, 'v, 'z) SingularField_scheme" and dflt :: 'v +
  assumes mut_set: "field_mut F f m = field_set F (f (field_get F m)) m"
    and take_clear: "field_take F m = (field_get F m, field_clear F m)"
begin

lemma get_mut: "field_get F (field_mut F f m) = f (field_get F m)"
  unfolding mut_set by (rule get_set)

lemma take_mut: "field_take F (field_mut F f m) = (f (field_get F m), field_clear F m)"
  by (simp add: take_clear get_set mut_set clear_set)

lemma take_twice: "fst (field_take F (snd (field_take F m))) = dflt"
  by (simp add: take_clear get_clear)

end

section \<open>Messages\<close>

subsection \<open>Version\<close>

record Version =
  Version_txid :: "u64 option"
  Version_term :: "u64 option"
  Version_unknown_fields :: UnknownFields
  Version_cached_size :: u32

definition Version_new :: Version where
  "Version_new =
     \<lparr>Version_txid = None, Version_term = None,
      Version_unknown_fields = [], Version_cached_size = 0\<rparr>"

definition Version_txid_field :: "(Version, u64) ScalarField" where
  "Version_txid_field =
     \<lparr>field_clear = \<lambda>m. m\<lparr>Version_txid := None\<rparr>,
      field_set = \<lambda>v m. m\<lparr>Version_txid := Some v\<rparr>,
      field_get = \<lambda>m. case Version_txid m of Some v \<Rightarrow> v | None \<Rightarrow> 0,
      field_has = \<lambda>m. Version_txid m \<noteq> None\<rparr>"

abbreviation Version_clear_txid :: "Version \<Rightarrow> Version" where "Version_clear_txid \<equiv> field_clear Version_txid_field"
abbreviation Version_has_txid :: "Version \<Rightarrow> bool" where "Version_has_txid \<equiv> field_has Version_txid_field"
abbreviation Version_set_txid :: "u64 \<Rightarrow> Version \<Rightarrow> Version" where "Version_set_txid \<equiv> field_set Version_txid_field"
abbreviation Version_get_txid :: "Version \<Rightarrow> u64" where "Version_get_txid \<equiv> field_get Version_txid_field"

definition Version_term_field :: "(Version, u64) ScalarField" where
  "Version_term_field =
     \<lparr>field_clear = \<lambda>m. m\<lparr>Version_term := None\<rparr>,
      field_set = \<lambda>v m. m\<lparr>Version_term := Some v\<rparr>,
      field_get = \<lambda>m. case Version_term m of Some v \<Rightarrow> v | None \<Rightarrow> 0,
      field_has = \<lambda>m. Version_term m \<noteq> None\<rparr>"

abbreviation Version_clear_term :: "Version \<Rightarrow> Version" where "Version_clear_term \<equiv> field_clear Version_term_field"
abbreviation Version_has_term :: "Version \<Rightarrow> bool" where "Version_has_term \<equiv> field_has Version_term_field"
abbreviation Version_set_term :: "u64 \<Rightarrow> Version \<Rightarrow> Version" where "Version_set_term \<equiv> field_set Version_term_field"
abbreviation Version_get_term :: "Version \<Rightarrow> u64" where "Version_get_term \<equiv> field_get Version_term_field"

definition Version_is_initialized :: "Version \<Rightarrow> bool" where
  "Version_is_initialized m =
     (if Version_txid m = None then False
      else if Version_term m = None then False
      else True)"

definition Version_clear :: "Version \<Rightarrow> Version" where
  "Version_clear m = (Version_clear_term (Version_clear_txid m))\<lparr>Version_unknown_fields := []\<rparr>"

definition Version_eq :: "Version \<Rightarrow> Version \<Rightarrow> bool" where
  "Version_eq a b \<longleftrightarrow>
     Version_txid a = Version_txid b \<and>
     Version_term a = Version_term b \<and>
     Version_unknown_fields a = Version_unknown_fields b"

lemmas Version_accessors [msg_accessors] =
  Version_txid_field_def Version_term_field_def Version_new_def

subsection \<open>Mutation\<close>

record Mutation =
  Mutation_field_type :: "MutationType option"
  Mutation_version :: "Version option"
  Mutation_key :: "bytes option"
  Mutation_value :: "bytes option"
  Mutation_old_value :: "bytes option"
  Mutation_unknown_fields :: UnknownFields
  Mutation_cached_size :: u32

definition Mutation_new :: Mutation where
  "Mutation_new =
     \<lparr>Mutation_field_type = None, Mutation_version = None, Mutation_key = None, Mutation_value = None, Mutation_old_value = None,
      Mutation_unknown_fields = [], Mutation_cached_size = 0\<rparr>"

definition Mutation_field_type_field :: "(Mutation, MutationType) ScalarField" where
  "Mutation_field_type_field =
     \<lparr>field_clear = \<lambda>m. m\<lparr>Mutation_field_type := None\<rparr>,
      field_set = \<lambda>v m. m\<lparr>Mutation_field_type := Some v\<rparr>,
      field_get = \<lambda>m. case Mutation_field_type m of Some v \<Rightarrow> v | None \<Rightarrow> KVSET,
      field_has = \<lambda>m. Mutation_field_type m \<noteq> None\<rparr>"

abbreviation Mutation_clear_field_type :: "Mutation \<Rightarrow> Mutation" where "Mutation_clear_field_type \<equiv> field_clear Mutation_field_type_field"
abbreviation Mutation_has_field_type :: "Mutation \<Rightarrow> bool" where "Mutation_has_field_type \<equiv> field_has Mutation_field_type_field"
abbreviation Mutation_set_field_type :: "MutationType \<Rightarrow> Mutation \<Rightarrow> Mutation" where "Mutation_set_field_type \<equiv> field_set Mutation_field_type_field"
abbreviation Mutation_get_field_type :: "Mutation \<Rightarrow> MutationType" where "Mutation_get_field_type \<equiv> field_get Mutation_field_type_field"

definition Mutation_version_field :: "(Mutation, Version) SingularField" where
  "Mutation_version_field =
     \<lparr>field_clear = \<lambda>m. m\<lparr>Mutation_version := None\<rparr>,
      field_set = \<lambda>v m. m\<lparr>Mutation_version := Some v\<rparr>,
      field_get = \<lambda>m. case Mutation_version m of Some v \<Rightarrow> v | None \<Rightarrow> Version_new,
      field_has = \<lambda>m. Mutation_version m \<noteq> None,
      field_mut = \<lambda>f m. let m' = (if Mutation_version m = None then m\<lparr>Mutation_version := Some Version_new\<rparr> else m)
         in m'\<lparr>Mutation_version := map_option f (Mutation_version m')\<rparr>,
      field_take = \<lambda>m. (case Mutation_version m of Some v \<Rightarrow> v | None \<Rightarrow> Version_new, m\<lparr>Mutation_version := None\<rparr>)\<rparr>"

abbreviation Mutation_clear_version :: "Mutation \<Rightarrow> Mutation" where "Mutation_clear_version \<equiv> field_clear Mutation_version_field"
abbreviation Mutation_has_version :: "Mutation \<Rightarrow> bool" where "Mutation_has_version \<equiv> field_has Mutation_version_field"
abbreviation Mutation_set_version :: "Version \<Rightarrow> Mutation \<Rightarrow> Mutation" where "Mutation_set_version \<equiv> field_set Mutation_version_field"
abbreviation Mutation_mut_version :: "(Version \<Rightarrow> Version) \<Rightarrow> Mutation \<Rightarrow> Mutation" where "Mutation_mut_version \<equiv> field_mut Mutation_version_field"
abbreviation Mutation_take_version :: "Mutation \<Rightarrow> Version \<times> Mutation" where "Mutation_take_version \<equiv> field_take Mutation_version_field"
abbreviation Mutation_get_version :: "Mutation \<Rightarrow> Version" where "Mutation_get_version \<equiv> field_get Mutation_version_field"

definition Mutation_key_field :: "(Mutation, bytes) SingularField" where
  "Mutation_key_field =
     \<lparr>field_clear = \<lambda>m. m\<lparr>Mutation_key := None\<rparr>,
      field_set = \<lambda>v m. m\<lparr>Mutation_key := Some v\<rparr>,
      field_get = \<lambda>m. case Mutation_key m of Some v \<Rightarrow> v | None \<Rightarrow> [],
      field_has = \<lambda>m. Mutation_key m \<noteq> None,
      field_mut = \<lambda>f m. let m' = (if Mutation_key m = None then m\<lparr>Mutation_key := Some []\<rparr> else m)
         in m'\<lparr>Mutation_key := map_option f (Mutation_key m')\<rparr>,
      field_take = \<lambda>m. (case Mutation_key m of Some v \<Rightarrow> v | None \<Rightarrow> [], m\<lparr>Mutation_key := None\<rparr>)\<rparr>"

abbreviation Mutation_clear_key :: "Mutation \<Rightarrow> Mutation" where "Mutation_clear_key \<equiv> field_clear Mutation_key_field"
abbreviation Mutation_has_key :: "Mutation \<Rightarrow> bool" where "Mutation_has_key \<equiv> field_has Mutation_key_field"
abbreviation Mutation_set_key :: "bytes \<Rightarrow> Mutation \<Rightarrow> Mutation" where "Mutation_set_key \<equiv> field_set Mutation_key_field"
abbreviation Mutation_mut_key :: "(bytes \<Rightarrow> bytes) \<Rightarrow> Mutation \<Rightarrow> Mutation" where "Mutation_mut_key \<equiv> field_mut Mutation_key_field"
abbreviation Mutation_take_key :: "Mutation \<Rightarrow> bytes \<times> Mutation" where "Mutation_take_key \<equiv> field_take Mutation_key_field"
abbreviation Mutation_get_key :: "Mutation \<Rightarrow> bytes" where "Mutation_get_key \<equiv> field_get Mutation_key_field"

definition Mutation_value_field :: "(Mutation, bytes) SingularField" where
  "Mutation_value_field =
     \<lparr>field_clear = \<lambda>m. m\<lparr>Mutation_value := None\<rparr>,
      field_set = \<lambda>v m. m\<lparr>Mutation_value := Some v\<rparr>,
      field_get = \<lambda>m. case Mutation_value m of Some v \<Rightarrow> v | None \<Rightarrow> [],
      field_has = \<lambda>m. Mutation_value m \<noteq> None,
      field_mut = \<lambda>f m. let m' = (if Mutation_value m = None then m\<lparr>Mutation_value := Some []\<rparr> else m)
         in m'\<lparr>Mutation_value := map_option f (Mutation_value m')\<rparr>,
      field_take = \<lambda>m. (case Mutation_value m of Some v \<Rightarrow> v | None \<Rightarrow> [], m\<lparr>Mutation_value := None\<rparr>)\<rparr>"

abbreviation Mutation_clear_value :: "Mutation \<Rightarrow> Mutation" where "Mutation_clear_value \<equiv> field_clear Mutation_value_field"
abbreviation Mutation_has_value :: "Mutation \<Rightarrow> bool" where "Mutation_has_value \<equiv> field_has Mutation_value_field"
abbreviation Mutation_set_value :: "bytes \<Rightarrow> Mutation \<Rightarrow> Mutation" where "Mutation_set_value \<equiv> field_set Mutation_value_field"
abbreviation Mutation_mut_value :: "(bytes \<Rightarrow> bytes) \<Rightarrow> Mutation \<Rightarrow> Mutation" where "Mutation_mut_value \<equiv> field_mut Mutation_value_field"
abbreviation Mutation_take_value :: "Mutation \<Rightarrow> bytes \<times> Mutation" where "Mutation_take_value \<equiv> field_take Mutation_value_field"
abbreviation Mutation_get_value :: "Mutation \<Rightarrow> bytes" where "Mutation_get_value \<equiv> field_get Mutation_value_field"

definition Mutation_old_value_field :: "(Mutation, bytes) SingularField" where
  "Mutation_old_value_field =
     \<lparr>field_clear = \<lambda>m. m\<lparr>Mutation_old_value := None\<rparr>,
      field_set = \<lambda>v m. m\<lparr>Mutation_old_value := Some v\<rparr>,
      field_get = \<lambda>m. case Mutation_old_value m of Some v \<Rightarrow> v | None \<Rightarrow> [],
      field_has = \<lambda>m. Mutation_old_value m \<noteq> None,
      field_mut = \<lambda>f m. let m' = (if Mutation_old_value m = None then m\<lparr>Mutation_old_value := Some []\<rparr> else m)
         in m'\<lparr>Mutation_old_value := map_option f (Mutation_old_value m')\<rparr>,
      field_take = \<lambda>m. (case Mutation_old_value m of Some v \<Rightarrow> v | None \<Rightarrow> [], m\<lparr>Mutation_old_value := None\<rparr>)\<rparr>"

abbreviation Mutation_clear_old_value :: "Mutation \<Rightarrow> Mutation" where "Mutation_clear_old_value \<equiv> field_clear Mutation_old_value_field"
abbreviation Mutation_has_old_value :: "Mutation \<Rightarrow> bool" where "Mutation_has_old_value \<equiv> field_has Mutation_old_value_field"
abbreviation Mutation_set_old_value :: "bytes \<Rightarrow> Mutation \<Rightarrow> Mutation" where "Mutation_set_old_value \<equiv> field_set Mutation_old_value_field"
abbreviation Mutation_mut_old_value :: "(bytes \<Rightarrow> bytes) \<Rightarrow> Mutation \<Rightarrow> Mutation" where "Mutation_mut_old_value \<equiv> field_mut Mutation_old_value_field"
abbreviation Mutation_take_old_value :: "Mutation \<Rightarrow> bytes \<times> Mutation" where "Mutation_take_old_value \<equiv> field_take Mutation_old_value_field"
abbreviation Mutation_get_old_value :: "Mutation \<Rightarrow> bytes" where "Mutation_get_old_value \<equiv> field_get Mutation_old_value_field"

definition Mutation_is_initialized :: "Mutation \<Rightarrow> bool" where
  "Mutation_is_initialized m =
     (if Mutation_field_type m = None then False
      else if Mutation_version m = None then False
      else if Mutation_key m = None then False
      else True)"

definition Mutation_clear :: "Mutation \<Rightarrow> Mutation" where
  "Mutation_clear m = (Mutation_clear_old_value (Mutation_clear_value (Mutation_clear_key (Mutation_clear_version (Mutation_clear_field_type m)))))\<lparr>Mutation_unknown_fields := []\<rparr>"

definition Mutation_eq :: "Mutation \<Rightarrow> Mutation \<Rightarrow> bool" where
  "Mutation_eq a b \<longleftrightarrow>
     Mutation_field_type a = Mutation_field_type b \<and>
     rel_option Version_eq (Mutation_version a) (Mutation_version b) \<and>
     Mutation_key a = Mutation_key b \<and>
     Mutation_value a = Mutation_value b \<and>
     Mutation_old_value a = Mutation_old_value b \<and>
     Mutation_unknown_fields a = Mutation_unknown_fields b"

lemmas Mutation_accessors [msg_accessors] =
  Mutation_field_type_field_def Mutation_version_field_def Mutation_key_field_def
  Mutation_value_field_def Mutation_old_value_field_def Mutation_new_def

section \<open>Field contracts and equality\<close>

interpretation Version_txid: singular_field Version_txid_field "0"
  by unfold_locales (auto simp: Version_accessors split: option.splits)

interpretation Version_term: singular_field Version_term_field "0"
  by unfold_locales (auto simp: Version_accessors split: option.splits)

interpretation Mutation_field_type: singular_field Mutation_field_type_field "KVSET"
  by unfold_locales (auto simp: Mutation_accessors split: option.splits)

interpretation Mutation_version: mutable_field Mutation_version_field "Version_new"
  by unfold_locales (auto simp: Mutation_accessors split: option.splits)

interpretation Mutation_key: mutable_field Mutation_key_field "[]"
  by unfold_locales (auto simp: Mutation_accessors split: option.splits)

interpretation Mutation_value: mutable_field Mutation_value_field "[]"
  by unfold_locales (auto simp: Mutation_accessors split: option.splits)

interpretation Mutation_old_value: mutable_field Mutation_old_value_field "[]"
  by unfold_locales (auto simp: Mutation_accessors split: option.splits)

lemma Version_eq_refl [simp]: "Version_eq m m"
  by (simp add: Version_eq_def option.rel_refl list.rel_refl)

lemma Mutation_eq_refl [simp]: "Mutation_eq m m"
  by (simp add: Mutation_eq_def option.rel_refl list.rel_refl)

lemma MutationType_roundtrip [simp]: "MutationType_from_i32 (MutationType_value t) = Some t"
  by (cases t) (simp_all add: MutationType_from_i32_def MutationType_value_def)

end
