(* ===== verification/Msg_Client.thy ===== *)
theory Msg_Client
  imports Msg_Log
begin

text \<open>
  \<^verbatim>\<open>serialization.rs\<close>, the messages between a client and a server: the request and response
  of each operation and the two envelopes \<^verbatim>\<open>CliReq\<close> and \<^verbatim>\<open>CliRes\<close>.
\<close>

section \<open>Messages\<close>

subsection \<open>SetReq\<close>

record SetReq =
  SetReq_key :: "bytes option"
  SetReq_value :: "bytes option"
  SetReq_unknown_fields :: UnknownFields
  SetReq_cached_size :: u32

definition SetReq_new :: SetReq where
  "SetReq_new =
     \<lparr>SetReq_key = None, SetReq_value = None,
      SetReq_unknown_fields = [], SetReq_cached_size = 0\<rparr>"

definition SetReq_key_field :: "(SetReq, bytes) SingularField" where
  "SetReq_key_field =
     \<lparr>field_clear = \<lambda>m. m\<lparr>SetReq_key := None\<rparr>,
      field_set = \<lambda>v m. m\<lparr>SetReq_key := Some v\<rparr>,
      field_get = \<lambda>m. case SetReq_key m of Some v \<Rightarrow> v | None \<Rightarrow> [],
      field_has = \<lambda>m. SetReq_key m \<noteq> None,
      field_mut = \<lambda>f m. let m' = (if SetReq_key m = None then m\<lparr>SetReq_key := Some []\<rparr> else m)
         in m'\<lparr>SetReq_key := map_option f (SetReq_key m')\<rparr>,
      field_take = \<lambda>m. (case SetReq_key m of Some v \<Rightarrow> v | None \<Rightarrow> [], m\<lparr>SetReq_key := None\<rparr>)\<rparr>"

abbreviation SetReq_clear_key :: "SetReq \<Rightarrow> SetReq" where "SetReq_clear_key \<equiv> field_clear SetReq_key_field"
abbreviation SetReq_has_key :: "SetReq \<Rightarrow> bool" where "SetReq_has_key \<equiv> field_has SetReq_key_field"
abbreviation SetReq_set_key :: "bytes \<Rightarrow> SetReq \<Rightarrow> SetReq" where "SetReq_set_key \<equiv> field_set SetReq_key_field"
abbreviation SetReq_mut_key :: "(bytes \<Rightarrow> bytes) \<Rightarrow> SetReq \<Rightarrow> SetReq" where "SetReq_mut_key \<equiv> field_mut SetReq_key_field"
abbreviation SetReq_take_key :: "SetReq \<Rightarrow> bytes \<times> SetReq" where "SetReq_take_key \<equiv> field_take SetReq_key_field"
abbreviation SetReq_get_key :: "SetReq \<Rightarrow> bytes" where "SetReq_get_key \<equiv> field_get SetReq_key_field"

definition SetReq_value_field :: "(SetReq, bytes) SingularField" where
  "SetReq_value_field =
     \<lparr>field_clear = \<lambda>m. m\<lparr>SetReq_value := None\<rparr>,
      field_set = \<lambda>v m. m\<lparr>SetReq_value := Some v\<rparr>,
      field_get = \<lambda>m. case SetReq_value m of Some v \<Rightarrow> v | None \<Rightarrow> [],
      field_has = \<lambda>m. SetReq_value m \<noteq> None,
      field_mut = \<lambda>f m. let m' = (if SetReq_value m = None then m\<lparr>SetReq_value := Some []\<rparr> else m)
         in m'\<lparr>SetReq_value := map_option f (SetReq_value m')\<rparr>,
      field_take = \<lambda>m. (case SetReq_value m of Some v \<Rightarrow> v | None \<Rightarrow> [], m\<lparr>SetReq_value := None\<rparr>)\<rparr>"

abbreviation SetReq_clear_value :: "SetReq \<Rightarrow> SetReq" where "SetReq_clear_value \<equiv> field_clear SetReq_value_field"
abbreviation SetReq_has_value :: "SetReq \<Rightarrow> bool" where "SetReq_has_value \<equiv> field_has SetReq_value_field"
abbreviation SetReq_set_value :: "bytes \<Rightarrow> SetReq \<Rightarrow> SetReq" where "SetReq_set_value \<equiv> field_set SetReq_value_field"
abbreviation SetReq_mut_value :: "(bytes \<Rightarrow> bytes) \<Rightarrow> SetReq \<Rightarrow> SetReq" where "SetReq_mut_value \<equiv> field_mut SetReq_value_field"
abbreviation SetReq_take_value :: "SetReq \<Rightarrow> bytes \<times> SetReq" where "SetReq_take_value \<equiv> field_take SetReq_value_field"
abbreviation SetReq_get_value :: "SetReq \<Rightarrow> bytes" where "SetReq_get_value \<equiv> field_get SetReq_value_field"

definition SetReq_is_initialized :: "SetReq \<Rightarrow> bool" where
  "SetReq_is_initialized m =
     (if SetReq_key m = None then False
      else if SetReq_value m = None then False
      else True)"

definition SetReq_clear :: "SetReq \<Rightarrow> SetReq" where
  "SetReq_clear m = (SetReq_clear_value (SetReq_clear_key m))\<lparr>SetReq_unknown_fields := []\<rparr>"

definition SetReq_eq :: "SetReq \<Rightarrow> SetReq \<Rightarrow> bool" where
  "SetReq_eq a b \<longleftrightarrow>
     SetReq_key a = SetReq_key b \<and>
     SetReq_value a = SetReq_value b \<and>
     SetReq_unknown_fields a = SetReq_unknown_fields b"

lemmas SetReq_accessors [msg_accessors] =
  SetReq_key_field_def SetReq_value_field_def SetReq_new_def

subsection \<open>SetRes\<close>

record SetRes =
  SetRes_success :: "bool option"
  SetRes_txid :: "u64 option"
  SetRes_err :: "string option"
  SetRes_unknown_fields :: UnknownFields
  SetRes_cached_size :: u32

definition SetRes_new :: SetRes where
  "SetRes_new =
     \<lparr>SetRes_success = None, SetRes_txid = None, SetRes_err = None,
      SetRes_unknown_fields = [], SetRes_cached_size = 0\<rparr>"

definition SetRes_success_field :: "(SetRes, bool) ScalarField" where
  "SetRes_success_field =
     \<lparr>field_clear = \<lambda>m. m\<lparr>SetRes_success := None\<rparr>,
      field_set = \<lambda>v m. m\<lparr>SetRes_success := Some v\<rparr>,
      field_get = \<lambda>m. case SetRes_success m of Some v \<Rightarrow> v | None \<Rightarrow> False,
      field_has = \<lambda>m. SetRes_success m \<noteq> None\<rparr>"

abbreviation SetRes_clear_success :: "SetRes \<Rightarrow> SetRes" where "SetRes_clear_success \<equiv> field_clear SetRes_success_field"
abbreviation SetRes_has_success :: "SetRes \<Rightarrow> bool" where "SetRes_has_success \<equiv> field_has SetRes_success_field"
abbreviation SetRes_set_success :: "bool \<Rightarrow> SetRes \<Rightarrow> SetRes" where "SetRes_set_success \<equiv> field_set SetRes_success_field"
abbreviation SetRes_get_success :: "SetRes \<Rightarrow> bool" where "SetRes_get_success \<equiv> field_get SetRes_success_field"

definition SetRes_txid_field :: "(SetRes, u64) ScalarField" where
  "SetRes_txid_field =
     \<lparr>field_clear = \<lambda>m. m\<lparr>SetRes_txid := None\<rparr>,
      field_set = \<lambda>v m. m\<lparr>SetRes_txid := Some v\<rparr>,
      field_get = \<lambda>m. case SetRes_txid m of Some v \<Rightarrow> v | None \<Rightarrow> 0,
      field_has = \<lambda>m. SetRes_txid m \<noteq> None\<rparr>"

abbreviation SetRes_clear_txid :: "SetRes \<Rightarrow> SetRes" where "SetRes_clear_txid \<equiv> field_clear SetRes_txid_field"
abbreviation SetRes_has_txid :: "SetRes \<Rightarrow> bool" where "SetRes_has_txid \<equiv> field_has SetRes_txid_field"
abbreviation SetRes_set_txid :: "u64 \<Rightarrow> SetRes \<Rightarrow> SetRes" where "SetRes_set_txid \<equiv> field_set SetRes_txid_field"
abbreviation SetRes_get_txid :: "SetRes \<Rightarrow> u64" where "SetRes_get_txid \<equiv> field_get SetRes_txid_field"

definition SetRes_err_field :: "(SetRes, string) SingularField" where
  "SetRes_err_field =
     \<lparr>field_clear = \<lambda>m. m\<lparr>SetRes_err := None\<rparr>,
      field_set = \<lambda>v m. m\<lparr>SetRes_err := Some v\<rparr>,
      field_get = \<lambda>m. case SetRes_err m of Some v \<Rightarrow> v | None \<Rightarrow> '''',
      field_has = \<lambda>m. SetRes_err m \<noteq> None,
      field_mut = \<lambda>f m. let m' = (if SetRes_err m = None then m\<lparr>SetRes_err := Some ''''\<rparr> else m)
         in m'\<lparr>SetRes_err := map_option f (SetRes_err m')\<rparr>,
      field_take = \<lambda>m. (case SetRes_err m of Some v \<Rightarrow> v | None \<Rightarrow> '''', m\<lparr>SetRes_err := None\<rparr>)\<rparr>"

abbreviation SetRes_clear_err :: "SetRes \<Rightarrow> SetRes" where "SetRes_clear_err \<equiv> field_clear SetRes_err_field"
abbreviation SetRes_has_err :: "SetRes \<Rightarrow> bool" where "SetRes_has_err \<equiv> field_has SetRes_err_field"
abbreviation SetRes_set_err :: "string \<Rightarrow> SetRes \<Rightarrow> SetRes" where "SetRes_set_err \<equiv> field_set SetRes_err_field"
abbreviation SetRes_mut_err :: "(string \<Rightarrow> string) \<Rightarrow> SetRes \<Rightarrow> SetRes" where "SetRes_mut_err \<equiv> field_mut SetRes_err_field"
abbreviation SetRes_take_err :: "SetRes \<Rightarrow> string \<times> SetRes" where "SetRes_take_err \<equiv> field_take SetRes_err_field"
abbreviation SetRes_get_err :: "SetRes \<Rightarrow> string" where "SetRes_get_err \<equiv> field_get SetRes_err_field"

definition SetRes_is_initialized :: "SetRes \<Rightarrow> bool" where
  "SetRes_is_initialized m =
     (if SetRes_success m = None then False
      else if SetRes_txid m = None then False
      else True)"

definition SetRes_clear :: "SetRes \<Rightarrow> SetRes" where
  "SetRes_clear m = (SetRes_clear_err (SetRes_clear_txid (SetRes_clear_success m)))\<lparr>SetRes_unknown_fields := []\<rparr>"

definition SetRes_eq :: "SetRes \<Rightarrow> SetRes \<Rightarrow> bool" where
  "SetRes_eq a b \<longleftrightarrow>
     SetRes_success a = SetRes_success b \<and>
     SetRes_txid a = SetRes_txid b \<and>
     SetRes_err a = SetRes_err b \<and>
     SetRes_unknown_fields a = SetRes_unknown_fields b"

lemmas SetRes_accessors [msg_accessors] =
  SetRes_success_field_def SetRes_txid_field_def SetRes_err_field_def SetRes_new_def

subsection \<open>GetReq\<close>

record GetReq =
  GetReq_key :: "bytes option"
  GetReq_unknown_fields :: UnknownFields
  GetReq_cached_size :: u32

definition GetReq_new :: GetReq where
  "GetReq_new =
     \<lparr>GetReq_key = None,
      GetReq_unknown_fields = [], GetReq_cached_size = 0\<rparr>"

definition GetReq_key_field :: "(GetReq, bytes) SingularField" where
  "GetReq_key_field =
     \<lparr>field_clear = \<lambda>m. m\<lparr>GetReq_key := None\<rparr>,
      field_set = \<lambda>v m. m\<lparr>GetReq_key := Some v\<rparr>,
      field_get = \<lambda>m. case GetReq_key m of Some v \<Rightarrow> v | None \<Rightarrow> [],
      field_has = \<lambda>m. GetReq_key m \<noteq> None,
      field_mut = \<lambda>f m. let m' = (if GetReq_key m = None then m\<lparr>GetReq_key := Some []\<rparr> else m)
         in m'\<lparr>GetReq_key := map_option f (GetReq_key m')\<rparr>,
      field_take = \<lambda>m. (case GetReq_key m of Some v \<Rightarrow> v | None \<Rightarrow> [], m\<lparr>GetReq_key := None\<rparr>)\<rparr>"

abbreviation GetReq_clear_key :: "GetReq \<Rightarrow> GetReq" where "GetReq_clear_key \<equiv> field_clear GetReq_key_field"
abbreviation GetReq_has_key :: "GetReq \<Rightarrow> bool" where "GetReq_has_key \<equiv> field_has GetReq_key_field"
abbreviation GetReq_set_key :: "bytes \<Rightarrow> GetReq \<Rightarrow> GetReq" where "GetReq_set_key \<equiv> field_set GetReq_key_field"
abbreviation GetReq_mut_key :: "(bytes \<Rightarrow> bytes) \<Rightarrow> GetReq \<Rightarrow> GetReq" where "GetReq_mut_key \<equiv> field_mut GetReq_key_field"
abbreviation GetReq_take_key :: "GetReq \<Rightarrow> bytes \<times> GetReq" where "GetReq_take_key \<equiv> field_take GetReq_key_field"
abbreviation GetReq_get_key :: "GetReq \<Rightarrow> bytes" where "GetReq_get_key \<equiv> field_get GetReq_key_field"

definition GetReq_is_initialized :: "GetReq \<Rightarrow> bool" where
  "GetReq_is_initialized m =
     (if GetReq_key m = None then False
      else True)"

definition GetReq_clear :: "GetReq \<Rightarrow> GetReq" where
  "GetReq_clear m = (GetReq_clear_key m)\<lparr>GetReq_unknown_fields := []\<rparr>"

definition GetReq_eq :: "GetReq \<Rightarrow> GetReq \<Rightarrow> bool" where
  "GetReq_eq a b \<longleftrightarrow>
     GetReq_key a = GetReq_key b \<and>
     GetReq_unknown_fields a = GetReq_unknown_fields b"

lemmas GetReq_accessors [msg_accessors] =
  GetReq_key_field_def GetReq_new_def

subsection \<open>GetRes\<close>

record GetRes =
  GetRes_success :: "bool option"
  GetRes_txid :: "u64 option"
  GetRes_value :: "bytes option"
  GetRes_err :: "string option"
  GetRes_unknown_fields :: UnknownFields
  GetRes_cached_size :: u32

definition GetRes_new :: GetRes where
  "GetRes_new =
     \<lparr>GetRes_success = None, GetRes_txid = None, GetRes_value = None, GetRes_err = None,
      GetRes_unknown_fields = [], GetRes_cached_size = 0\<rparr>"

definition GetRes_success_field :: "(GetRes, bool) ScalarField" where
  "GetRes_success_field =
     \<lparr>field_clear = \<lambda>m. m\<lparr>GetRes_success := None\<rparr>,
      field_set = \<lambda>v m. m\<lparr>GetRes_success := Some v\<rparr>,
      field_get = \<lambda>m. case GetRes_success m of Some v \<Rightarrow> v | None \<Rightarrow> False,
      field_has = \<lambda>m. GetRes_success m \<noteq> None\<rparr>"

abbreviation GetRes_clear_success :: "GetRes \<Rightarrow> GetRes" where "GetRes_clear_success \<equiv> field_clear GetRes_success_field"
abbreviation GetRes_has_success :: "GetRes \<Rightarrow> bool" where "GetRes_has_success \<equiv> field_has GetRes_success_field"
abbreviation GetRes_set_success :: "bool \<Rightarrow> GetRes \<Rightarrow> GetRes" where "GetRes_set_success \<equiv> field_set GetRes_success_field"
abbreviation GetRes_get_success :: "GetRes \<Rightarrow> bool" where "GetRes_get_success \<equiv> field_get GetRes_success_field"

definition GetRes_txid_field :: "(GetRes, u64) ScalarField" where
  "GetRes_txid_field =
     \<lparr>field_clear = \<lambda>m. m\<lparr>GetRes_txid := None\<rparr>,
      field_set = \<lambda>v m. m\<lparr>GetRes_txid := Some v\<rparr>,
      field_get = \<lambda>m. case GetRes_txid m of Some v \<Rightarrow> v | None \<Rightarrow> 0,
      field_has = \<lambda>m. GetRes_txid m \<noteq> None\<rparr>"

abbreviation GetRes_clear_txid :: "GetRes \<Rightarrow> GetRes" where "GetRes_clear_txid \<equiv> field_clear GetRes_txid_field"
abbreviation GetRes_has_txid :: "GetRes \<Rightarrow> bool" where "GetRes_has_txid \<equiv> field_has GetRes_txid_field"
abbreviation GetRes_set_txid :: "u64 \<Rightarrow> GetRes \<Rightarrow> GetRes" where "GetRes_set_txid \<equiv> field_set GetRes_txid_field"
abbreviation GetRes_get_txid :: "GetRes \<Rightarrow> u64" where "GetRes_get_txid \<equiv> field_get GetRes_txid_field"

definition GetRes_value_field :: "(GetRes, bytes) SingularField" where
  "GetRes_value_field =
     \<lparr>field_clear = \<lambda>m. m\<lparr>GetRes_value := None\<rparr>,
      field_set = \<lambda>v m. m\<lparr>GetRes_value := Some v\<rparr>,
      field_get = \<lambda>m. case GetRes_value m of Some v \<Rightarrow> v | None \<Rightarrow> [],
      field_has = \<lambda>m. GetRes_value m \<noteq> None,
      field_mut = \<lambda>f m. let m' = (if GetRes_value m = None then m\<lparr>GetRes_value := Some []\<rparr> else m)
         in m'\<lparr>GetRes_value := map_option f (GetRes_value m')\<rparr>,
      field_take = \<lambda>m. (case GetRes_value m of Some v \<Rightarrow> v | None \<Rightarrow> [], m\<lparr>GetRes_value := None\<rparr>)\<rparr>"

abbreviation GetRes_clear_value :: "GetRes \<Rightarrow> GetRes" where "GetRes_clear_value \<equiv> field_clear GetRes_value_field"
abbreviation GetRes_has_value :: "GetRes \<Rightarrow> bool" where "GetRes_has_value \<equiv> field_has GetRes_value_field"
abbreviation GetRes_set_value :: "bytes \<Rightarrow> GetRes \<Rightarrow> GetRes" where "GetRes_set_value \<equiv> field_set GetRes_value_field"
abbreviation GetRes_mut_value :: "(bytes \<Rightarrow> bytes) \<Rightarrow> GetRes \<Rightarrow> GetRes" where "GetRes_mut_value \<equiv> field_mut GetRes_value_field"
abbreviation GetRes_take_value :: "GetRes \<Rightarrow> bytes \<times> GetRes" where "GetRes_take_value \<equiv> field_take GetRes_value_field"
abbreviation GetRes_get_value :: "GetRes \<Rightarrow> bytes" where "GetRes_get_value \<equiv> field_get GetRes_value_field"

definition GetRes_err_field :: "(GetRes, string) SingularField" where
  "GetRes_err_field =
     \<lparr>field_clear = \<lambda>m. m\<lparr>GetRes_err := None\<rparr>,
      field_set = \<lambda>v m. m\<lparr>GetRes_err := Some v\<rparr>,
      field_get = \<lambda>m. case GetRes_err m of Some v \<Rightarrow> v | None \<Rightarrow> '''',
      field_has = \<lambda>m. GetRes_err m \<noteq> None,
      field_mut = \<lambda>f m. let m' = (if GetRes_err m = None then m\<lparr>GetRes_err := Some ''''\<rparr> else m)
         in m'\<lparr>GetRes_err := map_option f (GetRes_err m')\<rparr>,
      field_take = \<lambda>m. (case GetRes_err m of Some v \<Rightarrow> v | None \<Rightarrow> '''', m\<lparr>GetRes_err := None\<rparr>)\<rparr>"

abbreviation GetRes_clear_err :: "GetRes \<Rightarrow> GetRes" where "GetRes_clear_err \<equiv> field_clear GetRes_err_field"
abbreviation GetRes_has_err :: "GetRes \<Rightarrow> bool" where "GetRes_has_err \<equiv> field_has GetRes_err_field"
abbreviation GetRes_set_err :: "string \<Rightarrow> GetRes \<Rightarrow> GetRes" where "GetRes_set_err \<equiv> field_set GetRes_err_field"
abbreviation GetRes_mut_err :: "(string \<Rightarrow> string) \<Rightarrow> GetRes \<Rightarrow> GetRes" where "GetRes_mut_err \<equiv> field_mut GetRes_err_field"
abbreviation GetRes_take_err :: "GetRes \<Rightarrow> string \<times> GetRes" where "GetRes_take_err \<equiv> field_take GetRes_err_field"
abbreviation GetRes_get_err :: "GetRes \<Rightarrow> string" where "GetRes_get_err \<equiv> field_get GetRes_err_field"

definition GetRes_is_initialized :: "GetRes \<Rightarrow> bool" where
  "GetRes_is_initialized m =
     (if GetRes_success m = None then False
      else if GetRes_txid m = None then False
      else True)"

definition GetRes_clear :: "GetRes \<Rightarrow> GetRes" where
  "GetRes_clear m = (GetRes_clear_err (GetRes_clear_value (GetRes_clear_txid (GetRes_clear_success m))))\<lparr>GetRes_unknown_fields := []\<rparr>"

definition GetRes_eq :: "GetRes \<Rightarrow> GetRes \<Rightarrow> bool" where
  "GetRes_eq a b \<longleftrightarrow>
     GetRes_success a = GetRes_success b \<and>
     GetRes_txid a = GetRes_txid b \<and>
     GetRes_value a = GetRes_value b \<and>
     GetRes_err a = GetRes_err b \<and>
     GetRes_unknown_fields a = GetRes_unknown_fields b"

lemmas GetRes_accessors [msg_accessors] =
  GetRes_success_field_def GetRes_txid_field_def GetRes_value_field_def GetRes_err_field_def
  GetRes_new_def

subsection \<open>CASReq\<close>

record CASReq =
  CASReq_key :: "bytes option"
  CASReq_new_value :: "bytes option"
  CASReq_old_value :: "bytes option"
  CASReq_unknown_fields :: UnknownFields
  CASReq_cached_size :: u32

definition CASReq_new :: CASReq where
  "CASReq_new =
     \<lparr>CASReq_key = None, CASReq_new_value = None, CASReq_old_value = None,
      CASReq_unknown_fields = [], CASReq_cached_size = 0\<rparr>"

definition CASReq_key_field :: "(CASReq, bytes) SingularField" where
  "CASReq_key_field =
     \<lparr>field_clear = \<lambda>m. m\<lparr>CASReq_key := None\<rparr>,
      field_set = \<lambda>v m. m\<lparr>CASReq_key := Some v\<rparr>,
      field_get = \<lambda>m. case CASReq_key m of Some v \<Rightarrow> v | None \<Rightarrow> [],
      field_has = \<lambda>m. CASReq_key m \<noteq> None,
      field_mut = \<lambda>f m. let m' = (if CASReq_key m = None then m\<lparr>CASReq_key := Some []\<rparr> else m)
         in m'\<lparr>CASReq_key := map_option f (CASReq_key m')\<rparr>,
      field_take = \<lambda>m. (case CASReq_key m of Some v \<Rightarrow> v | None \<Rightarrow> [], m\<lparr>CASReq_key := None\<rparr>)\<rparr>"

abbreviation CASReq_clear_key :: "CASReq \<Rightarrow> CASReq" where "CASReq_clear_key \<equiv> field_clear CASReq_key_field"
abbreviation CASReq_has_key :: "CASReq \<Rightarrow> bool" where "CASReq_has_key \<equiv> field_has CASReq_key_field"
abbreviation CASReq_set_key :: "bytes \<Rightarrow> CASReq \<Rightarrow> CASReq" where "CASReq_set_key \<equiv> field_set CASReq_key_field"
abbreviation CASReq_mut_key :: "(bytes \<Rightarrow> bytes) \<Rightarrow> CASReq \<Rightarrow> CASReq" where "CASReq_mut_key \<equiv> field_mut CASReq_key_field"
abbreviation CASReq_take_key :: "CASReq \<Rightarrow> bytes \<times> CASReq" where "CASReq_take_key \<equiv> field_take CASReq_key_field"
abbreviation CASReq_get_key :: "CASReq \<Rightarrow> bytes" where "CASReq_get_key \<equiv> field_get CASReq_key_field"

definition CASReq_new_value_field :: "(CASReq, bytes) SingularField" where
  "CASReq_new_value_field =
     \<lparr>field_clear = \<lambda>m. m\<lparr>CASReq_new_value := None\<rparr>,
      field_set = \<lambda>v m. m\<lparr>CASReq_new_value := Some v\<rparr>,
      field_get = \<lambda>m. case CASReq_new_value m of Some v \<Rightarrow> v | None \<Rightarrow> [],
      field_has = \<lambda>m. CASReq_new_value m \<noteq> None,
      field_mut = \<lambda>f m. let m' = (if CASReq_new_value m = None then m\<lparr>CASReq_new_value := Some []\<rparr> else m)
         in m'\<lparr>CASReq_new_value := map_option f (CASReq_new_value m')\<rparr>,
      field_take = \<lambda>m. (case CASReq_new_value m of Some v \<Rightarrow> v | None \<Rightarrow> [], m\<lparr>CASReq_new_value := None\<rparr>)\<rparr>"

abbreviation CASReq_clear_new_value :: "CASReq \<Rightarrow> CASReq" where "CASReq_clear_new_value \<equiv> field_clear CASReq_new_value_field"
abbreviation CASReq_has_new_value :: "CASReq \<Rightarrow> bool" where "CASReq_has_new_value \<equiv> field_has CASReq_new_value_field"
abbreviation CASReq_set_new_value :: "bytes \<Rightarrow> CASReq \<Rightarrow> CASReq" where "CASReq_set_new_value \<equiv> field_set CASReq_new_value_field"
abbreviation CASReq_mut_new_value :: "(bytes \<Rightarrow> bytes) \<Rightarrow> CASReq \<Rightarrow> CASReq" where "CASReq_mut_new_value \<equiv> field_mut CASReq_new_value_field"
abbreviation CASReq_take_new_value :: "CASReq \<Rightarrow> bytes \<times> CASReq" where "CASReq_take_new_value \<equiv> field_take CASReq_new_value_field"
abbreviation CASReq_get_new_value :: "CASReq \<Rightarrow> bytes" where "CASReq_get_new_value \<equiv> field_get CASReq_new_value_field"

definition CASReq_old_value_field :: "(CASReq, bytes) SingularField" where
  "CASReq_old_value_field =
     \<lparr>field_clear = \<lambda>m. m\<lparr>CASReq_old_value := None\<rparr>,
      field_set = \<lambda>v m. m\<lparr>CASReq_old_value := Some v\<rparr>,
      field_get = \<lambda>m. case CASReq_old_value m of Some v \<Rightarrow> v | None \<Rightarrow> [],
      field_has = \<lambda>m. CASReq_old_value m \<noteq> None,
      field_mut = \<lambda>f m. let m' = (if CASReq_old_value m = None then m\<lparr>CASReq_old_value := Some []\<rparr> else m)
         in m'\<lparr>CASReq_old_value := map_option f (CASReq_old_value m')\<rparr>,
      field_take = \<lambda>m. (case CASReq_old_value m of Some v \<Rightarrow> v | None \<Rightarrow> [], m\<lparr>CASReq_old_value := None\<rparr>)\<rparr>"

abbreviation CASReq_clear_old_value :: "CASReq \<Rightarrow> CASReq" where "CASReq_clear_old_value \<equiv> field_clear CASReq_old_value_field"
abbreviation CASReq_has_old_value :: "CASReq \<Rightarrow> bool" where "CASReq_has_old_value \<equiv> field_has CASReq_old_value_field"
abbreviation CASReq_set_old_value :: "bytes \<Rightarrow> CASReq \<Rightarrow> CASReq" where "CASReq_set_old_value \<equiv> field_set CASReq_old_value_field"
abbreviation CASReq_mut_old_value :: "(bytes \<Rightarrow> bytes) \<Rightarrow> CASReq \<Rightarrow> CASReq" where "CASReq_mut_old_value \<equiv> field_mut CASReq_old_value_field"
abbreviation CASReq_take_old_value :: "CASReq \<Rightarrow> bytes \<times> CASReq" where "CASReq_take_old_value \<equiv> field_take CASReq_old_value_field"
abbreviation CASReq_get_old_value :: "CASReq \<Rightarrow> bytes" where "CASReq_get_old_value \<equiv> field_get CASReq_old_value_field"

definition CASReq_is_initialized :: "CASReq \<Rightarrow> bool" where
  "CASReq_is_initialized m =
     (if CASReq_key m = None then False
      else True)"

definition CASReq_clear :: "CASReq \<Rightarrow> CASReq" where
  "CASReq_clear m = (CASReq_clear_old_value (CASReq_clear_new_value (CASReq_clear_key m)))\<lparr>CASReq_unknown_fields := []\<rparr>"

definition CASReq_eq :: "CASReq \<Rightarrow> CASReq \<Rightarrow> bool" where
  "CASReq_eq a b \<longleftrightarrow>
     CASReq_key a = CASReq_key b \<and>
     CASReq_new_value a = CASReq_new_value b \<and>
     CASReq_old_value a = CASReq_old_value b \<and>
     CASReq_unknown_fields a = CASReq_unknown_fields b"

lemmas CASReq_accessors [msg_accessors] =
  CASReq_key_field_def CASReq_new_value_field_def CASReq_old_value_field_def CASReq_new_def

subsection \<open>CASRes\<close>

record CASRes =
  CASRes_success :: "bool option"
  CASRes_txid :: "u64 option"
  CASRes_value :: "bytes option"
  CASRes_err :: "string option"
  CASRes_unknown_fields :: UnknownFields
  CASRes_cached_size :: u32

definition CASRes_new :: CASRes where
  "CASRes_new =
     \<lparr>CASRes_success = None, CASRes_txid = None, CASRes_value = None, CASRes_err = None,
      CASRes_unknown_fields = [], CASRes_cached_size = 0\<rparr>"

definition CASRes_success_field :: "(CASRes, bool) ScalarField" where
  "CASRes_success_field =
     \<lparr>field_clear = \<lambda>m. m\<lparr>CASRes_success := None\<rparr>,
      field_set = \<lambda>v m. m\<lparr>CASRes_success := Some v\<rparr>,
      field_get = \<lambda>m. case CASRes_success m of Some v \<Rightarrow> v | None \<Rightarrow> False,
      field_has = \<lambda>m. CASRes_success m \<noteq> None\<rparr>"

abbreviation CASRes_clear_success :: "CASRes \<Rightarrow> CASRes" where "CASRes_clear_success \<equiv> field_clear CASRes_success_field"
abbreviation CASRes_has_success :: "CASRes \<Rightarrow> bool" where "CASRes_has_success \<equiv> field_has CASRes_success_field"
abbreviation CASRes_set_success :: "bool \<Rightarrow> CASRes \<Rightarrow> CASRes" where "CASRes_set_success \<equiv> field_set CASRes_success_field"
abbreviation CASRes_get_success :: "CASRes \<Rightarrow> bool" where "CASRes_get_success \<equiv> field_get CASRes_success_field"

definition CASRes_txid_field :: "(CASRes, u64) ScalarField" where
  "CASRes_txid_field =
     \<lparr>field_clear = \<lambda>m. m\<lparr>CASRes_txid := None\<rparr>,
      field_set = \<lambda>v m. m\<lparr>CASRes_txid := Some v\<rparr>,
      field_get = \<lambda>m. case CASRes_txid m of Some v \<Rightarrow> v | None \<Rightarrow> 0,
      field_has = \<lambda>m. CASRes_txid m \<noteq> None\<rparr>"

abbreviation CASRes_clear_txid :: "CASRes \<Rightarrow> CASRes" where "CASRes_clear_txid \<equiv> field_clear CASRes_txid_field"
abbreviation CASRes_has_txid :: "CASRes \<Rightarrow> bool" where "CASRes_has_txid \<equiv> field_has CASRes_txid_field"
abbreviation CASRes_set_txid :: "u64 \<Rightarrow> CASRes \<Rightarrow> CASRes" where "CASRes_set_txid \<equiv> field_set CASRes_txid_field"
abbreviation CASRes_get_txid :: "CASRes \<Rightarrow> u64" where "CASRes_get_txid \<equiv> field_get CASRes_txid_field"

definition CASRes_value_field :: "(CASRes, bytes) SingularField" where
  "CASRes_value_field =
     \<lparr>field_clear = \<lambda>m. m\<lparr>CASRes_value := None\<rparr>,
      field_set = \<lambda>v m. m\<lparr>CASRes_value := Some v\<rparr>,
      field_get = \<lambda>m. case CASRes_value m of Some v \<Rightarrow> v | None \<Rightarrow> [],
      field_has = \<lambda>m. CASRes_value m \<noteq> None,
      field_mut = \<lambda>f m. let m' = (if CASRes_value m = None then m\<lparr>CASRes_value := Some []\<rparr> else m)
         in m'\<lparr>CASRes_value := map_option f (CASRes_value m')\<rparr>,
      field_take = \<lambda>m. (case CASRes_value m of Some v \<Rightarrow> v | None \<Rightarrow> [], m\<lparr>CASRes_value := None\<rparr>)\<rparr>"

abbreviation CASRes_clear_value :: "CASRes \<Rightarrow> CASRes" where "CASRes_clear_value \<equiv> field_clear CASRes_value_field"
abbreviation CASRes_has_value :: "CASRes \<Rightarrow> bool" where "CASRes_has_value \<equiv> field_has CASRes_value_field"
abbreviation CASRes_set_value :: "bytes \<Rightarrow> CASRes \<Rightarrow> CASRes" where "CASRes_set_value \<equiv> field_set CASRes_value_field"
abbreviation CASRes_mut_value :: "(bytes \<Rightarrow> bytes) \<Rightarrow> CASRes \<Rightarrow> CASRes" where "CASRes_mut_value \<equiv> field_mut CASRes_value_field"
abbreviation CASRes_take_value :: "CASRes \<Rightarrow> bytes \<times> CASRes" where "CASRes_take_value \<equiv> field_take CASRes_value_field"
abbreviation CASRes_get_value :: "CASRes \<Rightarrow> bytes" where "CASRes_get_value \<equiv> field_get CASRes_value_field"

definition CASRes_err_field :: "(CASRes, string) SingularField" where
  "CASRes_err_field =
     \<lparr>field_clear = \<lambda>m. m\<lparr>CASRes_err := None\<rparr>,
      field_set = \<lambda>v m. m\<lparr>CASRes_err := Some v\<rparr>,
      field_get = \<lambda>m. case CASRes_err m of Some v \<Rightarrow> v | None \<Rightarrow> '''',
      field_has = \<lambda>m. CASRes_err m \<noteq> None,
      field_mut = \<lambda>f m. let m' = (if CASRes_err m = None then m\<lparr>CASRes_err := Some ''''\<rparr> else m)
         in m'\<lparr>CASRes_err := map_option f (CASRes_err m')\<rparr>,
      field_take = \<lambda>m. (case CASRes_err m of Some v \<Rightarrow> v | None \<Rightarrow> '''', m\<lparr>CASRes_err := None\<rparr>)\<rparr>"

abbreviation CASRes_clear_err :: "CASRes \<Rightarrow> CASRes" where "CASRes_clear_err \<equiv> field_clear CASRes_err_field"
abbreviation CASRes_has_err :: "CASRes \<Rightarrow> bool" where "CASRes_has_err \<equiv> field_has CASRes_err_field"
abbreviation CASRes_set_err :: "string \<Rightarrow> CASRes \<Rightarrow> CASRes" where "CASRes_set_err \<equiv> field_set CASRes_err_field"
abbreviation CASRes_mut_err :: "(string \<Rightarrow> string) \<Rightarrow> CASRes \<Rightarrow> CASRes" where "CASRes_mut_err \<equiv> field_mut CASRes_err_field"
abbreviation CASRes_take_err :: "CASRes \<Rightarrow> string \<times> CASRes" where "CASRes_take_err \<equiv> field_take CASRes_err_field"
abbreviation CASRes_get_err :: "CASRes \<Rightarrow> string" where "CASRes_get_err \<equiv> field_get CASRes_err_field"

definition CASRes_is_initialized :: "CASRes \<Rightarrow> bool" where
  "CASRes_is_initialized m =
     (if CASRes_success m = None then False
      else if CASRes_txid m = None then False
      else True)"

definition CASRes_clear :: "CASRes \<Rightarrow> CASRes" where
  "CASRes_clear m = (CASRes_clear_err (CASRes_clear_value (CASRes_clear_txid (CASRes_clear_success m))))\<lparr>CASRes_unknown_fields := []\<rparr>"

definition CASRes_eq :: "CASRes \<Rightarrow> CASRes \<Rightarrow> bool" where
  "CASRes_eq a b \<longleftrightarrow>
     CASRes_success a = CASRes_success b \<and>
     CASRes_txid a = CASRes_txid b \<and>
     CASRes_value a = CASRes_value b \<and>
     CASRes_err a = CASRes_err b \<and>
     CASRes_unknown_fields a = CASRes_unknown_fields b"

lemmas CASRes_accessors [msg_accessors] =
  CASRes_success_field_def CASRes_txid_field_def CASRes_value_field_def CASRes_err_field_def
  CASRes_new_def

subsection \<open>DelReq\<close>

record DelReq =
  DelReq_key :: "bytes option"
  DelReq_unknown_fields :: UnknownFields
  DelReq_cached_size :: u32

definition DelReq_new :: DelReq where
  "DelReq_new =
     \<lparr>DelReq_key = None,
      DelReq_unknown_fields = [], DelReq_cached_size = 0\<rparr>"

definition DelReq_key_field :: "(DelReq, bytes) SingularField" where
  "DelReq_key_field =
     \<lparr>field_clear = \<lambda>m. m\<lparr>DelReq_key := None\<rparr>,
      field_set = \<lambda>v m. m\<lparr>DelReq_key := Some v\<rparr>,
      field_get = \<lambda>m. case DelReq_key m of Some v \<Rightarrow> v | None \<Rightarrow> [],
      field_has = \<lambda>m. DelReq_key m \<noteq> None,
      field_mut = \<lambda>f m. let m' = (if DelReq_key m = None then m\<lparr>DelReq_key := Some []\<rparr> else m)
         in m'\<lparr>DelReq_key := map_option f (DelReq_key m')\<rparr>,
      field_take = \<lambda>m. (case DelReq_key m of Some v \<Rightarrow> v | None \<Rightarrow> [], m\<lparr>DelReq_key := None\<rparr>)\<rparr>"

abbreviation DelReq_clear_key :: "DelReq \<Rightarrow> DelReq" where "DelReq_clear_key \<equiv> field_clear DelReq_key_field"
abbreviation DelReq_has_key :: "DelReq \<Rightarrow> bool" where "DelReq_has_key \<equiv> field_has DelReq_key_field"
abbreviation DelReq_set_key :: "bytes \<Rightarrow> DelReq \<Rightarrow> DelReq" where "DelReq_set_key \<equiv> field_set DelReq_key_field"
abbreviation DelReq_mut_key :: "(bytes \<Rightarrow> bytes) \<Rightarrow> DelReq \<Rightarrow> DelReq" where "DelReq_mut_key \<equiv> field_mut DelReq_key_field"
abbreviation DelReq_take_key :: "DelReq \<Rightarrow> bytes \<times> DelReq" where "DelReq_take_key \<equiv> field_take DelReq_key_field"
abbreviation DelReq_get_key :: "DelReq \<Rightarrow> bytes" where "DelReq_get_key \<equiv> field_get DelReq_key_field"

definition DelReq_is_initialized :: "DelReq \<Rightarrow> bool" where
  "DelReq_is_initialized m =
     (if DelReq_key m = None then False
      else True)"

definition DelReq_clear :: "DelReq \<Rightarrow> DelReq" where
  "DelReq_clear m = (DelReq_clear_key m)\<lparr>DelReq_unknown_fields := []\<rparr>"

definition DelReq_eq :: "DelReq \<Rightarrow> DelReq \<Rightarrow> bool" where
  "DelReq_eq a b \<longleftrightarrow>
     DelReq_key a = DelReq_key b \<and>
     DelReq_unknown_fields a = DelReq_unknown_fields b"

lemmas DelReq_accessors [msg_accessors] =
  DelReq_key_field_def DelReq_new_def

subsection \<open>DelRes\<close>

record DelRes =
  DelRes_success :: "bool option"
  DelRes_txid :: "u64 option"
  DelRes_value :: "bytes option"
  DelRes_err :: "string option"
  DelRes_unknown_fields :: UnknownFields
  DelRes_cached_size :: u32

definition DelRes_new :: DelRes where
  "DelRes_new =
     \<lparr>DelRes_success = None, DelRes_txid = None, DelRes_value = None, DelRes_err = None,
      DelRes_unknown_fields = [], DelRes_cached_size = 0\<rparr>"

definition DelRes_success_field :: "(DelRes, bool) ScalarField" where
  "DelRes_success_field =
     \<lparr>field_clear = \<lambda>m. m\<lparr>DelRes_success := None\<rparr>,
      field_set = \<lambda>v m. m\<lparr>DelRes_success := Some v\<rparr>,
      field_get = \<lambda>m. case DelRes_success m of Some v \<Rightarrow> v | None \<Rightarrow> False,
      field_has = \<lambda>m. DelRes_success m \<noteq> None\<rparr>"

abbreviation DelRes_clear_success :: "DelRes \<Rightarrow> DelRes" where "DelRes_clear_success \<equiv> field_clear DelRes_success_field"
abbreviation DelRes_has_success :: "DelRes \<Rightarrow> bool" where "DelRes_has_success \<equiv> field_has DelRes_success_field"
abbreviation DelRes_set_success :: "bool \<Rightarrow> DelRes \<Rightarrow> DelRes" where "DelRes_set_success \<equiv> field_set DelRes_success_field"
abbreviation DelRes_get_success :: "DelRes \<Rightarrow> bool" where "DelRes_get_success \<equiv> field_get DelRes_success_field"

definition DelRes_txid_field :: "(DelRes, u64) ScalarField" where
  "DelRes_txid_field =
     \<lparr>field_clear = \<lambda>m. m\<lparr>DelRes_txid := None\<rparr>,
      field_set = \<lambda>v m. m\<lparr>DelRes_txid := Some v\<rparr>,
      field_get = \<lambda>m. case DelRes_txid m of Some v \<Rightarrow> v | None \<Rightarrow> 0,
      field_has = \<lambda>m. DelRes_txid m \<noteq> None\<rparr>"

abbreviation DelRes_clear_txid :: "DelRes \<Rightarrow> DelRes" where "DelRes_clear_txid \<equiv> field_clear DelRes_txid_field"
abbreviation DelRes_has_txid :: "DelRes \<Rightarrow> bool" where "DelRes_has_txid \<equiv> field_has DelRes_txid_field"
abbreviation DelRes_set_txid :: "u64 \<Rightarrow> DelRes \<Rightarrow> DelRes" where "DelRes_set_txid \<equiv> field_set DelRes_txid_field"
abbreviation DelRes_get_txid :: "DelRes \<Rightarrow> u64" where "DelRes_get_txid \<equiv> field_get DelRes_txid_field"

definition DelRes_value_field :: "(DelRes, bytes) SingularField" where
  "DelRes_value_field =
     \<lparr>field_clear = \<lambda>m. m\<lparr>DelRes_value := None\<rparr>,
      field_set = \<lambda>v m. m\<lparr>DelRes_value := Some v\<rparr>,
      field_get = \<lambda>m. case DelRes_value m of Some v \<Rightarrow> v | None \<Rightarrow> [],
      field_has = \<lambda>m. DelRes_value m \<noteq> None,
      field_mut = \<lambda>f m. let m' = (if DelRes_value m = None then m\<lparr>DelRes_value := Some []\<rparr> else m)
         in m'\<lparr>DelRes_value := map_option f (DelRes_value m')\<rparr>,
      field_take = \<lambda>m. (case DelRes_value m of Some v \<Rightarrow> v | None \<Rightarrow> [], m\<lparr>DelRes_value := None\<rparr>)\<rparr>"

abbreviation DelRes_clear_value :: "DelRes \<Rightarrow> DelRes" where "DelRes_clear_value \<equiv> field_clear DelRes_value_field"
abbreviation DelRes_has_value :: "DelRes \<Rightarrow> bool" where "DelRes_has_value \<equiv> field_has DelRes_value_field"
abbreviation DelRes_set_value :: "bytes \<Rightarrow> DelRes \<Rightarrow> DelRes" where "DelRes_set_value \<equiv> field_set DelRes_value_field"
abbreviation DelRes_mut_value :: "(bytes \<Rightarrow> bytes) \<Rightarrow> DelRes \<Rightarrow> DelRes" where "DelRes_mut_value \<equiv> field_mut DelRes_value_field"
abbreviation DelRes_take_value :: "DelRes \<Rightarrow> bytes \<times> DelRes" where "DelRes_take_value \<equiv> field_take DelRes_value_field"
abbreviation DelRes_get_value :: "DelRes \<Rightarrow> bytes" where "DelRes_get_value \<equiv> field_get DelRes_value_field"

definition DelRes_err_field :: "(DelRes, string) SingularField" where
  "DelRes_err_field =
     \<lparr>field_clear = \<lambda>m. m\<lparr>DelRes_err := None\<rparr>,
      field_set = \<lambda>v m. m\<lparr>DelRes_err := Some v\<rparr>,
      field_get = \<lambda>m. case DelRes_err m of Some v \<Rightarrow> v | None \<Rightarrow> '''',
      field_has = \<lambda>m. DelRes_err m \<noteq> None,
      field_mut = \<lambda>f m. let m' = (if DelRes_err m = None then m\<lparr>DelRes_err := Some ''''\<rparr> else m)
         in m'\<lparr>DelRes_err := map_option f (DelRes_err m')\<rparr>,
      field_take = \<lambda>m. (case DelRes_err m of Some v \<Rightarrow> v | None \<Rightarrow> '''', m\<lparr>DelRes_err := None\<rparr>)\<rparr>"

abbreviation DelRes_clear_err :: "DelRes \<Rightarrow> DelRes" where "DelRes_clear_err \<equiv> field_clear DelRes_err_field"
abbreviation DelRes_has_err :: "DelRes \<Rightarrow> bool" where "DelRes_has_err \<equiv> field_has DelRes_err_field"
abbreviation DelRes_set_err :: "string \<Rightarrow> DelRes \<Rightarrow> DelRes" where "DelRes_set_err \<equiv> field_set DelRes_err_field"
abbreviation DelRes_mut_err :: "(string \<Rightarrow> string) \<Rightarrow> DelRes \<Rightarrow> DelRes" where "DelRes_mut_err \<equiv> field_mut DelRes_err_field"
abbreviation DelRes_take_err :: "DelRes \<Rightarrow> string \<times> DelRes" where "DelRes_take_err \<equiv> field_take DelRes_err_field"
abbreviation DelRes_get_err :: "DelRes \<Rightarrow> string" where "DelRes_get_err \<equiv> field_get DelRes_err_field"

definition DelRes_is_initialized :: "DelRes \<Rightarrow> bool" where
  "DelRes_is_initialized m =
     (if DelRes_success m = None then False
      else if DelRes_txid m = None then False
      else if DelRes_value m = None then False
      else True)"

definition DelRes_clear :: "DelRes \<Rightarrow> DelRes" where
  "DelRes_clear m = (DelRes_clear_err (DelRes_clear_value (DelRes_clear_txid (DelRes_clear_success m))))\<lparr>DelRes_unknown_fields := []\<rparr>"

definition DelRes_eq :: "DelRes \<Rightarrow> DelRes \<Rightarrow> bool" where
  "DelRes_eq a b \<longleftrightarrow>
     DelRes_success a = DelRes_success b \<and>
     DelRes_txid a = DelRes_txid b \<and>
     DelRes_value a = DelRes_value b \<and>
     DelRes_err a = DelRes_err b \<and>
     DelRes_unknown_fields a = DelRes_unknown_fields b"

lemmas DelRes_accessors [msg_accessors] =
  DelRes_success_field_def DelRes_txid_field_def DelRes_value_field_def DelRes_err_field_def
  DelRes_new_def

subsection \<open>WatchReq\<close>

record WatchReq =
  WatchReq_key :: "bytes option"
  WatchReq_last_txid :: "u64 option"
  WatchReq_recursive :: "bool option"
  WatchReq_historical :: "bool option"
  WatchReq_unknown_fields :: UnknownFields
  WatchReq_cached_size :: u32

definition WatchReq_new :: WatchReq where
  "WatchReq_new =
     \<lparr>WatchReq_key = None, WatchReq_last_txid = None, WatchReq_recursive = None, WatchReq_historical = None,
      WatchReq_unknown_fields = [], WatchReq_cached_size = 0\<rparr>"

definition WatchReq_key_field :: "(WatchReq, bytes) SingularField" where
  "WatchReq_key_field =
     \<lparr>field_clear = \<lambda>m. m\<lparr>WatchReq_key := None\<rparr>,
      field_set = \<lambda>v m. m\<lparr>WatchReq_key := Some v\<rparr>,
      field_get = \<lambda>m. case WatchReq_key m of Some v \<Rightarrow> v | None \<Rightarrow> [],
      field_has = \<lambda>m. WatchReq_key m \<noteq> None,
      field_mut = \<lambda>f m. let m' = (if WatchReq_key m = None then m\<lparr>WatchReq_key := Some []\<rparr> else m)
         in m'\<lparr>WatchReq_key := map_option f (WatchReq_key m')\<rparr>,
      field_take = \<lambda>m. (case WatchReq_key m of Some v \<Rightarrow> v | None \<Rightarrow> [], m\<lparr>WatchReq_key := None\<rparr>)\<rparr>"

abbreviation WatchReq_clear_key :: "WatchReq \<Rightarrow> WatchReq" where "WatchReq_clear_key \<equiv> field_clear WatchReq_key_field"
abbreviation WatchReq_has_key :: "WatchReq \<Rightarrow> bool" where "WatchReq_has_key \<equiv> field_has WatchReq_key_field"
abbreviation WatchReq_set_key :: "bytes \<Rightarrow> WatchReq \<Rightarrow> WatchReq" where "WatchReq_set_key \<equiv> field_set WatchReq_key_field"
abbreviation WatchReq_mut_key :: "(bytes \<Rightarrow> bytes) \<Rightarrow> WatchReq \<Rightarrow> WatchReq" where "WatchReq_mut_key \<equiv> field_mut WatchReq_key_field"
abbreviation WatchReq_take_key :: "WatchReq \<Rightarrow> bytes \<times> WatchReq" where "WatchReq_take_key \<equiv> field_take WatchReq_key_field"
abbreviation WatchReq_get_key :: "WatchReq \<Rightarrow> bytes" where "WatchReq_get_key \<equiv> field_get WatchReq_key_field"

definition WatchReq_last_txid_field :: "(WatchReq, u64) ScalarField" where
  "WatchReq_last_txid_field =
     \<lparr>field_clear = \<lambda>m. m\<lparr>WatchReq_last_txid := None\<rparr>,
      field_set = \<lambda>v m. m\<lparr>WatchReq_last_txid := Some v\<rparr>,
      field_get = \<lambda>m. case WatchReq_last_txid m of Some v \<Rightarrow> v | None \<Rightarrow> 0,
      field_has = \<lambda>m. WatchReq_last_txid m \<noteq> None\<rparr>"

abbreviation WatchReq_clear_last_txid :: "WatchReq \<Rightarrow> WatchReq" where "WatchReq_clear_last_txid \<equiv> field_clear WatchReq_last_txid_field"
abbreviation WatchReq_has_last_txid :: "WatchReq \<Rightarrow> bool" where "WatchReq_has_last_txid \<equiv> field_has WatchReq_last_txid_field"
abbreviation WatchReq_set_last_txid :: "u64 \<Rightarrow> WatchReq \<Rightarrow> WatchReq" where "WatchReq_set_last_txid \<equiv> field_set WatchReq_last_txid_field"
abbreviation WatchReq_get_last_txid :: "WatchReq \<Rightarrow> u64" where "WatchReq_get_last_txid \<equiv> field_get WatchReq_last_txid_field"

definition WatchReq_recursive_field :: "(WatchReq, bool) ScalarField" where
  "WatchReq_recursive_field =
     \<lparr>field_clear = \<lambda>m. m\<lparr>WatchReq_recursive := None\<rparr>,
      field_set = \<lambda>v m. m\<lparr>WatchReq_recursive := Some v\<rparr>,
      field_get = \<lambda>m. case WatchReq_recursive m of Some v \<Rightarrow> v | None \<Rightarrow> False,
      field_has = \<lambda>m. WatchReq_recursive m \<noteq> None\<rparr>"

abbreviation WatchReq_clear_recursive :: "WatchReq \<Rightarrow> WatchReq" where "WatchReq_clear_recursive \<equiv> field_clear WatchReq_recursive_field"
abbreviation WatchReq_has_recursive :: "WatchReq \<Rightarrow> bool" where "WatchReq_has_recursive \<equiv> field_has WatchReq_recursive_field"
abbreviation WatchReq_set_recursive :: "bool \<Rightarrow> WatchReq \<Rightarrow> WatchReq" where "WatchReq_set_recursive \<equiv> field_set WatchReq_recursive_field"
abbreviation WatchReq_get_recursive :: "WatchReq \<Rightarrow> bool" where "WatchReq_get_recursive \<equiv> field_get WatchReq_recursive_field"

definition WatchReq_historical_field :: "(WatchReq, bool) ScalarField" where
  "WatchReq_historical_field =
     \<lparr>field_clear = \<lambda>m. m\<lparr>WatchReq_historical := None\<rparr>,
      field_set = \<lambda>v m. m\<lparr>WatchReq_historical := Some v\<rparr>,
      field_get = \<lambda>m. case WatchReq_historical m of Some v \<Rightarrow> v | None \<Rightarrow> False,
      field_has = \<lambda>m. WatchReq_historical m \<noteq> None\<rparr>"

abbreviation WatchReq_clear_historical :: "WatchReq \<Rightarrow> WatchReq" where "WatchReq_clear_historical \<equiv> field_clear WatchReq_historical_field"
abbreviation WatchReq_has_historical :: "WatchReq \<Rightarrow> bool" where "WatchReq_has_historical \<equiv> field_has WatchReq_historical_field"
abbreviation WatchReq_set_historical :: "bool \<Rightarrow> WatchReq \<Rightarrow> WatchReq" where "WatchReq_set_historical \<equiv> field_set WatchReq_historical_field"
abbreviation WatchReq_get_historical :: "WatchReq \<Rightarrow> bool" where "WatchReq_get_historical \<equiv> field_get WatchReq_historical_field"

definition WatchReq_is_initialized :: "WatchReq \<Rightarrow> bool" where
  "WatchReq_is_initialized m =
     (if WatchReq_key m = None then False
      else if WatchReq_last_txid m = None then False
      else if WatchReq_recursive m = None then False
      else if WatchReq_historical m = None then False
      else True)"

definition WatchReq_clear :: "WatchReq \<Rightarrow> WatchReq" where
  "WatchReq_clear m = (WatchReq_clear_historical (WatchReq_clear_recursive (WatchReq_clear_last_txid (WatchReq_clear_key m))))\<lparr>WatchReq_unknown_fields := []\<rparr>"

definition WatchReq_eq :: "WatchReq \<Rightarrow> WatchReq \<Rightarrow> bool" where
  "WatchReq_eq a b \<longleftrightarrow>
     WatchReq_key a = WatchReq_key b \<and>
     WatchReq_last_txid a = WatchReq_last_txid b \<and>
     WatchReq_recursive a = WatchReq_recursive b \<and>
     WatchReq_historical a = WatchReq_historical b \<and>
     WatchReq_unknown_fields a = WatchReq_unknown_fields b"

lemmas WatchReq_accessors [msg_accessors] =
  WatchReq_key_field_def WatchReq_last_txid_field_def WatchReq_recursive_field_def
  WatchReq_historical_field_def WatchReq_new_def

subsection \<open>WatchRes\<close>

record WatchRes =
  WatchRes_success :: "bool option"
  WatchRes_history :: "Mutation list"
  WatchRes_err :: "string option"
  WatchRes_unknown_fields :: UnknownFields
  WatchRes_cached_size :: u32

definition WatchRes_new :: WatchRes where
  "WatchRes_new =
     \<lparr>WatchRes_success = None, WatchRes_history = [], WatchRes_err = None,
      WatchRes_unknown_fields = [], WatchRes_cached_size = 0\<rparr>"

definition WatchRes_success_field :: "(WatchRes, bool) ScalarField" where
  "WatchRes_success_field =
     \<lparr>field_clear = \<lambda>m. m\<lparr>WatchRes_success := None\<rparr>,
      field_set = \<lambda>v m. m\<lparr>WatchRes_success := Some v\<rparr>,
      field_get = \<lambda>m. case WatchRes_success m of Some v \<Rightarrow> v | None \<Rightarrow> False,
      field_has = \<lambda>m. WatchRes_success m \<noteq> None\<rparr>"

abbreviation WatchRes_clear_success :: "WatchRes \<Rightarrow> WatchRes" where "WatchRes_clear_success \<equiv> field_clear WatchRes_success_field"
abbreviation WatchRes_has_success :: "WatchRes \<Rightarrow> bool" where "WatchRes_has_success \<equiv> field_has WatchRes_success_field"
abbreviation WatchRes_set_success :: "bool \<Rightarrow> WatchRes \<Rightarrow> WatchRes" where "WatchRes_set_success \<equiv> field_set WatchRes_success_field"
abbreviation WatchRes_get_success :: "WatchRes \<Rightarrow> bool" where "WatchRes_get_success \<equiv> field_get WatchRes_success_field"

definition WatchRes_history_field :: "(WatchRes, Mutation list) RepeatedField" where
  "WatchRes_history_field =
     \<lparr>field_clear = \<lambda>m. m\<lparr>WatchRes_history := []\<rparr>,
      field_set = \<lambda>v m. m\<lparr>WatchRes_history := v\<rparr>,
      field_get = \<lambda>m. WatchRes_history m,
      rep_mut = \<lambda>f m. m\<lparr>WatchRes_history := f (WatchRes_history m)\<rparr>,
      rep_take = \<lambda>m. (WatchRes_history m, m\<lparr>WatchRes_history := []\<rparr>)\<rparr>"

abbreviation WatchRes_clear_history :: "WatchRes \<Rightarrow> WatchRes" where "WatchRes_clear_history \<equiv> field_clear WatchRes_history_field"
abbreviation WatchRes_set_history :: "Mutation list \<Rightarrow> WatchRes \<Rightarrow> WatchRes" where "WatchRes_set_history \<equiv> field_set WatchRes_history_field"
abbreviation WatchRes_mut_history :: "(Mutation list \<Rightarrow> Mutation list) \<Rightarrow> WatchRes \<Rightarrow> WatchRes" where "WatchRes_mut_history \<equiv> rep_mut WatchRes_history_field"
abbreviation WatchRes_take_history :: "WatchRes \<Rightarrow> Mutation list \<times> WatchRes" where "WatchRes_take_history \<equiv> rep_take WatchRes_history_field"
abbreviation WatchRes_get_history :: "WatchRes \<Rightarrow> Mutation list" where "WatchRes_get_history \<equiv> field_get WatchRes_history_field"

definition WatchRes_err_field :: "(WatchRes, string) SingularField" where
  "WatchRes_err_field =
     \<lparr>field_clear = \<lambda>m. m\<lparr>WatchRes_err := None\<rparr>,
      field_set = \<lambda>v m. m\<lparr>WatchRes_err := Some v\<rparr>,
      field_get = \<lambda>m. case WatchRes_err m of Some v \<Rightarrow> v | None \<Rightarrow> '''',
      field_has = \<lambda>m. WatchRes_err m \<noteq> None,
      field_mut = \<lambda>f m. let m' = (if WatchRes_err m = None then m\<lparr>WatchRes_err := Some ''''\<rparr> else m)
         in m'\<lparr>WatchRes_err := map_option f (WatchRes_err m')\<rparr>,
      field_take = \<lambda>m. (case WatchRes_err m of Some v \<Rightarrow> v | None \<Rightarrow> '''', m\<lparr>WatchRes_err := None\<rparr>)\<rparr>"

abbreviation WatchRes_clear_err :: "WatchRes \<Rightarrow> WatchRes" where "WatchRes_clear_err \<equiv> field_clear WatchRes_err_field"
abbreviation WatchRes_has_err :: "WatchRes \<Rightarrow> bool" where "WatchRes_has_err \<equiv> field_has WatchRes_err_field"
abbreviation WatchRes_set_err :: "string \<Rightarrow> WatchRes \<Rightarrow> WatchRes" where "WatchRes_set_err \<equiv> field_set WatchRes_err_field"
abbreviation WatchRes_mut_err :: "(string \<Rightarrow> string) \<Rightarrow> WatchRes \<Rightarrow> WatchRes" where "WatchRes_mut_err \<equiv> field_mut WatchRes_err_field"
abbreviation WatchRes_take_err :: "WatchRes \<Rightarrow> string \<times> WatchRes" where "WatchRes_take_err \<equiv> field_take WatchRes_err_field"
abbreviation WatchRes_get_err :: "WatchRes \<Rightarrow> string" where "WatchRes_get_err \<equiv> field_get WatchRes_err_field"

definition WatchRes_is_initialized :: "WatchRes \<Rightarrow> bool" where
  "WatchRes_is_initialized m =
     (if WatchRes_success m = None then False
      else True)"

definition WatchRes_clear :: "WatchRes \<Rightarrow> WatchRes" where
  "WatchRes_clear m = (WatchRes_clear_err (WatchRes_clear_history (WatchRes_clear_success m)))\<lparr>WatchRes_unknown_fields := []\<rparr>"

definition WatchRes_eq :: "WatchRes \<Rightarrow> WatchRes \<Rightarrow> bool" where
  "WatchRes_eq a b \<longleftrightarrow>
     WatchRes_success a = WatchRes_success b \<and>
     list_all2 Mutation_eq (WatchRes_history a) (WatchRes_history b) \<and>
     WatchRes_err a = WatchRes_err b \<and>
     WatchRes_unknown_fields a = WatchRes_unknown_fields b"

lemmas WatchRes_accessors [msg_accessors] =
  WatchRes_success_field_def WatchRes_history_field_def WatchRes_err_field_def WatchRes_new_def

subsection \<open>RedirectRes\<close>

record RedirectRes =
  RedirectRes_success :: "bool option"
  RedirectRes_address :: "string option"
  RedirectRes_err :: "string option"
  RedirectRes_unknown_fields :: UnknownFields
  RedirectRes_cached_size :: u32

definition RedirectRes_new :: RedirectRes where
  "RedirectRes_new =
     \<lparr>RedirectRes_success = None, RedirectRes_address = None, RedirectRes_err = None,
      RedirectRes_unknown_fields = [], RedirectRes_cached_size = 0\<rparr>"

definition RedirectRes_success_field :: "(RedirectRes, bool) ScalarField" where
  "RedirectRes_success_field =
     \<lparr>field_clear = \<lambda>m. m\<lparr>RedirectRes_success := None\<rparr>,
      field_set = \<lambda>v m. m\<lparr>RedirectRes_success := Some v\<rparr>,
      field_get = \<lambda>m. case RedirectRes_success m of Some v \<Rightarrow> v | None \<Rightarrow> False,
      field_has = \<lambda>m. RedirectRes_success m \<noteq> None\<rparr>"

abbreviation RedirectRes_clear_success :: "RedirectRes \<Rightarrow> RedirectRes" where "RedirectRes_clear_success \<equiv> field_clear RedirectRes_success_field"
abbreviation RedirectRes_has_success :: "RedirectRes \<Rightarrow> bool" where "RedirectRes_has_success \<equiv> field_has RedirectRes_success_field"
abbreviation RedirectRes_set_success :: "bool \<Rightarrow> RedirectRes \<Rightarrow> RedirectRes" where "RedirectRes_set_success \<equiv> field_set RedirectRes_success_field"
abbreviation RedirectRes_get_success :: "RedirectRes \<Rightarrow> bool" where "RedirectRes_get_success \<equiv> field_get RedirectRes_success_field"

definition RedirectRes_address_field :: "(RedirectRes, string) SingularField" where
  "RedirectRes_address_field =
     \<lparr>field_clear = \<lambda>m. m\<lparr>RedirectRes_address := None\<rparr>,
      field_set = \<lambda>v m. m\<lparr>RedirectRes_address := Some v\<rparr>,
      field_get = \<lambda>m. case RedirectRes_address m of Some v \<Rightarrow> v | None \<Rightarrow> '''',
      field_has = \<lambda>m. RedirectRes_address m \<noteq> None,
      field_mut = \<lambda>f m. let m' = (if RedirectRes_address m = None then m\<lparr>RedirectRes_address := Some ''''\<rparr> else m)
         in m'\<lparr>RedirectRes_address := map_option f (RedirectRes_address m')\<rparr>,
      field_take = \<lambda>m. (case RedirectRes_address m of Some v \<Rightarrow> v | None \<Rightarrow> '''', m\<lparr>RedirectRes_address := None\<rparr>)\<rparr>"

abbreviation RedirectRes_clear_address :: "RedirectRes \<Rightarrow> RedirectRes" where "RedirectRes_clear_address \<equiv> field_clear RedirectRes_address_field"
abbreviation RedirectRes_has_address :: "RedirectRes \<Rightarrow> bool" where "RedirectRes_has_address \<equiv> field_has RedirectRes_address_field"
abbreviation RedirectRes_set_address :: "string \<Rightarrow> RedirectRes \<Rightarrow> RedirectRes" where "RedirectRes_set_address \<equiv> field_set RedirectRes_address_field"
abbreviation RedirectRes_mut_address :: "(string \<Rightarrow> string) \<Rightarrow> RedirectRes \<Rightarrow> RedirectRes" where "RedirectRes_mut_address \<equiv> field_mut RedirectRes_address_field"
abbreviation RedirectRes_take_address :: "RedirectRes \<Rightarrow> string \<times> RedirectRes" where "RedirectRes_take_address \<equiv> field_take RedirectRes_address_field"
abbreviation RedirectRes_get_address :: "RedirectRes \<Rightarrow> string" where "RedirectRes_get_address \<equiv> field_get RedirectRes_address_field"

definition RedirectRes_err_field :: "(RedirectRes, string) SingularField" where
  "RedirectRes_err_field =
     \<lparr>field_clear = \<lambda>m. m\<lparr>RedirectRes_err := None\<rparr>,
      field_set = \<lambda>v m. m\<lparr>RedirectRes_err := Some v\<rparr>,
      field_get = \<lambda>m. case RedirectRes_err m of Some v \<Rightarrow> v | None \<Rightarrow> '''',
      field_has = \<lambda>m. RedirectRes_err m \<noteq> None,
      field_mut = \<lambda>f m. let m' = (if RedirectRes_err m = None then m\<lparr>RedirectRes_err := Some ''''\<rparr> else m)
         in m'\<lparr>RedirectRes_err := map_option f (RedirectRes_err m')\<rparr>,
      field_take = \<lambda>m. (case RedirectRes_err m of Some v \<Rightarrow> v | None \<Rightarrow> '''', m\<lparr>RedirectRes_err := None\<rparr>)\<rparr>"

abbreviation RedirectRes_clear_err :: "RedirectRes \<Rightarrow> RedirectRes" where "RedirectRes_clear_err \<equiv> field_clear RedirectRes_err_field"
abbreviation RedirectRes_has_err :: "RedirectRes \<Rightarrow> bool" where "RedirectRes_has_err \<equiv> field_has RedirectRes_err_field"
abbreviation RedirectRes_set_err :: "string \<Rightarrow> RedirectRes \<Rightarrow> RedirectRes" where "RedirectRes_set_err \<equiv> field_set RedirectRes_err_field"
abbreviation RedirectRes_mut_err :: "(string \<Rightarrow> string) \<Rightarrow> RedirectRes \<Rightarrow> RedirectRes" where "RedirectRes_mut_err \<equiv> field_mut RedirectRes_err_field"
abbreviation RedirectRes_take_err :: "RedirectRes \<Rightarrow> string \<times> RedirectRes" where "RedirectRes_take_err \<equiv> field_take RedirectRes_err_field"
abbreviation RedirectRes_get_err :: "RedirectRes \<Rightarrow> string" where "RedirectRes_get_err \<equiv> field_get RedirectRes_err_field"

definition RedirectRes_is_initialized :: "RedirectRes \<Rightarrow> bool" where
  "RedirectRes_is_initialized m =
     (if RedirectRes_success m = None then False
      else True)"

definition RedirectRes_clear :: "RedirectRes \<Rightarrow> RedirectRes" where
  "RedirectRes_clear m = (RedirectRes_clear_err (RedirectRes_clear_address (RedirectRes_clear_success m)))\<lparr>RedirectRes_unknown_fields := []\<rparr>"

definition RedirectRes_eq :: "RedirectRes \<Rightarrow> RedirectRes \<Rightarrow> bool" where
  "RedirectRes_eq a b \<longleftrightarrow>
     RedirectRes_success a = RedirectRes_success b \<and>
     RedirectRes_address a = RedirectRes_address b \<and>
     RedirectRes_err a = RedirectRes_err b \<and>
     RedirectRes_unknown_fields a = RedirectRes_unknown_fields b"

lemmas RedirectRes_accessors [msg_accessors] =
  RedirectRes_success_field_def RedirectRes_address_field_def RedirectRes_err_field_def
  RedirectRes_new_def

subsection \<open>CliReq\<close>

record CliReq =
  CliReq_req_id :: "u64 option"
  CliReq_get :: "GetReq option"
  CliReq_set :: "SetReq option"
  CliReq_cas :: "CASReq option"
  CliReq_del :: "DelReq option"
  CliReq_watch :: "WatchReq option"
  CliReq_unknown_fields :: UnknownFields
  CliReq_cached_size :: u32

definition CliReq_new :: CliReq where
  "CliReq_new =
     \<lparr>CliReq_req_id = None, CliReq_get = None, CliReq_set = None, CliReq_cas = None, CliReq_del = None, CliReq_watch = None,
      CliReq_unknown_fields = [], CliReq_cached_size = 0\<rparr>"

definition CliReq_req_id_field :: "(CliReq, u64) ScalarField" where
  "CliReq_req_id_field =
     \<lparr>field_clear = \<lambda>m. m\<lparr>CliReq_req_id := None\<rparr>,
      field_set = \<lambda>v m. m\<lparr>CliReq_req_id := Some v\<rparr>,
      field_get = \<lambda>m. case CliReq_req_id m of Some v \<Rightarrow> v | None \<Rightarrow> 0,
      field_has = \<lambda>m. CliReq_req_id m \<noteq> None\<rparr>"

abbreviation CliReq_clear_req_id :: "CliReq \<Rightarrow> CliReq" where "CliReq_clear_req_id \<equiv> field_clear CliReq_req_id_field"
abbreviation CliReq_has_req_id :: "CliReq \<Rightarrow> bool" where "CliReq_has_req_id \<equiv> field_has CliReq_req_id_field"
abbreviation CliReq_set_req_id :: "u64 \<Rightarrow> CliReq \<Rightarrow> CliReq" where "CliReq_set_req_id \<equiv> field_set CliReq_req_id_field"
abbreviation CliReq_get_req_id :: "CliReq \<Rightarrow> u64" where "CliReq_get_req_id \<equiv> field_get CliReq_req_id_field"

definition CliReq_get_field :: "(CliReq, GetReq) SingularField" where
  "CliReq_get_field =
     \<lparr>field_clear = \<lambda>m. m\<lparr>CliReq_get := None\<rparr>,
      field_set = \<lambda>v m. m\<lparr>CliReq_get := Some v\<rparr>,
      field_get = \<lambda>m. case CliReq_get m of Some v \<Rightarrow> v | None \<Rightarrow> GetReq_new,
      field_has = \<lambda>m. CliReq_get m \<noteq> None,
      field_mut = \<lambda>f m. let m' = (if CliReq_get m = None then m\<lparr>CliReq_get := Some GetReq_new\<rparr> else m)
         in m'\<lparr>CliReq_get := map_option f (CliReq_get m')\<rparr>,
      field_take = \<lambda>m. (case CliReq_get m of Some v \<Rightarrow> v | None \<Rightarrow> GetReq_new, m\<lparr>CliReq_get := None\<rparr>)\<rparr>"

abbreviation CliReq_clear_get :: "CliReq \<Rightarrow> CliReq" where "CliReq_clear_get \<equiv> field_clear CliReq_get_field"
abbreviation CliReq_has_get :: "CliReq \<Rightarrow> bool" where "CliReq_has_get \<equiv> field_has CliReq_get_field"
abbreviation CliReq_set_get :: "GetReq \<Rightarrow> CliReq \<Rightarrow> CliReq" where "CliReq_set_get \<equiv> field_set CliReq_get_field"
abbreviation CliReq_mut_get :: "(GetReq \<Rightarrow> GetReq) \<Rightarrow> CliReq \<Rightarrow> CliReq" where "CliReq_mut_get \<equiv> field_mut CliReq_get_field"
abbreviation CliReq_take_get :: "CliReq \<Rightarrow> GetReq \<times> CliReq" where "CliReq_take_get \<equiv> field_take CliReq_get_field"
abbreviation CliReq_get_get :: "CliReq \<Rightarrow> GetReq" where "CliReq_get_get \<equiv> field_get CliReq_get_field"

definition CliReq_set_field :: "(CliReq, SetReq) SingularField" where
  "CliReq_set_field =
     \<lparr>field_clear = \<lambda>m. m\<lparr>CliReq_set := None\<rparr>,
      field_set = \<lambda>v m. m\<lparr>CliReq_set := Some v\<rparr>,
      field_get = \<lambda>m. case CliReq_set m of Some v \<Rightarrow> v | None \<Rightarrow> SetReq_new,
      field_has = \<lambda>m. CliReq_set m \<noteq> None,
      field_mut = \<lambda>f m. let m' = (if CliReq_set m = None then m\<lparr>CliReq_set := Some SetReq_new\<rparr> else m)
         in m'\<lparr>CliReq_set := map_option f (CliReq_set m')\<rparr>,
      field_take = \<lambda>m. (case CliReq_set m of Some v \<Rightarrow> v | None \<Rightarrow> SetReq_new, m\<lparr>CliReq_set := None\<rparr>)\<rparr>"

abbreviation CliReq_clear_set :: "CliReq \<Rightarrow> CliReq" where "CliReq_clear_set \<equiv> field_clear CliReq_set_field"
abbreviation CliReq_has_set :: "CliReq \<Rightarrow> bool" where "CliReq_has_set \<equiv> field_has CliReq_set_field"
abbreviation CliReq_set_set :: "SetReq \<Rightarrow> CliReq \<Rightarrow> CliReq" where "CliReq_set_set \<equiv> field_set CliReq_set_field"
abbreviation CliReq_mut_set :: "(SetReq \<Rightarrow> SetReq) \<Rightarrow> CliReq \<Rightarrow> CliReq" where "CliReq_mut_set \<equiv> field_mut CliReq_set_field"
abbreviation CliReq_take_set :: "CliReq \<Rightarrow> SetReq \<times> CliReq" where "CliReq_take_set \<equiv> field_take CliReq_set_field"
abbreviation CliReq_get_set :: "CliReq \<Rightarrow> SetReq" where "CliReq_get_set \<equiv> field_get CliReq_set_field"

definition CliReq_cas_field :: "(CliReq, CASReq) SingularField" where
  "CliReq_cas_field =
     \<lparr>field_clear = \<lambda>m. m\<lparr>CliReq_cas := None\<rparr>,
      field_set = \<lambda>v m. m\<lparr>CliReq_cas := Some v\<rparr>,
      field_get = \<lambda>m. case CliReq_cas m of Some v \<Rightarrow> v | None \<Rightarrow> CASReq_new,
      field_has = \<lambda>m. CliReq_cas m \<noteq> None,
      field_mut = \<lambda>f m. let m' = (if CliReq_cas m = None then m\<lparr>CliReq_cas := Some CASReq_new\<rparr> else m)
         in m'\<lparr>CliReq_cas := map_option f (CliReq_cas m')\<rparr>,
      field_take = \<lambda>m. (case CliReq_cas m of Some v \<Rightarrow> v | None \<Rightarrow> CASReq_new, m\<lparr>CliReq_cas := None\<rparr>)\<rparr>"

abbreviation CliReq_clear_cas :: "CliReq \<Rightarrow> CliReq" where "CliReq_clear_cas \<equiv> field_clear CliReq_cas_field"
abbreviation CliReq_has_cas :: "CliReq \<Rightarrow> bool" where "CliReq_has_cas \<equiv> field_has CliReq_cas_field"
abbreviation CliReq_set_cas :: "CASReq \<Rightarrow> CliReq \<Rightarrow> CliReq" where "CliReq_set_cas \<equiv> field_set CliReq_cas_field"
abbreviation CliReq_mut_cas :: "(CASReq \<Rightarrow> CASReq) \<Rightarrow> CliReq \<Rightarrow> CliReq" where "CliReq_mut_cas \<equiv> field_mut CliReq_cas_field"
abbreviation CliReq_take_cas :: "CliReq \<Rightarrow> CASReq \<times> CliReq" where "CliReq_take_cas \<equiv> field_take CliReq_cas_field"
abbreviation CliReq_get_cas :: "CliReq \<Rightarrow> CASReq" where "CliReq_get_cas \<equiv> field_get CliReq_cas_field"

definition CliReq_del_field :: "(CliReq, DelReq) SingularField" where
  "CliReq_del_field =
     \<lparr>field_clear = \<lambda>m. m\<lparr>CliReq_del := None\<rparr>,
      field_set = \<lambda>v m. m\<lparr>CliReq_del := Some v\<rparr>,
      field_get = \<lambda>m. case CliReq_del m of Some v \<Rightarrow> v | None \<Rightarrow> DelReq_new,
      field_has = \<lambda>m. CliReq_del m \<noteq> None,
      field_mut = \<lambda>f m. let m' = (if CliReq_del m = None then m\<lparr>CliReq_del := Some DelReq_new\<rparr> else m)
         in m'\<lparr>CliReq_del := map_option f (CliReq_del m')\<rparr>,
      field_take = \<lambda>m. (case CliReq_del m of Some v \<Rightarrow> v | None \<Rightarrow> DelReq_new, m\<lparr>CliReq_del := None\<rparr>)\<rparr>"

abbreviation CliReq_clear_del :: "CliReq \<Rightarrow> CliReq" where "CliReq_clear_del \<equiv> field_clear CliReq_del_field"
abbreviation CliReq_has_del :: "CliReq \<Rightarrow> bool" where "CliReq_has_del \<equiv> field_has CliReq_del_field"
abbreviation CliReq_set_del :: "DelReq \<Rightarrow> CliReq \<Rightarrow> CliReq" where "CliReq_set_del \<equiv> field_set CliReq_del_field"
abbreviation CliReq_mut_del :: "(DelReq \<Rightarrow> DelReq) \<Rightarrow> CliReq \<Rightarrow> CliReq" where "CliReq_mut_del \<equiv> field_mut CliReq_del_field"
abbreviation CliReq_take_del :: "CliReq \<Rightarrow> DelReq \<times> CliReq" where "CliReq_take_del \<equiv> field_take CliReq_del_field"
abbreviation CliReq_get_del :: "CliReq \<Rightarrow> DelReq" where "CliReq_get_del \<equiv> field_get CliReq_del_field"

definition CliReq_watch_field :: "(CliReq, WatchReq) SingularField" where
  "CliReq_watch_field =
     \<lparr>field_clear = \<lambda>m. m\<lparr>CliReq_watch := None\<rparr>,
      field_set = \<lambda>v m. m\<lparr>CliReq_watch := Some v\<rparr>,
      field_get = \<lambda>m. case CliReq_watch m of Some v \<Rightarrow> v | None \<Rightarrow> WatchReq_new,
      field_has = \<lambda>m. CliReq_watch m \<noteq> None,
      field_mut = \<lambda>f m. let m' = (if CliReq_watch m = None then m\<lparr>CliReq_watch := Some WatchReq_new\<rparr> else m)
         in m'\<lparr>CliReq_watch := map_option f (CliReq_watch m')\<rparr>,
      field_take = \<lambda>m. (case CliReq_watch m of Some v \<Rightarrow> v | None \<Rightarrow> WatchReq_new, m\<lparr>CliReq_watch := None\<rparr>)\<rparr>"

abbreviation CliReq_clear_watch :: "CliReq \<Rightarrow> CliReq" where "CliReq_clear_watch \<equiv> field_clear CliReq_watch_field"
abbreviation CliReq_has_watch :: "CliReq \<Rightarrow> bool" where "CliReq_has_watch \<equiv> field_has CliReq_watch_field"
abbreviation CliReq_set_watch :: "WatchReq \<Rightarrow> CliReq \<Rightarrow> CliReq" where "CliReq_set_watch \<equiv> field_set CliReq_watch_field"
abbreviation CliReq_mut_watch :: "(WatchReq \<Rightarrow> WatchReq) \<Rightarrow> CliReq \<Rightarrow> CliReq" where "CliReq_mut_watch \<equiv> field_mut CliReq_watch_field"
abbreviation CliReq_take_watch :: "CliReq \<Rightarrow> WatchReq \<times> CliReq" where "CliReq_take_watch \<equiv> field_take CliReq_watch_field"
abbreviation CliReq_get_watch :: "CliReq \<Rightarrow> WatchReq" where "CliReq_get_watch \<equiv> field_get CliReq_watch_field"

definition CliReq_is_initialized :: "CliReq \<Rightarrow> bool" where
  "CliReq_is_initialized m =
     (if CliReq_req_id m = None then False
      else True)"

definition CliReq_clear :: "CliReq \<Rightarrow> CliReq" where
  "CliReq_clear m = (CliReq_clear_watch (CliReq_clear_del (CliReq_clear_cas (CliReq_clear_set (CliReq_clear_get (CliReq_clear_req_id m))))))\<lparr>CliReq_unknown_fields := []\<rparr>"

definition CliReq_eq :: "CliReq \<Rightarrow> CliReq \<Rightarrow> bool" where
  "CliReq_eq a b \<longleftrightarrow>
     CliReq_req_id a = CliReq_req_id b \<and>
     rel_option GetReq_eq (CliReq_get a) (CliReq_get b) \<and>
     rel_option SetReq_eq (CliReq_set a) (CliReq_set b) \<and>
     rel_option CASReq_eq (CliReq_cas a) (CliReq_cas b) \<and>
     rel_option DelReq_eq (CliReq_del a) (CliReq_del b) \<and>
     rel_option WatchReq_eq (CliReq_watch a) (CliReq_watch b) \<and>
     CliReq_unknown_fields a = CliReq_unknown_fields b"

lemmas CliReq_accessors [msg_accessors] =
  CliReq_req_id_field_def CliReq_get_field_def CliReq_set_field_def CliReq_cas_field_def
  CliReq_del_field_def CliReq_watch_field_def CliReq_new_def

subsection \<open>CliRes\<close>

record CliRes =
  CliRes_req_id :: "u64 option"
  CliRes_get :: "GetRes option"
  CliRes_set :: "SetRes option"
  CliRes_cas :: "CASRes option"
  CliRes_del :: "DelRes option"
  CliRes_watch :: "WatchRes option"
  CliRes_redirect :: "RedirectRes option"
  CliRes_unknown_fields :: UnknownFields
  CliRes_cached_size :: u32

definition CliRes_new :: CliRes where
  "CliRes_new =
     \<lparr>CliRes_req_id = None, CliRes_get = None, CliRes_set = None, CliRes_cas = None, CliRes_del = None, CliRes_watch = None, CliRes_redirect = None,
      CliRes_unknown_fields = [], CliRes_cached_size = 0\<rparr>"

definition CliRes_req_id_field :: "(CliRes, u64) ScalarField" where
  "CliRes_req_id_field =
     \<lparr>field_clear = \<lambda>m. m\<lparr>CliRes_req_id := None\<rparr>,
      field_set = \<lambda>v m. m\<lparr>CliRes_req_id := Some v\<rparr>,
      field_get = \<lambda>m. case CliRes_req_id m of Some v \<Rightarrow> v | None \<Rightarrow> 0,
      field_has = \<lambda>m. CliRes_req_id m \<noteq> None\<rparr>"

abbreviation CliRes_clear_req_id :: "CliRes \<Rightarrow> CliRes" where "CliRes_clear_req_id \<equiv> field_clear CliRes_req_id_field"
abbreviation CliRes_has_req_id :: "CliRes \<Rightarrow> bool" where "CliRes_has_req_id \<equiv> field_has CliRes_req_id_field"
abbreviation CliRes_set_req_id :: "u64 \<Rightarrow> CliRes \<Rightarrow> CliRes" where "CliRes_set_req_id \<equiv> field_set CliRes_req_id_field"
abbreviation CliRes_get_req_id :: "CliRes \<Rightarrow> u64" where "CliRes_get_req_id \<equiv> field_get CliRes_req_id_field"

definition CliRes_get_field :: "(CliRes, GetRes) SingularField" where
  "CliRes_get_field =
     \<lparr>field_clear = \<lambda>m. m\<lparr>CliRes_get := None\<rparr>,
      field_set = \<lambda>v m. m\<lparr>CliRes_get := Some v\<rparr>,
      field_get = \<lambda>m. case CliRes_get m of Some v \<Rightarrow> v | None \<Rightarrow> GetRes_new,
      field_has = \<lambda>m. CliRes_get m \<noteq> None,
      field_mut = \<lambda>f m. let m' = (if CliRes_get m = None then m\<lparr>CliRes_get := Some GetRes_new\<rparr> else m)
         in m'\<lparr>CliRes_get := map_option f (CliRes_get m')\<rparr>,
      field_take = \<lambda>m. (case CliRes_get m of Some v \<Rightarrow> v | None \<Rightarrow> GetRes_new, m\<lparr>CliRes_get := None\<rparr>)\<rparr>"

abbreviation CliRes_clear_get :: "CliRes \<Rightarrow> CliRes" where "CliRes_clear_get \<equiv> field_clear CliRes_get_field"
abbreviation CliRes_has_get :: "CliRes \<Rightarrow> bool" where "CliRes_has_get \<equiv> field_has CliRes_get_field"
abbreviation CliRes_set_get :: "GetRes \<Rightarrow> CliRes \<Rightarrow> CliRes" where "CliRes_set_get \<equiv> field_set CliRes_get_field"
abbreviation CliRes_mut_get :: "(GetRes \<Rightarrow> GetRes) \<Rightarrow> CliRes \<Rightarrow> CliRes" where "CliRes_mut_get \<equiv> field_mut CliRes_get_field"
abbreviation CliRes_take_get :: "CliRes \<Rightarrow> GetRes \<times> CliRes" where "CliRes_take_get \<equiv> field_take CliRes_get_field"
abbreviation CliRes_get_get :: "CliRes \<Rightarrow> GetRes" where "CliRes_get_get \<equiv> field_get CliRes_get_field"

definition CliRes_set_field :: "(CliRes, SetRes) SingularField" where
  "CliRes_set_field =
     \<lparr>field_clear = \<lambda>m. m\<lparr>CliRes_set := None\<rparr>,
      field_set = \<lambda>v m. m\<lparr>CliRes_set := Some v\<rparr>,
      field_get = \<lambda>m. case CliRes_set m of Some v \<Rightarrow> v | None \<Rightarrow> SetRes_new,
      field_has = \<lambda>m. CliRes_set m \<noteq> None,
      field_mut = \<lambda>f m. let m' = (if CliRes_set m = None then m\<lparr>CliRes_set := Some SetRes_new\<rparr> else m)
         in m'\<lparr>CliRes_set := map_option f (CliRes_set m')\<rparr>,
      field_take = \<lambda>m. (case CliRes_set m of Some v \<Rightarrow> v | None \<Rightarrow> SetRes_new, m\<lparr>CliRes_set := None\<rparr>)\<rparr>"

abbreviation CliRes_clear_set :: "CliRes \<Rightarrow> CliRes" where "CliRes_clear_set \<equiv> field_clear CliRes_set_field"
abbreviation CliRes_has_set :: "CliRes \<Rightarrow> bool" where "CliRes_has_set \<equiv> field_has CliRes_set_field"
abbreviation CliRes_set_set :: "SetRes \<Rightarrow> CliRes \<Rightarrow> CliRes" where "CliRes_set_set \<equiv> field_set CliRes_set_field"
abbreviation CliRes_mut_set :: "(SetRes \<Rightarrow> SetRes) \<Rightarrow> CliRes \<Rightarrow> CliRes" where "CliRes_mut_set \<equiv> field_mut CliRes_set_field"
abbreviation CliRes_take_set :: "CliRes \<Rightarrow> SetRes \<times> CliRes" where "CliRes_take_set \<equiv> field_take CliRes_set_field"
abbreviation CliRes_get_set :: "CliRes \<Rightarrow> SetRes" where "CliRes_get_set \<equiv> field_get CliRes_set_field"

definition CliRes_cas_field :: "(CliRes, CASRes) SingularField" where
  "CliRes_cas_field =
     \<lparr>field_clear = \<lambda>m. m\<lparr>CliRes_cas := None\<rparr>,
      field_set = \<lambda>v m. m\<lparr>CliRes_cas := Some v\<rparr>,
      field_get = \<lambda>m. case CliRes_cas m of Some v \<Rightarrow> v | None \<Rightarrow> CASRes_new,
      field_has = \<lambda>m. CliRes_cas m \<noteq> None,
      field_mut = \<lambda>f m. let m' = (if CliRes_cas m = None then m\<lparr>CliRes_cas := Some CASRes_new\<rparr> else m)
         in m'\<lparr>CliRes_cas := map_option f (CliRes_cas m')\<rparr>,
      field_take = \<lambda>m. (case CliRes_cas m of Some v \<Rightarrow> v | None \<Rightarrow> CASRes_new, m\<lparr>CliRes_cas := None\<rparr>)\<rparr>"

abbreviation CliRes_clear_cas :: "CliRes \<Rightarrow> CliRes" where "CliRes_clear_cas \<equiv> field_clear CliRes_cas_field"
abbreviation CliRes_has_cas :: "CliRes \<Rightarrow> bool" where "CliRes_has_cas \<equiv> field_has CliRes_cas_field"
abbreviation CliRes_set_cas :: "CASRes \<Rightarrow> CliRes \<Rightarrow> CliRes" where "CliRes_set_cas \<equiv> field_set CliRes_cas_field"
abbreviation CliRes_mut_cas :: "(CASRes \<Rightarrow> CASRes) \<Rightarrow> CliRes \<Rightarrow> CliRes" where "CliRes_mut_cas \<equiv> field_mut CliRes_cas_field"
abbreviation CliRes_take_cas :: "CliRes \<Rightarrow> CASRes \<times> CliRes" where "CliRes_take_cas \<equiv> field_take CliRes_cas_field"
abbreviation CliRes_get_cas :: "CliRes \<Rightarrow> CASRes" where "CliRes_get_cas \<equiv> field_get CliRes_cas_field"

definition CliRes_del_field :: "(CliRes, DelRes) SingularField" where
  "CliRes_del_field =
     \<lparr>field_clear = \<lambda>m. m\<lparr>CliRes_del := None\<rparr>,
      field_set = \<lambda>v m. m\<lparr>CliRes_del := Some v\<rparr>,
      field_get = \<lambda>m. case CliRes_del m of Some v \<Rightarrow> v | None \<Rightarrow> DelRes_new,
      field_has = \<lambda>m. CliRes_del m \<noteq> None,
      field_mut = \<lambda>f m. let m' = (if CliRes_del m = None then m\<lparr>CliRes_del := Some DelRes_new\<rparr> else m)
         in m'\<lparr>CliRes_del := map_option f (CliRes_del m')\<rparr>,
      field_take = \<lambda>m. (case CliRes_del m of Some v \<Rightarrow> v | None \<Rightarrow> DelRes_new, m\<lparr>CliRes_del := None\<rparr>)\<rparr>"

abbreviation CliRes_clear_del :: "CliRes \<Rightarrow> CliRes" where "CliRes_clear_del \<equiv> field_clear CliRes_del_field"
abbreviation CliRes_has_del :: "CliRes \<Rightarrow> bool" where "CliRes_has_del \<equiv> field_has CliRes_del_field"
abbreviation CliRes_set_del :: "DelRes \<Rightarrow> CliRes \<Rightarrow> CliRes" where "CliRes_set_del \<equiv> field_set CliRes_del_field"
abbreviation CliRes_mut_del :: "(DelRes \<Rightarrow> DelRes) \<Rightarrow> CliRes \<Rightarrow> CliRes" where "CliRes_mut_del \<equiv> field_mut CliRes_del_field"
abbreviation CliRes_take_del :: "CliRes \<Rightarrow> DelRes \<times> CliRes" where "CliRes_take_del \<equiv> field_take CliRes_del_field"
abbreviation CliRes_get_del :: "CliRes \<Rightarrow> DelRes" where "CliRes_get_del \<equiv> field_get CliRes_del_field"

definition CliRes_watch_field :: "(CliRes, WatchRes) SingularField" where
  "CliRes_watch_field =
     \<lparr>field_clear = \<lambda>m. m\<lparr>CliRes_watch := None\<rparr>,
      field_set = \<lambda>v m. m\<lparr>CliRes_watch := Some v\<rparr>,
      field_get = \<lambda>m. case CliRes_watch m of Some v \<Rightarrow> v | None \<Rightarrow> WatchRes_new,
      field_has = \<lambda>m. CliRes_watch m \<noteq> None,
      field_mut = \<lambda>f m. let m' = (if CliRes_watch m = None then m\<lparr>CliRes_watch := Some WatchRes_new\<rparr> else m)
         in m'\<lparr>CliRes_watch := map_option f (CliRes_watch m')\<rparr>,
      field_take = \<lambda>m. (case CliRes_watch m of Some v \<Rightarrow> v | None \<Rightarrow> WatchRes_new, m\<lparr>CliRes_watch := None\<rparr>)\<rparr>"

abbreviation CliRes_clear_watch :: "CliRes \<Rightarrow> CliRes" where "CliRes_clear_watch \<equiv> field_clear CliRes_watch_field"
abbreviation CliRes_has_watch :: "CliRes \<Rightarrow> bool" where "CliRes_has_watch \<equiv> field_has CliRes_watch_field"
abbreviation CliRes_set_watch :: "WatchRes \<Rightarrow> CliRes \<Rightarrow> CliRes" where "CliRes_set_watch \<equiv> field_set CliRes_watch_field"
abbreviation CliRes_mut_watch :: "(WatchRes \<Rightarrow> WatchRes) \<Rightarrow> CliRes \<Rightarrow> CliRes" where "CliRes_mut_watch \<equiv> field_mut CliRes_watch_field"
abbreviation CliRes_take_watch :: "CliRes \<Rightarrow> WatchRes \<times> CliRes" where "CliRes_take_watch \<equiv> field_take CliRes_watch_field"
abbreviation CliRes_get_watch :: "CliRes \<Rightarrow> WatchRes" where "CliRes_get_watch \<equiv> field_get CliRes_watch_field"

definition CliRes_redirect_field :: "(CliRes, RedirectRes) SingularField" where
  "CliRes_redirect_field =
     \<lparr>field_clear = \<lambda>m. m\<lparr>CliRes_redirect := None\<rparr>,
      field_set = \<lambda>v m. m\<lparr>CliRes_redirect := Some v\<rparr>,
      field_get = \<lambda>m. case CliRes_redirect m of Some v \<Rightarrow> v | None \<Rightarrow> RedirectRes_new,
      field_has = \<lambda>m. CliRes_redirect m \<noteq> None,
      field_mut = \<lambda>f m. let m' = (if CliRes_redirect m = None then m\<lparr>CliRes_redirect := Some RedirectRes_new\<rparr> else m)
         in m'\<lparr>CliRes_redirect := map_option f (CliRes_redirect m')\<rparr>,
      field_take = \<lambda>m. (case CliRes_redirect m of Some v \<Rightarrow> v | None \<Rightarrow> RedirectRes_new, m\<lparr>CliRes_redirect := None\<rparr>)\<rparr>"

abbreviation CliRes_clear_redirect :: "CliRes \<Rightarrow> CliRes" where "CliRes_clear_redirect \<equiv> field_clear CliRes_redirect_field"
abbreviation CliRes_has_redirect :: "CliRes \<Rightarrow> bool" where "CliRes_has_redirect \<equiv> field_has CliRes_redirect_field"
abbreviation CliRes_set_redirect :: "RedirectRes \<Rightarrow> CliRes \<Rightarrow> CliRes" where "CliRes_set_redirect \<equiv> field_set CliRes_redirect_field"
abbreviation CliRes_mut_redirect :: "(RedirectRes \<Rightarrow> RedirectRes) \<Rightarrow> CliRes \<Rightarrow> CliRes" where "CliRes_mut_redirect \<equiv> field_mut CliRes_redirect_field"
abbreviation CliRes_take_redirect :: "CliRes \<Rightarrow> RedirectRes \<times> CliRes" where "CliRes_take_redirect \<equiv> field_take CliRes_redirect_field"
abbreviation CliRes_get_redirect :: "CliRes \<Rightarrow> RedirectRes" where "CliRes_get_redirect \<equiv> field_get CliRes_redirect_field"

definition CliRes_is_initialized :: "CliRes \<Rightarrow> bool" where
  "CliRes_is_initialized m =
     (if CliRes_req_id m = None then False
      else True)"

definition CliRes_clear :: "CliRes \<Rightarrow> CliRes" where
  "CliRes_clear m = (CliRes_clear_redirect (CliRes_clear_watch (CliRes_clear_del (CliRes_clear_cas (CliRes_clear_set (CliRes_clear_get (CliRes_clear_req_id m)))))))\<lparr>CliRes_unknown_fields := []\<rparr>"

definition CliRes_eq :: "CliRes \<Rightarrow> CliRes \<Rightarrow> bool" where
  "CliRes_eq a b \<longleftrightarrow>
     CliRes_req_id a = CliRes_req_id b \<and>
     rel_option GetRes_eq (CliRes_get a) (CliRes_get b) \<and>
     rel_option SetRes_eq (CliRes_set a) (CliRes_set b) \<and>
     rel_option CASRes_eq (CliRes_cas a) (CliRes_cas b) \<and>
     rel_option DelRes_eq (CliRes_del a) (CliRes_del b) \<and>
     rel_option WatchRes_eq (CliRes_watch a) (CliRes_watch b) \<and>
     rel_option RedirectRes_eq (CliRes_redirect a) (CliRes_redirect b) \<and>
     CliRes_unknown_fields a = CliRes_unknown_fields b"

lemmas CliRes_accessors [msg_accessors] =
  CliRes_req_id_field_def CliRes_get_field_def CliRes_set_field_def CliRes_cas_field_def
  CliRes_del_field_def CliRes_watch_field_def CliRes_redirect_field_def CliRes_new_def

section \<open>Field contracts and equality\<close>

interpretation SetReq_key: mutable_field SetReq_key_field "[]"
  by unfold_locales (auto simp: SetReq_accessors split: option.splits)

interpretation SetReq_value: mutable_field SetReq_value_field "[]"
  by unfold_locales (auto simp: SetReq_accessors split: option.splits)

interpretation SetRes_success: singular_field SetRes_success_field "False"
  by unfold_locales (auto simp: SetRes_accessors split: option.splits)

interpretation SetRes_txid: singular_field SetRes_txid_field "0"
  by unfold_locales (auto simp: SetRes_accessors split: option.splits)

interpretation SetRes_err: mutable_field SetRes_err_field "''''"
  by unfold_locales (auto simp: SetRes_accessors split: option.splits)

interpretation GetReq_key: mutable_field GetReq_key_field "[]"
  by unfold_locales (auto simp: GetReq_accessors split: option.splits)

interpretation GetRes_success: singular_field GetRes_success_field "False"
  by unfold_locales (auto simp: GetRes_accessors split: option.splits)

interpretation GetRes_txid: singular_field GetRes_txid_field "0"
  by unfold_locales (auto simp: GetRes_accessors split: option.splits)

interpretation GetRes_value: mutable_field GetRes_value_field "[]"
  by unfold_locales (auto simp: GetRes_accessors split: option.splits)

interpretation GetRes_err: mutable_field GetRes_err_field "''''"
  by unfold_locales (auto simp: GetRes_accessors split: option.splits)

interpretation CASReq_key: mutable_field CASReq_key_field "[]"
  by unfold_locales (auto simp: CASReq_accessors split: option.splits)

interpretation CASReq_new_value: mutable_field CASReq_new_value_field "[]"
  by unfold_locales (auto simp: CASReq_accessors split: option.splits)

interpretation CASReq_old_value: mutable_field CASReq_old_value_field "[]"
  by unfold_locales (auto simp: CASReq_accessors split: option.splits)

interpretation CASRes_success: singular_field CASRes_success_field "False"
  by unfold_locales (auto simp: CASRes_accessors split: option.splits)

interpretation CASRes_txid: singular_field CASRes_txid_field "0"
  by unfold_locales (auto simp: CASRes_accessors split: option.splits)

interpretation CASRes_value: mutable_field CASRes_value_field "[]"
  by unfold_locales (auto simp: CASRes_accessors split: option.splits)

interpretation CASRes_err: mutable_field CASRes_err_field "''''"
  by unfold_locales (auto simp: CASRes_accessors split: option.splits)

interpretation DelReq_key: mutable_field DelReq_key_field "[]"
  by unfold_locales (auto simp: DelReq_accessors split: option.splits)

interpretation DelRes_success: singular_field DelRes_success_field "False"
  by unfold_locales (auto simp: DelRes_accessors split: option.splits)

interpretation DelRes_txid: singular_field DelRes_txid_field "0"
  by unfold_locales (auto simp: DelRes_accessors split: option.splits)

interpretation DelRes_value: mutable_field DelRes_value_field "[]"
  by unfold_locales (auto simp: DelRes_accessors split: option.splits)

interpretation DelRes_err: mutable_field DelRes_err_field "''''"
  by unfold_locales (auto simp: DelRes_accessors split: option.splits)

interpretation WatchReq_key: mutable_field WatchReq_key_field "[]"
  by unfold_locales (auto simp: WatchReq_accessors split: option.splits)

interpretation WatchReq_last_txid: singular_field WatchReq_last_txid_field "0"
  by unfold_locales (auto simp: WatchReq_accessors split: option.splits)

interpretation WatchReq_recursive: singular_field WatchReq_recursive_field "False"
  by unfold_locales (auto simp: WatchReq_accessors split: option.splits)

interpretation WatchReq_historical: singular_field WatchReq_historical_field "False"
  by unfold_locales (auto simp: WatchReq_accessors split: option.splits)

interpretation WatchRes_success: singular_field WatchRes_success_field "False"
  by unfold_locales (auto simp: WatchRes_accessors split: option.splits)

interpretation WatchRes_err: mutable_field WatchRes_err_field "''''"
  by unfold_locales (auto simp: WatchRes_accessors split: option.splits)

interpretation RedirectRes_success: singular_field RedirectRes_success_field "False"
  by unfold_locales (auto simp: RedirectRes_accessors split: option.splits)

interpretation RedirectRes_address: mutable_field RedirectRes_address_field "''''"
  by unfold_locales (auto simp: RedirectRes_accessors split: option.splits)

interpretation RedirectRes_err: mutable_field RedirectRes_err_field "''''"
  by unfold_locales (auto simp: RedirectRes_accessors split: option.splits)

interpretation CliReq_req_id: singular_field CliReq_req_id_field "0"
  by unfold_locales (auto simp: CliReq_accessors split: option.splits)

interpretation CliReq_get: mutable_field CliReq_get_field "GetReq_new"
  by unfold_locales (auto simp: CliReq_accessors split: option.splits)

interpretation CliReq_set: mutable_field CliReq_set_field "SetReq_new"
  by unfold_locales (auto simp: CliReq_accessors split: option.splits)

interpretation CliReq_cas: mutable_field CliReq_cas_field "CASReq_new"
  by unfold_locales (auto simp: CliReq_accessors split: option.splits)

interpretation CliReq_del: mutable_field CliReq_del_field "DelReq_new"
  by unfold_locales (auto simp: CliReq_accessors split: option.splits)

interpretation CliReq_watch: mutable_field CliReq_watch_field "WatchReq_new"
  by unfold_locales (auto simp: CliReq_accessors split: option.splits)

interpretation CliRes_req_id: singular_field CliRes_req_id_field "0"
  by unfold_locales (auto simp: CliRes_accessors split: option.splits)

interpretation CliRes_get: mutable_field CliRes_get_field "GetRes_new"
  by unfold_locales (auto simp: CliRes_accessors split: option.splits)

interpretation CliRes_set: mutable_field CliRes_set_field "SetRes_new"
  by unfold_locales (auto simp: CliRes_accessors split: option.splits)

interpretation CliRes_cas: mutable_field CliRes_cas_field "CASRes_new"
  by unfold_locales (auto simp: CliRes_accessors split: option.splits)

interpretation CliRes_del: mutable_field CliRes_del_field "DelRes_new"
  by unfold_locales (auto simp: CliRes_accessors split: option.splits)

interpretation CliRes_watch: mutable_field CliRes_watch_field "WatchRes_new"
  by unfold_locales (auto simp: CliRes_accessors split: option.splits)

interpretation CliRes_redirect: mutable_field CliRes_redirect_field "RedirectRes_new"
  by unfold_locales (auto simp: CliRes_accessors split: option.splits)

lemma SetReq_eq_refl [simp]: "SetReq_eq m m"
  by (simp add: SetReq_eq_def option.rel_refl list.rel_refl)

lemma SetRes_eq_refl [simp]: "SetRes_eq m m"
  by (simp add: SetRes_eq_def option.rel_refl list.rel_refl)

lemma GetReq_eq_refl [simp]: "GetReq_eq m m"
  by (simp add: GetReq_eq_def option.rel_refl list.rel_refl)

lemma GetRes_eq_refl [simp]: "GetRes_eq m m"
  by (simp add: GetRes_eq_def option.rel_refl list.rel_refl)

lemma CASReq_eq_refl [simp]: "CASReq_eq m m"
  by (simp add: CASReq_eq_def option.rel_refl list.rel_refl)

lemma CASRes_eq_refl [simp]: "CASRes_eq m m"
  by (simp add: CASRes_eq_def option.rel_refl list.rel_refl)

lemma DelReq_eq_refl [simp]: "DelReq_eq m m"
  by (simp add: DelReq_eq_def option.rel_refl list.rel_refl)

lemma DelRes_eq_refl [simp]: "DelRes_eq m m"
  by (simp add: DelRes_eq_def option.rel_refl list.rel_refl)

lemma WatchReq_eq_refl [simp]: "WatchReq_eq m m"
  by (simp add: WatchReq_eq_def option.rel_refl list.rel_refl)

lemma WatchRes_eq_refl [simp]: "WatchRes_eq m m"
  by (simp add: WatchRes_eq_def option.rel_refl list.rel_refl)

lemma RedirectRes_eq_refl [simp]: "RedirectRes_eq m m"
  by (simp add: RedirectRes_eq_def option.rel_refl list.rel_refl)

lemma CliReq_eq_refl [simp]: "CliReq_eq m m"
  by (simp add: CliReq_eq_def option.rel_refl list.rel_refl)

lemma CliRes_eq_refl [simp]: "CliRes_eq m m"
  by (simp add: CliRes_eq_def option.rel_refl list.rel_refl)

end
