(* ===== verification/Msg_Peer.thy ===== *)
theory Msg_Peer
  imports Msg_Log
begin

text \<open>
  \<^verbatim>\<open>serialization.rs\<close>, the messages between servers: votes, appends, their responses and the
  envelope \<^verbatim>\<open>PeerMsg\<close>.
\<close>

section \<open>Messages\<close>

subsection \<open>VoteReq\<close>

record VoteReq =
  VoteReq_term :: "u64 option"
  VoteReq_last_learned_term :: "u64 option"
  VoteReq_last_learned_txid :: "u64 option"
  VoteReq_last_accepted_term :: "u64 option"
  VoteReq_last_accepted_txid :: "u64 option"
  VoteReq_unknown_fields :: UnknownFields
  VoteReq_cached_size :: u32

definition VoteReq_new :: VoteReq where
  "VoteReq_new =
     \<lparr>VoteReq_term = None, VoteReq_last_learned_term = None, VoteReq_last_learned_txid = None, VoteReq_last_accepted_term = None, VoteReq_last_accepted_txid = None,
      VoteReq_unknown_fields = [], VoteReq_cached_size = 0\<rparr>"

definition VoteReq_term_field :: "(VoteReq, u64) ScalarField" where
  "VoteReq_term_field =
     \<lparr>field_clear = \<lambda>m. m\<lparr>VoteReq_term := None\<rparr>,
      field_set = \<lambda>v m. m\<lparr>VoteReq_term := Some v\<rparr>,
      field_get = \<lambda>m. case VoteReq_term m of Some v \<Rightarrow> v | None \<Rightarrow> 0,
      field_has = \<lambda>m. VoteReq_term m \<noteq> None\<rparr>"

abbreviation VoteReq_clear_term :: "VoteReq \<Rightarrow> VoteReq" where "VoteReq_clear_term \<equiv> field_clear VoteReq_term_field"
abbreviation VoteReq_has_term :: "VoteReq \<Rightarrow> bool" where "VoteReq_has_term \<equiv> field_has VoteReq_term_field"
abbreviation VoteReq_set_term :: "u64 \<Rightarrow> VoteReq \<Rightarrow> VoteReq" where "VoteReq_set_term \<equiv> field_set VoteReq_term_field"
abbreviation VoteReq_get_term :: "VoteReq \<Rightarrow> u64" where "VoteReq_get_term \<equiv> field_get VoteReq_term_field"

definition VoteReq_last_learned_term_field :: "(VoteReq, u64) ScalarField" where
  "VoteReq_last_learned_term_field =
     \<lparr>field_clear = \<lambda>m. m\<lparr>VoteReq_last_learned_term := None\<rparr>,
      field_set = \<lambda>v m. m\<lparr>VoteReq_last_learned_term := Some v\<rparr>,
      field_get = \<lambda>m. case VoteReq_last_learned_term m of Some v \<Rightarrow> v | None \<Rightarrow> 0,
      field_has = \<lambda>m. VoteReq_last_learned_term m \<noteq> None\<rparr>"

abbreviation VoteReq_clear_last_learned_term :: "VoteReq \<Rightarrow> VoteReq" where "VoteReq_clear_last_learned_term \<equiv> field_clear VoteReq_last_learned_term_field"
abbreviation VoteReq_has_last_learned_term :: "VoteReq \<Rightarrow> bool" where "VoteReq_has_last_learned_term \<equiv> field_has VoteReq_last_learned_term_field"
abbreviation VoteReq_set_last_learned_term :: "u64 \<Rightarrow> VoteReq \<Rightarrow> VoteReq" where "VoteReq_set_last_learned_term \<equiv> field_set VoteReq_last_learned_term_field"
abbreviation VoteReq_get_last_learned_term :: "VoteReq \<Rightarrow> u64" where "VoteReq_get_last_learned_term \<equiv> field_get VoteReq_last_learned_term_field"

definition VoteReq_last_learned_txid_field :: "(VoteReq, u64) ScalarField" where
  "VoteReq_last_learned_txid_field =
     \<lparr>field_clear = \<lambda>m. m\<lparr>VoteReq_last_learned_txid := None\<rparr>,
      field_set = \<lambda>v m. m\<lparr>VoteReq_last_learned_txid := Some v\<rparr>,
      field_get = \<lambda>m. case VoteReq_last_learned_txid m of Some v \<Rightarrow> v | None \<Rightarrow> 0,
      field_has = \<lambda>m. VoteReq_last_learned_txid m \<noteq> None\<rparr>"

abbreviation VoteReq_clear_last_learned_txid :: "VoteReq \<Rightarrow> VoteReq" where "VoteReq_clear_last_learned_txid \<equiv> field_clear VoteReq_last_learned_txid_field"
abbreviation VoteReq_has_last_learned_txid :: "VoteReq \<Rightarrow> bool" where "VoteReq_has_last_learned_txid \<equiv> field_has VoteReq_last_learned_txid_field"
abbreviation VoteReq_set_last_learned_txid :: "u64 \<Rightarrow> VoteReq \<Rightarrow> VoteReq" where "VoteReq_set_last_learned_txid \<equiv> field_set VoteReq_last_learned_txid_field"
abbreviation VoteReq_get_last_learned_txid :: "VoteReq \<Rightarrow> u64" where "VoteReq_get_last_learned_txid \<equiv> field_get VoteReq_last_learned_txid_field"

definition VoteReq_last_accepted_term_field :: "(VoteReq, u64) ScalarField" where
  "VoteReq_last_accepted_term_field =
     \<lparr>field_clear = \<lambda>m. m\<lparr>VoteReq_last_accepted_term := None\<rparr>,
      field_set = \<lambda>v m. m\<lparr>VoteReq_last_accepted_term := Some v\<rparr>,
      field_get = \<lambda>m. case VoteReq_last_accepted_term m of Some v \<Rightarrow> v | None \<Rightarrow> 0,
      field_has = \<lambda>m. VoteReq_last_accepted_term m \<noteq> None\<rparr>"

abbreviation VoteReq_clear_last_accepted_term :: "VoteReq \<Rightarrow> VoteReq" where "VoteReq_clear_last_accepted_term \<equiv> field_clear VoteReq_last_accepted_term_field"
abbreviation VoteReq_has_last_accepted_term :: "VoteReq \<Rightarrow> bool" where "VoteReq_has_last_accepted_term \<equiv> field_has VoteReq_last_accepted_term_field"
abbreviation VoteReq_set_last_accepted_term :: "u64 \<Rightarrow> VoteReq \<Rightarrow> VoteReq" where "VoteReq_set_last_accepted_term \<equiv> field_set VoteReq_last_accepted_term_field"
abbreviation VoteReq_get_last_accepted_term :: "VoteReq \<Rightarrow> u64" where "VoteReq_get_last_accepted_term \<equiv> field_get VoteReq_last_accepted_term_field"

definition VoteReq_last_accepted_txid_field :: "(VoteReq, u64) ScalarField" where
  "VoteReq_last_accepted_txid_field =
     \<lparr>field_clear = \<lambda>m. m\<lparr>VoteReq_last_accepted_txid := None\<rparr>,
      field_set = \<lambda>v m. m\<lparr>VoteReq_last_accepted_txid := Some v\<rparr>,
      field_get = \<lambda>m. case VoteReq_last_accepted_txid m of Some v \<Rightarrow> v | None \<Rightarrow> 0,
      field_has = \<lambda>m. VoteReq_last_accepted_txid m \<noteq> None\<rparr>"

abbreviation VoteReq_clear_last_accepted_txid :: "VoteReq \<Rightarrow> VoteReq" where "VoteReq_clear_last_accepted_txid \<equiv> field_clear VoteReq_last_accepted_txid_field"
abbreviation VoteReq_has_last_accepted_txid :: "VoteReq \<Rightarrow> bool" where "VoteReq_has_last_accepted_txid \<equiv> field_has VoteReq_last_accepted_txid_field"
abbreviation VoteReq_set_last_accepted_txid :: "u64 \<Rightarrow> VoteReq \<Rightarrow> VoteReq" where "VoteReq_set_last_accepted_txid \<equiv> field_set VoteReq_last_accepted_txid_field"
abbreviation VoteReq_get_last_accepted_txid :: "VoteReq \<Rightarrow> u64" where "VoteReq_get_last_accepted_txid \<equiv> field_get VoteReq_last_accepted_txid_field"

definition VoteReq_is_initialized :: "VoteReq \<Rightarrow> bool" where
  "VoteReq_is_initialized m =
     (if VoteReq_term m = None then False
      else if VoteReq_last_learned_term m = None then False
      else if VoteReq_last_learned_txid m = None then False
      else if VoteReq_last_accepted_term m = None then False
      else if VoteReq_last_accepted_txid m = None then False
      else True)"

definition VoteReq_clear :: "VoteReq \<Rightarrow> VoteReq" where
  "VoteReq_clear m = (VoteReq_clear_last_accepted_txid (VoteReq_clear_last_accepted_term (VoteReq_clear_last_learned_txid (VoteReq_clear_last_learned_term (VoteReq_clear_term m)))))\<lparr>VoteReq_unknown_fields := []\<rparr>"

definition VoteReq_eq :: "VoteReq \<Rightarrow> VoteReq \<Rightarrow> bool" where
  "VoteReq_eq a b \<longleftrightarrow>
     VoteReq_term a = VoteReq_term b \<and>
     VoteReq_last_learned_term a = VoteReq_last_learned_term b \<and>
     VoteReq_last_learned_txid a = VoteReq_last_learned_txid b \<and>
     VoteReq_last_accepted_term a = VoteReq_last_accepted_term b \<and>
     VoteReq_last_accepted_txid a = VoteReq_last_accepted_txid b \<and>
     VoteReq_unknown_fields a = VoteReq_unknown_fields b"

lemmas VoteReq_accessors [msg_accessors] =
  VoteReq_term_field_def VoteReq_last_learned_term_field_def VoteReq_last_learned_txid_field_def
  VoteReq_last_accepted_term_field_def VoteReq_last_accepted_txid_field_def VoteReq_new_def

subsection \<open>VoteRes\<close>

record VoteRes =
  VoteRes_success :: "bool option"
  VoteRes_term :: "u64 option"
  VoteRes_unknown_fields :: UnknownFields
  VoteRes_cached_size :: u32

definition VoteRes_new :: VoteRes where
  "VoteRes_new =
     \<lparr>VoteRes_success = None, VoteRes_term = None,
      VoteRes_unknown_fields = [], VoteRes_cached_size = 0\<rparr>"

definition VoteRes_success_field :: "(VoteRes, bool) ScalarField" where
  "VoteRes_success_field =
     \<lparr>field_clear = \<lambda>m. m\<lparr>VoteRes_success := None\<rparr>,
      field_set = \<lambda>v m. m\<lparr>VoteRes_success := Some v\<rparr>,
      field_get = \<lambda>m. case VoteRes_success m of Some v \<Rightarrow> v | None \<Rightarrow> False,
      field_has = \<lambda>m. VoteRes_success m \<noteq> None\<rparr>"

abbreviation VoteRes_clear_success :: "VoteRes \<Rightarrow> VoteRes" where "VoteRes_clear_success \<equiv> field_clear VoteRes_success_field"
abbreviation VoteRes_has_success :: "VoteRes \<Rightarrow> bool" where "VoteRes_has_success \<equiv> field_has VoteRes_success_field"
abbreviation VoteRes_set_success :: "bool \<Rightarrow> VoteRes \<Rightarrow> VoteRes" where "VoteRes_set_success \<equiv> field_set VoteRes_success_field"
abbreviation VoteRes_get_success :: "VoteRes \<Rightarrow> bool" where "VoteRes_get_success \<equiv> field_get VoteRes_success_field"

definition VoteRes_term_field :: "(VoteRes, u64) ScalarField" where
  "VoteRes_term_field =
     \<lparr>field_clear = \<lambda>m. m\<lparr>VoteRes_term := None\<rparr>,
      field_set = \<lambda>v m. m\<lparr>VoteRes_term := Some v\<rparr>,
      field_get = \<lambda>m. case VoteRes_term m of Some v \<Rightarrow> v | None \<Rightarrow> 0,
      field_has = \<lambda>m. VoteRes_term m \<noteq> None\<rparr>"

abbreviation VoteRes_clear_term :: "VoteRes \<Rightarrow> VoteRes" where "VoteRes_clear_term \<equiv> field_clear VoteRes_term_field"
abbreviation VoteRes_has_term :: "VoteRes \<Rightarrow> bool" where "VoteRes_has_term \<equiv> field_has VoteRes_term_field"
abbreviation VoteRes_set_term :: "u64 \<Rightarrow> VoteRes \<Rightarrow> VoteRes" where "VoteRes_set_term \<equiv> field_set VoteRes_term_field"
abbreviation VoteRes_get_term :: "VoteRes \<Rightarrow> u64" where "VoteRes_get_term \<equiv> field_get VoteRes_term_field"

definition VoteRes_is_initialized :: "VoteRes \<Rightarrow> bool" where
  "VoteRes_is_initialized m =
     (if VoteRes_success m = None then False
      else if VoteRes_term m = None then False
      else True)"

definition VoteRes_clear :: "VoteRes \<Rightarrow> VoteRes" where
  "VoteRes_clear m = (VoteRes_clear_term (VoteRes_clear_success m))\<lparr>VoteRes_unknown_fields := []\<rparr>"

definition VoteRes_eq :: "VoteRes \<Rightarrow> VoteRes \<Rightarrow> bool" where
  "VoteRes_eq a b \<longleftrightarrow>
     VoteRes_success a = VoteRes_success b \<and>
     VoteRes_term a = VoteRes_term b \<and>
     VoteRes_unknown_fields a = VoteRes_unknown_fields b"

lemmas VoteRes_accessors [msg_accessors] =
  VoteRes_success_field_def VoteRes_term_field_def VoteRes_new_def

subsection \<open>Append\<close>

record Append =
  Append_from_txid :: "u64 option"
  Append_from_term :: "u64 option"
  Append_batch :: "Mutation list"
  Append_last_learned_txid :: "u64 option"
  Append_unknown_fields :: UnknownFields
  Append_cached_size :: u32

definition Append_new :: Append where
  "Append_new =
     \<lparr>Append_from_txid = None, Append_from_term = None, Append_batch = [], Append_last_learned_txid = None,
      Append_unknown_fields = [], Append_cached_size = 0\<rparr>"

definition Append_from_txid_field :: "(Append, u64) ScalarField" where
  "Append_from_txid_field =
     \<lparr>field_clear = \<lambda>m. m\<lparr>Append_from_txid := None\<rparr>,
      field_set = \<lambda>v m. m\<lparr>Append_from_txid := Some v\<rparr>,
      field_get = \<lambda>m. case Append_from_txid m of Some v \<Rightarrow> v | None \<Rightarrow> 0,
      field_has = \<lambda>m. Append_from_txid m \<noteq> None\<rparr>"

abbreviation Append_clear_from_txid :: "Append \<Rightarrow> Append" where "Append_clear_from_txid \<equiv> field_clear Append_from_txid_field"
abbreviation Append_has_from_txid :: "Append \<Rightarrow> bool" where "Append_has_from_txid \<equiv> field_has Append_from_txid_field"
abbreviation Append_set_from_txid :: "u64 \<Rightarrow> Append \<Rightarrow> Append" where "Append_set_from_txid \<equiv> field_set Append_from_txid_field"
abbreviation Append_get_from_txid :: "Append \<Rightarrow> u64" where "Append_get_from_txid \<equiv> field_get Append_from_txid_field"

definition Append_from_term_field :: "(Append, u64) ScalarField" where
  "Append_from_term_field =
     \<lparr>field_clear = \<lambda>m. m\<lparr>Append_from_term := None\<rparr>,
      field_set = \<lambda>v m. m\<lparr>Append_from_term := Some v\<rparr>,
      field_get = \<lambda>m. case Append_from_term m of Some v \<Rightarrow> v | None \<Rightarrow> 0,
      field_has = \<lambda>m. Append_from_term m \<noteq> None\<rparr>"

abbreviation Append_clear_from_term :: "Append \<Rightarrow> Append" where "Append_clear_from_term \<equiv> field_clear Append_from_term_field"
abbreviation Append_has_from_term :: "Append \<Rightarrow> bool" where "Append_has_from_term \<equiv> field_has Append_from_term_field"
abbreviation Append_set_from_term :: "u64 \<Rightarrow> Append \<Rightarrow> Append" where "Append_set_from_term \<equiv> field_set Append_from_term_field"
abbreviation Append_get_from_term :: "Append \<Rightarrow> u64" where "Append_get_from_term \<equiv> field_get Append_from_term_field"

definition Append_batch_field :: "(Append, Mutation list) RepeatedField" where
  "Append_batch_field =
     \<lparr>field_clear = \<lambda>m. m\<lparr>Append_batch := []\<rparr>,
      field_set = \<lambda>v m. m\<lparr>Append_batch := v\<rparr>,
      field_get = \<lambda>m. Append_batch m,
      rep_mut = \<lambda>f m. m\<lparr>Append_batch := f (Append_batch m)\<rparr>,
      rep_take = \<lambda>m. (Append_batch m, m\<lparr>Append_batch := []\<rparr>)\<rparr>"

abbreviation Append_clear_batch :: "Append \<Rightarrow> Append" where "Append_clear_batch \<equiv> field_clear Append_batch_field"
abbreviation Append_set_batch :: "Mutation list \<Rightarrow> Append \<Rightarrow> Append" where "Append_set_batch \<equiv> field_set Append_batch_field"
abbreviation Append_mut_batch :: "(Mutation list \<Rightarrow> Mutation list) \<Rightarrow> Append \<Rightarrow> Append" where "Append_mut_batch \<equiv> rep_mut Append_batch_field"
abbreviation Append_take_batch :: "Append \<Rightarrow> Mutation list \<times> Append" where "Append_take_batch \<equiv> rep_take Append_batch_field"
abbreviation Append_get_batch :: "Append \<Rightarrow> Mutation list" where "Append_get_batch \<equiv> field_get Append_batch_field"

definition Append_last_learned_txid_field :: "(Append, u64) ScalarField" where
  "Append_last_learned_txid_field =
     \<lparr>field_clear = \<lambda>m. m\<lparr>Append_last_learned_txid := None\<rparr>,
      field_set = \<lambda>v m. m\<lparr>Append_last_learned_txid := Some v\<rparr>,
      field_get = \<lambda>m. case Append_last_learned_txid m of Some v \<Rightarrow> v | None \<Rightarrow> 0,
      field_has = \<lambda>m. Append_last_learned_txid m \<noteq> None\<rparr>"

abbreviation Append_clear_last_learned_txid :: "Append \<Rightarrow> Append" where "Append_clear_last_learned_txid \<equiv> field_clear Append_last_learned_txid_field"
abbreviation Append_has_last_learned_txid :: "Append \<Rightarrow> bool" where "Append_has_last_learned_txid \<equiv> field_has Append_last_learned_txid_field"
abbreviation Append_set_last_learned_txid :: "u64 \<Rightarrow> Append \<Rightarrow> Append" where "Append_set_last_learned_txid \<equiv> field_set Append_last_learned_txid_field"
abbreviation Append_get_last_learned_txid :: "Append \<Rightarrow> u64" where "Append_get_last_learned_txid \<equiv> field_get Append_last_learned_txid_field"

definition Append_is_initialized :: "Append \<Rightarrow> bool" where
  "Append_is_initialized m =
     (if Append_from_txid m = None then False
      else if Append_from_term m = None then False
      else if Append_last_learned_txid m = None then False
      else True)"

definition Append_clear :: "Append \<Rightarrow> Append" where
  "Append_clear m = (Append_clear_last_learned_txid (Append_clear_batch (Append_clear_from_term (Append_clear_from_txid m))))\<lparr>Append_unknown_fields := []\<rparr>"

definition Append_eq :: "Append \<Rightarrow> Append \<Rightarrow> bool" where
  "Append_eq a b \<longleftrightarrow>
     Append_from_txid a = Append_from_txid b \<and>
     Append_from_term a = Append_from_term b \<and>
     list_all2 Mutation_eq (Append_batch a) (Append_batch b) \<and>
     Append_last_learned_txid a = Append_last_learned_txid b \<and>
     Append_unknown_fields a = Append_unknown_fields b"

lemmas Append_accessors [msg_accessors] =
  Append_from_txid_field_def Append_from_term_field_def Append_batch_field_def
  Append_last_learned_txid_field_def Append_new_def

subsection \<open>AppendRes\<close>

record AppendRes =
  AppendRes_accepted :: "bool option"
  AppendRes_last_accepted_txid :: "u64 option"
  AppendRes_last_accepted_term :: "u64 option"
  AppendRes_unknown_fields :: UnknownFields
  AppendRes_cached_size :: u32

definition AppendRes_new :: AppendRes where
  "AppendRes_new =
     \<lparr>AppendRes_accepted = None, AppendRes_last_accepted_txid = None, AppendRes_last_accepted_term = None,
      AppendRes_unknown_fields = [], AppendRes_cached_size = 0\<rparr>"

definition AppendRes_accepted_field :: "(AppendRes, bool) ScalarField" where
  "AppendRes_accepted_field =
     \<lparr>field_clear = \<lambda>m. m\<lparr>AppendRes_accepted := None\<rparr>,
      field_set = \<lambda>v m. m\<lparr>AppendRes_accepted := Some v\<rparr>,
      field_get = \<lambda>m. case AppendRes_accepted m of Some v \<Rightarrow> v | None \<Rightarrow> False,
      field_has = \<lambda>m. AppendRes_accepted m \<noteq> None\<rparr>"

abbreviation AppendRes_clear_accepted :: "AppendRes \<Rightarrow> AppendRes" where "AppendRes_clear_accepted \<equiv> field_clear AppendRes_accepted_field"
abbreviation AppendRes_has_accepted :: "AppendRes \<Rightarrow> bool" where "AppendRes_has_accepted \<equiv> field_has AppendRes_accepted_field"
abbreviation AppendRes_set_accepted :: "bool \<Rightarrow> AppendRes \<Rightarrow> AppendRes" where "AppendRes_set_accepted \<equiv> field_set AppendRes_accepted_field"
abbreviation AppendRes_get_accepted :: "AppendRes \<Rightarrow> bool" where "AppendRes_get_accepted \<equiv> field_get AppendRes_accepted_field"

definition AppendRes_last_accepted_txid_field :: "(AppendRes, u64) ScalarField" where
  "AppendRes_last_accepted_txid_field =
     \<lparr>field_clear = \<lambda>m. m\<lparr>AppendRes_last_accepted_txid := None\<rparr>,
      field_set = \<lambda>v m. m\<lparr>AppendRes_last_accepted_txid := Some v\<rparr>,
      field_get = \<lambda>m. case AppendRes_last_accepted_txid m of Some v \<Rightarrow> v | None \<Rightarrow> 0,
      field_has = \<lambda>m. AppendRes_last_accepted_txid m \<noteq> None\<rparr>"

abbreviation AppendRes_clear_last_accepted_txid :: "AppendRes \<Rightarrow> AppendRes" where "AppendRes_clear_last_accepted_txid \<equiv> field_clear AppendRes_last_accepted_txid_field"
abbreviation AppendRes_has_last_accepted_txid :: "AppendRes \<Rightarrow> bool" where "AppendRes_has_last_accepted_txid \<equiv> field_has AppendRes_last_accepted_txid_field"
abbreviation AppendRes_set_last_accepted_txid :: "u64 \<Rightarrow> AppendRes \<Rightarrow> AppendRes" where "AppendRes_set_last_accepted_txid \<equiv> field_set AppendRes_last_accepted_txid_field"
abbreviation AppendRes_get_last_accepted_txid :: "AppendRes \<Rightarrow> u64" where "AppendRes_get_last_accepted_txid \<equiv> field_get AppendRes_last_accepted_txid_field"

definition AppendRes_last_accepted_term_field :: "(AppendRes, u64) ScalarField" where
  "AppendRes_last_accepted_term_field =
     \<lparr>field_clear = \<lambda>m. m\<lparr>AppendRes_last_accepted_term := None\<rparr>,
      field_set = \<lambda>v m. m\<lparr>AppendRes_last_accepted_term := Some v\<rparr>,
      field_get = \<lambda>m. case AppendRes_last_accepted_term m of Some v \<Rightarrow> v | None \<Rightarrow> 0,
      field_has = \<lambda>m. AppendRes_last_accepted_term m \<noteq> None\<rparr>"

abbreviation AppendRes_clear_last_accepted_term :: "AppendRes \<Rightarrow> AppendRes" where "AppendRes_clear_last_accepted_term \<equiv> field_clear AppendRes_last_accepted_term_field"
abbreviation AppendRes_has_last_accepted_term :: "AppendRes \<Rightarrow> bool" where "AppendRes_has_last_accepted_term \<equiv> field_has AppendRes_last_accepted_term_field"
abbreviation AppendRes_set_last_accepted_term :: "u64 \<Rightarrow> AppendRes \<Rightarrow> AppendRes" where "AppendRes_set_last_accepted_term \<equiv> field_set AppendRes_last_accepted_term_field"
abbreviation AppendRes_get_last_accepted_term :: "AppendRes \<Rightarrow> u64" where "AppendRes_get_last_accepted_term \<equiv> field_get AppendRes_last_accepted_term_field"

definition AppendRes_is_initialized :: "AppendRes \<Rightarrow> bool" where
  "AppendRes_is_initialized m =
     (if AppendRes_accepted m = None then False
      else True)"

definition AppendRes_clear :: "AppendRes \<Rightarrow> AppendRes" where
  "AppendRes_clear m = (AppendRes_clear_last_accepted_term (AppendRes_clear_last_accepted_txid (AppendRes_clear_accepted m)))\<lparr>AppendRes_unknown_fields := []\<rparr>"

definition AppendRes_eq :: "AppendRes \<Rightarrow> AppendRes \<Rightarrow> bool" where
  "AppendRes_eq a b \<longleftrightarrow>
     AppendRes_accepted a = AppendRes_accepted b \<and>
     AppendRes_last_accepted_txid a = AppendRes_last_accepted_txid b \<and>
     AppendRes_last_accepted_term a = AppendRes_last_accepted_term b \<and>
     AppendRes_unknown_fields a = AppendRes_unknown_fields b"

lemmas AppendRes_accessors [msg_accessors] =
  AppendRes_accepted_field_def AppendRes_last_accepted_txid_field_def
  AppendRes_last_accepted_term_field_def AppendRes_new_def

subsection \<open>PeerMsg\<close>

record PeerMsg =
  PeerMsg_srvid :: "string option"
  PeerMsg_vote_req :: "VoteReq option"
  PeerMsg_vote_res :: "VoteRes option"
  PeerMsg_append :: "Append option"
  PeerMsg_append_res :: "AppendRes option"
  PeerMsg_unknown_fields :: UnknownFields
  PeerMsg_cached_size :: u32

definition PeerMsg_new :: PeerMsg where
  "PeerMsg_new =
     \<lparr>PeerMsg_srvid = None, PeerMsg_vote_req = None, PeerMsg_vote_res = None, PeerMsg_append = None, PeerMsg_append_res = None,
      PeerMsg_unknown_fields = [], PeerMsg_cached_size = 0\<rparr>"

definition PeerMsg_srvid_field :: "(PeerMsg, string) SingularField" where
  "PeerMsg_srvid_field =
     \<lparr>field_clear = \<lambda>m. m\<lparr>PeerMsg_srvid := None\<rparr>,
      field_set = \<lambda>v m. m\<lparr>PeerMsg_srvid := Some v\<rparr>,
      field_get = \<lambda>m. case PeerMsg_srvid m of Some v \<Rightarrow> v | None \<Rightarrow> '''',
      field_has = \<lambda>m. PeerMsg_srvid m \<noteq> None,
      field_mut = \<lambda>f m. let m' = (if PeerMsg_srvid m = None then m\<lparr>PeerMsg_srvid := Some ''''\<rparr> else m)
         in m'\<lparr>PeerMsg_srvid := map_option f (PeerMsg_srvid m')\<rparr>,
      field_take = \<lambda>m. (case PeerMsg_srvid m of Some v \<Rightarrow> v | None \<Rightarrow> '''', m\<lparr>PeerMsg_srvid := None\<rparr>)\<rparr>"

abbreviation PeerMsg_clear_srvid :: "PeerMsg \<Rightarrow> PeerMsg" where "PeerMsg_clear_srvid \<equiv> field_clear PeerMsg_srvid_field"
abbreviation PeerMsg_has_srvid :: "PeerMsg \<Rightarrow> bool" where "PeerMsg_has_srvid \<equiv> field_has PeerMsg_srvid_field"
abbreviation PeerMsg_set_srvid :: "string \<Rightarrow> PeerMsg \<Rightarrow> PeerMsg" where "PeerMsg_set_srvid \<equiv> field_set PeerMsg_srvid_field"
abbreviation PeerMsg_mut_srvid :: "(string \<Rightarrow> string) \<Rightarrow> PeerMsg \<Rightarrow> PeerMsg" where "PeerMsg_mut_srvid \<equiv> field_mut PeerMsg_srvid_field"
abbreviation PeerMsg_take_srvid :: "PeerMsg \<Rightarrow> string \<times> PeerMsg" where "PeerMsg_take_srvid \<equiv> field_take PeerMsg_srvid_field"
abbreviation PeerMsg_get_srvid :: "PeerMsg \<Rightarrow> string" where "PeerMsg_get_srvid \<equiv> field_get PeerMsg_srvid_field"

definition PeerMsg_vote_req_field :: "(PeerMsg, VoteReq) SingularField" where
  "PeerMsg_vote_req_field =
     \<lparr>field_clear = \<lambda>m. m\<lparr>PeerMsg_vote_req := None\<rparr>,
      field_set = \<lambda>v m. m\<lparr>PeerMsg_vote_req := Some v\<rparr>,
      field_get = \<lambda>m. case PeerMsg_vote_req m of Some v \<Rightarrow> v | None \<Rightarrow> VoteReq_new,
      field_has = \<lambda>m. PeerMsg_vote_req m \<noteq> None,
      field_mut = \<lambda>f m. let m' = (if PeerMsg_vote_req m = None then m\<lparr>PeerMsg_vote_req := Some VoteReq_new\<rparr> else m)
         in m'\<lparr>PeerMsg_vote_req := map_option f (PeerMsg_vote_req m')\<rparr>,
      field_take = \<lambda>m. (case PeerMsg_vote_req m of Some v \<Rightarrow> v | None \<Rightarrow> VoteReq_new, m\<lparr>PeerMsg_vote_req := None\<rparr>)\<rparr>"

abbreviation PeerMsg_clear_vote_req :: "PeerMsg \<Rightarrow> PeerMsg" where "PeerMsg_clear_vote_req \<equiv> field_clear PeerMsg_vote_req_field"
abbreviation PeerMsg_has_vote_req :: "PeerMsg \<Rightarrow> bool" where "PeerMsg_has_vote_req \<equiv> field_has PeerMsg_vote_req_field"
abbreviation PeerMsg_set_vote_req :: "VoteReq \<Rightarrow> PeerMsg \<Rightarrow> PeerMsg" where "PeerMsg_set_vote_req \<equiv> field_set PeerMsg_vote_req_field"
abbreviation PeerMsg_mut_vote_req :: "(VoteReq \<Rightarrow> VoteReq) \<Rightarrow> PeerMsg \<Rightarrow> PeerMsg" where "PeerMsg_mut_vote_req \<equiv> field_mut PeerMsg_vote_req_field"
abbreviation PeerMsg_take_vote_req :: "PeerMsg \<Rightarrow> VoteReq \<times> PeerMsg" where "PeerMsg_take_vote_req \<equiv> field_take PeerMsg_vote_req_field"
abbreviation PeerMsg_get_vote_req :: "PeerMsg \<Rightarrow> VoteReq" where "PeerMsg_get_vote_req \<equiv> field_get PeerMsg_vote_req_field"

definition PeerMsg_vote_res_field :: "(PeerMsg, VoteRes) SingularField" where
  "PeerMsg_vote_res_field =
     \<lparr>field_clear = \<lambda>m. m\<lparr>PeerMsg_vote_res := None\<rparr>,
      field_set = \<lambda>v m. m\<lparr>PeerMsg_vote_res := Some v\<rparr>,
      field_get = \<lambda>m. case PeerMsg_vote_res m of Some v \<Rightarrow> v | None \<Rightarrow> VoteRes_new,
      field_has = \<lambda>m. PeerMsg_vote_res m \<noteq> None,
      field_mut = \<lambda>f m. let m' = (if PeerMsg_vote_res m = None then m\<lparr>PeerMsg_vote_res := Some VoteRes_new\<rparr> else m)
         in m'\<lparr>PeerMsg_vote_res := map_option f (PeerMsg_vote_res m')\<rparr>,
      field_take = \<lambda>m. (case PeerMsg_vote_res m of Some v \<Rightarrow> v | None \<Rightarrow> VoteRes_new, m\<lparr>PeerMsg_vote_res := None\<rparr>)\<rparr>"

abbreviation PeerMsg_clear_vote_res :: "PeerMsg \<Rightarrow> PeerMsg" where "PeerMsg_clear_vote_res \<equiv> field_clear PeerMsg_vote_res_field"
abbreviation PeerMsg_has_vote_res :: "PeerMsg \<Rightarrow> bool" where "PeerMsg_has_vote_res \<equiv> field_has PeerMsg_vote_res_field"
abbreviation PeerMsg_set_vote_res :: "VoteRes \<Rightarrow> PeerMsg \<Rightarrow> PeerMsg" where "PeerMsg_set_vote_res \<equiv> field_set PeerMsg_vote_res_field"
abbreviation PeerMsg_mut_vote_res :: "(VoteRes \<Rightarrow> VoteRes) \<Rightarrow> PeerMsg \<Rightarrow> PeerMsg" where "PeerMsg_mut_vote_res \<equiv> field_mut PeerMsg_vote_res_field"
abbreviation PeerMsg_take_vote_res :: "PeerMsg \<Rightarrow> VoteRes \<times> PeerMsg" where "PeerMsg_take_vote_res \<equiv> field_take PeerMsg_vote_res_field"
abbreviation PeerMsg_get_vote_res :: "PeerMsg \<Rightarrow> VoteRes" where "PeerMsg_get_vote_res \<equiv> field_get PeerMsg_vote_res_field"

definition PeerMsg_append_field :: "(PeerMsg, Append) SingularField" where
  "PeerMsg_append_field =
     \<lparr>field_clear = \<lambda>m. m\<lparr>PeerMsg_append := None\<rparr>,
      field_set = \<lambda>v m. m\<lparr>PeerMsg_append := Some v\<rparr>,
      field_get = \<lambda>m. case PeerMsg_append m of Some v \<Rightarrow> v | None \<Rightarrow> Append_new,
      field_has = \<lambda>m. PeerMsg_append m \<noteq> None,
      field_mut = \<lambda>f m. let m' = (if PeerMsg_append m = None then m\<lparr>PeerMsg_append := Some Append_new\<rparr> else m)
         in m'\<lparr>PeerMsg_append := map_option f (PeerMsg_append m')\<rparr>,
      field_take = \<lambda>m. (case PeerMsg_append m of Some v \<Rightarrow> v | None \<Rightarrow> Append_new, m\<lparr>PeerMsg_append := None\<rparr>)\<rparr>"

abbreviation PeerMsg_clear_append :: "PeerMsg \<Rightarrow> PeerMsg" where "PeerMsg_clear_append \<equiv> field_clear PeerMsg_append_field"
abbreviation PeerMsg_has_append :: "PeerMsg \<Rightarrow> bool" where "PeerMsg_has_append \<equiv> field_has PeerMsg_append_field"
abbreviation PeerMsg_set_append :: "Append \<Rightarrow> PeerMsg \<Rightarrow> PeerMsg" where "PeerMsg_set_append \<equiv> field_set PeerMsg_append_field"
abbreviation PeerMsg_mut_append :: "(Append \<Rightarrow> Append) \<Rightarrow> PeerMsg \<Rightarrow> PeerMsg" where "PeerMsg_mut_append \<equiv> field_mut PeerMsg_append_field"
abbreviation PeerMsg_take_append :: "PeerMsg \<Rightarrow> Append \<times> PeerMsg" where "PeerMsg_take_append \<equiv> field_take PeerMsg_append_field"
abbreviation PeerMsg_get_append :: "PeerMsg \<Rightarrow> Append" where "PeerMsg_get_append \<equiv> field_get PeerMsg_append_field"

definition PeerMsg_append_res_field :: "(PeerMsg, AppendRes) SingularField" where
  "PeerMsg_append_res_field =
     \<lparr>field_clear = \<lambda>m. m\<lparr>PeerMsg_append_res := None\<rparr>,
      field_set = \<lambda>v m. m\<lparr>PeerMsg_append_res := Some v\<rparr>,
      field_get = \<lambda>m. case PeerMsg_append_res m of Some v \<Rightarrow> v | None \<Rightarrow> AppendRes_new,
      field_has = \<lambda>m. PeerMsg_append_res m \<noteq> None,
      field_mut = \<lambda>f m. let m' = (if PeerMsg_append_res m = None then m\<lparr>PeerMsg_append_res := Some AppendRes_new\<rparr> else m)
         in m'\<lparr>PeerMsg_append_res := map_option f (PeerMsg_append_res m')\<rparr>,
      field_take = \<lambda>m. (case PeerMsg_append_res m of Some v \<Rightarrow> v | None \<Rightarrow> AppendRes_new, m\<lparr>PeerMsg_append_res := None\<rparr>)\<rparr>"

abbreviation PeerMsg_clear_append_res :: "PeerMsg \<Rightarrow> PeerMsg" where "PeerMsg_clear_append_res \<equiv> field_clear PeerMsg_append_res_field"
abbreviation PeerMsg_has_append_res :: "PeerMsg \<Rightarrow> bool" where "PeerMsg_has_append_res \<equiv> field_has PeerMsg_append_res_field"
abbreviation PeerMsg_set_append_res :: "AppendRes \<Rightarrow> PeerMsg \<Rightarrow> PeerMsg" where "PeerMsg_set_append_res \<equiv> field_set PeerMsg_append_res_field"
abbreviation PeerMsg_mut_append_res :: "(AppendRes \<Rightarrow> AppendRes) \<Rightarrow> PeerMsg \<Rightarrow> PeerMsg" where "PeerMsg_mut_append_res \<equiv> field_mut PeerMsg_append_res_field"
abbreviation PeerMsg_take_append_res :: "PeerMsg \<Rightarrow> AppendRes \<times> PeerMsg" where "PeerMsg_take_append_res \<equiv> field_take PeerMsg_append_res_field"
abbreviation PeerMsg_get_append_res :: "PeerMsg \<Rightarrow> AppendRes" where "PeerMsg_get_append_res \<equiv> field_get PeerMsg_append_res_field"

definition PeerMsg_is_initialized :: "PeerMsg \<Rightarrow> bool" where
  "PeerMsg_is_initialized m =
     (if PeerMsg_srvid m = None then False
      else True)"

definition PeerMsg_clear :: "PeerMsg \<Rightarrow> PeerMsg" where
  "PeerMsg_clear m = (PeerMsg_clear_append_res (PeerMsg_clear_append (PeerMsg_clear_vote_res (PeerMsg_clear_vote_req (PeerMsg_clear_srvid m)))))\<lparr>PeerMsg_unknown_fields := []\<rparr>"

definition PeerMsg_eq :: "PeerMsg \<Rightarrow> PeerMsg \<Rightarrow> bool" where
  "PeerMsg_eq a b \<longleftrightarrow>
     PeerMsg_srvid a = PeerMsg_srvid b \<and>
     rel_option VoteReq_eq (PeerMsg_vote_req a) (PeerMsg_vote_req b) \<and>
     rel_option VoteRes_eq (PeerMsg_vote_res a) (PeerMsg_vote_res b) \<and>
     rel_option Append_eq (PeerMsg_append a) (PeerMsg_append b) \<and>
     rel_option AppendRes_eq (PeerMsg_append_res a) (PeerMsg_append_res b) \<and>
     PeerMsg_unknown_fields a = PeerMsg_unknown_fields b"

lemmas PeerMsg_accessors [msg_accessors] =
  PeerMsg_srvid_field_def PeerMsg_vote_req_field_def PeerMsg_vote_res_field_def
  PeerMsg_append_field_def PeerMsg_append_res_field_def PeerMsg_new_def

section \<open>Field contracts and equality\<close>

interpretation VoteReq_term: singular_field VoteReq_term_field "0"
  by unfold_locales (auto simp: VoteReq_accessors split: option.splits)

interpretation VoteReq_last_learned_term: singular_field VoteReq_last_learned_term_field "0"
  by unfold_locales (auto simp: VoteReq_accessors split: option.splits)

interpretation VoteReq_last_learned_txid: singular_field VoteReq_last_learned_txid_field "0"
  by unfold_locales (auto simp: VoteReq_accessors split: option.splits)

interpretation VoteReq_last_accepted_term: singular_field VoteReq_last_accepted_term_field "0"
  by unfold_locales (auto simp: VoteReq_accessors split: option.splits)

interpretation VoteReq_last_accepted_txid: singular_field VoteReq_last_accepted_txid_field "0"
  by unfold_locales (auto simp: VoteReq_accessors split: option.splits)

interpretation VoteRes_success: singular_field VoteRes_success_field "False"
  by unfold_locales (auto simp: VoteRes_accessors split: option.splits)

interpretation VoteRes_term: singular_field VoteRes_term_field "0"
  by unfold_locales (auto simp: VoteRes_accessors split: option.splits)

interpretation Append_from_txid: singular_field Append_from_txid_field "0"
  by unfold_locales (auto simp: Append_accessors split: option.splits)

interpretation Append_from_term: singular_field Append_from_term_field "0"
  by unfold_locales (auto simp: Append_accessors split: option.splits)

interpretation Append_last_learned_txid: singular_field Append_last_learned_txid_field "0"
  by unfold_locales (auto simp: Append_accessors split: option.splits)

interpretation AppendRes_accepted: singular_field AppendRes_accepted_field "False"
  by unfold_locales (auto simp: AppendRes_accessors split: option.splits)

interpretation AppendRes_last_accepted_txid: singular_field AppendRes_last_accepted_txid_field "0"
  by unfold_locales (auto simp: AppendRes_accessors split: option.splits)

interpretation AppendRes_last_accepted_term: singular_field AppendRes_last_accepted_term_field "0"
  by unfold_locales (auto simp: AppendRes_accessors split: option.splits)

interpretation PeerMsg_srvid: mutable_field PeerMsg_srvid_field "''''"
  by unfold_locales (auto simp: PeerMsg_accessors split: option.splits)

interpretation PeerMsg_vote_req: mutable_field PeerMsg_vote_req_field "VoteReq_new"
  by unfold_locales (auto simp: PeerMsg_accessors split: option.splits)

interpretation PeerMsg_vote_res: mutable_field PeerMsg_vote_res_field "VoteRes_new"
  by unfold_locales (auto simp: PeerMsg_accessors split: option.splits)

interpretation PeerMsg_append: mutable_field PeerMsg_append_field "Append_new"
  by unfold_locales (auto simp: PeerMsg_accessors split: option.splits)

interpretation PeerMsg_append_res: mutable_field PeerMsg_append_res_field "AppendRes_new"
  by unfold_locales (auto simp: PeerMsg_accessors split: option.splits)

lemma VoteReq_eq_refl [simp]: "VoteReq_eq m m"
  by (simp add: VoteReq_eq_def option.rel_refl list.rel_refl)

lemma VoteRes_eq_refl [simp]: "VoteRes_eq m m"
  by (simp add: VoteRes_eq_def option.rel_refl list.rel_refl)

lemma Append_eq_refl [simp]: "Append_eq m m"
  by (simp add: Append_eq_def option.rel_refl list.rel_refl)

lemma AppendRes_eq_refl [simp]: "AppendRes_eq m m"
  by (simp add: AppendRes_eq_def option.rel_refl list.rel_refl)

lemma PeerMsg_eq_refl [simp]: "PeerMsg_eq m m"
  by (simp add: PeerMsg_eq_def option.rel_refl list.rel_refl)

end
