(* ===== verification/Server.thy ===== *)
theory Server
  imports Acked_Log Node_State Msg_Client Msg_Peer
begin

text \<open>
  \<^verbatim>\<open>server/server.rs\<close>: the server state and every handler that changes it.  A handler takes the
  external functions it calls (\<open>Ext\<close>), the readings of the clock (\<open>now i\<close> is the reading at
  its \<open>i\<close>-th call site, counted from the top of the handler) and the state, and returns the
  new state or the panic that ends the process.  Messages sent over \<^verbatim>\<open>rpc_tx\<close> are appended
  to \<open>outbox\<close>.
\<close>

section \<open>What the server calls outside the repository\<close>

text \<open>The result of a RocksDB lookup (\<^verbatim>\<open>rocksdb::DBResult\<close>).\<close>

datatype DBResult = DBSome bytes | DBNone | DBError string

text \<open>\<^verbatim>\<open>time\<close> (adding seconds to a stamp), \<^verbatim>\<open>rocksdb\<close> (the store), \<^verbatim>\<open>protobuf\<close> (parsing and
  printing a whole message) and the printing of an address.\<close>

record 'db Ext =
  tadd :: "Timespec \<Rightarrow> nat \<Rightarrow> Timespec"
  db_get :: "'db \<Rightarrow> bytes \<Rightarrow> DBResult"
  db_put :: "'db \<Rightarrow> bytes \<Rightarrow> bytes \<Rightarrow> (string + unit) \<times> 'db"
  db_delete :: "'db \<Rightarrow> bytes \<Rightarrow> (string + unit) \<times> 'db"
  parse_PeerMsg :: "bytes \<Rightarrow> string + PeerMsg"
  parse_CliReq :: "bytes \<Rightarrow> string + CliReq"
  write_PeerMsg :: "PeerMsg \<Rightarrow> string + bytes"
  write_CliRes :: "CliRes \<Rightarrow> string + bytes"
  fmt_addr :: "SocketAddr \<Rightarrow> string"

section \<open>State\<close>

record 'db Server =
  peer_port :: u16
  cli_port :: u16
  srv_id :: PeerID
  peers :: "string list"
  rep_peers :: "(PeerID, RepPeer) btree"
  outbox :: "Envelope list"
  max_generated_txid :: TXID
  highest_term :: Term
  state :: State
  db :: 'db
  rep_log :: "Mutation InMemoryLog"
  srv_pending :: "(TXID, Envelope \<times> u64) btree"

text \<open>The state that \<^verbatim>\<open>Server::run\<close> builds before it starts the handler threads.\<close>

definition Server_init :: "u16 \<Rightarrow> u16 \<Rightarrow> PeerID \<Rightarrow> string list \<Rightarrow> 'db \<Rightarrow> 'db Server" where
  "Server_init pport cport i ps d =
     \<lparr>peer_port = pport, cli_port = cport, srv_id = i, peers = ps, rep_peers = [], outbox = [],
      max_generated_txid = 0, highest_term = 0, state = Init, db = d,
      rep_log = empty_log (length ps), srv_pending = []\<rparr>"

section \<open>Small operations\<close>

definition new_txid :: "'db Server \<Rightarrow> ('db Server \<times> TXID) res" where
  "new_txid s =
     and_then (checked_add (max_generated_txid s) 1) (\<lambda>x.
       Inr (s\<lparr>max_generated_txid := x\<rparr>, x))"

definition reply :: "Envelope \<Rightarrow> bytes \<Rightarrow> 'db Server \<Rightarrow> 'db Server" where
  "reply req res_buf s =
     s\<lparr>outbox := outbox s @ [\<lparr>address = address req, tok = tok req, msg = res_buf\<rparr>]\<rparr>"

definition peer_broadcast :: "bytes \<Rightarrow> 'db Server \<Rightarrow> 'db Server" where
  "peer_broadcast m s =
     s\<lparr>outbox := outbox s @ [\<lparr>address = None, tok = PEER_BROADCAST, msg = m\<rparr>]\<rparr>"

text \<open>\<^verbatim>\<open>reply\<close> with the message printed by \<^verbatim>\<open>write_to_bytes().unwrap()\<close>.\<close>

definition reply_peer :: "'db Ext \<Rightarrow> Envelope \<Rightarrow> PeerMsg \<Rightarrow> 'db Server \<Rightarrow> 'db Server res" where
  "reply_peer E env res s =
     and_then (unwrap_res (write_PeerMsg E res)) (\<lambda>b. Inr (reply env b s))"

definition reply_cli :: "'db Ext \<Rightarrow> Envelope \<Rightarrow> CliRes \<Rightarrow> 'db Server \<Rightarrow> 'db Server res" where
  "reply_cli E env res s =
     and_then (unwrap_res (write_CliRes E res)) (\<lambda>b. Inr (reply env b s))"

definition update_rep_peers ::
  "PeerID \<Rightarrow> SocketAddr option \<Rightarrow> Token \<Rightarrow> 'db Server \<Rightarrow> 'db Server" where
  "update_rep_peers peer_id addr t s =
     (if srv_id s = peer_id then s
      else
        let new = \<lparr>rp_last_accepted_term = last_accepted_term (rep_log s),
                   rp_last_accepted_txid = last_accepted_txid (rep_log s),
                   rp_max_sent_txid = last_accepted_txid (rep_log s),
                   rp_tok = t, rp_id = peer_id, rp_addr = addr\<rparr>;
            m = bt_insert peer_id new (rep_peers s)
        in case bt_get (rep_peers s) peer_id of
             Some old_rep_peer \<Rightarrow>
               s\<lparr>rep_peers := bt_modify peer_id (\<lambda>r. r\<lparr>
                   rp_max_sent_txid := rp_max_sent_txid old_rep_peer,
                   rp_last_accepted_txid := rp_last_accepted_txid old_rep_peer,
                   rp_last_accepted_term := rp_last_accepted_term old_rep_peer\<rparr>) m\<rparr>
           | None \<Rightarrow> s\<lparr>rep_peers := m\<rparr>)"

definition should_grant_vote :: "'db Server \<Rightarrow> Timespec \<Rightarrow> VoteReq \<Rightarrow> bool" where
  "should_grant_vote s now vote_req =
     (if valid_leader (state s) now then False
      else if VoteReq_get_term vote_req < last_learned_term (rep_log s) then False
      else if VoteReq_get_last_learned_term vote_req > last_learned_term (rep_log s) then True
      else if VoteReq_get_last_learned_term vote_req = last_learned_term (rep_log s) \<and>
              VoteReq_get_last_accepted_txid vote_req \<ge> last_accepted_txid (rep_log s) then True
      else False)"

section \<open>Learning: applying a committed mutation to the store\<close>

text \<open>The three arms of the \<^verbatim>\<open>match mutation.get_field_type()\<close> in \<^verbatim>\<open>learn\<close>: each gives the
  store afterwards and the response.  \<open>learned\<close> is \<^verbatim>\<open>rep_log.last_learned_txid()\<close>.\<close>

definition op_err :: string where
  "op_err = ''Operational problem encountered''"

definition op_err_with :: "string \<Rightarrow> string" where
  "op_err_with e = ''Operational problem encountered: '' @ e"

definition learn_set :: "'db Ext \<Rightarrow> Mutation \<Rightarrow> 'db \<Rightarrow> 'db \<times> SetRes" where
  "learn_set E mutation d =
     (case db_put E d (Mutation_get_key mutation) (Mutation_get_value mutation) of
        (Inr _, d') \<Rightarrow> (d', SetRes_set_success True SetRes_new)
      | (Inl e, d') \<Rightarrow> (d', SetRes_set_err op_err (SetRes_set_success False SetRes_new)))"

definition learn_cas :: "'db Ext \<Rightarrow> TXID \<Rightarrow> Mutation \<Rightarrow> 'db \<Rightarrow> 'db \<times> CASRes" where
  "learn_cas E learned mutation d =
     (let key = Mutation_get_key mutation; value = Mutation_get_value mutation;
          (d', cas_res) =
            (case db_get E d key of
               DBSome old_val \<Rightarrow>
                 if Mutation_has_old_value mutation \<and> old_val = Mutation_get_old_value mutation then
                   (case db_put E d key value of
                      (Inr _, d') \<Rightarrow> (d', CASRes_set_value value (CASRes_set_success True CASRes_new))
                    | (Inl e, d') \<Rightarrow>
                        (d', CASRes_set_value old_val
                               (CASRes_set_err op_err (CASRes_set_success False CASRes_new))))
                 else
                   (d, CASRes_set_value old_val
                         (CASRes_set_err ''compare failure'' (CASRes_set_success False CASRes_new)))
             | DBNone \<Rightarrow>
                 if \<not> Mutation_has_old_value mutation then
                   (case db_put E d key value of
                      (Inr _, d') \<Rightarrow> (d', CASRes_set_value value (CASRes_set_success True CASRes_new))
                    | (Inl e, d') \<Rightarrow>
                        (d', CASRes_set_err (op_err_with e) (CASRes_set_success False CASRes_new)))
                 else
                   (d, CASRes_set_err ''compare failure'' (CASRes_set_success False CASRes_new))
             | DBError e \<Rightarrow>
                 (d, CASRes_set_err (op_err_with e) (CASRes_set_success False CASRes_new)))
      in (d', CASRes_set_txid learned cas_res))"

definition learn_del :: "'db Ext \<Rightarrow> Mutation \<Rightarrow> 'db \<Rightarrow> 'db \<times> DelRes" where
  "learn_del E mutation d =
     (let key = Mutation_get_key mutation;
          del_res = (case db_get E d key of
                       DBSome old_val \<Rightarrow> DelRes_set_value old_val DelRes_new
                     | DBNone \<Rightarrow> DelRes_new
                     | DBError e \<Rightarrow> DelRes_new)
      in case db_delete E d key of
           (Inr _, d') \<Rightarrow> (d', DelRes_set_success True del_res)
         | (Inl e, d') \<Rightarrow> (d', DelRes_set_err (op_err_with e) (DelRes_set_success False del_res)))"

definition learn_mutation :: "'db Ext \<Rightarrow> TXID \<Rightarrow> Mutation \<Rightarrow> 'db \<Rightarrow> 'db \<times> CliRes" where
  "learn_mutation E learned mutation d =
     (case Mutation_get_field_type mutation of
        KVSET \<Rightarrow> (let (d', r) = learn_set E mutation d in (d', CliRes_set_set r CliRes_new))
      | KVCAS \<Rightarrow> (let (d', r) = learn_cas E learned mutation d in (d', CliRes_set_cas r CliRes_new))
      | KVDEL \<Rightarrow> (let (d', r) = learn_del E mutation d in (d', CliRes_set_del r CliRes_new)))"

definition learn :: "'db Ext \<Rightarrow> Term \<Rightarrow> TXID \<Rightarrow> 'db Server \<Rightarrow> 'db Server res" where
  "learn E trm txid s =
     (case log_get (rep_log s) txid of
        None \<Rightarrow> Inr s
      | Some mutation \<Rightarrow>
          let (d', res) = learn_mutation E (last_learned_txid (rep_log s)) mutation (db s);
              s' = s\<lparr>db := d', srv_pending := bt_remove txid (srv_pending s)\<rparr>
          in case bt_get (srv_pending s) txid of
               Some (env, req_id) \<Rightarrow> reply_cli E env (CliRes_set_req_id req_id res) s'
             | None \<Rightarrow> Inr s')"

definition learn_each :: "'db Ext \<Rightarrow> (Term \<times> TXID) list \<Rightarrow> 'db Server \<Rightarrow> 'db Server res" where
  "learn_each E ids s = fold_res (\<lambda>(trm, txid). learn E trm txid) ids s"

end
