(* ===== verification/Server_Election.thy ===== *)
theory Server_Election
  imports Server
begin

text \<open>
  \<^verbatim>\<open>server/server.rs\<close>, elections: \<^verbatim>\<open>handle_vote_req\<close>, \<^verbatim>\<open>handle_vote_res\<close> and \<^verbatim>\<open>cron\<close>.
  Call sites of the clock are numbered in the order of the source text.
\<close>

section \<open>Handlers\<close>

definition vote_reply :: "'db Server \<Rightarrow> Term \<Rightarrow> bool \<Rightarrow> PeerMsg" where
  "vote_reply s trm ok =
     PeerMsg_set_vote_res (VoteRes_set_success ok (VoteRes_set_term trm VoteRes_new))
       (PeerMsg_set_srvid (srv_id s) PeerMsg_new)"

text \<open>The \<^verbatim>\<open>if\<close> chain of \<^verbatim>\<open>handle_vote_req\<close>: the state afterwards, the term and the verdict of
  the response.\<close>

definition vote_req_decide ::
  "'db Ext \<Rightarrow> (nat \<Rightarrow> Timespec) \<Rightarrow> Envelope \<Rightarrow> PeerID \<Rightarrow> VoteReq \<Rightarrow> 'db Server
     \<Rightarrow> ('db Server \<times> Term \<times> bool) res" where
  "vote_req_decide E now env peer_id vote_req s =
     (if peer_id = srv_id s then Inr (s, VoteReq_get_term vote_req, True)
      else if valid_leader (state s) (now 0) \<and> \<not> following (state s) peer_id then
        and_then (unwrap (state_term (state s))) (\<lambda>trm. Inr (s, trm, False))
      else if following (state s) peer_id then
        (case state s of
           Follower trm fid' k addr _ \<Rightarrow>
             Inr (s\<lparr>state := Follower trm fid' k addr (tadd E (now 1) LEADER_DURATION)\<rparr>,
                  VoteReq_get_term vote_req, True)
         | _ \<Rightarrow> Inl UnwrapNone)
      else if should_grant_vote s (now 2) vote_req then
        and_then (unwrap (address env)) (\<lambda>addr.
          Inr (s\<lparr>highest_term := VoteReq_get_term vote_req,
                 state := Follower (VoteReq_get_term vote_req) peer_id (tok env) addr
                            (tadd E (now 3) LEADER_DURATION)\<rparr>,
               VoteReq_get_term vote_req, True))
      else
        Inr (s, (case state_term (state s) of Some trm \<Rightarrow> trm | None \<Rightarrow> VoteReq_get_term vote_req),
             False))"

definition handle_vote_req ::
  "'db Ext \<Rightarrow> (nat \<Rightarrow> Timespec) \<Rightarrow> Envelope \<Rightarrow> PeerID \<Rightarrow> VoteReq \<Rightarrow> 'db Server \<Rightarrow> 'db Server res" where
  "handle_vote_req E now env peer_id vote_req s =
     and_then (vote_req_decide E now env peer_id vote_req s) (\<lambda>(s', trm, ok).
       reply_peer E env (vote_reply s' trm ok) s')"

text \<open>Counting a vote: the token is added once, and its sender becomes a replication peer.\<close>

definition count_vote ::
  "Envelope \<Rightarrow> PeerID \<Rightarrow> VoteRes \<Rightarrow> Term \<Rightarrow> Token list \<Rightarrow> 'db Server \<Rightarrow> Token list \<times> 'db Server" where
  "count_vote env peer_id vote_res trm have' s =
     (if tok env \<notin> set have' \<and> VoteRes_get_term vote_res = trm
      then (have' @ [tok env], update_rep_peers peer_id (address env) (tok env) s)
      else (have', s))"

text \<open>\<^verbatim>\<open>handle_vote_res\<close> begins with a \<^verbatim>\<open>debug!\<close> that unwraps the address of the sender. \<^verbatim>\<open>init_logger\<close> sets the maximal level to
  \<^verbatim>\<open>Debug\<close>, so that the arguments are evaluated.\<close>

definition handle_vote_res ::
  "'db Ext \<Rightarrow> (nat \<Rightarrow> Timespec) \<Rightarrow> Envelope \<Rightarrow> PeerID \<Rightarrow> VoteRes \<Rightarrow> 'db Server \<Rightarrow> 'db Server res" where
  "handle_vote_res E now env peer_id vote_res s =
     and_then (unwrap (address env)) (\<lambda>_.
       if state_term (state s) = None \<or> Some (VoteRes_get_term vote_res) \<noteq> state_term (state s) then Inr s
       else if valid_candidate (state s) (now 0) \<and> \<not> VoteRes_get_success vote_res then
         Inr (s\<lparr>highest_term := (if VoteRes_get_term vote_res > highest_term s
                                 then VoteRes_get_term vote_res else highest_term s),
                state := Init,
                rep_peers := []\<rparr>)
       else if valid_candidate (state s) (now 1) then
         (case state s of
            Candidate trm have' need until \<Rightarrow>
              let (new_have, s') = count_vote env peer_id vote_res trm have' s in
              if length new_have \<ge> unat need
              then Inr (s'\<lparr>state := Leader trm [] need until\<rparr>)
              else Inr (s'\<lparr>state := Candidate trm new_have need until\<rparr>)
          | _ \<Rightarrow> Inl UnwrapNone)
       else if is_leader (state s) \<and> valid_leader (state s) (now 2) \<and> VoteRes_get_success vote_res then
         (case state s of
            Leader trm have' need until \<Rightarrow>
              let (new_have, s') = count_vote env peer_id vote_res trm have' s in
              if length new_have \<ge> unat need
              then Inr (s'\<lparr>state := Leader trm [] need (tadd E (now 3) LEADER_DURATION)\<rparr>)
              else Inr (s'\<lparr>state := Leader trm new_have need until\<rparr>)
          | _ \<Rightarrow> Inl UnwrapNone)
       else if \<not> VoteRes_get_success vote_res then Inr s
       else and_then (unwrap (state_term (state s))) (\<lambda>_. Inr s))"

definition become_candidate ::
  "'db Ext \<Rightarrow> (nat \<Rightarrow> Timespec) \<Rightarrow> 'db Server \<Rightarrow> 'db Server res" where
  "become_candidate E now s =
     (if \<not> valid_leader (state s) (now 0) \<and> \<not> valid_candidate (state s) (now 1) then
        and_then (checked_add (highest_term s) 1) (\<lambda>trm.
          Inr (s\<lparr>highest_term := trm,
                 state := Candidate trm [] (of_nat (length (peers s) div 2 + 1))
                            (tadd E (now 2) LEADER_DURATION)\<rparr>))
      else Inr s)"

definition vote_request :: "'db Server \<Rightarrow> Term \<Rightarrow> PeerMsg" where
  "vote_request s trm =
     PeerMsg_set_vote_req
       (VoteReq_set_last_learned_txid (last_learned_txid (rep_log s))
         (VoteReq_set_last_learned_term (last_learned_term (rep_log s))
           (VoteReq_set_last_accepted_txid (last_accepted_txid (rep_log s))
             (VoteReq_set_last_accepted_term (last_accepted_term (rep_log s))
               (VoteReq_set_term trm VoteReq_new)))))
       (PeerMsg_set_srvid (srv_id s) PeerMsg_new)"

definition cron :: "'db Ext \<Rightarrow> (nat \<Rightarrow> Timespec) \<Rightarrow> 'db Server \<Rightarrow> 'db Server res" where
  "cron E now s =
     and_then (become_candidate E now s) (\<lambda>s'.
       if should_extend_leadership (tadd E) (state s') (now 3) \<or> valid_candidate (state s') (now 4) then
         and_then (unwrap (state_term (state s'))) (\<lambda>trm.
         and_then (unwrap_res (write_PeerMsg E (vote_request s' trm))) (\<lambda>b.
           Inr (peer_broadcast b s')))
       else Inr s')"

end
