(* ===== verification/Server_Replication.thy ===== *)
theory Server_Replication
  imports Server
begin

text \<open>
  \<^verbatim>\<open>server/server.rs\<close>, replication and client requests: \<^verbatim>\<open>handle_append\<close>,
  \<^verbatim>\<open>handle_append_res\<close>, \<^verbatim>\<open>replicate\<close> and \<^verbatim>\<open>handle_cli\<close>.
\<close>

section \<open>Appending on a follower\<close>

text \<open>One turn of the loop over \<^verbatim>\<open>append.get_batch()\<close>; the loop's state is
  \<open>(max_term, max_txid, log)\<close>.\<close>

definition append_mutation ::
  "Mutation \<Rightarrow> Term \<times> TXID \<times> Mutation InMemoryLog \<Rightarrow> (Term \<times> TXID \<times> Mutation InMemoryLog) res" where
  "append_mutation mutation st =
     (let (max_term, max_txid, l) = st; version = Mutation_get_version mutation in
      if Version_get_term version < max_term
        then Inl (Explicit ''replication stream has decreasing term'')
      else if Version_get_txid version \<le> max_txid then Inr (max_term, max_txid, l)
      else and_then (log_append (Version_get_term version) (Version_get_txid version) mutation l) (\<lambda>l'.
             Inr (Version_get_term version, Version_get_txid version, l')))"

definition append_reply :: "'db Server \<Rightarrow> AppendRes \<Rightarrow> PeerMsg" where
  "append_reply s r = PeerMsg_set_append_res r (PeerMsg_set_srvid (srv_id s) PeerMsg_new)"

text \<open>The check that the update links to the last accepted entry.\<close>

definition append_links :: "Append \<Rightarrow> Mutation InMemoryLog \<Rightarrow> bool" where
  "append_links apd l \<longleftrightarrow>
     Append_get_from_term apd = last_accepted_term l \<and> Append_get_from_txid apd = last_accepted_txid l"

definition handle_append ::
  "'db Ext \<Rightarrow> Envelope \<Rightarrow> PeerID \<Rightarrow> Append \<Rightarrow> 'db Server \<Rightarrow> 'db Server res" where
  "handle_append E env peer_id apd s =
     (if is_leader (state s) then Inr s
      else if is_following (state s) peer_id then
        if append_links apd (rep_log s)
        then
          and_then (fold_res append_mutation (Append_get_batch apd)
              (last_accepted_term (rep_log s), last_accepted_txid (rep_log s), rep_log s))
            (\<lambda>(max_term, max_txid, l).
              let (l', ids) = commit_up_to (Append_get_last_learned_txid apd) l in
              and_then (learn_each E ids (s\<lparr>max_generated_txid := max_txid, rep_log := l'\<rparr>)) (\<lambda>s'.
                reply_peer E env (append_reply s'
                  (AppendRes_set_last_accepted_txid max_txid
                    (AppendRes_set_last_accepted_term max_term
                      (AppendRes_set_accepted True AppendRes_new)))) s'))
        else
          reply_peer E env (append_reply s
            (AppendRes_set_last_accepted_txid (last_accepted_txid (rep_log s))
              (AppendRes_set_last_accepted_term (last_accepted_term (rep_log s))
                (AppendRes_set_accepted False AppendRes_new)))) s
      else reply_peer E env (append_reply s AppendRes_new) s)"

section \<open>Acknowledgements on a leader\<close>

definition ack_peer :: "AppendRes \<Rightarrow> RepPeer \<Rightarrow> RepPeer" where
  "ack_peer append_res rep_peer =
     (let r = rep_peer\<lparr>rp_last_accepted_term := AppendRes_get_last_accepted_term append_res,
                       rp_last_accepted_txid := AppendRes_get_last_accepted_txid append_res\<rparr>
      in if \<not> AppendRes_get_accepted append_res
         then r\<lparr>rp_max_sent_txid := AppendRes_get_last_accepted_txid append_res\<rparr>
         else r)"

definition handle_append_res ::
  "'db Ext \<Rightarrow> Envelope \<Rightarrow> PeerID \<Rightarrow> AppendRes \<Rightarrow> 'db Server \<Rightarrow> 'db Server res" where
  "handle_append_res E env peer_id append_res s =
     (if \<not> is_leader (state s) then Inr s
      else case bt_get (rep_peers s) peer_id of
        None \<Rightarrow> Inr s
      | Some _ \<Rightarrow>
          let (l', accepted) = ack_up_to (AppendRes_get_last_accepted_txid append_res) peer_id (rep_log s)
          in learn_each E accepted
               (s\<lparr>rep_peers := bt_modify peer_id (ack_peer append_res) (rep_peers s), rep_log := l'\<rparr>))"

section \<open>Replication from a leader\<close>

text \<open>The loop over \<^verbatim>\<open>mutations\<close> of \<^verbatim>\<open>replicate\<close>.\<close>

definition replicate_mutation :: "'db Ext \<Rightarrow> Mutation \<Rightarrow> 'db Server \<Rightarrow> 'db Server res" where
  "replicate_mutation E mutation s =
     (let txid = Version_get_txid (Mutation_get_version mutation) in
      and_then (log_append (Version_get_term (Mutation_get_version mutation)) txid mutation (rep_log s)) (\<lambda>l.
        let (l', accepted) = ack_up_to txid (srv_id s) l in
        learn_each E accepted (s\<lparr>rep_log := l'\<rparr>)))"

text \<open>The inner loop over \<^verbatim>\<open>peer.max_sent_txid + 1 .. peer.max_sent_txid + 100\<close>, which gathers the
  batch for one peer and advances its \<^verbatim>\<open>max_sent_txid\<close>.\<close>

primrec gather_batch ::
  "Mutation InMemoryLog \<Rightarrow> TXID list \<Rightarrow> RepPeer \<Rightarrow> Mutation list \<Rightarrow> RepPeer \<times> Mutation list" where
  "gather_batch l [] peer batch = (peer, batch)"
| "gather_batch l (txid # txids) peer batch =
     (case log_get l txid of
        Some mutation \<Rightarrow>
          gather_batch l txids
            (peer\<lparr>rp_max_sent_txid := Version_get_txid (Mutation_get_version mutation)\<rparr>)
            (batch @ [mutation])
      | None \<Rightarrow> gather_batch l txids peer batch)"

text \<open>\<^verbatim>\<open>lo .. hi\<close> on \<^verbatim>\<open>u64\<close>.\<close>

definition u64_range :: "u64 \<Rightarrow> u64 \<Rightarrow> u64 list" where
  "u64_range lo hi = map (\<lambda>i. lo + of_nat i) [0 ..< unat hi - unat lo]"

definition append_message :: "PeerID \<Rightarrow> RepPeer \<Rightarrow> TXID \<Rightarrow> Mutation list \<Rightarrow> PeerMsg" where
  "append_message i peer learned batch =
     PeerMsg_set_append
       (Append_set_batch batch
         (Append_set_last_learned_txid learned
           (Append_set_from_term (rp_last_accepted_term peer)
             (Append_set_from_txid (rp_last_accepted_txid peer) Append_new))))
       (PeerMsg_set_srvid i PeerMsg_new)"

definition send_to_peer ::
  "'db Ext \<Rightarrow> PeerID \<Rightarrow> Mutation InMemoryLog \<Rightarrow> RepPeer \<Rightarrow> (RepPeer \<times> Envelope) res" where
  "send_to_peer E i l peer =
     and_then (checked_add (rp_max_sent_txid peer) 1) (\<lambda>lo.
     and_then (checked_add (rp_max_sent_txid peer) 100) (\<lambda>hi.
       let (peer', batch) = gather_batch l (u64_range lo hi) peer [] in
       and_then (unwrap_res (write_PeerMsg E (append_message i peer (last_learned_txid l) batch))) (\<lambda>b.
         Inr (peer', \<lparr>address = rp_addr peer, tok = rp_tok peer, msg = b\<rparr>))))"

text \<open>The loop over \<^verbatim>\<open>self.rep_peers.iter_mut()\<close>.\<close>

primrec send_to_peers ::
  "'db Ext \<Rightarrow> PeerID \<Rightarrow> Mutation InMemoryLog \<Rightarrow> (PeerID, RepPeer) btree
     \<Rightarrow> ((PeerID, RepPeer) btree \<times> Envelope list) res" where
  "send_to_peers E i l [] = Inr ([], [])"
| "send_to_peers E i l (e # es) =
     and_then (send_to_peer E i l (snd e)) (\<lambda>(peer', env).
     and_then (send_to_peers E i l es) (\<lambda>(es', envs).
       Inr ((fst e, peer') # es', env # envs)))"

definition replicate :: "'db Ext \<Rightarrow> Mutation list \<Rightarrow> 'db Server \<Rightarrow> 'db Server res" where
  "replicate E mutations s =
     and_then
       (if mutations = [] then Inr s
        else
          and_then (fold_res (replicate_mutation E) mutations s) (\<lambda>s'.
          and_then (send_to_peers E (srv_id s') (rep_log s') (rep_peers s')) (\<lambda>(ps, envs).
            Inr (s'\<lparr>rep_peers := ps, outbox := outbox s' @ envs\<rparr>))))
       (\<lambda>s'. and_then (checked_sub (last_accepted_txid (rep_log s')) (last_learned_txid (rep_log s')))
               (\<lambda>_. Inr s'))"

section \<open>Client requests\<close>

definition redirect_response :: "'db Ext \<Rightarrow> State \<Rightarrow> RedirectRes" where
  "redirect_response E st =
     (case st of
        Follower _ _ _ leader_addr _ \<Rightarrow>
          RedirectRes_set_address (fmt_addr E leader_addr) (RedirectRes_set_success True RedirectRes_new)
      | _ \<Rightarrow>
          RedirectRes_set_err ''No leader has been elected yet''
            (RedirectRes_set_success False RedirectRes_new))"

definition get_response :: "'db Ext \<Rightarrow> bytes \<Rightarrow> 'db Server \<Rightarrow> GetRes" where
  "get_response E key s =
     GetRes_set_txid (last_learned_txid (rep_log s))
       (case db_get E (db s) key of
          DBSome value \<Rightarrow> GetRes_set_value value (GetRes_set_success True GetRes_new)
        | DBNone \<Rightarrow> GetRes_set_err ''Key not found'' (GetRes_set_success False GetRes_new)
        | DBError e \<Rightarrow> GetRes_set_err op_err (GetRes_set_success False GetRes_new))"

definition new_version :: "TXID \<Rightarrow> Term \<Rightarrow> Version" where
  "new_version txid trm = Version_set_term trm (Version_set_txid txid Version_new)"

definition set_mutation :: "SetReq \<Rightarrow> TXID \<Rightarrow> Term \<Rightarrow> Mutation" where
  "set_mutation set_req txid trm =
     Mutation_set_value (SetReq_get_value set_req)
       (Mutation_set_key (SetReq_get_key set_req)
         (Mutation_set_version (new_version txid trm)
           (Mutation_set_field_type KVSET Mutation_new)))"

definition cas_mutation :: "CASReq \<Rightarrow> TXID \<Rightarrow> Term \<Rightarrow> Mutation" where
  "cas_mutation cas_req txid trm =
     Mutation_set_old_value (CASReq_get_old_value cas_req)
       (Mutation_set_value (CASReq_get_new_value cas_req)
         (Mutation_set_key (CASReq_get_key cas_req)
           (Mutation_set_version (new_version txid trm)
             (Mutation_set_field_type KVCAS Mutation_new))))"

definition del_mutation :: "DelReq \<Rightarrow> TXID \<Rightarrow> Term \<Rightarrow> Mutation" where
  "del_mutation del_req txid trm =
     Mutation_set_key (DelReq_get_key del_req)
       (Mutation_set_version (new_version txid trm)
         (Mutation_set_field_type KVDEL Mutation_new))"

text \<open>The common shape of the three mutating requests: take a txid, remember the client,
  replicate.\<close>

definition submit ::
  "'db Ext \<Rightarrow> Envelope \<Rightarrow> u64 \<Rightarrow> (TXID \<Rightarrow> Term \<Rightarrow> Mutation) \<Rightarrow> 'db Server \<Rightarrow> 'db Server res" where
  "submit E req req_id mk s =
     and_then (new_txid s) (\<lambda>(s', txid).
     and_then (unwrap (state_term (state s'))) (\<lambda>trm.
       replicate E [mk txid trm]
         (s'\<lparr>srv_pending := bt_insert txid (req, req_id) (srv_pending s')\<rparr>)))"

definition handle_cli :: "'db Ext \<Rightarrow> Envelope \<Rightarrow> 'db Server \<Rightarrow> 'db Server res" where
  "handle_cli E req s =
     and_then (unwrap_res (parse_CliReq E (msg req))) (\<lambda>cli_req.
       let req_id = CliReq_get_req_id cli_req; res = CliRes_set_req_id req_id CliRes_new in
       if \<not> is_leader (state s) then
         reply_cli E req (CliRes_set_redirect (redirect_response E (state s)) res) s
       else if CliReq_has_get cli_req then
         reply_cli E req (CliRes_set_get (get_response E (GetReq_get_key (CliReq_get_get cli_req)) s) res) s
       else if CliReq_has_set cli_req then
         submit E req req_id (set_mutation (CliReq_get_set cli_req)) s
       else if CliReq_has_cas cli_req then
         submit E req req_id (cas_mutation (CliReq_get_cas cli_req)) s
       else if CliReq_has_del cli_req then
         submit E req req_id (del_mutation (CliReq_get_del cli_req)) s
       else reply_cli E req res s)"

end
