(* ===== verification/Server_Node.thy ===== *)
theory Server_Node
  imports Server_Election Server_Replication
begin

text \<open>
  \<^verbatim>\<open>server/server.rs\<close>, the whole node: the dispatch of a peer message, the events that the
  three handler threads process one at a time under the server's lock, the states reachable
  from \<^verbatim>\<open>Server::run\<close>, and the invariant of those states.
\<close>

section \<open>Dispatch and steps\<close>

definition handle_peer ::
  "'db Ext \<Rightarrow> (nat \<Rightarrow> Timespec) \<Rightarrow> Envelope \<Rightarrow> 'db Server \<Rightarrow> 'db Server res" where
  "handle_peer E now env s =
     and_then (unwrap_res (parse_PeerMsg E (msg env))) (\<lambda>peer_msg.
       let peer_id = PeerMsg_get_srvid peer_msg in
       if PeerMsg_has_vote_res peer_msg then
         handle_vote_res E now env peer_id (PeerMsg_get_vote_res peer_msg) s
       else if PeerMsg_has_vote_req peer_msg then
         handle_vote_req E now env peer_id (PeerMsg_get_vote_req peer_msg) s
       else if PeerMsg_has_append peer_msg then
         handle_append E env peer_id (PeerMsg_get_append peer_msg) s
       else if PeerMsg_has_append_res peer_msg then
         handle_append_res E env peer_id (PeerMsg_get_append_res peer_msg) s
       else Inr s)"

text \<open>What the three handler threads of \<^verbatim>\<open>Server::run\<close> do under the lock.\<close>

datatype Event = PeerEvent Envelope | CliEvent Envelope | CronEvent

definition server_step ::
  "'db Ext \<Rightarrow> (nat \<Rightarrow> Timespec) \<Rightarrow> Event \<Rightarrow> 'db Server \<Rightarrow> 'db Server res" where
  "server_step E now ev s =
     (case ev of
        PeerEvent env \<Rightarrow> handle_peer E now env s
      | CliEvent env \<Rightarrow> handle_cli E env s
      | CronEvent \<Rightarrow> cron E now s)"

inductive reachable :: "'db Ext \<Rightarrow> 'db Server \<Rightarrow> bool" for E where
  start: "reachable E (Server_init pport cport i ps d)"
| step: "reachable E s \<Longrightarrow> server_step E now ev s = Inr s' \<Longrightarrow> reachable E s'"

text \<open>The ways a step can return.\<close>

lemma server_step_cases:
  assumes "server_step E now ev s = Inr s'"
  obtains (vote_res) env m where "ev = PeerEvent env" "parse_PeerMsg E (msg env) = Inr m" "PeerMsg_has_vote_res m"
      "handle_vote_res E now env (PeerMsg_get_srvid m) (PeerMsg_get_vote_res m) s = Inr s'"
    | (vote_req) env m where "ev = PeerEvent env" "parse_PeerMsg E (msg env) = Inr m" "PeerMsg_has_vote_req m"
      "handle_vote_req E now env (PeerMsg_get_srvid m) (PeerMsg_get_vote_req m) s = Inr s'"
    | (append) env m where "ev = PeerEvent env" "parse_PeerMsg E (msg env) = Inr m" "PeerMsg_has_append m"
      "handle_append E env (PeerMsg_get_srvid m) (PeerMsg_get_append m) s = Inr s'"
    | (append_res) env m where "ev = PeerEvent env" "parse_PeerMsg E (msg env) = Inr m" "PeerMsg_has_append_res m"
      "handle_append_res E env (PeerMsg_get_srvid m) (PeerMsg_get_append_res m) s = Inr s'"
    | (unhandled) env where "ev = PeerEvent env" "s' = s"
    | (cli) env where "ev = CliEvent env" "handle_cli E env s = Inr s'"
    | (cron) "ev = CronEvent" "cron E now s = Inr s'"
proof (cases ev)
  case (PeerEvent env)
  then obtain m where m: "parse_PeerMsg E (msg env) = Inr m"
    using assms by (auto simp: server_step_def handle_peer_def)
  have step: "(if PeerMsg_has_vote_res m then
         handle_vote_res E now env (PeerMsg_get_srvid m) (PeerMsg_get_vote_res m) s
       else if PeerMsg_has_vote_req m then
         handle_vote_req E now env (PeerMsg_get_srvid m) (PeerMsg_get_vote_req m) s
       else if PeerMsg_has_append m then
         handle_append E env (PeerMsg_get_srvid m) (PeerMsg_get_append m) s
       else if PeerMsg_has_append_res m then
         handle_append_res E env (PeerMsg_get_srvid m) (PeerMsg_get_append_res m) s
       else Inr s) = Inr s'"
    using assms m PeerEvent by (simp add: server_step_def handle_peer_def Let_def)
  consider "PeerMsg_has_vote_res m" | "\<not> PeerMsg_has_vote_res m" "PeerMsg_has_vote_req m"
    | "\<not> PeerMsg_has_vote_res m" "\<not> PeerMsg_has_vote_req m" "PeerMsg_has_append m"
    | "\<not> PeerMsg_has_vote_res m" "\<not> PeerMsg_has_vote_req m" "\<not> PeerMsg_has_append m" "PeerMsg_has_append_res m"
    | "\<not> PeerMsg_has_vote_res m" "\<not> PeerMsg_has_vote_req m" "\<not> PeerMsg_has_append m" "\<not> PeerMsg_has_append_res m"
    by blast
  then show thesis
  proof cases
    case 1
    then show thesis using step vote_res [OF PeerEvent m] by simp
  next
    case 2
    then show thesis using step vote_req [OF PeerEvent m] by simp
  next
    case 3
    then show thesis using step append [OF PeerEvent m] by simp
  next
    case 4
    then show thesis using step append_res [OF PeerEvent m] by simp
  next
    case 5
    then have "s' = s" using step by simp
    then show thesis by (rule unhandled [OF PeerEvent])
  qed
next
  case (CliEvent env)
  then show thesis using assms cli by (simp add: server_step_def)
next
  case CronEvent
  then show thesis using assms cron by (simp add: server_step_def)
qed

section \<open>The invariant\<close>

text \<open>The role of a node: its term is the highest it has seen, a candidate or leader counts
  distinct tokens and has not yet counted as many as it needs.\<close>

definition role_inv :: "'db Server \<Rightarrow> bool" where
  "role_inv s \<longleftrightarrow>
     (case state s of
        Leader t h n u \<Rightarrow> t = highest_term s \<and> distinct h \<and> n = of_nat (length (peers s) div 2 + 1) \<and>
          (0 < n \<longrightarrow> length h < unat n)
      | Candidate t h n u \<Rightarrow> t = highest_term s \<and> distinct h \<and> n = of_nat (length (peers s) div 2 + 1) \<and>
          (0 < n \<longrightarrow> length h < unat n)
      | Follower t i k a u \<Rightarrow> t = highest_term s \<and> i \<noteq> srv_id s
      | Init \<Rightarrow> True)"

definition rep_peers_inv :: "'db Server \<Rightarrow> bool" where
  "rep_peers_inv s \<longleftrightarrow>
     bt_inv (rep_peers s) \<and> (\<forall>(k, r) \<in> set (rep_peers s). rp_id r = k \<and> k \<noteq> srv_id s)"

definition log_sync :: "'db Server \<Rightarrow> bool" where
  "log_sync s \<longleftrightarrow>
     log_inv (rep_log s) \<and> max_generated_txid s = last_accepted_txid (rep_log s) \<and>
     quorum (rep_log s) = length (peers s) div 2 + 1"

definition waiting_inv :: "'db Server \<Rightarrow> bool" where
  "waiting_inv s \<longleftrightarrow>
     bt_inv (srv_pending s) \<and> (\<forall>k \<in> set (bt_keys (srv_pending s)). k \<le> max_generated_txid s)"

definition server_inv :: "'db Server \<Rightarrow> bool" where
  "server_inv s \<longleftrightarrow> role_inv s \<and> rep_peers_inv s \<and> log_sync s \<and> waiting_inv s"

lemmas server_inv_defs = server_inv_def role_inv_def rep_peers_inv_def log_sync_def waiting_inv_def

section \<open>What learning leaves alone\<close>

text \<open>Learning writes the store, the waiting clients and the outbox, nothing else.\<close>

definition same_core :: "'db Server \<Rightarrow> 'db Server \<Rightarrow> bool" where
  "same_core s s' \<longleftrightarrow>
     srv_id s' = srv_id s \<and> peers s' = peers s \<and> rep_peers s' = rep_peers s \<and>
     max_generated_txid s' = max_generated_txid s \<and> highest_term s' = highest_term s \<and>
     state s' = state s \<and> rep_log s' = rep_log s"

lemma same_core_refl [simp]: "same_core s s"
  by (simp add: same_core_def)

lemma same_core_trans: "same_core s t \<Longrightarrow> same_core t u \<Longrightarrow> same_core s u"
  by (simp add: same_core_def)

lemma reply_cli_Inr:
  "reply_cli E env r s = Inr s' \<longleftrightarrow> (\<exists>b. write_CliRes E r = Inr b \<and> s' = reply env b s)"
  by (auto simp: reply_cli_def)

lemma reply_peer_Inr:
  "reply_peer E env r s = Inr s' \<longleftrightarrow> (\<exists>b. write_PeerMsg E r = Inr b \<and> s' = reply env b s)"
  by (auto simp: reply_peer_def)

lemma reply_same_core [simp]: "same_core s (reply env b s)"
  by (simp add: same_core_def reply_def)

lemma reply_simps [simp]:
  "srv_pending (reply env b s) = srv_pending s"
  "db (reply env b s) = db s"
  by (simp_all add: reply_def)

lemma learn_frame:
  assumes "learn E t x s = Inr s'"
  shows "same_core s s'" and "waiting_inv s \<Longrightarrow> waiting_inv s'"
proof -
  show "same_core s s'"
    using assms
    by (auto simp: learn_def Let_def reply_cli_Inr reply_def same_core_def
        split: option.splits prod.splits)
  have "srv_pending s' = srv_pending s \<or> srv_pending s' = bt_remove x (srv_pending s)"
    using assms by (auto simp: learn_def Let_def reply_cli_Inr split: option.splits prod.splits)
  then show "waiting_inv s \<Longrightarrow> waiting_inv s'"
    using \<open>same_core s s'\<close> set_bt_keys_remove [of x "srv_pending s"]
    by (auto simp: waiting_inv_def same_core_def)
qed

lemma learn_each_frame:
  assumes "learn_each E ids s = Inr s'"
  shows "same_core s s'" and "waiting_inv s \<Longrightarrow> waiting_inv s'"
proof -
  have "same_core s s' \<and> (waiting_inv s \<longrightarrow> waiting_inv s')"
    using assms [unfolded learn_each_def]
  proof (rule fold_res_invariant)
    fix e t t'
    assume "same_core s t \<and> (waiting_inv s \<longrightarrow> waiting_inv t)"
      and "(case e of (trm, txid) \<Rightarrow> learn E trm txid) t = Inr t'"
    then show "same_core s t' \<and> (waiting_inv s \<longrightarrow> waiting_inv t')"
      using learn_frame [of E "fst e" "snd e" t t'] same_core_trans by (auto split: prod.splits)
  qed simp
  then show "same_core s s'" and "waiting_inv s \<Longrightarrow> waiting_inv s'" by simp_all
qed

lemma same_core_inv:
  assumes "same_core s s'"
  shows "role_inv s' \<longleftrightarrow> role_inv s" and "rep_peers_inv s' \<longleftrightarrow> rep_peers_inv s"
    and "log_sync s' \<longleftrightarrow> log_sync s"
  using assms by (simp_all add: same_core_def role_inv_def rep_peers_inv_def log_sync_def cong: State.case_cong)

lemma learn_each_inv:
  assumes "learn_each E ids s = Inr s'" and "server_inv s"
  shows "server_inv s'"
  using learn_each_frame [OF assms(1)] assms(2) same_core_inv [OF learn_each_frame(1) [OF assms(1)]]
  by (simp add: server_inv_def)

lemma reply_inv [simp]: "server_inv (reply env b s) \<longleftrightarrow> server_inv s"
  using same_core_inv [OF reply_same_core [of s env b]]
  by (simp add: server_inv_def waiting_inv_def) (simp add: reply_def)

section \<open>Elections keep the invariant\<close>

lemma update_rep_peers_frame [simp]:
  "srv_id (update_rep_peers i a t s) = srv_id s"
  "peers (update_rep_peers i a t s) = peers s"
  "max_generated_txid (update_rep_peers i a t s) = max_generated_txid s"
  "highest_term (update_rep_peers i a t s) = highest_term s"
  "state (update_rep_peers i a t s) = state s"
  "rep_log (update_rep_peers i a t s) = rep_log s"
  "db (update_rep_peers i a t s) = db s"
  "outbox (update_rep_peers i a t s) = outbox s"
  "srv_pending (update_rep_peers i a t s) = srv_pending s"
  by (simp_all add: update_rep_peers_def Let_def split: option.splits)

lemma bt_insert_set: "set (bt_insert k v m) \<subseteq> insert (k, v) (set m)"
  by (induction m) auto

lemma bt_modify_set:
  "(j, w) \<in> set (bt_modify k f m) \<Longrightarrow> \<exists>v. (j, v) \<in> set m \<and> (w = v \<or> j = k \<and> w = f v)"
  by (auto simp: bt_modify_def split: if_splits)

lemma update_rep_peers_inv:
  assumes "rep_peers_inv s"
  shows "rep_peers_inv (update_rep_peers i a t s)"
proof (cases "srv_id s = i")
  case True
  then show ?thesis using assms by (simp add: update_rep_peers_def)
next
  case False
  then show ?thesis
    using assms
    by (auto simp: update_rep_peers_def Let_def rep_peers_inv_def split: option.splits
        dest!: bt_modify_set subsetD [OF bt_insert_set])
qed

lemma count_vote_frame:
  assumes "count_vote env i r t h s = (h', s')"
  shows "srv_id s' = srv_id s" "peers s' = peers s" "max_generated_txid s' = max_generated_txid s"
    "highest_term s' = highest_term s" "state s' = state s" "rep_log s' = rep_log s"
    "srv_pending s' = srv_pending s" "db s' = db s" "outbox s' = outbox s"
    "distinct h \<Longrightarrow> distinct h'" "rep_peers_inv s \<Longrightarrow> rep_peers_inv s'"
    "length h' \<le> Suc (length h)"
  using assms by (auto simp: count_vote_def update_rep_peers_inv split: if_splits)

lemma handle_vote_req_inv:
  assumes "server_inv s" and "handle_vote_req E now env i r s = Inr s'"
  shows "server_inv s'"
proof -
  obtain s1 trm ok b where d: "vote_req_decide E now env i r s = Inr (s1, trm, ok)"
    and s': "s' = reply env b s1"
    using assms(2) by (auto simp: handle_vote_req_def reply_peer_Inr split: prod.splits)
  have "server_inv s1"
    using d assms(1)
    by (auto simp: vote_req_decide_def server_inv_defs following_iff
        split: if_splits State.splits option.splits)
  then show ?thesis using s' by simp
qed

text \<open>The ways \<^verbatim>\<open>handle_vote_res\<close> can return.\<close>

lemma handle_vote_res_cases:
  assumes "handle_vote_res E now env i r s = Inr s'"
  obtains (ignored) "s' = s"
    | (nack) "s' = s\<lparr>highest_term := max (highest_term s) (VoteRes_get_term r), state := Init, rep_peers := []\<rparr>"
        "state_term (state s) = Some (VoteRes_get_term r)" "valid_candidate (state s) (now 0)"
        "\<not> VoteRes_get_success r"
    | (elected) h n u h' s1 where "state s = Candidate (VoteRes_get_term r) h n u" "now 1 < u"
        "count_vote env i r (VoteRes_get_term r) h s = (h', s1)" "unat n \<le> length h'"
        "s' = s1\<lparr>state := Leader (VoteRes_get_term r) [] n u\<rparr>"
    | (counted) h n u h' s1 where "state s = Candidate (VoteRes_get_term r) h n u" "now 1 < u"
        "count_vote env i r (VoteRes_get_term r) h s = (h', s1)" "length h' < unat n"
        "s' = s1\<lparr>state := Candidate (VoteRes_get_term r) h' n u\<rparr>"
    | (extended) h n u h' s1 where "state s = Leader (VoteRes_get_term r) h n u" "now 2 < u"
        "VoteRes_get_success r" "count_vote env i r (VoteRes_get_term r) h s = (h', s1)"
        "unat n \<le> length h'"
        "s' = s1\<lparr>state := Leader (VoteRes_get_term r) [] n (tadd E (now 3) LEADER_DURATION)\<rparr>"
    | (renewing) h n u h' s1 where "state s = Leader (VoteRes_get_term r) h n u" "now 2 < u"
        "VoteRes_get_success r" "count_vote env i r (VoteRes_get_term r) h s = (h', s1)"
        "length h' < unat n"
        "s' = s1\<lparr>state := Leader (VoteRes_get_term r) h' n u\<rparr>"
proof (cases "Some (VoteRes_get_term r) = state_term (state s)")
  case False
  then have "s' = s" using assms by (auto simp: handle_vote_res_def split: if_splits)
  then show thesis by (rule ignored)
next
  case True
  note t = this
  show thesis
  proof (cases "state s")
    case (Leader trm h n u)
    obtain h' s1 where c: "count_vote env i r trm h s = (h', s1)" by fastforce
    have "s' = s \<or> (now 2 < u \<and> VoteRes_get_success r \<and>
        s' = (if unat n \<le> length h' then s1\<lparr>state := Leader trm [] n (tadd E (now 3) LEADER_DURATION)\<rparr>
              else s1\<lparr>state := Leader trm h' n u\<rparr>))"
      using assms Leader t c by (auto simp: handle_vote_res_def split: if_splits)
    then show thesis
      using ignored extended [of h n u h' s1] renewing [of h n u h' s1] Leader t c
      by (cases "unat n \<le> length h'") auto
  next
    case (Candidate trm h n u)
    obtain h' s1 where c: "count_vote env i r trm h s = (h', s1)" by fastforce
    have "s' = s \<or> (now 0 < u \<and> \<not> VoteRes_get_success r \<and>
         s' = s\<lparr>highest_term := max (highest_term s) (VoteRes_get_term r), state := Init, rep_peers := []\<rparr>) \<or>
        (now 1 < u \<and>
         s' = (if unat n \<le> length h' then s1\<lparr>state := Leader trm [] n u\<rparr>
               else s1\<lparr>state := Candidate trm h' n u\<rparr>))"
      using assms Candidate t c by (auto simp: handle_vote_res_def max_def split: if_splits)
    then show thesis
      using ignored nack elected [of h n u h' s1] counted [of h n u h' s1] Candidate t c
      by (cases "unat n \<le> length h'") auto
  next
    case (Follower trm j k a u)
    then have "s' = s" using assms t by (auto simp: handle_vote_res_def split: if_splits)
    then show thesis by (rule ignored)
  next
    case Init
    then show thesis using t by simp
  qed
qed

lemma handle_vote_res_inv:
  assumes "server_inv s" and "handle_vote_res E now env i r s = Inr s'"
  shows "server_inv s'"
  using assms(2)
proof (cases rule: handle_vote_res_cases)
  case ignored
  then show ?thesis using assms(1) by simp
next
  case nack
  then show ?thesis using assms(1) by (auto simp: server_inv_defs)
next
  case (elected h n u h' s1)
  then show ?thesis using assms(1) count_vote_frame [OF elected(3)]
    by (auto simp: server_inv_defs word_less_nat_alt)
next
  case (counted h n u h' s1)
  then show ?thesis using assms(1) count_vote_frame [OF counted(3)]
    by (auto simp: server_inv_defs word_less_nat_alt)
next
  case (extended h n u h' s1)
  then show ?thesis using assms(1) count_vote_frame [OF extended(4)]
    by (auto simp: server_inv_defs word_less_nat_alt)
next
  case (renewing h n u h' s1)
  then show ?thesis using assms(1) count_vote_frame [OF renewing(4)]
    by (auto simp: server_inv_defs word_less_nat_alt)
qed

lemma cron_inv:
  assumes "server_inv s" and "cron E now s = Inr s'"
  shows "server_inv s'"
proof -
  obtain s1 where s1: "become_candidate E now s = Inr s1"
    and s': "s' = s1 \<or> (\<exists>b. s' = peer_broadcast b s1)"
    using assms(2) by (auto simp: cron_def split: if_splits)
  have "server_inv s1"
    using s1 assms(1)
    by (auto simp: become_candidate_def server_inv_defs word_less_nat_alt split: if_splits)
  then show ?thesis
    using s' by (auto simp: server_inv_defs peer_broadcast_def cong: State.case_cong)
qed

end
