(* ===== verification/Server_Invariant.thy ===== *)
theory Server_Invariant
  imports Server_Node
begin

text \<open>
  The invariant of a server is kept by the replication half of the protocol:
  \<^verbatim>\<open>handle_append\<close>, \<^verbatim>\<open>handle_append_res\<close>, \<^verbatim>\<open>replicate\<close> and
  \<^verbatim>\<open>handle_cli\<close> of \<^verbatim>\<open>src/src/server/server.rs\<close>. Together with the election half
  (theory Server_Node) it follows that every server reached from
  \<^verbatim>\<open>Server::run\<close> by any sequence of events satisfies it.
\<close>

section \<open>Replication keeps the invariant\<close>

text \<open>The batch loop tracks the accepted position of the log it extends.\<close>

definition tracks :: "Mutation InMemoryLog \<Rightarrow> Term \<times> TXID \<times> Mutation InMemoryLog \<Rightarrow> bool" where
  "tracks l0 st \<longleftrightarrow> (case st of (t, x, l) \<Rightarrow>
     log_inv l \<and> last_accepted_txid l = x \<and> last_accepted_term l = t \<and> quorum l = quorum l0 \<and>
     last_accepted_txid l0 \<le> x)"

lemma append_mutation_tracks:
  assumes "tracks l0 st" and "append_mutation m st = Inr st'"
  shows "tracks l0 st'"
proof -
  obtain t x l where st: "st = (t, x, l)" by (cases st)
  show ?thesis
    using assms iml.append_inv [of l] iml.append_accepted [of _ _ m l] log_ops_quorum(1) [of _ _ m l]
      iml.append_assert [of _ _ m l]
    by (fastforce simp: st tracks_def append_mutation_def Let_def split: if_splits)
qed

lemma append_batch_tracks:
  assumes "log_inv l" and "fold_res append_mutation b (last_accepted_term l, last_accepted_txid l, l) = Inr st"
  shows "tracks l st"
  using assms(2)
  by (rule fold_res_invariant) (auto simp: tracks_def [of l "(_, _, l)"] assms(1) intro: append_mutation_tracks)

text \<open>The ways \<^verbatim>\<open>handle_append\<close> can return.\<close>

lemma handle_append_cases:
  assumes "handle_append E env i a s = Inr s'"
  obtains (leader) "is_leader (state s)" "s' = s"
    | (stranger) b where "\<not> is_leader (state s)" "\<not> is_following (state s) i"
        "write_PeerMsg E (append_reply s AppendRes_new) = Inr b" "s' = reply env b s"
    | (unlinked) b where "is_following (state s) i"
        "\<not> append_links a (rep_log s)"
        "write_PeerMsg E (append_reply s
           (AppendRes_set_last_accepted_txid (last_accepted_txid (rep_log s))
             (AppendRes_set_last_accepted_term (last_accepted_term (rep_log s))
               (AppendRes_set_accepted False AppendRes_new)))) = Inr b" "s' = reply env b s"
    | (accepted) t x l s1 b where "is_following (state s) i"
        "append_links a (rep_log s)"
        "fold_res append_mutation (Append_get_batch a)
           (last_accepted_term (rep_log s), last_accepted_txid (rep_log s), rep_log s) = Inr (t, x, l)"
        "learn_each E (snd (commit_up_to (Append_get_last_learned_txid a) l))
           (s\<lparr>max_generated_txid := x, rep_log := fst (commit_up_to (Append_get_last_learned_txid a) l)\<rparr>)
         = Inr s1"
        "write_PeerMsg E (append_reply s1
           (AppendRes_set_last_accepted_txid x
             (AppendRes_set_last_accepted_term t (AppendRes_set_accepted True AppendRes_new)))) = Inr b"
        "s' = reply env b s1"
proof (cases "is_leader (state s)")
  case True
  then have "s' = s" using assms by (simp add: handle_append_def)
  with True show thesis by (rule leader)
next
  case lead: False
  show thesis
  proof (cases "is_following (state s) i")
    case False
    then obtain b where "write_PeerMsg E (append_reply s AppendRes_new) = Inr b" "s' = reply env b s"
      using lead assms by (auto simp: handle_append_def reply_peer_Inr)
    then show thesis using stranger [OF lead False] by simp
  next
    case fol: True
    show thesis
    proof (cases "append_links a (rep_log s)")
      case False
      then have "reply_peer E env (append_reply s
         (AppendRes_set_last_accepted_txid (last_accepted_txid (rep_log s))
           (AppendRes_set_last_accepted_term (last_accepted_term (rep_log s))
             (AppendRes_set_accepted False AppendRes_new)))) s = Inr s'"
        using lead fol assms by (simp add: handle_append_def)
      then show thesis using unlinked [OF fol False] by (auto simp: reply_peer_Inr)
    next
      case True
      let ?f = "fold_res append_mutation (Append_get_batch a)
        (last_accepted_term (rep_log s), last_accepted_txid (rep_log s), rep_log s)"
      obtain t x l where f: "?f = Inr (t, x, l)"
        using True lead fol assms by (auto simp: handle_append_def)
      show thesis
        using True lead fol assms accepted [OF fol _ f]
        by (auto simp: handle_append_def f reply_peer_Inr case_prod_beta)
    qed
  qed
qed

lemma handle_append_inv:
  assumes "server_inv s" and "handle_append E env i a s = Inr s'"
  shows "server_inv s'"
  using assms(2)
proof (cases rule: handle_append_cases)
  case (accepted t x l s1 b)
  let ?c = "commit_up_to (Append_get_last_learned_txid a) l"
  have "tracks (rep_log s) (t, x, l)"
    using append_batch_tracks [OF _ accepted(3)] assms(1) by (simp add: server_inv_def log_sync_def)
  then have "log_inv (fst ?c)" "last_accepted_txid (fst ?c) = x" "quorum (fst ?c) = quorum (rep_log s)"
      "last_accepted_txid (rep_log s) \<le> x"
    by (simp_all add: tracks_def iml.commit_inv iml.commit_accepted log_ops_quorum)
  then have "server_inv (s\<lparr>max_generated_txid := x, rep_log := fst ?c\<rparr>)"
    using assms(1) by (auto simp: server_inv_defs cong: State.case_cong)
  then show ?thesis using learn_each_inv [OF accepted(4)] accepted(6) by simp
qed (use assms(1) in simp_all)

lemma handle_append_res_cases:
  assumes "handle_append_res E env i r s = Inr s'"
  obtains (ignored) "s' = s" "\<not> is_leader (state s) \<or> bt_get (rep_peers s) i = None"
    | (acked) p where "is_leader (state s)" "bt_get (rep_peers s) i = Some p"
        "learn_each E (snd (ack_up_to (AppendRes_get_last_accepted_txid r) i (rep_log s)))
           (s\<lparr>rep_peers := bt_modify i (ack_peer r) (rep_peers s),
              rep_log := fst (ack_up_to (AppendRes_get_last_accepted_txid r) i (rep_log s))\<rparr>) = Inr s'"
  using assms by (auto simp: handle_append_res_def case_prod_beta split: if_splits option.splits)

lemma ack_peer_id [simp]: "rp_id (ack_peer r p) = rp_id p"
  by (simp add: ack_peer_def Let_def)

lemma handle_append_res_inv:
  assumes "server_inv s" and "handle_append_res E env i r s = Inr s'"
  shows "server_inv s'"
  using assms(2)
proof (cases rule: handle_append_res_cases)
  case (acked p)
  let ?l = "fst (ack_up_to (AppendRes_get_last_accepted_txid r) i (rep_log s))"
  let ?s = "s\<lparr>rep_peers := bt_modify i (ack_peer r) (rep_peers s), rep_log := ?l\<rparr>"
  have "log_sync ?s"
    using assms(1) by (simp add: server_inv_def log_sync_def iml.ack_inv iml.ack_accepted log_ops_quorum)
  moreover have "rep_peers_inv ?s"
    using assms(1) by (auto simp: server_inv_def rep_peers_inv_def dest!: bt_modify_set)
  ultimately have "server_inv ?s"
    using assms(1) by (auto simp: server_inv_def role_inv_def waiting_inv_def cong: State.case_cong)
  then show ?thesis using learn_each_inv [OF acked(3)] by simp
qed (use assms(1) in simp)

lemma replicate_mutation_Inr:
  assumes "replicate_mutation E m s = Inr s'"
  obtains l where
    "log_append (Version_get_term (Mutation_get_version m)) (Version_get_txid (Mutation_get_version m)) m
       (rep_log s) = Inr l"
    "learn_each E (snd (ack_up_to (Version_get_txid (Mutation_get_version m)) (srv_id s) l))
       (s\<lparr>rep_log := fst (ack_up_to (Version_get_txid (Mutation_get_version m)) (srv_id s) l)\<rparr>) = Inr s'"
  using assms by (auto simp: replicate_mutation_def Let_def case_prod_beta)

lemma gather_batch_frame [simp]:
  "rp_id (fst (gather_batch l xs p b)) = rp_id p"
  "rp_tok (fst (gather_batch l xs p b)) = rp_tok p"
  "rp_addr (fst (gather_batch l xs p b)) = rp_addr p"
  "rp_last_accepted_txid (fst (gather_batch l xs p b)) = rp_last_accepted_txid p"
  "rp_last_accepted_term (fst (gather_batch l xs p b)) = rp_last_accepted_term p"
  by (induction xs arbitrary: p b) (simp_all split: option.splits)

lemma send_to_peer_frame:
  "send_to_peer E i l p = Inr (p', env) \<Longrightarrow> rp_id p' = rp_id p"
  by (auto simp: send_to_peer_def case_prod_beta)

lemma send_to_peers_frame:
  "send_to_peers E i l es = Inr (es', envs) \<Longrightarrow>
     map (\<lambda>e. (fst e, rp_id (snd e))) es' = map (\<lambda>e. (fst e, rp_id (snd e))) es"
  by (induction es arbitrary: es' envs) (auto dest: send_to_peer_frame split: prod.splits)

lemma rep_peers_inv_alt:
  "rep_peers_inv s \<longleftrightarrow> sorted_wrt (<) (map fst (map (\<lambda>e. (fst e, rp_id (snd e))) (rep_peers s))) \<and>
     (\<forall>(k, j) \<in> set (map (\<lambda>e. (fst e, rp_id (snd e))) (rep_peers s)). j = k \<and> k \<noteq> srv_id s)"
  by (auto simp: rep_peers_inv_def bt_inv_def bt_keys_def comp_def)

text \<open>The version a request's mutation carries.\<close>

lemma mutation_versions [simp]:
  "Version_get_txid (new_version x t) = x"
  "Version_get_term (new_version x t) = t"
  "Mutation_get_version (set_mutation sr x t) = new_version x t"
  "Mutation_get_version (cas_mutation cr x t) = new_version x t"
  "Mutation_get_version (del_mutation dr x t) = new_version x t"
  by (simp_all add: new_version_def set_mutation_def cas_mutation_def del_mutation_def msg_accessors)

text \<open>A server that has just taken a txid and remembered its client.\<close>

lemma replicate_fresh_inv:
  assumes "server_inv s" and "max_generated_txid s < x"
    and "Mutation_get_version m = new_version x t"
    and "replicate_mutation E m (s\<lparr>max_generated_txid := x, srv_pending := bt_insert x w (srv_pending s)\<rparr>) = Inr s'"
  shows "server_inv s'"
  using assms(4)
proof (cases rule: replicate_mutation_Inr)
  case (1 l)
  let ?l = "fst (ack_up_to x (srv_id s) l)"
  let ?s = "s\<lparr>max_generated_txid := x, srv_pending := bt_insert x w (srv_pending s), rep_log := ?l\<rparr>"
  have app: "log_append t x m (rep_log s) = Inr l"
    using 1(1) assms(3) by simp
  have "log_sync ?s"
    using assms(1) iml.append_then_ack [OF _ app] log_ops_quorum(1) [OF app]
    by (simp add: server_inv_def log_sync_def log_ops_quorum)
  moreover have "waiting_inv ?s"
    using assms(1,2) by (auto simp: server_inv_def waiting_inv_def)
  ultimately have "server_inv ?s"
    using assms(1) by (auto simp: server_inv_def role_inv_def rep_peers_inv_def cong: State.case_cong)
  then show ?thesis using learn_each_inv [OF 1(2)] assms(3) by simp
qed

lemma replicate_single_cases:
  assumes "replicate E [m] s = Inr s'"
  obtains s1 ps envs where "replicate_mutation E m s = Inr s1"
    "send_to_peers E (srv_id s1) (rep_log s1) (rep_peers s1) = Inr (ps, envs)"
    "s' = s1\<lparr>rep_peers := ps, outbox := outbox s1 @ envs\<rparr>"
    "last_learned_txid (rep_log s1) \<le> last_accepted_txid (rep_log s1)"
  using assms by (auto simp: replicate_def)

lemma send_to_peers_inv:
  assumes "server_inv s" and "send_to_peers E i l (rep_peers s) = Inr (ps, envs)"
  shows "server_inv (s\<lparr>rep_peers := ps, outbox := o'\<rparr>)"
proof -
  have "rep_peers_inv (s\<lparr>rep_peers := ps, outbox := o'\<rparr>)"
    using assms(1) send_to_peers_frame [OF assms(2)] by (simp add: server_inv_def rep_peers_inv_alt)
  then show ?thesis
    using assms(1) by (auto simp: server_inv_def role_inv_def log_sync_def waiting_inv_def cong: State.case_cong)
qed

lemma submit_cases:
  assumes "submit E req i mk s = Inr s'"
  obtains x t s1 ps envs where "checked_add (max_generated_txid s) 1 = Inr x" "state_term (state s) = Some t"
    "replicate_mutation E (mk x t)
       (s\<lparr>max_generated_txid := x, srv_pending := bt_insert x (req, i) (srv_pending s)\<rparr>) = Inr s1"
    "send_to_peers E (srv_id s1) (rep_log s1) (rep_peers s1) = Inr (ps, envs)"
    "s' = s1\<lparr>rep_peers := ps, outbox := outbox s1 @ envs\<rparr>"
  using assms by (auto simp: submit_def new_txid_def elim!: replicate_single_cases)

lemma submit_inv:
  assumes "server_inv s" and "\<And>x t. Mutation_get_version (mk x t) = new_version x t"
    and "submit E req i mk s = Inr s'"
  shows "server_inv s'"
  using assms(3)
proof (cases rule: submit_cases)
  case (1 x t s1 ps envs)
  have "server_inv s1"
    using replicate_fresh_inv [OF assms(1) checked_add_1_greater [OF 1(1)] assms(2) 1(3)] .
  then show ?thesis using send_to_peers_inv [OF _ 1(4)] 1(5) by simp
qed

lemma handle_cli_inv:
  assumes "server_inv s" and "handle_cli E req s = Inr s'"
  shows "server_inv s'"
  using assms
  by (auto simp: handle_cli_def Let_def reply_cli_Inr split: if_splits
      intro: submit_inv [OF assms(1) mutation_versions(3)] submit_inv [OF assms(1) mutation_versions(4)]
        submit_inv [OF assms(1) mutation_versions(5)])

lemma handle_peer_inv:
  assumes "server_inv s" and "handle_peer E now env s = Inr s'"
  shows "server_inv s'"
  using assms handle_vote_req_inv [OF assms(1)] handle_vote_res_inv [OF assms(1)]
    handle_append_inv [OF assms(1)] handle_append_res_inv [OF assms(1)]
  by (auto simp: handle_peer_def Let_def split: if_splits)

lemma server_step_inv:
  "server_inv s \<Longrightarrow> server_step E now ev s = Inr s' \<Longrightarrow> server_inv s'"
  by (cases ev) (auto simp: server_step_def intro: handle_peer_inv handle_cli_inv cron_inv)

lemma Server_init_inv: "server_inv (Server_init pport cport i ps d)"
  by (simp add: Server_init_def server_inv_defs empty_log_def log_inv_def)

lemma reachable_inv: "reachable E s \<Longrightarrow> server_inv s"
  by (induction rule: reachable.induct) (auto intro: Server_init_inv server_step_inv)

section \<open>Every message sent is initialized\<close>

lemma messages_initialized [simp]:
  "PeerMsg_is_initialized (vote_reply s t ok)"
  "PeerMsg_is_initialized (vote_request s t)"
  "PeerMsg_is_initialized (append_reply s ar)"
  "PeerMsg_is_initialized (append_message i p x b)"
  "CliRes_is_initialized (CliRes_set_req_id q r)"
  "CliRes_is_initialized (CliRes_set_redirect rr (CliRes_set_req_id q r))"
  "CliRes_is_initialized (CliRes_set_get gr (CliRes_set_req_id q r))"
  by (simp_all add: vote_reply_def vote_request_def append_reply_def append_message_def
      PeerMsg_is_initialized_def CliRes_is_initialized_def msg_accessors)

end
