(* ===== verification/Memory_Ext.thy ===== *)
theory Memory_Ext
  imports Server_Invariant
begin

text \<open>
  One instance of the externals of the server, on which the properties of the development
  are applied to concrete inputs, and three runs on it: a lone node
  is elected and stores a value, a leader of three nodes replicates one, and a node becomes
  a follower.
\<close>

section \<open>Externals kept in memory\<close>

text \<open>An instance of the externals on which the properties are applied: stamps are added
  exactly, the store is a map, and messages are parsed from a table.\<close>

definition mem_ext :: "(bytes \<times> PeerMsg) list \<Rightarrow> (bytes \<times> CliReq) list \<Rightarrow> (bytes \<Rightarrow> bytes option) Ext" where
  "mem_ext pms crs =
     \<lparr>tadd = (\<lambda>t d. Timespec (sec t + int d) (nsec t)),
      db_get = (\<lambda>d k. case d k of Some v \<Rightarrow> DBSome v | None \<Rightarrow> DBNone),
      db_put = (\<lambda>d k v. (Inr (), d(k \<mapsto> v))),
      db_delete = (\<lambda>d k. (Inr (), d(k := None))),
      parse_PeerMsg = (\<lambda>b. case map_of pms b of Some m \<Rightarrow> Inr m | None \<Rightarrow> Inl ''bad message''),
      parse_CliReq = (\<lambda>b. case map_of crs b of Some m \<Rightarrow> Inr m | None \<Rightarrow> Inl ''bad message''),
      write_PeerMsg = (\<lambda>m. if PeerMsg_is_initialized m then Inr [] else Inl ''not initialized''),
      write_CliRes = (\<lambda>m. if CliRes_is_initialized m then Inr [] else Inl ''not initialized''),
      fmt_addr = (\<lambda>a. ''addr'')\<rparr>"

lemma mem_ext_simps [simp]:
  "tadd (mem_ext pms crs) t d = Timespec (sec t + int d) (nsec t)"
  "db_get (mem_ext pms crs) d' k = (case d' k of Some v \<Rightarrow> DBSome v | None \<Rightarrow> DBNone)"
  "db_put (mem_ext pms crs) d' k v = (Inr (), d'(k \<mapsto> v))"
  "db_delete (mem_ext pms crs) d' k = (Inr (), d'(k := None))"
  "parse_PeerMsg (mem_ext pms crs) b = (case map_of pms b of Some m \<Rightarrow> Inr m | None \<Rightarrow> Inl ''bad message'')"
  "parse_CliReq (mem_ext pms crs) b = (case map_of crs b of Some m \<Rightarrow> Inr m | None \<Rightarrow> Inl ''bad message'')"
  "write_PeerMsg (mem_ext pms crs) pm = (if PeerMsg_is_initialized pm then Inr [] else Inl ''not initialized'')"
  "write_CliRes (mem_ext pms crs) cr = (if CliRes_is_initialized cr then Inr [] else Inl ''not initialized'')"
  "fmt_addr (mem_ext pms crs) a = ''addr''"
  by (simp_all add: mem_ext_def)

section \<open>A run of a lone node\<close>

definition demo_mutation :: Mutation where
  "demo_mutation = set_mutation (SetReq_set_value [9] (SetReq_set_key [7] SetReq_new)) 1 1"

definition demo_vote :: PeerMsg where
  "demo_vote = PeerMsg_set_vote_res (VoteRes_set_success True (VoteRes_set_term 1 VoteRes_new))
     (PeerMsg_set_srvid ''a'' PeerMsg_new)"

definition demo_set :: CliReq where
  "demo_set = CliReq_set_set (SetReq_set_value [9] (SetReq_set_key [7] SetReq_new))
     (CliReq_set_req_id 3 CliReq_new)"

definition demo_ext :: "(bytes \<Rightarrow> bytes option) Ext" where
  "demo_ext = mem_ext [([1], demo_vote)] [([2], demo_set)]"

definition demo_now :: "nat \<Rightarrow> Timespec" where
  "demo_now i = Timespec 0 0"

definition demo_env :: "u8 \<Rightarrow> Envelope" where
  "demo_env b = \<lparr>address = Some ([127, 0, 0, 1], 7777), tok = 5, msg = [b]\<rparr>"

abbreviation demo_start :: "(bytes \<Rightarrow> bytes option) Server" where
  "demo_start \<equiv> Server_init 1 2 ''a'' [''a''] Map.empty"

definition demo_candidate :: "(bytes \<Rightarrow> bytes option) Server" where
  "demo_candidate = peer_broadcast [] (demo_start\<lparr>highest_term := 1, state := Candidate 1 [] 1 (Timespec 12 0)\<rparr>)"

definition demo_leader :: "(bytes \<Rightarrow> bytes option) Server" where
  "demo_leader = demo_candidate\<lparr>state := Leader 1 [] 1 (Timespec 12 0)\<rparr>"

lemma demo_msgs:
  "PeerMsg_has_vote_res demo_vote" "PeerMsg_get_srvid demo_vote = ''a''"
  "\<not> PeerMsg_has_append demo_vote"
  "VoteRes_get_term (PeerMsg_get_vote_res demo_vote) = 1"
  "VoteRes_get_success (PeerMsg_get_vote_res demo_vote)"
  "\<not> CliReq_has_get demo_set" "CliReq_has_set demo_set" "CliReq_get_req_id demo_set = 3"
  "CliReq_get_set demo_set = SetReq_set_value [9] (SetReq_set_key [7] SetReq_new)"
  by (simp_all add: demo_vote_def demo_set_def msg_accessors)

lemma demo_cron: "server_step demo_ext demo_now CronEvent demo_start = Inr demo_candidate"
  by (simp add: server_step_def cron_def become_candidate_def Server_init_def checked_add_def demo_ext_def
      demo_now_def demo_candidate_def LEADER_DURATION_def peer_broadcast_def PeerMsg_is_initialized_def
      vote_request_def PeerMsg_accessors)

lemma demo_elect: "server_step demo_ext demo_now (PeerEvent (demo_env 1)) demo_candidate = Inr demo_leader"
  by (simp add: server_step_def handle_peer_def handle_vote_res_def demo_ext_def demo_env_def demo_msgs
      demo_candidate_def demo_leader_def peer_broadcast_def demo_now_def count_vote_def update_rep_peers_def
      Server_init_def Let_def)


lemma demo_submit:
  "server_step demo_ext demo_now (CliEvent (demo_env 2)) demo_leader =
     submit demo_ext (demo_env 2) 3 (set_mutation (SetReq_set_value [9] (SetReq_set_key [7] SetReq_new))) demo_leader"
  by (simp add: server_step_def handle_cli_def demo_ext_def demo_env_def demo_msgs demo_leader_def)

lemma demo_store:
  "\<exists>s. server_step demo_ext demo_now (CliEvent (demo_env 2)) demo_leader = Inr s \<and> db s = [[7] \<mapsto> [9]] \<and>
     map (\<lambda>e. le_entry (snd e)) (committed (rep_log s)) = [demo_mutation]"
  unfolding demo_submit
  by (simp add: demo_ext_def demo_env_def Let_def submit_def new_txid_def
      demo_leader_def demo_candidate_def Server_init_def peer_broadcast_def checked_add_def replicate_def
      replicate_mutation_def log_append_def empty_log_def ack_up_to_eq drain_spec_def push_ack_def learn_each_def
      learn_def learn_mutation_def learn_set_def log_get_def demo_mutation_def set_mutation_def new_version_def
      reply_cli_def reply_def entry_id_def learn_entry_def CliRes_is_initialized_def msg_accessors)

section \<open>A run of a cluster of three\<close>

text \<open>Node \<open>a\<close> of the cluster \<open>a\<close>, \<open>b\<close>, \<open>c\<close> is elected by \<open>a\<close> and \<open>b\<close>, takes a set request, and gets a
  refusal from \<open>b\<close>.\<close>

definition trio_vote :: "string \<Rightarrow> PeerMsg" where
  "trio_vote i = PeerMsg_set_vote_res (VoteRes_set_success True (VoteRes_set_term 1 VoteRes_new))
     (PeerMsg_set_srvid i PeerMsg_new)"

definition trio_refusal :: PeerMsg where
  "trio_refusal = PeerMsg_set_append_res (AppendRes_set_accepted False AppendRes_new)
     (PeerMsg_set_srvid ''b'' PeerMsg_new)"

definition trio_ext :: "(bytes \<Rightarrow> bytes option) Ext" where
  "trio_ext = mem_ext [([1], trio_vote ''a''), ([3], trio_vote ''b''), ([4], trio_refusal)] [([2], demo_set)]"

definition trio_env :: "Token \<Rightarrow> u8 \<Rightarrow> Envelope" where
  "trio_env t b = \<lparr>address = Some ([127, 0, 0, 1], 7777), tok = t, msg = [b]\<rparr>"

definition trio_candidate :: "(bytes \<Rightarrow> bytes option) Server" where
  "trio_candidate = peer_broadcast [] ((Server_init 1 2 ''a'' [''a'', ''b'', ''c''] Map.empty)
     \<lparr>highest_term := 1, state := Candidate 1 [] 2 (Timespec 12 0)\<rparr>)"

definition trio_halfway :: "(bytes \<Rightarrow> bytes option) Server" where
  "trio_halfway = trio_candidate\<lparr>state := Candidate 1 [5] 2 (Timespec 12 0)\<rparr>"

definition trio_b :: RepPeer where
  "trio_b = \<lparr>rp_last_accepted_term = 0, rp_last_accepted_txid = 0, rp_max_sent_txid = 0, rp_tok = 6,
     rp_id = ''b'', rp_addr = Some ([127, 0, 0, 1], 7777)\<rparr>"

definition trio_leader :: "(bytes \<Rightarrow> bytes option) Server" where
  "trio_leader = trio_candidate\<lparr>rep_peers := [(''b'', trio_b)], state := Leader 1 [] 2 (Timespec 12 0)\<rparr>"

lemma trio_msgs:
  "PeerMsg_has_vote_res (trio_vote i)" "PeerMsg_get_srvid (trio_vote i) = i"
  "VoteRes_get_term (PeerMsg_get_vote_res (trio_vote i)) = 1"
  "VoteRes_get_success (PeerMsg_get_vote_res (trio_vote i))"
  "\<not> PeerMsg_has_vote_res trio_refusal" "\<not> PeerMsg_has_vote_req trio_refusal" "\<not> PeerMsg_has_append trio_refusal"
  "PeerMsg_has_append_res trio_refusal" "PeerMsg_get_srvid trio_refusal = ''b''"
  "\<not> AppendRes_get_accepted (PeerMsg_get_append_res trio_refusal)"
  by (simp_all add: trio_vote_def trio_refusal_def msg_accessors)

lemma trio_cron:
  "server_step trio_ext demo_now CronEvent (Server_init 1 2 ''a'' [''a'', ''b'', ''c''] Map.empty) = Inr trio_candidate"
  by (simp add: server_step_def cron_def become_candidate_def Server_init_def checked_add_def trio_ext_def
      demo_now_def trio_candidate_def LEADER_DURATION_def peer_broadcast_def PeerMsg_is_initialized_def
      vote_request_def PeerMsg_accessors)

lemma trio_own_vote: "server_step trio_ext demo_now (PeerEvent (trio_env 5 1)) trio_candidate = Inr trio_halfway"
  by (simp add: server_step_def handle_peer_def handle_vote_res_def trio_ext_def trio_env_def trio_msgs
      trio_candidate_def trio_halfway_def peer_broadcast_def demo_now_def count_vote_def update_rep_peers_def
      Server_init_def Let_def)

lemma trio_elect: "server_step trio_ext demo_now (PeerEvent (trio_env 6 3)) trio_halfway = Inr trio_leader"
  by (simp add: server_step_def handle_peer_def handle_vote_res_def trio_ext_def trio_env_def trio_msgs
      trio_candidate_def trio_halfway_def trio_leader_def trio_b_def peer_broadcast_def demo_now_def count_vote_def
      update_rep_peers_def Server_init_def empty_log_def Let_def)

lemma trio_reachable: "reachable trio_ext trio_leader"
  by (rule reachable.step [OF reachable.step [OF reachable.step [OF reachable.start trio_cron] trio_own_vote] trio_elect])

definition trio_pending :: "(TXID, Mutation Acked) btree" where
  "trio_pending = [(1, \<lparr>acks = [''a''], inner = \<lparr>le_txid = 1, le_term = 1, le_last_txid = 0, le_last_term = 0,
     le_entry = demo_mutation\<rparr>\<rparr>)]"

lemma trio_submit:
  "server_step trio_ext demo_now (CliEvent (trio_env 9 2)) trio_leader =
     submit trio_ext (trio_env 9 2) 3 (set_mutation (SetReq_set_value [9] (SetReq_set_key [7] SetReq_new))) trio_leader"
  by (simp add: server_step_def handle_cli_def trio_ext_def trio_env_def demo_msgs trio_leader_def)

lemma trio_replicated:
  "\<exists>s. server_step trio_ext demo_now (CliEvent (trio_env 9 2)) trio_leader = Inr s \<and>
     pending (rep_log s) = trio_pending \<and> quorum (rep_log s) = 2 \<and> bt_get (rep_peers s) ''b'' \<noteq> None \<and>
     is_leader (state s) \<and> db s = Map.empty"
  unfolding trio_submit
  by (simp add: trio_ext_def trio_env_def submit_def new_txid_def trio_pending_def demo_mutation_def
      trio_leader_def trio_candidate_def Server_init_def peer_broadcast_def checked_add_def replicate_def
      replicate_mutation_def Let_def log_append_def empty_log_def ack_up_to_eq drain_spec_def push_ack_def learn_each_def
      send_to_peer_def case_prod_beta append_message_def trio_b_def PeerMsg_is_initialized_def PeerMsg_accessors)

section \<open>A follower\<close>

definition follow_req :: PeerMsg where
  "follow_req = PeerMsg_set_vote_req (VoteReq_set_term 5 VoteReq_new) (PeerMsg_set_srvid ''b'' PeerMsg_new)"

definition follow_ext :: "(bytes \<Rightarrow> bytes option) Ext" where
  "follow_ext = mem_ext [([1], follow_req)] []"

definition follow_state :: "(bytes \<Rightarrow> bytes option) Server" where
  "follow_state = reply (demo_env 1) [] (demo_start\<lparr>highest_term := 5,
     state := Follower 5 ''b'' 5 ([127, 0, 0, 1], 7777) (Timespec 12 0)\<rparr>)"

definition follow_append :: Append where
  "follow_append = Append_set_batch [demo_mutation] Append_new"

lemma follow_msgs:
  "\<not> PeerMsg_has_vote_res follow_req" "PeerMsg_has_vote_req follow_req" "PeerMsg_get_srvid follow_req = ''b''"
  "VoteReq_get_term (PeerMsg_get_vote_req follow_req) = 5"
  "VoteReq_get_last_learned_term (PeerMsg_get_vote_req follow_req) = 0"
  "VoteReq_get_last_accepted_txid (PeerMsg_get_vote_req follow_req) = 0"
  "Append_get_batch follow_append = [demo_mutation]" "Append_get_from_term follow_append = 0"
  "Append_get_from_txid follow_append = 0" "Append_get_last_learned_txid follow_append = 0"
  by (simp_all add: follow_req_def follow_append_def msg_accessors)

lemma demo_mutation_version:
  "Version_get_txid (Mutation_get_version demo_mutation) = 1"
  "Version_get_term (Mutation_get_version demo_mutation) = 1"
  by (simp_all add: demo_mutation_def)

lemma follow_step: "server_step follow_ext demo_now (PeerEvent (demo_env 1)) demo_start = Inr follow_state"
  by (simp add: server_step_def handle_peer_def handle_vote_req_def vote_req_decide_def should_grant_vote_def
      follow_ext_def demo_env_def follow_msgs follow_state_def demo_now_def Server_init_def empty_log_def
      LEADER_DURATION_def reply_peer_def reply_def Let_def)

lemma follow_reachable: "reachable follow_ext follow_state"
  by (rule reachable.step [OF reachable.start follow_step])

end
