(* ===== verification/Server_Store.thy ===== *)
theory Server_Store
  imports Server_Invariant Memory_Ext
begin

text \<open>
  What learning does to the store.  The three mutations have a meaning on an abstract map
  from keys to values; \<^verbatim>\<open>learn\<close> of \<^verbatim>\<open>server/server.rs\<close> implements it on any store that keeps the
  laws which the server relies on.  The store of a node that has received no \<^verbatim>\<open>Append\<close> is the
  replay of its committed log, without the entries on which the store itself failed.
\<close>

section \<open>The abstract store\<close>

text \<open>What the three mutations mean for a map from keys to values.  A compare-and-set takes
  effect when the current value is the expected one, where an absent old value expects an
  absent key.\<close>

type_synonym kv = "bytes \<Rightarrow> bytes option"

definition kv_apply :: "Mutation \<Rightarrow> kv \<Rightarrow> kv" where
  "kv_apply m kv =
     (let k = Mutation_get_key m; v = Mutation_get_value m in
      case Mutation_get_field_type m of
        KVSET \<Rightarrow> kv(k \<mapsto> v)
      | KVCAS \<Rightarrow> if kv k = Mutation_old_value m then kv(k \<mapsto> v) else kv
      | KVDEL \<Rightarrow> kv(k := None))"

text \<open>What the server relies on from RocksDB: a value that is read is the one that was
  stored, a write that succeeds is visible and a write that fails changes nothing.  Any
  operation may fail.\<close>

definition store_laws :: "'db Ext \<Rightarrow> ('db \<Rightarrow> kv) \<Rightarrow> bool" where
  "store_laws E view \<longleftrightarrow>
     (\<forall>d k v. db_get E d k = DBSome v \<longrightarrow> view d k = Some v) \<and>
     (\<forall>d k. db_get E d k = DBNone \<longrightarrow> view d k = None) \<and>
     (\<forall>d k v u d'. db_put E d k v = (Inr u, d') \<longrightarrow> view d' = (view d)(k \<mapsto> v)) \<and>
     (\<forall>d k v e d'. db_put E d k v = (Inl e, d') \<longrightarrow> view d' = view d) \<and>
     (\<forall>d k u d'. db_delete E d k = (Inr u, d') \<longrightarrow> view d' = (view d)(k := None)) \<and>
     (\<forall>d k e d'. db_delete E d k = (Inl e, d') \<longrightarrow> view d' = view d)"

text \<open>Where the store fails on a mutation: on the operation whose error \<^verbatim>\<open>learn\<close> reports.  The read
  of a delete may fail too, its error is ignored.\<close>

definition store_error :: "'db Ext \<Rightarrow> Mutation \<Rightarrow> 'db \<Rightarrow> bool" where
  "store_error E m d =
     (let k = Mutation_get_key m; put_fails = \<not> is_ok (fst (db_put E d k (Mutation_get_value m))) in
      case Mutation_get_field_type m of
        KVSET \<Rightarrow> put_fails
      | KVCAS \<Rightarrow> (case db_get E d k of
                    DBSome v \<Rightarrow> Mutation_old_value m = Some v \<and> put_fails
                  | DBNone \<Rightarrow> Mutation_old_value m = None \<and> put_fails
                  | DBError e \<Rightarrow> True)
      | KVDEL \<Rightarrow> \<not> is_ok (fst (db_delete E d k)))"

text \<open>The verdict that a response carries for a mutation of a given kind.\<close>

definition res_success :: "MutationType \<Rightarrow> CliRes \<Rightarrow> bool" where
  "res_success ty r =
     (case ty of
        KVSET \<Rightarrow> SetRes_get_success (CliRes_get_set r)
      | KVCAS \<Rightarrow> CASRes_get_success (CliRes_get_cas r)
      | KVDEL \<Rightarrow> DelRes_get_success (CliRes_get_del r))"

section \<open>One mutation\<close>

lemma store_lawsD:
  assumes "store_laws E view"
  shows "db_get E d k = DBSome v \<Longrightarrow> view d k = Some v"
    "db_get E d k = DBNone \<Longrightarrow> view d k = None"
    "db_put E d k v = (Inr u, d') \<Longrightarrow> view d' = (view d)(k \<mapsto> v)"
    "db_put E d k v = (Inl e, d') \<Longrightarrow> view d' = view d"
    "db_delete E d k = (Inr u, d') \<Longrightarrow> view d' = (view d)(k := None)"
    "db_delete E d k = (Inl e, d') \<Longrightarrow> view d' = view d"
  using assms by (simp_all add: store_laws_def)

lemma old_value_cases:
  "Mutation_has_old_value m \<and> v = Mutation_get_old_value m \<longleftrightarrow> Mutation_old_value m = Some v"
  "\<not> Mutation_has_old_value m \<longleftrightarrow> Mutation_old_value m = None"
  by (auto simp: msg_accessors split: option.splits)

lemma learn_set_refines:
  assumes "store_laws E view" and "learn_set E m d = (d', r)"
  shows "view d' = (if SetRes_get_success r then (view d)(Mutation_get_key m \<mapsto> Mutation_get_value m) else view d)"
  using assms(2) store_lawsD [OF assms(1)]
  by (auto simp: learn_set_def SetRes_accessors split: prod.splits sum.splits)

lemma learn_del_refines:
  assumes "store_laws E view" and "learn_del E m d = (d', r)"
  shows "view d' = (if DelRes_get_success r then (view d)(Mutation_get_key m := None) else view d)"
  using assms(2) store_lawsD(5,6) [OF assms(1)]
  by (auto simp: learn_del_def DelRes_accessors Let_def split: prod.splits sum.splits DBResult.splits)

lemma learn_cas_refines:
  assumes "store_laws E view" and "learn_cas E x m d = (d', r)"
  shows "view d' = (if CASRes_get_success r then (view d)(Mutation_get_key m \<mapsto> Mutation_get_value m) else view d)"
    and "CASRes_get_success r \<Longrightarrow> view d (Mutation_get_key m) = Mutation_old_value m"
  using assms(2) store_lawsD(1-4) [OF assms(1)]
  by (auto simp: learn_cas_def CASRes_accessors Let_def old_value_cases
      split: prod.splits sum.splits DBResult.splits if_splits)

lemma learn_cas_reply:
  assumes "store_laws E view" and "Mutation_get_field_type m = KVCAS" and "\<not> store_error E m d" and "learn_cas E x m d = (d', r)"
  shows "CASRes_get_success r = (view d (Mutation_get_key m) = Mutation_old_value m) \<and>
    CASRes_value r = view d' (Mutation_get_key m) \<and> CASRes_txid r = Some x"
proof -
  let ?k = "Mutation_get_key m" and ?v = "Mutation_get_value m"
  obtain p d1 where put: "db_put E d ?k ?v = (p, d1)" by fastforce
  have d1: "is_ok p \<Longrightarrow> view d1 = (view d)(?k \<mapsto> ?v)" using store_lawsD(3) [OF assms(1)] put by (auto simp: is_ok_iff)
  show ?thesis
  proof (cases "db_get E d ?k")
    case (DBSome v)
    then have "Mutation_old_value m = Some v \<Longrightarrow> is_ok p" using assms(2,3) put by (simp add: store_error_def Let_def)
    then show ?thesis
      using assms(4) put d1 DBSome store_lawsD(1) [OF assms(1) DBSome]
      by (cases "Mutation_old_value m = Some v") (auto simp: learn_cas_def CASRes_accessors Let_def old_value_cases is_ok_iff)
  next
    case DBNone
    then have "Mutation_old_value m = None \<Longrightarrow> is_ok p" using assms(2,3) put by (simp add: store_error_def Let_def)
    then show ?thesis
      using assms(4) put d1 DBNone store_lawsD(2) [OF assms(1) DBNone]
      by (cases "Mutation_old_value m") (auto simp: learn_cas_def CASRes_accessors Let_def old_value_cases is_ok_iff)
  next
    case (DBError e)
    then show ?thesis using assms(2,3) by (simp add: store_error_def Let_def)
  qed
qed

lemma learn_mutation_refines:
  assumes "store_laws E view" and "learn_mutation E x m d = (d', r)"
  shows "view d' = (if res_success (Mutation_get_field_type m) r then kv_apply m (view d) else view d)"
  using assms(2) learn_set_refines [OF assms(1)] learn_del_refines [OF assms(1)] learn_cas_refines [OF assms(1)]
  by (cases "Mutation_get_field_type m")
     (auto simp: learn_mutation_def res_success_def kv_apply_def CliRes_accessors Let_def split: prod.splits)

text \<open>The store after learning a mutation; the learned txid only goes into the response.\<close>

definition learn_db :: "'db Ext \<Rightarrow> Mutation \<Rightarrow> 'db \<Rightarrow> 'db" where
  "learn_db E m d = fst (learn_mutation E 0 m d)"

lemma learn_mutation_db: "fst (learn_mutation E x m d) = learn_db E m d"
  by (cases "Mutation_get_field_type m")
     (simp_all add: learn_db_def learn_mutation_def learn_cas_def case_prod_beta Let_def)

text \<open>A mutation is applied, unless the store fails on it; then nothing changes and the response
  reports a failure.\<close>

lemma store_error_response:
  assumes "learn_mutation E x m d = (d', r)" and "store_error E m d"
  shows "\<not> res_success (Mutation_get_field_type m) r"
proof (cases "Mutation_get_field_type m")
  case KVSET
  then show ?thesis
    using assms by (auto simp: learn_mutation_def res_success_def learn_set_def store_error_def CliRes_accessors SetRes_accessors
        Let_def is_ok_iff split: prod.splits sum.splits)
next
  case KVCAS
  then show ?thesis
    using assms by (auto simp: learn_mutation_def res_success_def learn_cas_def store_error_def CliRes_accessors CASRes_accessors
        Let_def is_ok_iff old_value_cases split: prod.splits sum.splits DBResult.splits if_splits)
next
  case KVDEL
  then show ?thesis
    using assms by (auto simp: learn_mutation_def res_success_def learn_del_def store_error_def CliRes_accessors DelRes_accessors
        Let_def is_ok_iff split: prod.splits sum.splits)
qed

lemma no_store_error:
  assumes "store_laws E view" and "learn_mutation E x m d = (d', r)" and "\<not> store_error E m d"
  shows "res_success (Mutation_get_field_type m) r \<or> kv_apply m (view d) = view d"
proof (cases "Mutation_get_field_type m")
  case KVSET
  then show ?thesis
    using assms(2,3) by (auto simp: learn_mutation_def res_success_def learn_set_def store_error_def CliRes_accessors SetRes_accessors
        Let_def is_ok_iff split: prod.splits sum.splits)
next
  case KVCAS
  obtain r' where "learn_cas E x m d = (d', r')" "CASRes_get_success r' = res_success (Mutation_get_field_type m) r"
    using assms(2) KVCAS by (auto simp: learn_mutation_def res_success_def CliRes_accessors split: prod.splits)
  then show ?thesis
    using learn_cas_reply [OF assms(1) KVCAS assms(3)] KVCAS by (auto simp: kv_apply_def Let_def)
next
  case KVDEL
  then show ?thesis
    using assms(2,3) by (auto simp: learn_mutation_def res_success_def learn_del_def store_error_def CliRes_accessors DelRes_accessors
        Let_def is_ok_iff split: prod.splits sum.splits)
qed

lemma learn_db_view:
  assumes "store_laws E view"
  shows "view (learn_db E m d) = (if store_error E m d then view d else kv_apply m (view d))"
proof -
  obtain d' r where r: "learn_mutation E 0 m d = (d', r)" by fastforce
  then show ?thesis
    using learn_mutation_refines [OF assms r] store_error_response [OF r] no_store_error [OF assms r]
    by (auto simp: learn_db_def)
qed

section \<open>A run of learned entries\<close>

text \<open>Learning mutations one after the other: the store afterwards, and the mutations that it has
  taken, which are those on which it did not fail.\<close>

primrec learn_log :: "'db Ext \<Rightarrow> Mutation list \<Rightarrow> 'db \<Rightarrow> 'db \<times> Mutation list" where
  "learn_log E [] d = (d, [])"
| "learn_log E (m # ms) d =
     (let (d', taken) = learn_log E ms (learn_db E m d)
      in (d', if store_error E m d then taken else m # taken))"

lemma learn_log_append:
  "fst (learn_log E (ms @ ns) d) = fst (learn_log E ns (fst (learn_log E ms d)))"
  by (induction ms arbitrary: d) (simp_all add: case_prod_beta Let_def)

lemma learn_log_view:
  assumes "store_laws E view"
  shows "view (fst (learn_log E ms d)) = fold kv_apply (snd (learn_log E ms d)) (view d)"
  by (induction ms arbitrary: d) (simp_all add: case_prod_beta Let_def learn_db_view [OF assms])

lemma learn_log_all:
  "\<forall>m \<in> set ms. \<forall>d. \<not> store_error E m d \<Longrightarrow> snd (learn_log E ms d) = ms"
  by (induction ms arbitrary: d) (simp_all add: case_prod_beta Let_def)

lemma learn_replays:
  assumes "learn E t x s = Inr s'"
  shows "db s' = (case log_get (rep_log s) x of None \<Rightarrow> db s | Some m \<Rightarrow> learn_db E m (db s))"
  using assms
  by (auto simp: learn_def case_prod_beta Let_def reply_cli_Inr learn_mutation_db reply_def split: option.splits)

lemma learn_each_replays:
  assumes "learn_each E ids s = Inr s'"
  shows "db s' = fst (learn_log E (List.map_filter (\<lambda>e. log_get (rep_log s) (snd e)) ids) (db s))"
  using assms
proof (induction ids arbitrary: s)
  case Nil
  then show ?case by (simp add: learn_each_def List.map_filter_simps)
next
  case (Cons e ids)
  obtain t x where e: "e = (t, x)" by (cases e)
  from Cons.prems obtain s1 where s1: "learn E t x s = Inr s1" and rest: "learn_each E ids s1 = Inr s'"
    by (auto simp: learn_each_def e)
  show ?case
    using Cons.IH [OF rest] learn_replays [OF s1] learn_frame(1) [OF s1]
    by (auto simp: e List.map_filter_simps same_core_def case_prod_beta Let_def split: option.splits)
qed

section \<open>The store is the replay of the committed log\<close>

definition committed_mutations :: "Mutation InMemoryLog \<Rightarrow> Mutation list" where
  "committed_mutations l = map (\<lambda>e. le_entry (snd e)) (committed l)"

text \<open>The committed part of a log that only appends and acknowledgements have changed ends at
  the learned position.\<close>

definition committed_up_to :: "Mutation InMemoryLog \<Rightarrow> bool" where
  "committed_up_to l \<longleftrightarrow> log_inv l \<and> (\<forall>k \<in> set (bt_keys (committed l)). k \<le> last_learned_txid l)"

lemma learn_all_committed:
  assumes "linked (last_learned_txid l) (last_learned_term l) es x t"
    and "\<forall>k \<in> set (bt_keys (committed l)). k \<le> last_learned_txid l"
  shows "committed (learn_all (\<lambda>k. k) es l) = committed l @ map (\<lambda>e. (fst e, inner (snd e))) es \<and>
    (\<forall>k \<in> set (bt_keys (committed (learn_all (\<lambda>k. k) es l))). k \<le> last_learned_txid (learn_all (\<lambda>k. k) es l))"
  using assms
proof (induction es arbitrary: l)
  case (Cons e es)
  obtain k a where e: "e = (k, a)" by (cases e)
  have k: "last_learned_txid l < k" "le_txid (inner a) = k" using Cons.prems(1) by (auto simp: e)
  then have "\<forall>j \<in> set (bt_keys (committed l)). j < k" using Cons.prems(2) by auto
  then have ins: "bt_insert k (inner a) (committed l) = committed l @ [(k, inner a)]" by (rule bt_insert_last)
  have "\<forall>j \<in> set (bt_keys (committed l @ [(k, inner a)])). j \<le> k"
    using \<open>\<forall>j \<in> set (bt_keys (committed l)). j < k\<close> by (auto simp: bt_keys_def)
  then show ?case
    using Cons.IH [of "learn_entry k a l"] Cons.prems(1) k ins by (simp add: e)
qed simp

lemma ack_up_to_committed:
  assumes "committed_up_to l" and "ack_up_to x p l = (l', ids)"
  obtains es :: "(TXID, Mutation Acked) btree" where "committed l' = committed l @ map (\<lambda>e. (fst e, inner (snd e))) es"
    "List.map_filter (\<lambda>e. log_get l' (snd e)) ids = map (\<lambda>e. le_entry (inner (snd e))) es"
    "committed_up_to l'"
proof -
  let ?l = "l\<lparr>pending := ack_loop p (pending l)\<rparr>"
  let ?P = "\<lambda>e. quorum l \<le> length (acks (snd e))"
  let ?es = "takeWhile ?P (pending ?l)" and ?r = "dropWhile ?P (pending ?l)"
  have inv: "log_inv l" "log_inv ?l" using assms(1) log_inv_ack_loop by (auto simp: committed_up_to_def)
  have l': "l' = learn_all (\<lambda>k. k) ?es (?l\<lparr>pending := ?r\<rparr>)" and ids: "ids = map entry_id ?es"
    using assms(2) by (simp_all add: ack_up_to_eq drain_spec_def)
  have lk: "linked (last_learned_txid ?l) (last_learned_term ?l) (?es @ ?r)
      (last_accepted_txid ?l) (last_accepted_term ?l)"
    using inv(2) by (simp add: log_inv_def)
  then obtain y u where "linked (last_learned_txid ?l) (last_learned_term ?l) ?es y u"
    unfolding linked_append by blast
  then have C: "committed l' = committed l @ map (\<lambda>e. (fst e, inner (snd e))) ?es"
    "\<forall>k \<in> set (bt_keys (committed l')). k \<le> last_learned_txid l'"
    using learn_all_committed [of "?l\<lparr>pending := ?r\<rparr>" ?es y u] assms(1) l'
    by (auto simp: committed_up_to_def)
  have "log_get l' (snd (entry_id e)) = Some (le_entry (inner (snd e)))" if "e \<in> set ?es" for e
  proof -
    have "e \<in> set (pending ?l)" using set_takeWhileD [OF that] by simp
    then have "bt_get (pending ?l) (fst e) = Some (snd e)" "le_txid (inner (snd e)) = fst e"
      using bt_get_of_set [OF log_invD(1) [OF inv(2)], of "fst e" "snd e"]
        linked_own_key [OF lk, of "fst e" "snd e"] by simp_all
    moreover have "log_get l' k = log_get ?l k" for k
      using ack_up_to_get [OF inv(1), of x p k] assms(2) by (simp add: log_get_ack_loop)
    ultimately show ?thesis by (simp add: entry_id_def log_get_def)
  qed
  then have "List.map_filter (\<lambda>e. log_get l' (snd e)) ids = map (\<lambda>e. le_entry (inner (snd e))) ?es"
    unfolding ids by (auto simp: List.map_filter_def comp_def filter_id_conv [symmetric] cong: map_cong)
  moreover have "committed_up_to l'"
    using C(2) ack_up_to_inv [OF inv(1), of x p] assms(2) by (simp add: committed_up_to_def)
  ultimately show thesis by (rule that [OF C(1)])
qed

definition replayed :: "'db Ext \<Rightarrow> 'db \<Rightarrow> 'db Server \<Rightarrow> bool" where
  "replayed E d s \<longleftrightarrow> committed_up_to (rep_log s) \<and> db s = fst (learn_log E (committed_mutations (rep_log s)) d)"

lemma replayed_ack:
  assumes "committed_up_to l" and "db s = fst (learn_log E (committed_mutations l) d)"
    and "rep_log s = fst (ack_up_to x p l)" and "learn_each E (snd (ack_up_to x p l)) s = Inr s'"
  shows "replayed E d s'"
proof -
  obtain l' ids where a: "ack_up_to x p l = (l', ids)" by fastforce
  have l: "rep_log s = l'" and le: "learn_each E ids s = Inr s'" using assms(3,4) a by simp_all
  have l': "rep_log s' = l'" using learn_each_frame(1) [OF le] l by (simp add: same_core_def)
  obtain es :: "(TXID, Mutation Acked) btree" where "committed l' = committed l @ map (\<lambda>e. (fst e, inner (snd e))) es"
    "List.map_filter (\<lambda>e. log_get l' (snd e)) ids = map (\<lambda>e. le_entry (inner (snd e))) es"
    "committed_up_to l'"
    using ack_up_to_committed [OF assms(1) a] .
  then show ?thesis
    using learn_each_replays [OF le] assms(2) l l'
    by (simp add: replayed_def committed_mutations_def comp_def learn_log_append)
qed

lemma replayed_same:
  "replayed E d s \<Longrightarrow> db s' = db s \<Longrightarrow> rep_log s' = rep_log s \<Longrightarrow> replayed E d s'"
  by (simp add: replayed_def)

lemma log_append_committed:
  assumes "committed_up_to l" and "log_append t x e l = Inr l'"
  shows "committed_up_to l'" and "committed_mutations l' = committed_mutations l"
  using assms log_append_inv [OF _ assms(2)] by (auto simp: committed_up_to_def log_append_Inr committed_mutations_def)

lemma submit_replayed:
  assumes "replayed E d s" and "submit E req i mk s = Inr s'"
  shows "replayed E d s'"
  using assms(2)
proof (cases rule: submit_cases)
  case (1 x t s1 ps envs)
  from 1(3) have "replayed E d s1"
  proof (cases rule: replicate_mutation_Inr)
    case app: (1 l)
    show ?thesis
      by (rule replayed_ack [OF _ _ _ app(2)])
         (use assms(1) log_append_committed [OF _ app(1)] in \<open>auto simp: replayed_def\<close>)
  qed
  then show ?thesis using 1(5) by (simp add: replayed_def)
qed

lemma handle_append_res_replayed:
  assumes "replayed E d s" and "handle_append_res E env i r s = Inr s'"
  shows "replayed E d s'"
  using assms(2)
proof (cases rule: handle_append_res_cases)
  case (acked p)
  show ?thesis
    by (rule replayed_ack [OF _ _ _ acked(3)]) (use assms(1) in \<open>auto simp: replayed_def\<close>)
qed (use assms(1) in simp)

lemma election_keeps_store:
  "handle_vote_req E now env i q s = Inr s' \<Longrightarrow> db s' = db s \<and> rep_log s' = rep_log s"
  "handle_vote_res E now env i r s = Inr s' \<Longrightarrow> db s' = db s \<and> rep_log s' = rep_log s"
  "cron E now s = Inr s' \<Longrightarrow> db s' = db s \<and> rep_log s' = rep_log s"
proof -
  show "handle_vote_req E now env i q s = Inr s' \<Longrightarrow> db s' = db s \<and> rep_log s' = rep_log s"
    by (auto simp: handle_vote_req_def vote_req_decide_def reply_peer_Inr reply_def
        split: if_splits State.splits option.splits)
  show "handle_vote_res E now env i r s = Inr s' \<Longrightarrow> db s' = db s \<and> rep_log s' = rep_log s"
    by (erule handle_vote_res_cases) (auto dest: count_vote_frame)
  show "cron E now s = Inr s' \<Longrightarrow> db s' = db s \<and> rep_log s' = rep_log s"
    by (auto simp: cron_def become_candidate_def peer_broadcast_def split: if_splits)
qed

text \<open>An event that carries an \<^verbatim>\<open>Append\<close>.\<close>

definition carries_append :: "'db Ext \<Rightarrow> Event \<Rightarrow> bool" where
  "carries_append E ev =
     (case ev of
        PeerEvent env \<Rightarrow> (case parse_PeerMsg E (msg env) of Inr m \<Rightarrow> PeerMsg_has_append m | Inl _ \<Rightarrow> False)
      | _ \<Rightarrow> False)"

lemma server_step_replayed:
  assumes "replayed E d s" and "\<not> carries_append E ev"
    and "server_step E now ev s = Inr s'"
  shows "replayed E d s'"
proof (cases ev)
  case (PeerEvent env)
  then obtain m where m: "parse_PeerMsg E (msg env) = Inr m" and "\<not> PeerMsg_has_append m"
    using assms(2,3) by (auto simp: carries_append_def server_step_def handle_peer_def)
  then show ?thesis
    using assms(1,3) handle_append_res_replayed [OF assms(1)]
    by (auto simp: PeerEvent server_step_def handle_peer_def Let_def split: if_splits
        dest!: election_keeps_store(1,2) intro: replayed_same [OF assms(1)])
next
  case (CliEvent req)
  then show ?thesis
    using assms(1,3) submit_replayed [OF assms(1)] replayed_same [OF assms(1)]
    by (auto simp: server_step_def handle_cli_def Let_def reply_cli_Inr reply_def split: if_splits)
next
  case CronEvent
  then show ?thesis
    using assms(3)
    by (auto simp: server_step_def dest!: election_keeps_store(3) intro: replayed_same [OF assms(1)])
qed

text \<open>The servers that a node goes through as long as it receives no \<^verbatim>\<open>Append\<close>, which are those
  of a node that has never followed another one.\<close>

inductive leading :: "'db Ext \<Rightarrow> 'db \<Rightarrow> 'db Server \<Rightarrow> bool" for E d where
  start: "leading E d (Server_init pport cport i ps d)"
| step: "leading E d s \<Longrightarrow> \<not> carries_append E ev \<Longrightarrow> server_step E now ev s = Inr s' \<Longrightarrow> leading E d s'"

lemma leading_replayed:
  assumes "leading E d s"
  shows "replayed E d s"
  using assms
proof induction
  case (start pport cport i ps)
  then show ?case
    by (simp add: Server_init_def replayed_def committed_up_to_def committed_mutations_def empty_log_def log_inv_def)
next
  case (step s ev now s')
  show ?case by (rule server_step_replayed [OF step.IH step.hyps(2,3)])
qed

section \<open>The store in memory keeps the laws\<close>

lemma mem_ext_store [simp]:
  "store_laws (mem_ext pms crs) (\<lambda>d. d)" "\<not> store_error (mem_ext pms crs) m d"
  by (auto simp: store_laws_def store_error_def Let_def split: option.splits DBResult.splits MutationType.splits)

lemma demo_ext_store:
  "store_laws demo_ext (\<lambda>d. d)" "\<not> store_error demo_ext m d"
  by (simp_all add: demo_ext_def)

lemma demo_leading: "leading demo_ext Map.empty demo_leader"
  by (rule leading.step [OF leading.step [OF leading.start _ demo_cron] _ demo_elect])
     (simp_all add: carries_append_def demo_ext_def demo_env_def demo_msgs)

text \<open>The same store without space left: no write succeeds.\<close>

definition full_ext :: "(bytes \<Rightarrow> bytes option) Ext" where
  "full_ext = demo_ext\<lparr>db_put := \<lambda>d k v. (Inl ''No space left on device'', d)\<rparr>"

lemma full_ext_store: "store_laws full_ext (\<lambda>d. d)"
  by (auto simp: store_laws_def full_ext_def demo_ext_def split: option.splits)

lemma full_leading: "leading full_ext Map.empty demo_leader"
proof -
  have "server_step full_ext demo_now CronEvent demo_start = Inr demo_candidate"
    by (simp add: full_ext_def server_step_def cron_def become_candidate_def Server_init_def checked_add_def demo_ext_def
      demo_now_def demo_candidate_def LEADER_DURATION_def peer_broadcast_def PeerMsg_is_initialized_def
      vote_request_def PeerMsg_accessors)
  moreover have "server_step full_ext demo_now (PeerEvent (demo_env 1)) demo_candidate = Inr demo_leader"
    by (simp add: full_ext_def server_step_def handle_peer_def handle_vote_res_def demo_ext_def demo_env_def demo_msgs
      demo_candidate_def demo_leader_def peer_broadcast_def demo_now_def count_vote_def update_rep_peers_def
      Server_init_def Let_def)
  ultimately show ?thesis
    by (intro leading.step [OF leading.step [OF leading.start]])
       (simp_all add: carries_append_def full_ext_def demo_ext_def demo_env_def demo_msgs)
qed

lemma full_submit:
  "server_step full_ext demo_now (CliEvent (demo_env 2)) demo_leader =
     submit full_ext (demo_env 2) 3 (set_mutation (SetReq_set_value [9] (SetReq_set_key [7] SetReq_new))) demo_leader"
  by (simp add: server_step_def handle_cli_def full_ext_def demo_ext_def demo_env_def demo_msgs demo_leader_def)

lemma full_step:
  "\<exists>s. server_step full_ext demo_now (CliEvent (demo_env 2)) demo_leader = Inr s \<and> committed_mutations (rep_log s) = [demo_mutation]"
  unfolding full_submit
  by (simp add: full_ext_def demo_ext_def demo_env_def Let_def submit_def new_txid_def committed_mutations_def
      demo_leader_def demo_candidate_def Server_init_def peer_broadcast_def checked_add_def replicate_def
      replicate_mutation_def log_append_def empty_log_def ack_up_to_eq drain_spec_def push_ack_def learn_each_def
      learn_def learn_mutation_def learn_set_def log_get_def demo_mutation_def set_mutation_def new_version_def
      reply_cli_def reply_def entry_id_def learn_entry_def CliRes_is_initialized_def msg_accessors)

lemma full_run: "\<exists>s. leading full_ext Map.empty s \<and> committed_mutations (rep_log s) = [demo_mutation]"
proof -
  obtain s where s: "server_step full_ext demo_now (CliEvent (demo_env 2)) demo_leader = Inr s" "committed_mutations (rep_log s) = [demo_mutation]"
    using full_step by blast
  have "leading full_ext Map.empty s" by (rule leading.step [OF full_leading _ s(1)]) (simp add: carries_append_def)
  then show ?thesis using s(2) by blast
qed

section \<open>Properties\<close>

text \<open>C14. Learning a mutation refines the abstract store: when the response reports success the
  store is the one the mutation means, compare-and-set included, and otherwise nothing has
  changed, also when the store itself fails.\<close>

theorem learn_mutation_refines_kv:
  assumes "store_laws E view" and "learn_mutation E x m d = (d', r)"
  shows "view d' = (if res_success (Mutation_get_field_type m) r then kv_apply m (view d) else view d)"
  by (rule learn_mutation_refines [OF assms])

theorem learn_mutation_refines_kv_witness:
  "fst (learn_mutation (mem_ext [] []) 1 demo_mutation Map.empty) = [[7] \<mapsto> [9]]"
proof -
  obtain d' r where r: "learn_mutation (mem_ext [] []) 1 demo_mutation Map.empty = (d', r)" by fastforce
  have t: "Mutation_get_field_type demo_mutation = KVSET" "Mutation_get_key demo_mutation = [7]"
      "Mutation_get_value demo_mutation = [9]"
    by (simp_all add: demo_mutation_def set_mutation_def Mutation_accessors SetReq_accessors)
  have "SetRes_get_success (CliRes_get_set r)"
    using r t by (auto simp: learn_mutation_def learn_set_def CliRes_accessors SetRes_accessors)
  then show ?thesis
    using learn_mutation_refines_kv [OF mem_ext_store(1) r] r t by (simp add: res_success_def kv_apply_def)
qed

text \<open>A compare-and-set on a store that does not fail succeeds exactly when the current value
  is the expected one, an absent old value expecting an absent key, and the response
  carries the value that the key has afterwards, if any, and the learned txid.\<close>

theorem learn_cas_response:
  assumes "store_laws E view" and "Mutation_get_field_type m = KVCAS" and "\<not> store_error E m d" and "learn_cas E x m d = (d', r)"
  shows "CASRes_get_success r = (view d (Mutation_get_key m) = Mutation_old_value m) \<and>
    CASRes_value r = view d' (Mutation_get_key m) \<and> CASRes_txid r = Some x"
  using learn_cas_reply [OF assms] by simp

theorem learn_cas_response_witness:
  "CASRes_get_success (snd (learn_cas (mem_ext [] []) 5
     (Mutation_set_old_value [1] (Mutation_set_key [7] (Mutation_set_field_type KVCAS Mutation_new))) [[7] \<mapsto> [1]]))"
proof -
  let ?m = "Mutation_set_old_value [1] (Mutation_set_key [7] (Mutation_set_field_type KVCAS Mutation_new))"
  obtain d' r where r: "learn_cas (mem_ext [] []) 5 ?m [[7] \<mapsto> [1]] = (d', r)" by fastforce
  have "[[7] \<mapsto> [1]] (Mutation_get_key ?m) = Mutation_old_value ?m"
    by (simp add: Mutation_accessors)
  moreover have "Mutation_get_field_type ?m = KVCAS" by (simp add: Mutation_accessors)
  ultimately show ?thesis using learn_cas_response [OF mem_ext_store(1) _ mem_ext_store(2) r] r by simp
qed

text \<open>C9. State machine replication on a leader: the store of a node that has received no
  \<^verbatim>\<open>Append\<close> since it started is what learning the mutations of its committed log makes of its
  initial store, in the order of their txids.  As a map from keys to values it is the replay of
  those mutations on which the store did not fail; an entry on which it failed is committed all the
  same and lost to the store.  If the store fails on none of them it is the replay of the whole log.\<close>

theorem store_is_replay_of_log:
  assumes "store_laws E view" and "leading E d s"
  shows "db s = fst (learn_log E (committed_mutations (rep_log s)) d) \<and>
    view (db s) = fold kv_apply (snd (learn_log E (committed_mutations (rep_log s)) d)) (view d) \<and>
    ((\<forall>m \<in> set (committed_mutations (rep_log s)). \<forall>d'. \<not> store_error E m d') \<longrightarrow>
      view (db s) = fold kv_apply (committed_mutations (rep_log s)) (view d))"
  using leading_replayed [OF assms(2)] learn_log_view [OF assms(1)] learn_log_all [of "committed_mutations (rep_log s)" E d]
  by (simp add: replayed_def)

theorem store_is_replay_of_log_witness:
  "(\<exists>s. leading demo_ext Map.empty s \<and> committed_mutations (rep_log s) = [demo_mutation] \<and>
     db s = fold kv_apply [demo_mutation] Map.empty) \<and>
   (\<exists>s. leading full_ext Map.empty s \<and> committed_mutations (rep_log s) = [demo_mutation] \<and> db s = Map.empty)"
proof
  obtain s where s: "server_step demo_ext demo_now (CliEvent (demo_env 2)) demo_leader = Inr s"
    and m: "committed_mutations (rep_log s) = [demo_mutation]"
    using demo_store unfolding committed_mutations_def by (elim exE conjE)
  have "leading demo_ext Map.empty s"
    by (rule leading.step [OF demo_leading _ s]) (simp add: carries_append_def)
  moreover have "db s = fold kv_apply [demo_mutation] Map.empty"
    using store_is_replay_of_log [OF demo_ext_store(1) calculation] demo_ext_store(2) unfolding m by blast
  ultimately show "\<exists>s. leading demo_ext Map.empty s \<and> committed_mutations (rep_log s) = [demo_mutation] \<and>
     db s = fold kv_apply [demo_mutation] Map.empty"
    using m by (intro exI [of _ s] conjI)
next
  obtain s where s: "leading full_ext Map.empty s" "committed_mutations (rep_log s) = [demo_mutation]"
    using full_run by blast
  moreover have "snd (learn_log full_ext [demo_mutation] Map.empty) = []"
    by (simp add: store_error_def Let_def full_ext_def demo_mutation_def set_mutation_def Mutation_accessors)
  then have "db s = Map.empty"
    using store_is_replay_of_log [OF full_ext_store s(1), THEN conjunct2, THEN conjunct1] unfolding s(2) by simp
  ultimately show "\<exists>s. leading full_ext Map.empty s \<and> committed_mutations (rep_log s) = [demo_mutation] \<and> db s = Map.empty"
    by blast
qed

end
