(* ===== verification/Log_History.thy ===== *)
theory Log_History
  imports Acked_Log
begin

text \<open>
  Histories of the replication log of \<^verbatim>\<open>server/acked_log.rs\<close>: what holds of every
  \<open>InMemoryLog\<close> that a sequence of \<^verbatim>\<open>append\<close>, \<^verbatim>\<open>ack_up_to\<close> and \<^verbatim>\<open>commit_up_to\<close> calls can
  produce from the empty log.  A leader's log sees appends and acknowledgements, a
  follower's log appends and commits.
\<close>

section \<open>Histories\<close>

datatype 't LogOp = AppendOp Term TXID 't | AckOp TXID PeerID | CommitOp TXID

definition log_op :: "'t LogOp \<Rightarrow> 't InMemoryLog \<Rightarrow> 't InMemoryLog res" where
  "log_op op l =
     (case op of
        AppendOp t x e \<Rightarrow> log_append t x e l
      | AckOp x p \<Rightarrow> Inr (fst (ack_up_to x p l))
      | CommitOp x \<Rightarrow> Inr (fst (commit_up_to x l)))"

definition log_run :: "'t LogOp list \<Rightarrow> 't InMemoryLog \<Rightarrow> 't InMemoryLog res" where
  "log_run ops l = fold_res log_op ops l"

text \<open>What a history says: the entries appended, the peers that acknowledged, whether a
  commit occurs.\<close>

definition appended :: "'t LogOp list \<Rightarrow> (TXID \<times> 't) list" where
  "appended ops = List.map_filter (\<lambda>op. case op of AppendOp t x e \<Rightarrow> Some (x, e) | _ \<Rightarrow> None) ops"

definition ackers :: "'t LogOp list \<Rightarrow> PeerID set" where
  "ackers ops = set (List.map_filter (\<lambda>op. case op of AckOp x p \<Rightarrow> Some p | _ \<Rightarrow> None) ops)"

definition is_commit :: "'t LogOp \<Rightarrow> bool" where
  "is_commit op = (case op of CommitOp _ \<Rightarrow> True | _ \<Rightarrow> False)"

lemma history_simps [simp]:
  "appended [] = []"
  "appended (AppendOp t x e # ops) = (x, e) # appended ops"
  "appended (AckOp x p # ops) = appended ops"
  "appended (CommitOp x # ops) = appended ops"
  "ackers [] = {}"
  "ackers (AppendOp t x e # ops) = ackers ops"
  "ackers (AckOp x p # ops) = insert p (ackers ops)"
  "ackers (CommitOp x # ops) = ackers ops"
  by (simp_all add: appended_def ackers_def List.map_filter_simps)

lemma appended_append [simp]: "appended (ops @ ops') = appended ops @ appended ops'"
  by (simp add: appended_def List.map_filter_def)

lemma is_commit_simps [simp]:
  "\<not> is_commit (AppendOp t x e)" "\<not> is_commit (AckOp x p)" "is_commit (CommitOp x)"
  by (simp_all add: is_commit_def)

lemma log_run_simps [simp]:
  "log_run [] l = Inr l"
  "log_run (op # ops) l = and_then (log_op op l) (log_run ops)"
  "log_run (ops @ ops') l = and_then (log_run ops l) (log_run ops')"
  by (simp_all add: log_run_def [abs_def] fold_res_append)

lemma log_op_simps [simp]:
  "log_op (AppendOp t x e) l = log_append t x e l"
  "log_op (AckOp x p) l = Inr (fst (ack_up_to x p l))"
  "log_op (CommitOp x) l = Inr (fst (commit_up_to x l))"
  by (simp_all add: log_op_def)

lemma finite_ackers [simp]: "finite (ackers ops)"
  by (simp add: ackers_def)

section \<open>Only the first pending entry collects acknowledgements\<close>

definition head_acked :: "'t InMemoryLog \<Rightarrow> bool" where
  "head_acked l \<longleftrightarrow> log_inv l \<and> 0 < quorum l \<and> (\<forall>e \<in> set (tl (pending l)). acks (snd e) = [])"

lemma empty_log_inv: "log_inv (empty_log n)"
  by (simp add: empty_log_def log_inv_def)

lemma head_acked_empty: "head_acked (empty_log n)"
  using empty_log_inv by (simp add: head_acked_def empty_log_def)

lemma ack_up_to_head:
  assumes "head_acked l"
  shows "ack_up_to x p l =
    (case pending l of
       [] \<Rightarrow> (l, [])
     | (k, a) # r \<Rightarrow>
         if length (acks (push_ack p a)) < quorum l
         then (l\<lparr>pending := (k, push_ack p a) # r\<rparr>, [])
         else (learn_entry k (push_ack p a) (l\<lparr>pending := r\<rparr>), [(le_term (inner a), k)]))"
proof (cases "pending l")
  case Nil
  then show ?thesis by (simp add: ack_up_to_eq drain_spec_def)
next
  case (Cons e r)
  obtain k a where e: "e = (k, a)" by (cases e)
  have lk: "linked (last_learned_txid l) (last_learned_term l) (pending l) (last_accepted_txid l) (last_accepted_term l)"
    using assms by (simp add: head_acked_def log_inv_def)
  have q: "0 < quorum l" and tl: "\<forall>e \<in> set r. acks (snd e) = []" and own: "le_txid (inner a) = k"
    using assms lk Cons by (auto simp: head_acked_def e)
  have stop: "takeWhile (\<lambda>e. quorum l \<le> length (acks (snd e))) r = []"
    "dropWhile (\<lambda>e. quorum l \<le> length (acks (snd e))) r = r"
    using q tl by (cases r; simp)+
  show ?thesis
    using ack_loop_first [OF lk, of p] stop own
    by (simp add: ack_up_to_eq drain_spec_def Cons e entry_id_def not_less)
qed

lemma set_tl_subset: "set (tl xs) \<subseteq> set xs"
  by (cases xs) auto

lemma tl_dropWhile: "set (tl (dropWhile P xs)) \<subseteq> set (tl xs)"
proof (induction xs)
  case (Cons a xs)
  then show ?case using set_tl_subset [of xs] by auto
qed simp

lemma head_acked_ack:
  assumes "head_acked l" shows "head_acked (fst (ack_up_to x p l))"
proof -
  have "log_inv (fst (ack_up_to x p l))" "quorum (fst (ack_up_to x p l)) = quorum l"
    using assms by (simp_all add: head_acked_def ack_up_to_inv) (simp add: ack_up_to_eq)
  moreover have "\<forall>e \<in> set (tl (pending (fst (ack_up_to x p l)))). acks (snd e) = []"
    using assms ack_up_to_head [OF assms, of x p]
    by (auto simp: head_acked_def split: list.splits dest: subsetD [OF set_tl_subset])
  ultimately show ?thesis using assms by (simp add: head_acked_def)
qed

lemma head_acked_commit:
  assumes "head_acked l" shows "head_acked (fst (commit_up_to x l))"
proof -
  have "log_inv (fst (commit_up_to x l))" "quorum (fst (commit_up_to x l)) = quorum l"
    "pending (fst (commit_up_to x l)) = dropWhile (\<lambda>e. fst e \<le> x) (pending l)"
    using assms by (simp_all add: head_acked_def commit_up_to_inv) (simp_all add: commit_up_to_eq drain_spec_def)
  then show ?thesis
    using assms tl_dropWhile [of "\<lambda>e. fst e \<le> x" "pending l"] by (auto simp: head_acked_def)
qed

lemma pending_append:
  assumes "log_inv l" "log_append t x e l = Inr l'"
  shows "pending l' = pending l @ [(x, \<lparr>acks = [], inner = \<lparr>le_txid = x, le_term = t,
           le_last_txid = last_accepted_txid l, le_last_term = last_accepted_term l, le_entry = e\<rparr>\<rparr>)]"
proof -
  have "\<forall>j \<in> set (bt_keys (pending l)). j < x"
    using log_invD(4) [OF assms(1)] assms(2) by (auto simp: log_append_Inr)
  then show ?thesis using assms(2) by (simp add: log_append_Inr bt_insert_last)
qed

lemma head_acked_append:
  assumes "head_acked l" "log_append t x e l = Inr l'"
  shows "head_acked l'"
  using assms log_append_inv [OF _ assms(2)] pending_append [OF _ assms(2)]
  by (cases "pending l") (auto simp: head_acked_def log_append_Inr)

lemma head_acked_op: "head_acked l \<Longrightarrow> log_op op l = Inr l' \<Longrightarrow> head_acked l'"
  by (cases op) (auto intro: head_acked_append head_acked_ack head_acked_commit)

lemma head_acked_run: "log_run ops l = Inr l' \<Longrightarrow> head_acked l \<Longrightarrow> head_acked l'"
  unfolding log_run_def by (rule fold_res_invariant) (auto intro: head_acked_op)


lemma log_run_quorum: "log_run ops l = Inr l' \<Longrightarrow> quorum l' = quorum l"
  unfolding log_run_def
  by (rule fold_res_invariant) (auto simp: log_op_def log_ops_quorum split: LogOp.splits)

section \<open>Learning on a leader needs a quorum\<close>

text \<open>Following one entry \<open>x\<close> through a history without commits: until it is learned its
  acknowledgements come from the peers seen so far.\<close>

lemma learned_has_quorum:
  assumes "head_acked l" and "log_run ops l = Inr l'" and "\<forall>op \<in> set ops. \<not> is_commit op"
    and "\<forall>a. (x, a) \<in> set (pending l) \<longrightarrow> set (acks a) \<subseteq> A" and "finite A"
    and "x \<le> last_accepted_txid l"
    and "bt_get (committed l) x = None" and "bt_get (committed l') x \<noteq> None"
  shows "quorum l \<le> card (A \<union> ackers ops)"
  using assms
proof (induction ops arbitrary: l A)
  case (Cons op ops)
  from Cons.prems(2) obtain l1 where l1: "log_op op l = Inr l1" and rest: "log_run ops l1 = Inr l'"
    by auto
  have ha1: "head_acked l1" using head_acked_op [OF Cons.prems(1) l1] .
  have nc: "\<forall>op \<in> set ops. \<not> is_commit op" using Cons.prems(3) by simp
  note IH = Cons.IH [OF ha1 rest nc _ _ _ _ Cons.prems(8)]
  show ?case
  proof (cases op)
    case (AppendOp t y e)
    then have app: "log_append t y e l = Inr l1" using l1 by simp
    have "log_inv l" using Cons.prems(1) by (simp add: head_acked_def)
    then show ?thesis
      using IH [of A] Cons.prems(4-7) pending_append [OF _ app] app AppendOp
      by (auto simp: log_append_Inr)
  next
    case (AckOp y p)
    then have l1: "l1 = fst (ack_up_to y p l)" using l1 by simp
    show ?thesis
    proof (cases "bt_get (committed l1) x")
      case None
      have "\<forall>a. (x, a) \<in> set (pending l1) \<longrightarrow> set (acks a) \<subseteq> insert p A"
        using Cons.prems(4) ack_up_to_head [OF Cons.prems(1), of y p] l1
        by (fastforce split: list.splits if_splits)
      then show ?thesis
        using IH [of "insert p A"] None Cons.prems(5,6) l1 AckOp
        by (simp add: ack_up_to_accepted log_ops_quorum(2))
    next
      case (Some v)
      then obtain a r where pend: "pending l = (x, a) # r" and q: "quorum l \<le> length (acks (push_ack p a))"
        using Cons.prems(7) ack_up_to_head [OF Cons.prems(1), of y p] l1
        by (auto split: list.splits if_splits)
      have "distinct (acks a)" using Cons.prems(1) pend by (auto simp: head_acked_def log_inv_def)
      then have "length (acks (push_ack p a)) = card (set (acks (push_ack p a)))"
        using distinct_card [of "acks (push_ack p a)"] by simp
      also have "\<dots> \<le> card (A \<union> ackers (op # ops))"
        using Cons.prems(4,5) pend AckOp by (intro card_mono) auto
      finally show ?thesis using q by linarith
    qed
  next
    case (CommitOp y)
    then show ?thesis using Cons.prems(3) by simp
  qed
qed simp


section \<open>Successful histories and what they keep readable\<close>

lemma log_run_ok_iff:
  "is_ok (log_run ops l) \<longleftrightarrow> sorted_wrt (<) (last_accepted_txid l # map fst (appended ops))"
proof (induction ops arbitrary: l)
  case (Cons op ops)
  show ?case
  proof (cases op)
    case (AppendOp t x e)
    show ?thesis
    proof (cases "log_append t x e l")
      case (Inl b)
      then have "\<not> last_accepted_txid l < x" using log_append_ok [of l x t e] by auto
      then show ?thesis using AppendOp Inl by simp
    next
      case (Inr l1)
      then show ?thesis
        using Cons.IH [of l1] AppendOp log_append_accepted [OF Inr] log_append_assert [OF Inr]
        by auto
    qed
  qed (use Cons.IH in \<open>simp_all add: ack_up_to_accepted commit_up_to_accepted\<close>)
qed simp

lemma run_get:
  assumes "log_inv l" and "log_run ops l = Inr l'" and "\<forall>op \<in> set ops. \<not> is_commit op"
  shows "log_get l' y = (case map_of (appended ops) y of Some e \<Rightarrow> Some e | None \<Rightarrow> log_get l y)"
  using assms
proof (induction ops arbitrary: l)
  case (Cons op ops)
  from Cons.prems(2) obtain l1 where l1: "log_op op l = Inr l1" and rest: "log_run ops l1 = Inr l'"
    by auto
  have nc: "\<forall>op \<in> set ops. \<not> is_commit op" using Cons.prems(3) by simp
  show ?case
  proof (cases op)
    case (AppendOp t x e)
    then have app: "log_append t x e l = Inr l1" using l1 by simp
    have "map_of (appended ops) x = None"
      using log_run_ok_iff [of ops l1] rest log_append_accepted [OF app]
      by (auto simp: map_of_eq_None_iff)
    then show ?thesis
      using Cons.IH [OF log_append_inv [OF Cons.prems(1) app] rest nc] log_append_get [OF app, of y] AppendOp
      by (auto split: option.splits)
  next
    case (AckOp x p)
    then show ?thesis
      using Cons.IH [OF ack_up_to_inv [OF Cons.prems(1)], of x p] rest nc l1 ack_up_to_get [OF Cons.prems(1)]
      by (auto split: option.splits)
  next
    case (CommitOp x)
    then show ?thesis using Cons.prems(3) by simp
  qed
qed simp

section \<open>Committing\<close>

lemma bt_inv_prefix:
  "bt_inv p \<Longrightarrow> takeWhile (\<lambda>e. fst e \<le> x) p = filter (\<lambda>e. fst e \<le> x) p"
  "bt_inv p \<Longrightarrow> dropWhile (\<lambda>e. fst e \<le> x) p = filter (\<lambda>e. x < fst e) p"
proof -
  assume "bt_inv p"
  then have "takeWhile (\<lambda>e. fst e \<le> x) p = filter (\<lambda>e. fst e \<le> x) p \<and>
     dropWhile (\<lambda>e. fst e \<le> x) p = filter (\<lambda>e. x < fst e) p"
  proof (induction p)
    case (Cons e p)
    have "\<not> fst e \<le> x \<Longrightarrow> \<forall>e' \<in> set p. x < fst e'"
      using Cons.prems by (fastforce simp: bt_keys_def)
    with Cons show ?case
      by (auto simp: not_le filter_empty_conv intro!: filter_True [symmetric])
  qed simp
  then show "takeWhile (\<lambda>e. fst e \<le> x) p = filter (\<lambda>e. fst e \<le> x) p"
    and "dropWhile (\<lambda>e. fst e \<le> x) p = filter (\<lambda>e. x < fst e) p" by simp_all
qed

lemma bt_get_filter:
  "bt_inv p \<Longrightarrow> bt_get (filter (\<lambda>e. x < fst e) p) y = (if x < y then bt_get p y else None)"
  by (induction p) auto

lemma commit_up_to_result:
  assumes "log_inv l"
  shows "snd (commit_up_to x l) = map entry_id (filter (\<lambda>e. fst e \<le> x) (pending l))"
    and "pending (fst (commit_up_to x l)) = filter (\<lambda>e. x < fst e) (pending l)"
    and "bt_get (committed (fst (commit_up_to x l))) y =
      (if y = x \<and> filter (\<lambda>e. fst e \<le> x) (pending l) \<noteq> []
       then Some (inner (snd (last (filter (\<lambda>e. fst e \<le> x) (pending l))))) else bt_get (committed l) y)"
  using bt_inv_prefix [OF log_invD(1) [OF assms], of x]
  by (simp_all add: commit_up_to_eq drain_spec_def learn_all_get_const)

lemma commit_up_to_position:
  assumes "log_inv l"
  shows "(last_learned_term (fst (commit_up_to x l)), last_learned_txid (fst (commit_up_to x l))) =
    (if filter (\<lambda>e. fst e \<le> x) (pending l) = [] then (last_learned_term l, last_learned_txid l)
     else last (snd (commit_up_to x l)))"
  using bt_inv_prefix [OF log_invD(1) [OF assms], of x]
    learn_all_last [of "\<lambda>_. x" "filter (\<lambda>e. fst e \<le> x) (pending l)" "l\<lparr>pending := filter (\<lambda>e. x < fst e) (pending l)\<rparr>"]
  by (auto simp: commit_up_to_eq drain_spec_def last_map entry_id_def)

lemma commit_up_to_get:
  assumes "log_inv l"
  shows "log_get (fst (commit_up_to x l)) y =
    (if x < y then log_get l y
     else if y = x \<and> filter (\<lambda>e. fst e \<le> x) (pending l) \<noteq> []
       then Some (le_entry (inner (snd (last (filter (\<lambda>e. fst e \<le> x) (pending l))))))
     else map_option le_entry (bt_get (committed l) y))"
  using log_invD(1) [OF assms]
  by (auto simp: log_get_def commit_up_to_result [OF assms] bt_get_filter split: option.splits)


section \<open>Properties\<close>

text \<open>C23. A log refuses a history exactly when some appended txid is not above all earlier
  ones, or the first one is not above 0, the accepted txid of an empty log: every operation returns, and the only panic is the assertion of \<^verbatim>\<open>append\<close>.\<close>

theorem log_history_ok:
  "is_ok (log_run ops (empty_log n)) \<longleftrightarrow> sorted_wrt (<) (0 # map fst (appended ops))"
  using log_run_ok_iff [of ops "empty_log n"] by (simp add: empty_log_def)

text \<open>C21. In every log that a history reaches, \<^verbatim>\<open>ack_up_to\<close> records the peer on the first pending
  entry, whatever txid it is given, and learns that entry, and no other, exactly when the
  acknowledgement completes its quorum.\<close>

theorem ack_up_to_reachable:
  assumes "log_run ops (empty_log n) = Inr l"
  shows "ack_up_to x p l =
    (case pending l of
       [] \<Rightarrow> (l, [])
     | (k, a) # r \<Rightarrow>
         if length (acks (push_ack p a)) < quorum l
         then (l\<lparr>pending := (k, push_ack p a) # r\<rparr>, [])
         else (learn_entry k (push_ack p a) (l\<lparr>pending := r\<rparr>), [(le_term (inner a), k)]))"
  by (rule ack_up_to_head [OF head_acked_run [OF assms head_acked_empty]])

theorem ack_up_to_reachable_witness:
  "\<exists>l. log_run [AppendOp 1 1 (7::nat), AppendOp 1 2 8] (empty_log 1) = Inr l \<and>
     snd (ack_up_to 2 ''a'' l) = [(1, 1)]"
proof -
  obtain l where l: "log_run [AppendOp 1 1 (7::nat), AppendOp 1 2 8] (empty_log 1) = Inr l"
    by (simp add: log_append_def empty_log_def)
  have "snd (ack_up_to 2 ''a'' l) = [(1, 1)]"
    using ack_up_to_reachable [OF l] l by (auto simp: log_append_def empty_log_def push_ack_def)
  with l show ?thesis by blast
qed

text \<open>C8. Quorum safety of a leader's log: if an entry is committed after a history of appends
  and acknowledgements, then at least \<open>n div 2 + 1\<close> distinct peers acknowledged after it was
  appended.\<close>

theorem leader_learns_by_quorum:
  assumes "log_run (pre @ AppendOp t x e # post) (empty_log n) = Inr l"
    and "\<forall>op \<in> set (pre @ post). \<not> is_commit op"
    and "bt_get (committed l) x \<noteq> None"
  shows "n div 2 + 1 \<le> card (ackers post)"
proof -
  obtain l0 l1 where l0: "log_run pre (empty_log n) = Inr l0" and l1: "log_append t x e l0 = Inr l1"
    and l: "log_run post l1 = Inr l" using assms(1) by auto
  have ha: "head_acked l0" "head_acked l1"
    using head_acked_run [OF l0 head_acked_empty] head_acked_append [OF _ l1] by blast+
  have q: "quorum l1 = n div 2 + 1"
    using log_run_quorum [OF l0] log_ops_quorum(1) [OF l1] by (simp add: empty_log_def)
  have "map_of (appended pre) x = None"
    using log_run_ok_iff [of "pre @ [AppendOp t x e]" "empty_log n"] l0 l1
    by (auto simp: map_of_eq_None_iff sorted_wrt_append)
  then have "log_get l0 x = None"
    using run_get [OF empty_log_inv l0] assms(2) by (simp add: log_get_def empty_log_def)
  then have fresh: "bt_get (pending l0) x = None" "bt_get (committed l0) x = None"
    by (auto simp: log_get_def split: option.splits)
  have "\<forall>a. (x, a) \<in> set (pending l1) \<longrightarrow> set (acks a) \<subseteq> {}"
    using pending_append [OF _ l1] ha(1) fresh(1)
    by (force simp: head_acked_def bt_get_None_iff bt_keys_def)
  then show ?thesis
    using learned_has_quorum [OF ha(2) l, of x "{}"] assms(2,3) fresh(2) q l1
    by (simp add: log_append_Inr)
qed

theorem leader_learns_by_quorum_witness:
  "\<exists>l. log_run ([] @ AppendOp 1 1 (7::nat) # [AckOp 0 ''a'', AckOp 0 ''a'', AckOp 0 ''b'']) (empty_log 3) = Inr l \<and>
     bt_get (committed l) 1 \<noteq> None \<and>
     2 \<le> card (ackers [AckOp 0 ''a'', AckOp 0 ''a'', AckOp 0 ''b'' :: nat LogOp])"
proof -
  obtain l where l: "log_run ([] @ AppendOp 1 1 (7::nat) # [AckOp 0 ''a'', AckOp 0 ''a'', AckOp 0 ''b'']) (empty_log 3) = Inr l"
    and c: "bt_get (committed l) 1 \<noteq> None"
    by (simp add: log_append_def empty_log_def ack_up_to_eq drain_spec_def push_ack_def)
  show ?thesis using leader_learns_by_quorum [OF l _ c] l c by auto
qed

text \<open>C19. Durability of a leader's log: through any history of appends and acknowledgements an
  entry that was appended stays readable under its txid, and nothing else is.\<close>

theorem leader_log_durable:
  assumes "log_run ops (empty_log n) = Inr l" and "\<forall>op \<in> set ops. \<not> is_commit op"
  shows "log_get l y = map_of (appended ops) y"
  using run_get [OF empty_log_inv assms] by (simp add: log_get_def empty_log_def split: option.splits)

theorem leader_log_durable_witness:
  "\<exists>l. log_run [AppendOp 1 1 (7::nat), AckOp 1 ''a'', AppendOp 2 5 8] (empty_log 1) = Inr l \<and>
     log_get l 1 = Some 7 \<and> log_get l 5 = Some 8 \<and> log_get l 2 = None"
proof -
  obtain l where l: "log_run [AppendOp 1 1 (7::nat), AckOp 1 ''a'', AppendOp 2 5 8] (empty_log 1) = Inr l"
    by (simp add: log_append_def empty_log_def ack_up_to_eq drain_spec_def push_ack_def)
  have "log_get l 1 = Some 7 \<and> log_get l 5 = Some 8 \<and> log_get l 2 = None"
    using leader_log_durable [OF l] by simp
  with l show ?thesis by blast
qed

text \<open>C22. \<^verbatim>\<open>commit_up_to\<close> in every log that a history reaches: it reports and drains exactly the pending
  entries up to its txid, the learned position becomes that of the last of them, later
  entries are untouched, and of the drained entries only the last stays readable, under the
  requested txid.\<close>

theorem commit_up_to_reachable:
  assumes "log_run ops (empty_log n) = Inr l"
    and "ds = filter (\<lambda>e. fst e \<le> x) (pending l)"
    and "commit_up_to x l = (l', ids)"
  shows "ids = map entry_id ds \<and>
    pending l' = filter (\<lambda>e. x < fst e) (pending l) \<and>
    (last_learned_term l', last_learned_txid l') =
      (if ds = [] then (last_learned_term l, last_learned_txid l) else last ids) \<and>
    (\<forall>y. log_get l' y =
      (if x < y then log_get l y
       else if y = x \<and> ds \<noteq> [] then Some (le_entry (inner (snd (last ds))))
       else map_option le_entry (bt_get (committed l) y)))"
proof -
  have inv: "log_inv l" using head_acked_run [OF assms(1) head_acked_empty] by (simp add: head_acked_def)
  have "l' = fst (commit_up_to x l)" "ids = snd (commit_up_to x l)" using assms(3) by simp_all
  then show ?thesis
    using commit_up_to_result [OF inv] commit_up_to_get [OF inv] commit_up_to_position [OF inv, of x] assms(2)
    by simp
qed

theorem commit_up_to_reachable_witness:
  "\<exists>l l' ids. log_run [AppendOp 1 1 (7::nat), AppendOp 1 2 8, AppendOp 2 3 9] (empty_log 3) = Inr l \<and>
     commit_up_to 2 l = (l', ids) \<and> ids = [(1, 1), (1, 2)] \<and> last_learned_txid l' = 2 \<and>
     log_get l' 3 = Some 9 \<and> log_get l' 2 = Some 8 \<and> log_get l' 1 = None"
proof -
  obtain l where l: "log_run [AppendOp 1 1 (7::nat), AppendOp 1 2 8, AppendOp 2 3 9] (empty_log 3) = Inr l"
    by (simp add: log_append_def empty_log_def)
  obtain l' ids where c: "commit_up_to 2 l = (l', ids)" by (cases "commit_up_to 2 l")
  note C = commit_up_to_reachable [OF l refl c]
  note G = C [THEN conjunct2, THEN conjunct2, THEN conjunct2, THEN spec]
  have "ids = [(1, 1), (1, 2)] \<and> last_learned_txid l' = 2"
    using C l by (auto simp: log_append_def empty_log_def entry_id_def)
  moreover have "log_get l' 3 = Some 9 \<and> log_get l' 2 = Some 8 \<and> log_get l' 1 = None"
    using G [of 3] G [of 2] G [of 1] l
    by (auto simp: log_append_def empty_log_def log_get_def [of "\<lparr>pending = _, committed = _, quorum = _,
      last_learned_txid = _, last_learned_term = _, last_accepted_txid = _, last_accepted_term = _\<rparr>"])
  ultimately have "ids = [(1, 1), (1, 2)] \<and> last_learned_txid l' = 2 \<and>
     log_get l' 3 = Some 9 \<and> log_get l' 2 = Some 8 \<and> log_get l' 1 = None" by blast
  with l c show ?thesis by blast
qed

text \<open>Committing past two pending entries loses the earlier one: it was readable before
  and is not afterwards, so a follower that is told to learn up to the later one cannot
  apply it.\<close>

theorem commit_up_to_forgets:
  assumes "log_run ops (empty_log n) = Inr l"
    and "(k, a) \<in> set (pending l)" and "k < x" and "bt_get (committed l) k = None"
  shows "log_get l k = Some (le_entry (inner a)) \<and>
    (le_term (inner a), k) \<in> set (snd (commit_up_to x l)) \<and>
    log_get (fst (commit_up_to x l)) k = None"
proof -
  have inv: "log_inv l" using head_acked_run [OF assms(1) head_acked_empty] by (simp add: head_acked_def)
  have "bt_get (pending l) k = Some a" "le_txid (inner a) = k"
    using assms(2) log_invD(1) [OF inv] inv linked_own_key [of _ _ "pending l" _ _ k a]
    by (auto simp: bt_get_of_set log_inv_def)
  then show ?thesis
    using commit_up_to_get [OF inv, of x k] commit_up_to_result(1) [OF inv, of x] assms
    by (force simp: log_get_def entry_id_def)
qed

theorem commit_up_to_forgets_witness:
  "\<exists>l. log_run [AppendOp 1 1 (7::nat), AppendOp 1 2 8] (empty_log 3) = Inr l \<and>
     log_get l 1 = Some 7 \<and> (1, 1) \<in> set (snd (commit_up_to 2 l)) \<and>
     log_get (fst (commit_up_to 2 l)) 1 = None"
proof -
  obtain l where l: "log_run [AppendOp 1 1 (7::nat), AppendOp 1 2 8] (empty_log 3) = Inr l"
    by (simp add: log_append_def empty_log_def)
  then obtain a where "(1, a) \<in> set (pending l)" "le_entry (inner a) = 7" "le_term (inner a) = 1"
      "bt_get (committed l) 1 = None"
    by (auto simp: log_append_def empty_log_def)
  with commit_up_to_forgets [OF l, of 1 a 2] l show ?thesis by auto
qed

end
