(* ===== verification/Server_Total.thy ===== *)
theory Server_Total
  imports Server_Invariant Memory_Ext
begin

text \<open>
  When a step of a server returns.  In the sources a failed \<^verbatim>\<open>unwrap\<close>, an arithmetic overflow,
  an assertion and an explicit \<^verbatim>\<open>panic!\<close> end the process, so that every value \<open>Inl\<close> of a
  handler is a crash.  The assertion of the log never fails, and the other panics have
  causes outside the node.
\<close>

section \<open>What a step needs in order to return\<close>

text \<open>\<^verbatim>\<open>write_to_bytes\<close> succeeds on an initialized message.\<close>

definition ext_writes :: "'db Ext \<Rightarrow> bool" where
  "ext_writes E \<longleftrightarrow> (\<forall>m. PeerMsg_is_initialized m \<longrightarrow> is_ok (write_PeerMsg E m)) \<and>
     (\<forall>m. CliRes_is_initialized m \<longrightarrow> is_ok (write_CliRes E m))"

text \<open>Room in the counters: a term, a txid and a batch of a hundred txids for every peer.\<close>

definition headroom :: "'db Server \<Rightarrow> bool" where
  "headroom s \<longleftrightarrow> unat (highest_term s) + 1 < 2 ^ 64 \<and> unat (max_generated_txid s) + 1 < 2 ^ 64 \<and>
     (\<forall>e \<in> set (rep_peers s). unat (rp_max_sent_txid (snd e)) + 100 < 2 ^ 64)"

text \<open>A peer message that parses, comes from a socket with an address, and whose batch, if it
  has one, starts no lower than the accepted term and never goes down.\<close>

definition peer_msg_ok :: "'db Server \<Rightarrow> PeerMsg \<Rightarrow> bool" where
  "peer_msg_ok s m \<longleftrightarrow> (PeerMsg_has_append m \<longrightarrow>
     sorted (last_accepted_term (rep_log s) #
       map (\<lambda>m. Version_get_term (Mutation_get_version m)) (Append_get_batch (PeerMsg_get_append m))))"

fun event_ok :: "'db Ext \<Rightarrow> 'db Server \<Rightarrow> Event \<Rightarrow> bool" where
  "event_ok E s (PeerEvent env) \<longleftrightarrow>
     address env \<noteq> None \<and> (case parse_PeerMsg E (msg env) of Inl _ \<Rightarrow> False | Inr m \<Rightarrow> peer_msg_ok s m)"
| "event_ok E s (CliEvent env) \<longleftrightarrow> is_ok (parse_CliReq E (msg env))"
| "event_ok E s CronEvent \<longleftrightarrow> True"

section \<open>Printing and replying\<close>

lemma writes_Inr:
  assumes "ext_writes E"
  shows "PeerMsg_is_initialized m \<Longrightarrow> \<exists>b. write_PeerMsg E m = Inr b"
    and "CliRes_is_initialized r \<Longrightarrow> \<exists>b. write_CliRes E r = Inr b"
  using assms by (auto simp: ext_writes_def is_ok_iff)

lemma reply_total:
  assumes "ext_writes E"
  shows "PeerMsg_is_initialized m \<Longrightarrow> \<exists>s'. reply_peer E env m s = Inr s'"
    and "CliRes_is_initialized r \<Longrightarrow> \<exists>s'. reply_cli E env r s = Inr s'"
  using writes_Inr [OF assms] by (fastforce simp: reply_peer_Inr reply_cli_Inr)+

lemma learn_total: "ext_writes E \<Longrightarrow> \<exists>s'. learn E t x s = Inr s'"
  by (auto simp: learn_def Let_def reply_total split: option.splits prod.splits)

lemma learn_each_total:
  assumes "ext_writes E"
  shows "\<exists>s'. learn_each E ids s = Inr s'"
proof -
  have "\<exists>s'. fold_res (\<lambda>(trm, txid). learn E trm txid) ids s = Inr s' \<and> True"
    by (rule fold_res_ok) (auto simp: learn_total [OF assms])
  then show ?thesis by (simp add: learn_each_def)
qed

section \<open>Elections\<close>

lemma handle_vote_req_total:
  assumes "ext_writes E" and "address env \<noteq> None"
  shows "\<exists>s'. handle_vote_req E now env i r s = Inr s'"
proof -
  have "\<exists>s1 t ok. vote_req_decide E now env i r s = Inr (s1, t, ok)"
    using assms(2) by (cases "state s") (auto simp: vote_req_decide_def)
  then show ?thesis using reply_total(1) [OF assms(1)] by (auto simp: handle_vote_req_def)
qed

lemma handle_vote_res_total:
  assumes "address env \<noteq> None"
  shows "\<exists>s'. handle_vote_res E now env i r s = Inr s'"
  using assms by (cases "state s") (auto simp: handle_vote_res_def case_prod_beta)

lemma cron_total:
  assumes "ext_writes E" and "unat (highest_term s) + 1 < 2 ^ 64"
  shows "\<exists>s'. cron E now s = Inr s'"
proof -
  have "\<exists>s1. become_candidate E now s = Inr s1"
    using assms(2) by (auto simp: become_candidate_def checked_add_def)
  then obtain s1 where s1: "become_candidate E now s = Inr s1" ..
  have "state_term (state s1) \<noteq> None"
    if "should_extend_leadership (tadd E) (state s1) (now 3) \<or> valid_candidate (state s1) (now 4)"
    using that by (cases "state s1") auto
  then show ?thesis
    using s1 writes_Inr(1) [OF assms(1)] by (auto simp: cron_def)
qed

section \<open>Replication\<close>

lemma append_batch_total:
  assumes "last_accepted_txid l = x" and "sorted (t # map (\<lambda>m. Version_get_term (Mutation_get_version m)) b)"
  shows "\<exists>st. fold_res append_mutation b (t, x, l) = Inr st"
  using assms
proof (induction b arbitrary: t x l)
  case (Cons m b)
  let ?t = "Version_get_term (Mutation_get_version m)" and ?x = "Version_get_txid (Mutation_get_version m)"
  show ?case
  proof (cases "?x \<le> x")
    case True
    then have "append_mutation m (t, x, l) = Inr (t, x, l)"
      using Cons.prems(2) by (simp add: append_mutation_def Let_def not_less)
    then show ?thesis using Cons.IH [of l x t] Cons.prems by simp
  next
    case False
    then obtain l' where l': "log_append ?t ?x m l = Inr l'"
      using Cons.prems(1) iml.append_ok [of l ?x ?t m] by (auto simp: not_le)
    have "append_mutation m (t, x, l) = Inr (?t, ?x, l')"
      using Cons.prems(2) False l' by (simp add: append_mutation_def Let_def not_less)
    then show ?thesis
      using Cons.IH [of l' ?x ?t] Cons.prems(2) iml.append_accepted [OF l'] by simp
  qed
qed simp

lemma handle_append_total:
  assumes "ext_writes E"
    and "sorted (last_accepted_term (rep_log s) #
       map (\<lambda>m. Version_get_term (Mutation_get_version m)) (Append_get_batch a))"
  shows "\<exists>s'. handle_append E env i a s = Inr s'"
proof -
  obtain t x l where f: "fold_res append_mutation (Append_get_batch a)
      (last_accepted_term (rep_log s), last_accepted_txid (rep_log s), rep_log s) = Inr (t, x, l)"
    using append_batch_total [OF refl assms(2)] by (metis prod_cases3)
  obtain s1 where "learn_each E (snd (commit_up_to (Append_get_last_learned_txid a) l))
      (s\<lparr>max_generated_txid := x, rep_log := fst (commit_up_to (Append_get_last_learned_txid a) l)\<rparr>) = Inr s1"
    using learn_each_total [OF assms(1)] by blast
  then show ?thesis
    using f by (simp add: handle_append_def case_prod_beta reply_total(1) [OF assms(1)])
qed

lemma handle_append_res_total:
  "ext_writes E \<Longrightarrow> \<exists>s'. handle_append_res E env i r s = Inr s'"
  by (simp add: handle_append_res_def case_prod_beta learn_each_total split: option.split)

lemma send_to_peers_total:
  assumes "ext_writes E" and "\<forall>e \<in> set es. unat (rp_max_sent_txid (snd e)) + 100 < 2 ^ 64"
  shows "\<exists>r. send_to_peers E i l es = Inr r"
  using assms(2)
proof (induction es)
  case (Cons e es)
  have "\<exists>p' env. send_to_peer E i l (snd e) = Inr (p', env)"
    using Cons.prems writes_Inr(1) [OF assms(1)]
    by (auto simp: send_to_peer_def checked_add_def case_prod_beta)
  moreover have "\<exists>es' envs. send_to_peers E i l es = Inr (es', envs)"
    using Cons by auto
  ultimately show ?case by auto
qed simp

lemma submit_total:
  assumes "ext_writes E" and "server_inv s" and "headroom s" and "is_leader (state s)"
    and "\<And>x t. Mutation_get_version (mk x t) = new_version x t"
  shows "\<exists>s'. submit E req i mk s = Inr s'"
proof -
  obtain x where x: "checked_add (max_generated_txid s) 1 = Inr x"
    using assms(3) by (simp add: checked_add_def headroom_def)
  obtain t where t: "state_term (state s) = Some t" using assms(4) by (cases "state s") auto
  let ?s = "s\<lparr>max_generated_txid := x, srv_pending := bt_insert x (req, i) (srv_pending s)\<rparr>"
  have "last_accepted_txid (rep_log s) < x"
    using assms(2) checked_add_1_greater [OF x] by (simp add: server_inv_def log_sync_def)
  then obtain l where "log_append t x (mk x t) (rep_log s) = Inr l"
    using iml.append_ok [of "rep_log s" x t "mk x t"] by auto
  then obtain s1 where s1: "replicate_mutation E (mk x t) ?s = Inr s1"
    and core: "rep_peers s1 = rep_peers s"
    using learn_each_total [OF assms(1)] learn_each_frame(1)
    by (fastforce simp: replicate_mutation_def Let_def case_prod_beta assms(5) same_core_def)
  have inv: "server_inv s1"
    using replicate_fresh_inv [OF assms(2) checked_add_1_greater [OF x] assms(5) s1] .
  obtain ps envs where "send_to_peers E (srv_id s1) (rep_log s1) (rep_peers s1) = Inr (ps, envs)"
    using send_to_peers_total [OF assms(1)] assms(3) core by (fastforce simp: headroom_def)
  then show ?thesis
    using x t s1 inv iml.learned_le_accepted [of "rep_log s1"]
    by (simp add: submit_def new_txid_def replicate_def server_inv_def log_sync_def)
qed

lemma handle_cli_total:
  assumes "ext_writes E" and "server_inv s" and "headroom s" and "is_ok (parse_CliReq E (msg req))"
  shows "\<exists>s'. handle_cli E req s = Inr s'"
proof -
  obtain r where r: "parse_CliReq E (msg req) = Inr r" using assms(4) by (auto simp: is_ok_iff)
  note submits = submit_total [OF assms(1-3) _ mutation_versions(3)]
    submit_total [OF assms(1-3) _ mutation_versions(4)] submit_total [OF assms(1-3) _ mutation_versions(5)]
  show ?thesis
    by (cases "is_leader (state s)"; cases "CliReq_has_get r"; cases "CliReq_has_set r";
        cases "CliReq_has_cas r"; cases "CliReq_has_del r";
        simp add: handle_cli_def r Let_def submits reply_total(2) [OF assms(1)])
qed

lemma handle_peer_total:
  assumes "ext_writes E" and "event_ok E s (PeerEvent env)"
  shows "\<exists>s'. handle_peer E now env s = Inr s'"
proof -
  obtain m where m: "parse_PeerMsg E (msg env) = Inr m" and ok: "peer_msg_ok s m" "address env \<noteq> None"
    using assms(2) by (auto split: sum.splits)
  show ?thesis
    using ok
    by (cases "PeerMsg_has_vote_res m"; cases "PeerMsg_has_vote_req m"; cases "PeerMsg_has_append m";
        cases "PeerMsg_has_append_res m";
        simp add: handle_peer_def m Let_def peer_msg_ok_def handle_vote_res_total
          handle_vote_req_total [OF assms(1)] handle_append_total [OF assms(1)]
          handle_append_res_total [OF assms(1)])
qed


section \<open>The assertion of the log\<close>

text \<open>What can never be the panic of the log's assertion.\<close>

lemma not_assert [simp]:
  "unwrap o' \<noteq> Inl AssertFailed"
  "unwrap_res r \<noteq> Inl AssertFailed"
  "checked_add a b \<noteq> Inl AssertFailed"
  "checked_sub a b \<noteq> Inl AssertFailed"
  "reply_peer E env m s \<noteq> Inl AssertFailed"
  "reply_cli E env r' s \<noteq> Inl AssertFailed"
  by (simp_all add: unwrap_def unwrap_res_def checked_add_def checked_sub_def reply_peer_def
      reply_cli_def and_then_def split: sum.splits option.splits)

lemma fold_res_not_assert:
  assumes "\<And>x s. x \<in> set xs \<Longrightarrow> f x s \<noteq> Inl e"
  shows "fold_res f xs s \<noteq> Inl e"
  using assms by (induction xs arbitrary: s) (auto simp: and_then_Inl_iff)

lemma learn_each_not_assert [simp]: "learn_each E ids s \<noteq> Inl AssertFailed"
proof -
  have "learn E t x s \<noteq> Inl AssertFailed" for t x s
    by (auto simp: learn_def Let_def split: option.splits prod.splits)
  then show ?thesis by (auto simp: learn_each_def intro!: fold_res_not_assert)
qed

lemma append_batch_not_assert:
  "last_accepted_txid l = x \<Longrightarrow> fold_res append_mutation b (t, x, l) \<noteq> Inl AssertFailed"
proof (induction b arbitrary: t x l)
  case (Cons m b)
  let ?t = "Version_get_term (Mutation_get_version m)" and ?x = "Version_get_txid (Mutation_get_version m)"
  show ?case
  proof (cases "?t < t \<or> ?x \<le> x")
    case True
    then have "append_mutation m (t, x, l) = Inr (t, x, l) \<or>
        append_mutation m (t, x, l) = Inl (Explicit ''replication stream has decreasing term'')"
      by (auto simp: append_mutation_def Let_def)
    then show ?thesis using Cons by auto
  next
    case False
    then obtain l' where l': "log_append ?t ?x m l = Inr l'"
      using Cons.prems iml.append_ok [of l ?x ?t m] by (auto simp: not_le)
    then have "append_mutation m (t, x, l) = Inr (?t, ?x, l')"
      using False by (simp add: append_mutation_def Let_def)
    then show ?thesis using Cons.IH iml.append_accepted [OF l'] by simp
  qed
qed simp

lemma handle_append_not_assert: "handle_append E env i a s \<noteq> Inl AssertFailed"
  using append_batch_not_assert [of "rep_log s", OF refl]
  by (auto simp: handle_append_def and_then_Inl_iff case_prod_beta)

lemma send_to_peers_not_assert [simp]: "send_to_peers E i l es \<noteq> Inl AssertFailed"
  by (induction es) (auto simp: send_to_peer_def and_then_Inl_iff case_prod_beta)

lemma submit_not_assert:
  assumes "server_inv s"
  shows "(\<And>x t. Mutation_get_version (mk x t) = new_version x t) \<Longrightarrow> submit E req i mk s \<noteq> Inl AssertFailed"
proof -
  assume v: "\<And>x t. Mutation_get_version (mk x t) = new_version x t"
  have "replicate_mutation E (mk x t) (s\<lparr>max_generated_txid := x, srv_pending := w\<rparr>) \<noteq> Inl AssertFailed"
    if "checked_add (max_generated_txid s) 1 = Inr x" for x t w
  proof -
    have "last_accepted_txid (rep_log s) < x"
      using assms checked_add_1_greater [OF that] by (simp add: server_inv_def log_sync_def)
    then obtain l where "log_append t x (mk x t) (rep_log s) = Inr l"
      using iml.append_ok [of "rep_log s" x t "mk x t"] by auto
    then show ?thesis by (simp add: replicate_mutation_def v Let_def case_prod_beta)
  qed
  then show ?thesis
    by (auto simp: submit_def new_txid_def replicate_def and_then_Inl_iff case_prod_beta)
qed

lemma handle_peer_not_assert: "handle_peer E now env s \<noteq> Inl AssertFailed"
  by (auto simp: handle_peer_def Let_def and_then_Inl_iff handle_append_not_assert handle_append_res_def
      handle_vote_req_def vote_req_decide_def handle_vote_res_def case_prod_beta
      split: option.splits State.splits)

lemma handle_cli_not_assert:
  assumes "server_inv s" shows "handle_cli E req s \<noteq> Inl AssertFailed"
  by (simp add: handle_cli_def Let_def and_then_Inl_iff submit_not_assert [OF assms])

lemma cron_not_assert: "cron E now s \<noteq> Inl AssertFailed"
  by (simp add: cron_def become_candidate_def and_then_Inl_iff)


lemma mem_ext_writes [simp]: "ext_writes (mem_ext pms crs)"
  by (simp add: ext_writes_def)

section \<open>Properties\<close>

text \<open>C10. Whatever messages a node has received since it started, however the clock behaves and
  whatever the store and the codec return, the assertion of the log never fails.\<close>

theorem reachable_never_asserts:
  assumes "reachable E s"
  shows "server_step E now ev s \<noteq> Inl AssertFailed"
  using handle_cli_not_assert [OF reachable_inv [OF assms]] handle_peer_not_assert cron_not_assert
  by (cases ev) (simp_all add: server_step_def)

theorem reachable_never_asserts_witness:
  "server_step trio_ext demo_now (CliEvent (trio_env 9 2)) trio_leader \<noteq> Inl AssertFailed"
  by (rule reachable_never_asserts [OF trio_reachable])

text \<open>C11. A step of a node returns: no handler panics, provided that initialized messages
  can be printed, the received message parses and comes from an addressed socket, a batch
  has terms that do not go down, and the counters have room.\<close>

theorem reachable_step_returns:
  assumes "reachable E s" and "ext_writes E" and "headroom s" and "event_ok E s ev"
  shows "\<exists>s'. server_step E now ev s = Inr s'"
  using assms(4) handle_peer_total [OF assms(2)] cron_total [OF assms(2)]
    handle_cli_total [OF assms(2) reachable_inv [OF assms(1)] assms(3)] assms(3)
  by (cases ev) (auto simp: server_step_def headroom_def)

theorem reachable_step_returns_witness:
  "\<exists>s'. server_step (mem_ext [] []) (\<lambda>_. Timespec 0 0) CronEvent (Server_init 1 2 ''a'' [''a''] Map.empty) = Inr s'"
  by (rule reachable_step_returns [OF reachable.start])
     (simp_all add: headroom_def Server_init_def)

end
