(* ===== verification/Replication_Safety.thy ===== *)
theory Replication_Safety
  imports Server_Store Log_History Server_Total
begin

text \<open>
  Replication: what a follower takes from an \<^verbatim>\<open>Append\<close>, what a leader makes of the responses,
  what it sends to each peer, and what only grows.  All of it is about \<^verbatim>\<open>handle_append\<close>,
  \<^verbatim>\<open>handle_append_res\<close> and \<^verbatim>\<open>replicate\<close> of \<^verbatim>\<open>server/server.rs\<close>.
\<close>

abbreviation mut_txid :: "Mutation \<Rightarrow> TXID" where
  "mut_txid m \<equiv> Version_get_txid (Mutation_get_version m)"

abbreviation mut_term :: "Mutation \<Rightarrow> Term" where
  "mut_term m \<equiv> Version_get_term (Mutation_get_version m)"

section \<open>What a follower takes from a batch\<close>

text \<open>The mutations of a batch whose txids exceed the accepted one and all earlier ones.\<close>

fun fresh :: "TXID \<Rightarrow> Mutation list \<Rightarrow> Mutation list" where
  "fresh x [] = []"
| "fresh x (m # ms) = (if mut_txid m \<le> x then fresh x ms else m # fresh (mut_txid m) ms)"

lemma fresh_above: "m \<in> set (fresh x ms) \<Longrightarrow> x < mut_txid m"
  by (induction x ms rule: fresh.induct) (auto split: if_splits)

lemma append_batch_fresh:
  assumes "log_inv l" and "last_accepted_txid l = x" and "fold_res append_mutation b (t, x, l) = Inr (t', x', l')"
  shows "x' = last (x # map mut_txid (fresh x b))" and "t' = last (t # map mut_term (fresh x b))"
    and "log_get l' y = (case map_of (map (\<lambda>m. (mut_txid m, m)) (fresh x b)) y of
           Some m \<Rightarrow> Some m | None \<Rightarrow> log_get l y)"
proof -
  have "x' = last (x # map mut_txid (fresh x b)) \<and> t' = last (t # map mut_term (fresh x b)) \<and>
    log_get l' y = (case map_of (map (\<lambda>m. (mut_txid m, m)) (fresh x b)) y of
           Some m \<Rightarrow> Some m | None \<Rightarrow> log_get l y)"
    using assms
  proof (induction b arbitrary: t x l)
    case (Cons m b)
    from Cons.prems(3) obtain st where st: "append_mutation m (t, x, l) = Inr st"
      and rest: "fold_res append_mutation b st = Inr (t', x', l')" by auto
    show ?case
    proof (cases "mut_txid m \<le> x")
      case True
      then have "st = (t, x, l)" using st by (auto simp: append_mutation_def Let_def split: if_splits)
      then show ?thesis using Cons.IH [OF Cons.prems(1,2)] rest True by simp
    next
      case False
      then obtain l1 where l1: "log_append (mut_term m) (mut_txid m) m l = Inr l1"
        and st1: "st = (mut_term m, mut_txid m, l1)"
        using st by (auto simp: append_mutation_def Let_def split: if_splits)
      have above: "map_of (map (\<lambda>m. (mut_txid m, m)) (fresh (mut_txid m) b)) (mut_txid m) = None"
        using fresh_above by (fastforce simp: map_of_eq_None_iff)
      show ?thesis
        using Cons.IH [OF log_append_inv [OF Cons.prems(1) l1] _ rest [unfolded st1]]
          log_append_accepted [OF l1] log_append_get [OF l1, of y] False above
        by (auto split: option.splits)
    qed
  qed (auto split: option.splits)
  then show "x' = last (x # map mut_txid (fresh x b))" and "t' = last (t # map mut_term (fresh x b))"
    and "log_get l' y = (case map_of (map (\<lambda>m. (mut_txid m, m)) (fresh x b)) y of
           Some m \<Rightarrow> Some m | None \<Rightarrow> log_get l y)" by simp_all
qed

section \<open>The positions of the log only grow\<close>

definition log_grows :: "Mutation InMemoryLog \<Rightarrow> Mutation InMemoryLog \<Rightarrow> bool" where
  "log_grows l l' \<longleftrightarrow> last_learned_txid l \<le> last_learned_txid l' \<and> last_accepted_txid l \<le> last_accepted_txid l'"

lemma log_grows_refl [simp]: "log_grows l l" by (simp add: log_grows_def)

lemma append_mutation_grows:
  assumes "append_mutation m (t, x, l) = Inr (t', x', l')"
  shows "log_grows l l'"
  using assms
  by (auto simp: append_mutation_def Let_def log_grows_def log_append_Inr split: if_splits)

lemma append_batch_learned:
  "fold_res append_mutation b (t, x, l) = Inr (t', x', l') \<Longrightarrow> log_grows l l'"
proof (induction b arbitrary: t x l)
  case (Cons m b)
  obtain t1 x1 l1 where "append_mutation m (t, x, l) = Inr (t1, x1, l1)"
    "fold_res append_mutation b (t1, x1, l1) = Inr (t', x', l')"
    using Cons.prems by auto
  then show ?case
    using append_mutation_grows Cons.IH unfolding log_grows_def by (meson order_trans)
qed simp

lemma log_grows_ops:
  "log_inv l \<Longrightarrow> log_grows l (fst (ack_up_to x p l))"
  "log_inv l \<Longrightarrow> log_grows l (fst (commit_up_to x l))"
  "log_append t x e l = Inr l' \<Longrightarrow> log_grows l l'"
  by (auto simp: log_grows_def iml.ack_learned iml.ack_accepted iml.commit_learned iml.commit_accepted log_append_Inr)

lemma log_grows_trans: "log_grows l l1 \<Longrightarrow> log_grows l1 l2 \<Longrightarrow> log_grows l l2"
  by (auto simp: log_grows_def)

lemma handle_append_grows:
  assumes "log_inv (rep_log s)" and "handle_append E env i a s = Inr s'"
  shows "log_grows (rep_log s) (rep_log s')"
  using assms(2)
proof (cases rule: handle_append_cases)
  case (accepted t x l s1 b)
  have "log_inv l" using append_batch_tracks [OF assms(1) accepted(3)] by (simp add: tracks_def)
  then show ?thesis
    using append_batch_learned [OF accepted(3)] log_grows_ops(2) log_grows_trans
      learn_each_frame(1) [OF accepted(4)] accepted(6)
    by (fastforce simp: same_core_def reply_def)
qed (simp_all add: reply_def)

lemma handle_append_res_grows:
  assumes "log_inv (rep_log s)" and "handle_append_res E env i r s = Inr s'"
  shows "log_grows (rep_log s) (rep_log s')"
  using assms(2)
proof (cases rule: handle_append_res_cases)
  case (acked p)
  then show ?thesis
    using log_grows_ops(1) [OF assms(1)] learn_each_frame(1) [OF acked(3)] by (simp add: same_core_def)
qed simp

lemma submit_log:
  assumes "submit E req i mk s = Inr s'" and "\<And>x t. Mutation_get_version (mk x t) = new_version x t"
  obtains x t l where "x = max_generated_txid s + 1" "max_generated_txid s < x" "state_term (state s) = Some t"
    "log_append t x (mk x t) (rep_log s) = Inr l" "rep_log s' = fst (ack_up_to x (srv_id s) l)"
  using assms(1)
proof (cases rule: submit_cases)
  case (1 x t s1 ps envs)
  from 1(3) obtain l where "log_append t x (mk x t) (rep_log s) = Inr l"
    "rep_log s1 = fst (ack_up_to x (srv_id s) l)"
    by (cases rule: replicate_mutation_Inr) (auto simp: assms(2) same_core_def dest!: learn_each_frame(1))
  then show thesis
    using that [of x t l] 1 checked_add_1_greater [OF 1(1)] by (simp add: checked_add_Inr_iff)
qed

lemma handle_cli_cases:
  assumes "handle_cli E req s = Inr s'"
  obtains (replied) r b where "parse_CliReq E (msg req) = Inr r" "s' = reply req b s"
    | (submitted) r mk where "parse_CliReq E (msg req) = Inr r" "is_leader (state s)"
        "\<And>x t. Mutation_get_version (mk x t) = new_version x t"
        "submit E req (CliReq_get_req_id r) mk s = Inr s'"
proof -
  obtain r where r: "parse_CliReq E (msg req) = Inr r" using assms by (auto simp: handle_cli_def)
  show thesis
  proof (cases "is_leader (state s)")
    case lead: True
    consider "CliReq_has_get r" | "\<not> CliReq_has_get r" "CliReq_has_set r"
      | "\<not> CliReq_has_get r" "\<not> CliReq_has_set r" "CliReq_has_cas r"
      | "\<not> CliReq_has_get r" "\<not> CliReq_has_set r" "\<not> CliReq_has_cas r" "CliReq_has_del r"
      | "\<not> CliReq_has_get r" "\<not> CliReq_has_set r" "\<not> CliReq_has_cas r" "\<not> CliReq_has_del r"
      by blast
    then show thesis
    proof cases
      case 1
      then show thesis using assms r lead replied [OF r] by (auto simp: handle_cli_def Let_def reply_cli_Inr)
    next
      case 2
      then show thesis
        using assms r submitted [OF r lead mutation_versions(3)] lead by (simp add: handle_cli_def Let_def)
    next
      case 3
      then show thesis
        using assms r submitted [OF r lead mutation_versions(4)] lead by (simp add: handle_cli_def Let_def)
    next
      case 4
      then show thesis
        using assms r submitted [OF r lead mutation_versions(5)] lead by (simp add: handle_cli_def Let_def)
    next
      case 5
      then show thesis using assms r lead replied [OF r] by (auto simp: handle_cli_def Let_def reply_cli_Inr)
    qed
  next
    case False
    then show thesis using assms r replied [OF r] by (auto simp: handle_cli_def Let_def reply_cli_Inr)
  qed
qed

lemma server_step_grows:
  assumes "server_inv s" and "server_step E now ev s = Inr s'"
  shows "log_grows (rep_log s) (rep_log s')"
proof -
  have inv: "log_inv (rep_log s)" using assms(1) by (simp add: server_inv_def log_sync_def)
  from assms(2) show ?thesis
  proof (cases rule: server_step_cases)
    case (append env m)
    then show ?thesis using handle_append_grows [OF inv] by blast
  next
    case (append_res env m)
    then show ?thesis using handle_append_res_grows [OF inv] by blast
  next
    case (cli env)
    from cli(2) show ?thesis
    proof (cases rule: handle_cli_cases)
      case (replied r b)
      then show ?thesis by (simp add: reply_def)
    next
      case (submitted r mk)
      from submitted(4,3) obtain x t l where "log_append t x (mk x t) (rep_log s) = Inr l"
        "rep_log s' = fst (ack_up_to x (srv_id s) l)" by (rule submit_log)
      then show ?thesis
        using log_grows_trans [OF log_grows_ops(3) log_grows_ops(1) [OF log_append_inv [OF inv]]] by simp
    qed
  qed (auto dest: election_keeps_store)
qed

section \<open>The log of a node has a history\<close>

lemma head_acked_batch:
  assumes "head_acked l" and "fold_res append_mutation b (t, x, l) = Inr (t', x', l')"
  shows "head_acked l'"
  using assms
proof (induction b arbitrary: t x l)
  case (Cons m b)
  obtain t1 x1 l1 where m: "append_mutation m (t, x, l) = Inr (t1, x1, l1)"
    and rest: "fold_res append_mutation b (t1, x1, l1) = Inr (t', x', l')"
    using Cons.prems(2) by auto
  have "head_acked l1"
    using m Cons.prems(1) head_acked_append
    by (auto simp: append_mutation_def Let_def split: if_splits)
  then show ?case using Cons.IH rest by blast
qed simp

lemma handle_append_head_acked:
  assumes "head_acked (rep_log s)" and "handle_append E env i a s = Inr s'"
  shows "head_acked (rep_log s')"
  using assms(2)
proof (cases rule: handle_append_cases)
  case (accepted t x l s1 b)
  then show ?thesis
    using head_acked_commit [OF head_acked_batch [OF assms(1) accepted(3)]] learn_each_frame(1) [OF accepted(4)]
    by (simp add: same_core_def reply_def)
qed (use assms(1) in \<open>simp_all add: reply_def\<close>)

lemma server_step_head_acked:
  assumes "head_acked (rep_log s)" and "server_step E now ev s = Inr s'"
  shows "head_acked (rep_log s')"
  using assms(2)
proof (cases rule: server_step_cases)
  case (append env m)
  then show ?thesis using handle_append_head_acked [OF assms(1)] by blast
next
  case (append_res env m)
  from append_res(4) show ?thesis
  proof (cases rule: handle_append_res_cases)
    case (acked p)
    then show ?thesis
      using head_acked_ack [OF assms(1)] learn_each_frame(1) [OF acked(3)] by (simp add: same_core_def)
  qed (use assms(1) in simp)
next
  case (cli env)
  from cli(2) show ?thesis
  proof (cases rule: handle_cli_cases)
    case (replied r b)
    then show ?thesis using assms(1) by (simp add: reply_def)
  next
    case (submitted r mk)
    from submitted(4,3) obtain x t l where "log_append t x (mk x t) (rep_log s) = Inr l"
      "rep_log s' = fst (ack_up_to x (srv_id s) l)" by (rule submit_log)
    then show ?thesis using head_acked_ack [OF head_acked_append [OF assms(1)]] by simp
  qed
qed (use assms(1) in \<open>auto dest: election_keeps_store\<close>)

lemma reachable_head_acked: "reachable E s \<Longrightarrow> head_acked (rep_log s)"
proof (induction rule: reachable.induct)
  case (start pport cport i ps d)
  then show ?case using head_acked_empty by (simp add: Server_init_def)
qed (rule server_step_head_acked)

section \<open>What is sent to a peer\<close>

lemma gather_batch_eq:
  "snd (gather_batch l xs p b) = b @ List.map_filter (log_get l) xs"
  "rp_max_sent_txid (fst (gather_batch l xs p b)) =
     last (rp_max_sent_txid p # map mut_txid (List.map_filter (log_get l) xs))"
  by (induction xs arbitrary: p b) (auto simp: List.map_filter_simps split: option.splits)

lemma send_to_peers_envelopes:
  "send_to_peers E i l es = Inr (es', envs) \<Longrightarrow>
     list_all2 (\<lambda>e env. tok env = rp_tok (snd e) \<and> address env = rp_addr (snd e) \<and>
       (\<exists>hi lo. checked_add (rp_max_sent_txid (snd e)) 1 = Inr lo \<and> checked_add (rp_max_sent_txid (snd e)) 100 = Inr hi \<and>
         write_PeerMsg E (append_message i (snd e) (last_learned_txid l)
           (List.map_filter (log_get l) (u64_range lo hi))) = Inr (msg env))) es envs"
proof (induction es arbitrary: es' envs)
  case (Cons e es)
  then show ?case by (auto simp: send_to_peer_def case_prod_beta gather_batch_eq(1))
qed simp

section \<open>Messages are only added\<close>

lemma learn_each_outbox:
  assumes "learn_each E ids s = Inr s'"
  shows "\<exists>envs. outbox s' = outbox s @ envs"
  using assms [unfolded learn_each_def]
proof (rule fold_res_invariant)
  fix e t t'
  assume "\<exists>envs. outbox t = outbox s @ envs" and "(case e of (trm, txid) \<Rightarrow> learn E trm txid) t = Inr t'"
  then show "\<exists>envs. outbox t' = outbox s @ envs"
    by (auto simp: learn_def Let_def reply_cli_Inr reply_def split: option.splits prod.splits)
qed simp

lemma server_step_outbox:
  assumes "server_step E now ev s = Inr s'"
  shows "\<exists>envs. outbox s' = outbox s @ envs"
  using assms
proof (cases rule: server_step_cases)
  case (vote_res env m)
  from vote_res(4) show ?thesis by (rule handle_vote_res_cases) (auto dest: count_vote_frame)
next
  case (vote_req env m)
  then show ?thesis
    by (auto simp: handle_vote_req_def vote_req_decide_def reply_peer_Inr reply_def split: if_splits State.splits option.splits)
next
  case (append env m)
  from append(4) show ?thesis
    by (rule handle_append_cases) (auto simp: reply_def dest!: learn_each_outbox)
next
  case (append_res env m)
  from append_res(4) show ?thesis
    by (rule handle_append_res_cases) (auto dest!: learn_each_outbox)
next
  case (cli env)
  from cli(2) show ?thesis
  proof (cases rule: handle_cli_cases)
    case (replied r b)
    then show ?thesis by (simp add: reply_def)
  next
    case (submitted r mk)
    from submitted(4) show ?thesis
      by (rule submit_cases) (auto elim!: replicate_mutation_Inr dest!: learn_each_outbox)
  qed
next
  case cron
  then show ?thesis by (auto simp: cron_def become_candidate_def peer_broadcast_def split: if_splits)
qed simp

section \<open>Properties\<close>

text \<open>C27. A step of a node never takes back its learned or its accepted position, and only adds
  to the messages sent.\<close>

theorem step_only_adds:
  assumes "reachable E s" and "server_step E now ev s = Inr s'"
  shows "last_learned_txid (rep_log s) \<le> last_learned_txid (rep_log s') \<and>
    last_accepted_txid (rep_log s) \<le> last_accepted_txid (rep_log s') \<and> (\<exists>envs. outbox s' = outbox s @ envs)"
  using server_step_grows [OF reachable_inv [OF assms(1)] assms(2)] server_step_outbox [OF assms(2)]
  by (simp add: log_grows_def)

theorem step_only_adds_witness:
  "\<exists>s' envs. server_step trio_ext demo_now (CliEvent (trio_env 9 2)) trio_leader = Inr s' \<and>
     last_accepted_txid (rep_log trio_leader) \<le> last_accepted_txid (rep_log s') \<and> outbox s' = outbox trio_leader @ envs"
proof -
  obtain s' where s': "server_step trio_ext demo_now (CliEvent (trio_env 9 2)) trio_leader = Inr s'" using trio_replicated by blast
  with step_only_adds [OF trio_reachable s'] show ?thesis by blast
qed

text \<open>C17. A follower accepts an \<^verbatim>\<open>Append\<close> of its leader that links to its log: it takes exactly the
  mutations whose txids lie above its accepted one and above all earlier ones of the batch,
  its accepted position and its txid generator move to the last of them, they can be read
  above the learned position of the message, its role is unchanged, and the last message it
  sends tells the leader the new position.\<close>

theorem follower_accepts_append:
  assumes "reachable E s" and "is_following (state s) i" and "append_links a (rep_log s)"
    and "handle_append E env i a s = Inr s'"
    and "new = fresh (last_accepted_txid (rep_log s)) (Append_get_batch a)"
    and "x = last (last_accepted_txid (rep_log s) # map mut_txid new)"
    and "t = last (last_accepted_term (rep_log s) # map mut_term new)"
  shows "last_accepted_txid (rep_log s') = x \<and> last_accepted_term (rep_log s') = t \<and> max_generated_txid s' = x \<and>
    state s' = state s \<and>
    (\<forall>y. Append_get_last_learned_txid a < y \<longrightarrow> log_get (rep_log s') y =
       (case map_of (map (\<lambda>m. (mut_txid m, m)) new) y of Some m \<Rightarrow> Some m | None \<Rightarrow> log_get (rep_log s) y)) \<and>
    (\<exists>b. last (outbox s') = \<lparr>address = address env, tok = tok env, msg = b\<rparr> \<and>
       write_PeerMsg E (append_reply s (AppendRes_set_last_accepted_txid x
         (AppendRes_set_last_accepted_term t (AppendRes_set_accepted True AppendRes_new)))) = Inr b)"
  using assms(4)
proof (cases rule: handle_append_cases)
  case (accepted t1 x1 l s1 b)
  let ?c = "commit_up_to (Append_get_last_learned_txid a) l"
  have inv: "log_inv (rep_log s)" using reachable_inv [OF assms(1)] by (simp add: server_inv_def log_sync_def)
  note F = append_batch_fresh [OF inv refl accepted(3)]
  have T: "tracks (rep_log s) (t1, x1, l)" using append_batch_tracks [OF inv accepted(3)] .
  have core: "same_core (s\<lparr>max_generated_txid := x1, rep_log := fst ?c\<rparr>) s1" using learn_each_frame(1) [OF accepted(4)] .
  have "t1 = t" "x1 = x" using F(1,2) assms(5-7) by simp_all
  moreover have "log_get (fst ?c) y = (case map_of (map (\<lambda>m. (mut_txid m, m)) new) y of
      Some m \<Rightarrow> Some m | None \<Rightarrow> log_get (rep_log s) y)" if "Append_get_last_learned_txid a < y" for y
    using commit_up_to_get [of l "Append_get_last_learned_txid a" y] T that F(3) [of y] assms(5)
    by (simp add: tracks_def)
  ultimately show ?thesis
    using accepted(5,6) core T
    by (auto simp: same_core_def reply_def tracks_def append_reply_def iml.commit_accepted iml.commit_accepted_term)
qed (use assms(2,3) in \<open>auto simp: is_leader_iff\<close>)

theorem follower_accepts_append_witness:
  "\<exists>s'. handle_append follow_ext (demo_env 1) ''b'' follow_append follow_state = Inr s' \<and>
     last_accepted_txid (rep_log s') = 1 \<and> log_get (rep_log s') 1 = Some demo_mutation"
proof -
  have fol: "is_following (state follow_state) ''b''" "append_links follow_append (rep_log follow_state)"
    and end0: "last_accepted_txid (rep_log follow_state) = 0" "last_accepted_term (rep_log follow_state) = 0"
    by (simp_all add: follow_state_def reply_def append_links_def follow_msgs Server_init_def empty_log_def)
  obtain s' where s': "handle_append follow_ext (demo_env 1) ''b'' follow_append follow_state = Inr s'"
    using handle_append_total [of follow_ext follow_state follow_append] end0
    by (auto simp: follow_msgs demo_mutation_version follow_ext_def)
  have "last_accepted_txid (rep_log s') = 1 \<and> log_get (rep_log s') 1 = Some demo_mutation"
    using follower_accepts_append [OF follow_reachable fol s' refl refl refl] end0
    by (simp add: follow_msgs demo_mutation_version)
  with s' show ?thesis by (intro exI [of _ s'] conjI) simp_all
qed

text \<open>C28. An \<^verbatim>\<open>Append\<close> that is not from the followed leader, or does not link, changes nothing in
  the node: a leader stays silent, a follower answers with the position to replicate from,
  and any other node answers with an empty response.\<close>

theorem append_refused:
  assumes "\<not> (is_following (state s) i \<and> append_links a (rep_log s))" and "handle_append E env i a s = Inr s'"
  shows "if is_leader (state s) then s' = s
    else \<exists>b. s' = reply env b s \<and>
      write_PeerMsg E (append_reply s
        (if is_following (state s) i
         then AppendRes_set_last_accepted_txid (last_accepted_txid (rep_log s))
           (AppendRes_set_last_accepted_term (last_accepted_term (rep_log s)) (AppendRes_set_accepted False AppendRes_new))
         else AppendRes_new)) = Inr b"
  using assms(2)
proof (cases rule: handle_append_cases)
  case (unlinked b)
  then show ?thesis by (cases "state s") auto
qed (use assms(1) in auto)

theorem append_refused_witness:
  "handle_append (mem_ext [] []) (demo_env 1) ''b'' Append_new demo_leader = Inr demo_leader"
proof -
  have l: "is_leader (state demo_leader)" by (simp add: demo_leader_def)
  obtain s' where s': "handle_append (mem_ext [] []) (demo_env 1) ''b'' Append_new demo_leader = Inr s'"
    using l by (simp add: handle_append_def)
  have "\<not> is_following (state demo_leader) ''b''" by (simp add: demo_leader_def)
  then show ?thesis using append_refused [OF _ s'] l s' by simp
qed

text \<open>A leader counts every response to an \<^verbatim>\<open>Append\<close> as an acknowledgement, a refusal too: the
  sender is recorded on the first pending entry, whatever position and verdict the response
  carries, and the entry is learned when this completes the quorum.\<close>

theorem append_response_acknowledges:
  assumes "reachable E s" and "is_leader (state s)" and "bt_get (rep_peers s) i \<noteq> None"
    and "pending (rep_log s) = (k, a) # rest" and "handle_append_res E env i r s = Inr s'"
  shows "rep_log s' =
    (if length (acks (push_ack i a)) < quorum (rep_log s)
     then rep_log s\<lparr>pending := (k, push_ack i a) # rest\<rparr>
     else learn_entry k (push_ack i a) (rep_log s\<lparr>pending := rest\<rparr>))"
  using assms(5)
proof (cases rule: handle_append_res_cases)
  case (acked p)
  then show ?thesis
    using ack_up_to_head [OF reachable_head_acked [OF assms(1)], of _ i] assms(4) learn_each_frame(1) [OF acked(3)]
    by (auto simp: same_core_def)
qed (use assms(2,3) in simp)

theorem append_response_acknowledges_witness:
  "\<exists>s s'. reachable trio_ext s \<and> pending (rep_log s) = trio_pending \<and>
     handle_append_res trio_ext (trio_env 6 4) ''b'' (PeerMsg_get_append_res trio_refusal) s = Inr s' \<and>
     \<not> AppendRes_get_accepted (PeerMsg_get_append_res trio_refusal) \<and> pending (rep_log s') = [] \<and>
     last_learned_txid (rep_log s') = 1"
proof -
  obtain s where s: "server_step trio_ext demo_now (CliEvent (trio_env 9 2)) trio_leader = Inr s"
    and p: "pending (rep_log s) = trio_pending" "quorum (rep_log s) = 2" "bt_get (rep_peers s) ''b'' \<noteq> None"
      "is_leader (state s)"
    using trio_replicated by (elim exE conjE)
  have r: "reachable trio_ext s" by (rule reachable.step [OF trio_reachable s])
  have w: "ext_writes trio_ext" by (simp add: trio_ext_def)
  obtain s' where s': "handle_append_res trio_ext (trio_env 6 4) ''b'' (PeerMsg_get_append_res trio_refusal) s = Inr s'"
    using handle_append_res_total [OF w] by blast
  have "pending (rep_log s') = []" "last_learned_txid (rep_log s') = 1"
    using append_response_acknowledges [OF r p(4,3) p(1) [unfolded trio_pending_def] s'] p(2)
    by (simp_all add: push_ack_def)
  with r p(1) s' trio_msgs(10) show ?thesis by (intro exI [of _ s] exI [of _ s'] conjI)
qed

end
