(* ===== verification/Codec.thy ===== *)
theory Codec
  imports Prelude "HOL-Library.Sublist"
begin

text \<open>
  \<^verbatim>\<open>codec.rs\<close>: messages travel as frames, four bytes of size followed by as many bytes of content.
  The theory holds the buffers, \<^verbatim>\<open>usize_to_array\<close> and \<^verbatim>\<open>array_to_usize\<close>, the \<^verbatim>\<open>Framed\<close> codec with its
  two-phase reading loop, and \<^verbatim>\<open>CodecStack\<close>. The loop is a \<^theory_text>\<open>partial_function\<close>, so that it returns
  is something to prove; it refines \<open>parse_frames\<close>, the splitting of a byte stream into frames.
\<close>

unbundle bit_operations_syntax

section \<open>Buffers\<close>

text \<open>A \<^verbatim>\<open>ByteBuf\<close> is the list of its remaining bytes; a \<^verbatim>\<open>MutByteBuf\<close> is what has been written and
  its capacity.\<close>

record MutByteBuf =
  mb_data :: bytes
  mb_cap :: nat

definition mb_remaining :: "MutByteBuf \<Rightarrow> nat" where
  "mb_remaining b = mb_cap b - length (mb_data b)"

definition mb_empty :: "nat \<Rightarrow> MutByteBuf" where
  "mb_empty n = \<lparr>mb_data = [], mb_cap = n\<rparr>"

text \<open>How much the \<^verbatim>\<open>bytes\<close> and \<^verbatim>\<open>mio\<close> crates move is a parameter: \<open>bo_write k n\<close> is the count that \<^verbatim>\<open>write_slice\<close> copies
  of \<open>k\<close> bytes into room for \<open>n\<close>, and \<open>bo_read src n\<close> says how \<^verbatim>\<open>try_read_buf\<close> from the bytes of a buffer into
  room for \<open>n\<close> ends.\<close>

record BufOps =
  bo_write :: "nat \<Rightarrow> nat \<Rightarrow> nat"
  bo_read :: "bytes \<Rightarrow> nat \<Rightarrow> string + nat option"

definition write_slice :: "BufOps \<Rightarrow> bytes \<Rightarrow> MutByteBuf \<Rightarrow> nat \<times> MutByteBuf" where
  "write_slice rd s b =
     (let n = bo_write rd (length s) (mb_remaining b) in (n, b\<lparr>mb_data := mb_data b @ take n s\<rparr>))"

definition try_read_buf :: "BufOps \<Rightarrow> bytes \<Rightarrow> MutByteBuf \<Rightarrow> (string + nat option) \<times> bytes \<times> MutByteBuf" where
  "try_read_buf rd src b =
     (case bo_read rd src (mb_remaining b) of
        Inr (Some n) \<Rightarrow> (Inr (Some n), drop n src, b\<lparr>mb_data := mb_data b @ take n src\<rparr>)
      | r \<Rightarrow> (r, src, b))"

text \<open>The documented behaviour: both move what is there and what fits.\<close>

definition buf_laws :: "BufOps \<Rightarrow> bool" where
  "buf_laws rd \<longleftrightarrow> (\<forall>k n. bo_write rd k n = min k n) \<and> (\<forall>src n. bo_read rd src n = Inr (Some (min (length src) n)))"

definition mem_buf :: BufOps where
  "mem_buf = \<lparr>bo_write = min, bo_read = \<lambda>src n. Inr (Some (min (length src) n))\<rparr>"

lemma buf_laws_mem [simp]: "buf_laws mem_buf"
  by (simp add: buf_laws_def mem_buf_def)

section \<open>Sizes\<close>

definition usize_to_array :: "u64 \<Rightarrow> bytes" where
  "usize_to_array u = [ucast (drop_bit 24 u), ucast (drop_bit 16 u), ucast (drop_bit 8 u), ucast u]"

definition array_to_usize :: "u8 \<Rightarrow> u8 \<Rightarrow> u8 \<Rightarrow> u8 \<Rightarrow> u64 res" where
  "array_to_usize a b c d =
     and_then (checked_add (push_bit 24 (ucast a)) (push_bit 16 (ucast b))) (\<lambda>x.
     and_then (checked_add x (push_bit 8 (ucast c))) (\<lambda>y.
       checked_add y (ucast d)))"

section \<open>Framing\<close>

record Framed =
  sz_buf :: MutByteBuf
  fr_msg :: "MutByteBuf option"

definition Framed_new :: Framed where
  "Framed_new = \<lparr>sz_buf = mb_empty 4, fr_msg = None\<rparr>"

text \<open>\<^verbatim>\<open>array_to_usize([sz_buf[0], sz_buf[1], sz_buf[2], sz_buf[3]])\<close>, with the panic of an index that
  is out of range.\<close>

definition frame_size :: "bytes \<Rightarrow> u64 res" where
  "frame_size s =
     (case s of a # b # c # d # _ \<Rightarrow> array_to_usize a b c d | _ \<Rightarrow> Inl (Explicit ''index out of bounds''))"

text \<open>The two halves of a turn of the loop: the size, if there is no message yet, and the message.
  \<open>None\<close> is the \<^verbatim>\<open>break\<close> of the first half.\<close>

definition read_size :: "BufOps \<Rightarrow> Framed \<Rightarrow> bytes \<Rightarrow> (Framed \<times> bytes \<times> bool) res" where
  "read_size rd f buf =
     (if fr_msg f = None then
        let (_, buf', sz) = try_read_buf rd buf (sz_buf f); f' = f\<lparr>sz_buf := sz\<rparr> in
        if mb_remaining sz \<noteq> 0 then Inr (f', buf', False)
        else and_then (frame_size (mb_data sz)) (\<lambda>size.
               Inr (f'\<lparr>fr_msg := Some (mb_empty (unat size))\<rparr>, buf', True))
      else Inr (f, buf, True))"

partial_function (option) decode_loop ::
  "BufOps \<Rightarrow> Framed \<Rightarrow> bytes \<Rightarrow> bytes list \<Rightarrow> (Framed \<times> bytes \<times> bytes list) res option" where
  "decode_loop rd f buf res =
     (case read_size rd f buf of
        Inl e \<Rightarrow> Some (Inl e)
      | Inr (f1, buf1, go) \<Rightarrow>
          if \<not> go then Some (Inr (f1, buf1, res))
          else (case fr_msg f1 of
             None \<Rightarrow> Some (Inr (f1, buf1, res))
           | Some m \<Rightarrow>
               (case try_read_buf rd buf1 m of
                  (Inr (Some _), buf2, m') \<Rightarrow>
                    if mb_remaining m' = 0
                    then decode_loop rd \<lparr>sz_buf = mb_empty (mb_cap (sz_buf f1)), fr_msg = None\<rparr> buf2
                           (res @ [mb_data m'])
                    else Some (Inr (f1\<lparr>fr_msg := Some m'\<rparr>, buf2, res))
                | (_, buf2, m') \<Rightarrow> Some (Inr (f1\<lparr>fr_msg := None\<rparr>, buf2, res)))))"

definition Framed_decode :: "BufOps \<Rightarrow> Framed \<Rightarrow> bytes \<Rightarrow> (Framed \<times> bytes \<times> bytes list) res option" where
  "Framed_decode rd f buf = decode_loop rd f buf []"

definition Framed_encode :: "BufOps \<Rightarrow> bytes \<Rightarrow> bytes res" where
  "Framed_encode rd item =
     (let (n1, b1) = write_slice rd (usize_to_array (of_nat (length item))) (mb_empty (4 + length item)) in
      and_then (rust_assert (n1 = 4)) (\<lambda>_.
      let (n2, b2) = write_slice rd item b1 in
      and_then (rust_assert (n2 = length item)) (\<lambda>_. Inr (mb_data b2))))"

section \<open>Sizes survive\<close>

lemma base256_digits:
  fixes a b c d :: nat
  assumes "a < 256" "b < 256" "c < 256" "d < 256"
  shows "(16777216 * a + 65536 * b + 256 * c + d) div 16777216 = a"
    "(16777216 * a + 65536 * b + 256 * c + d) div 65536 mod 256 = b"
    "(16777216 * a + 65536 * b + 256 * c + d) div 256 mod 256 = c"
    "(16777216 * a + 65536 * b + 256 * c + d) mod 256 = d"
proof -
  let ?n = "16777216 * a + 65536 * b + 256 * c + d"
  have horner: "?n = ((a * 256 + b) * 256 + c) * 256 + d" by simp
  have dm: "(x * 256 + y) div 256 = x" "(x * 256 + y) mod 256 = y" if "y < 256" for x y :: nat
    using that by simp_all
  have d1: "?n div 256 = (a * 256 + b) * 256 + c" unfolding horner by (rule dm(1) [OF assms(4)])
  have "?n div (256 * 256) = ?n div 256 div 256" by (rule div_mult2_eq)
  then have d2: "?n div 65536 = a * 256 + b" unfolding d1 dm(1) [OF assms(3)] by simp
  have "?n div (65536 * 256) = ?n div 65536 div 256" by (rule div_mult2_eq)
  then show "?n div 16777216 = a" unfolding d2 dm(1) [OF assms(2)] by simp
  show "?n div 65536 mod 256 = b" unfolding d2 by (rule dm(2) [OF assms(2)])
  show "?n div 256 mod 256 = c" unfolding d1 by (rule dm(2) [OF assms(3)])
  show "?n mod 256 = d" unfolding horner by (rule dm(2) [OF assms(4)])
qed

lemma unat_u8_less: "unat w < 256" for w :: u8
  using unsigned_less [of w] by simp

lemma unat_shifted_byte:
  fixes w :: u8
  assumes "n \<le> 24"
  shows "unat (push_bit n (ucast w :: u64)) = unat w * 2 ^ n"
proof -
  have "(2::nat) ^ n \<le> 2 ^ 24" using assms by (rule power_increasing) simp
  then have "unat w * 2 ^ n \<le> 255 * 2 ^ 24" using unat_u8_less [of w] by (intro mult_mono) simp_all
  then have "unat w * 2 ^ n < 2 ^ 64" by simp
  moreover have "unat (ucast w :: u64) = unat w" by (simp add: unsigned_ucast_eq take_bit_nat_eq_self unat_u8_less [THEN order_less_trans])
  ultimately show ?thesis
    by (simp only: unsigned_push_bit_eq) (simp add: push_bit_eq_mult take_bit_eq_mod)
qed

lemma array_to_usize_eq:
  "\<exists>u. array_to_usize a b c d = Inr u \<and> unat u = 2 ^ 24 * unat a + 2 ^ 16 * unat b + 2 ^ 8 * unat c + unat d"
proof -
  have d: "unat (ucast d :: u64) = unat d" using unat_shifted_byte [of 0 d] by simp
  show ?thesis
    using unat_shifted_byte [of 24 a] unat_shifted_byte [of 16 b] unat_shifted_byte [of 8 c] d
      unat_u8_less [of a] unat_u8_less [of b] unat_u8_less [of c] unat_u8_less [of d]
    by (simp add: array_to_usize_def checked_add_def unat_word_ariths)
qed

lemma usize_to_array_digits:
  "map unat (usize_to_array u) = [unat u div 2 ^ 24 mod 256, unat u div 2 ^ 16 mod 256, unat u div 2 ^ 8 mod 256, unat u mod 256]"
  by (simp add: usize_to_array_def unsigned_ucast_eq unsigned_drop_bit_eq drop_bit_eq_div take_bit_eq_mod unat_div_distrib)

lemma frame_size_usize_to_array:
  "\<exists>v. frame_size (usize_to_array u @ rest) = Inr v \<and> unat v = unat u mod 2 ^ 32"
proof -
  obtain a b c d where abcd: "usize_to_array u = [a, b, c, d]" by (simp add: usize_to_array_def)
  then have dig: "unat a = unat u div 2 ^ 24 mod 256" "unat b = unat u div 2 ^ 16 mod 256"
    "unat c = unat u div 2 ^ 8 mod 256" "unat d = unat u mod 256"
    using usize_to_array_digits [of u] by simp_all
  obtain v where v: "array_to_usize a b c d = Inr v"
    and n: "unat v = 2 ^ 24 * unat a + 2 ^ 16 * unat b + 2 ^ 8 * unat c + unat d"
    using array_to_usize_eq by blast
  have "unat u mod (2 ^ 24 * 256) = 2 ^ 24 * (unat u div 2 ^ 24 mod 256) + unat u mod 2 ^ 24"
    "unat u mod (2 ^ 16 * 256) = 2 ^ 16 * (unat u div 2 ^ 16 mod 256) + unat u mod 2 ^ 16"
    "unat u mod (2 ^ 8 * 256) = 2 ^ 8 * (unat u div 2 ^ 8 mod 256) + unat u mod 2 ^ 8"
    by (rule mod_mult2_eq)+
  then have "unat v = unat u mod 2 ^ 32" unfolding n dig by simp
  then show ?thesis using v abcd by (simp add: frame_size_def)
qed

section \<open>The frames of a byte stream\<close>

fun frame_len :: "bytes \<Rightarrow> nat" where
  "frame_len (a # b # c # d # _) = 2 ^ 24 * unat a + 2 ^ 16 * unat b + 2 ^ 8 * unat c + unat d"
| "frame_len _ = 0"

lemma length_4: "length s = 4 \<longleftrightarrow> (\<exists>a b c d. s = [a, b, c, d])"
  by (auto simp: length_Suc_conv numeral_eq_Suc)

lemma frame_len_append: "length s = 4 \<Longrightarrow> frame_len (s @ r) = frame_len s"
  by (auto simp: length_4)

text \<open>The complete frames at the start of a stream and the bytes left over.\<close>

function parse_frames :: "bytes \<Rightarrow> bytes list \<times> bytes" where
  "parse_frames bs =
     (if length bs < 4 + frame_len bs then ([], bs)
      else let (fs, r) = parse_frames (drop (4 + frame_len bs) bs)
           in (take (frame_len bs) (drop 4 bs) # fs, r))"
  by pat_completeness auto
termination
  by (relation "measure length") auto

declare parse_frames.simps [simp del]

lemma parse_frames_short: "length bs < 4 + frame_len bs \<Longrightarrow> parse_frames bs = ([], bs)"
  by (subst parse_frames.simps) simp

lemma parse_frames_step:
  assumes "length sz = 4" and "length m = frame_len sz"
  shows "parse_frames (sz @ m @ r) = (let (fs, r') = parse_frames r in (m # fs, r'))"
proof -
  have "frame_len (sz @ m @ r) = length m"
    using assms by (simp add: frame_len_append)
  then show ?thesis using assms(1) by (subst parse_frames.simps) simp
qed

text \<open>The bytes that a codec has taken and not yet delivered, and when they are consistent.\<close>

definition framed_bytes :: "Framed \<Rightarrow> bytes" where
  "framed_bytes f = mb_data (sz_buf f) @ (case fr_msg f of None \<Rightarrow> [] | Some m \<Rightarrow> mb_data m)"

definition framed_inv :: "Framed \<Rightarrow> bool" where
  "framed_inv f \<longleftrightarrow> mb_cap (sz_buf f) = 4 \<and>
     (case fr_msg f of
        None \<Rightarrow> length (mb_data (sz_buf f)) < 4
      | Some m \<Rightarrow> length (mb_data (sz_buf f)) = 4 \<and> mb_cap m = frame_len (mb_data (sz_buf f)) \<and>
                 length (mb_data m) < mb_cap m)"

lemma frame_size_len:
  assumes "length s = 4"
  shows "\<exists>u. frame_size s = Inr u \<and> unat u = frame_len s"
  using assms array_to_usize_eq by (auto simp: length_4 frame_size_def)

lemma try_read_memory:
  assumes "buf_laws rd"
  shows "try_read_buf rd src b =
    (Inr (Some (min (length src) (mb_remaining b))), drop (mb_remaining b) src,
     b\<lparr>mb_data := mb_data b @ take (mb_remaining b) src\<rparr>)"
  using assms by (auto simp: buf_laws_def try_read_buf_def min_def)

lemma read_size_memory:
  assumes "buf_laws rd" and "framed_inv f"
  shows "if length (framed_bytes f @ buf) < 4
    then read_size rd f buf = Inr (f\<lparr>sz_buf := (sz_buf f)\<lparr>mb_data := framed_bytes f @ buf\<rparr>\<rparr>, [], False) \<and> fr_msg f = None
    else \<exists>sz m buf1. read_size rd f buf = Inr (\<lparr>sz_buf = \<lparr>mb_data = sz, mb_cap = 4\<rparr>, fr_msg = Some m\<rparr>, buf1, True) \<and>
      length sz = 4 \<and> mb_cap m = frame_len sz \<and> length (mb_data m) \<le> mb_cap m \<and>
      framed_bytes f @ buf = sz @ mb_data m @ buf1"
proof (cases "fr_msg f")
  case None
  let ?d = "mb_data (sz_buf f)" and ?k = "4 - length (mb_data (sz_buf f))"
  have inv: "mb_cap (sz_buf f) = 4" "length ?d < 4" using assms(2) None by (simp_all add: framed_inv_def)
  have all: "framed_bytes f @ buf = ?d @ buf" using None by (simp add: framed_bytes_def)
  note rd = try_read_memory [OF assms(1), of buf "sz_buf f"]
  show ?thesis
  proof (cases "length (?d @ buf) < 4")
    case True
    then show ?thesis
      using None inv rd all by (simp add: read_size_def mb_remaining_def)
  next
    case False
    let ?sz = "?d @ take ?k buf"
    have len: "length ?sz = 4" using False inv by simp
    obtain u where u: "frame_size ?sz = Inr u" "unat u = frame_len ?sz" using frame_size_len [OF len] by blast
    have "read_size rd f buf = Inr (\<lparr>sz_buf = \<lparr>mb_data = ?sz, mb_cap = 4\<rparr>, fr_msg = Some (mb_empty (frame_len ?sz))\<rparr>,
        drop ?k buf, True)"
      using None inv rd u len by (cases f; cases "sz_buf f") (simp add: read_size_def mb_remaining_def)
    then show ?thesis
      using False len all by (auto simp: mb_empty_def intro!: exI [of _ ?sz])
  qed
next
  case (Some m)
  then show ?thesis
    using assms(2)
    by (cases f; cases "sz_buf f") (auto simp: framed_inv_def framed_bytes_def read_size_def)
qed

lemma decode_loop_memory:
  assumes "buf_laws rd" and "framed_inv f"
  shows "\<exists>f'. decode_loop rd f buf res = Some (Inr (f', [], res @ fst (parse_frames (framed_bytes f @ buf)))) \<and>
    framed_inv f' \<and> framed_bytes f' = snd (parse_frames (framed_bytes f @ buf))"
  using assms(2)
proof (induction "length (framed_bytes f @ buf)" arbitrary: f buf res rule: less_induct)
  case less
  let ?all = "framed_bytes f @ buf"
  show ?case
  proof (cases "length ?all < 4")
    case True
    then have rs: "read_size rd f buf = Inr (f\<lparr>sz_buf := (sz_buf f)\<lparr>mb_data := ?all\<rparr>\<rparr>, [], False)" and n: "fr_msg f = None"
      using read_size_memory [OF assms(1) less.prems, of buf] by simp_all
    have "parse_frames ?all = ([], ?all)" by (rule parse_frames_short) (use True in linarith)
    then show ?thesis
      using rs n True less.prems
      by (simp add: decode_loop.simps [of rd f] framed_inv_def) (simp add: framed_bytes_def)
  next
    case False
    then obtain sz m buf1 where rs: "read_size rd f buf =
        Inr (\<lparr>sz_buf = \<lparr>mb_data = sz, mb_cap = 4\<rparr>, fr_msg = Some m\<rparr>, buf1, True)"
      and sz: "length sz = 4" "mb_cap m = frame_len sz" "length (mb_data m) \<le> mb_cap m"
      and all: "?all = sz @ mb_data m @ buf1"
      using read_size_memory [OF assms(1) less.prems, of buf] by auto
    let ?k = "mb_cap m - length (mb_data m)"
    let ?m = "m\<lparr>mb_data := mb_data m @ take ?k buf1\<rparr>"
    have fl: "frame_len ?all = mb_cap m" unfolding all using frame_len_append [OF sz(1)] sz(2) by simp
    note rd = try_read_memory [OF assms(1), of buf1 m, unfolded mb_remaining_def]
    show ?thesis
    proof (cases "length (mb_data m @ buf1) < mb_cap m")
      case True
      then have "length ?all < 4 + frame_len ?all" unfolding fl using sz(1) by (simp add: all)
      then have "parse_frames ?all = ([], ?all)" by (rule parse_frames_short)
      moreover have "decode_loop rd f buf res =
          Some (Inr (\<lparr>sz_buf = \<lparr>mb_data = sz, mb_cap = 4\<rparr>, fr_msg = Some ?m\<rparr>, [], res))"
        using True rs rd by (simp add: decode_loop.simps [of rd f] mb_remaining_def)
      ultimately show ?thesis
        using True sz all by (simp add: framed_inv_def framed_bytes_def)
    next
      case full: False
      let ?f = "\<lparr>sz_buf = mb_empty 4, fr_msg = None\<rparr>"
      let ?msg = "mb_data m @ take ?k buf1"
      have all': "?all = sz @ ?msg @ drop ?k buf1" unfolding all by simp
      have "length ?msg = frame_len sz" using full sz by simp
      note step = parse_frames_step [OF sz(1) this, of "drop ?k buf1", folded all']
      have inv: "framed_inv ?f" and empty: "framed_bytes ?f = []"
        by (simp_all add: framed_inv_def framed_bytes_def mb_empty_def)
      have "length (framed_bytes ?f @ drop ?k buf1) < length ?all" unfolding all using empty sz(1) by simp
      note IH = less.hyps [OF this inv, of "res @ [mb_data m @ take ?k buf1]"]
      have loop: "decode_loop rd f buf res = decode_loop rd ?f (drop ?k buf1) (res @ [?msg])"
        using full rs rd sz(3) by (simp add: decode_loop.simps [of rd f buf] mb_remaining_def)
      obtain fs r where pf: "parse_frames (drop ?k buf1) = (fs, r)" by fastforce
      then have "parse_frames ?all = (?msg # fs, r)" using step by simp
      then show ?thesis using IH unfolding loop empty by (simp only: pf append.simps fst_conv snd_conv append_assoc)
    qed
  qed
qed

section \<open>Streams that arrive in pieces\<close>

text \<open>Decoding one buffer after the other, as a connection does with what it reads.\<close>

primrec feed :: "BufOps \<Rightarrow> Framed \<Rightarrow> bytes list \<Rightarrow> (Framed \<times> bytes list) res option" where
  "feed rd f [] = Some (Inr (f, []))"
| "feed rd f (c # cs) =
     (case Framed_decode rd f c of
        None \<Rightarrow> None
      | Some (Inl e) \<Rightarrow> Some (Inl e)
      | Some (Inr (f', _, ms)) \<Rightarrow>
          (case feed rd f' cs of
             None \<Rightarrow> None
           | Some (Inl e) \<Rightarrow> Some (Inl e)
           | Some (Inr (f'', ms')) \<Rightarrow> Some (Inr (f'', ms @ ms'))))"

lemma parse_frames_append:
  "parse_frames (bs @ cs) =
     (let (fs, r) = parse_frames bs; (fs', r') = parse_frames (r @ cs) in (fs @ fs', r'))"
proof (induction bs rule: parse_frames.induct)
  case (1 bs)
  show ?case
  proof (cases "length bs < 4 + frame_len bs")
    case True
    then show ?thesis by (simp add: parse_frames_short)
  next
    case False
    let ?sz = "take 4 bs" and ?m = "take (frame_len bs) (drop 4 bs)" and ?r = "drop (4 + frame_len bs) bs"
    have bs: "bs = ?sz @ ?m @ ?r"
      by (metis append_take_drop_id drop_drop add.commute)
    have sz: "length ?sz = 4" using False by simp
    have m: "length ?m = frame_len ?sz"
      using False frame_len_append [OF sz, of "drop 4 bs"] by simp
    obtain fs r where pf: "parse_frames ?r = (fs, r)" by fastforce
    have b: "parse_frames bs = (?m # fs, r)"
      using parse_frames_step [OF sz m, of ?r] pf bs by simp
    have "parse_frames (bs @ cs) = (let (fs, r') = parse_frames (?r @ cs) in (?m # fs, r'))"
      using parse_frames_step [OF sz m, of "?r @ cs"] bs by (metis append_assoc)
    then show ?thesis using 1 [OF False] b pf by (simp add: case_prod_beta Let_def)
  qed
qed

text \<open>A codec never holds back a complete frame.\<close>

lemma framed_inv_parse:
  assumes "framed_inv f"
  shows "parse_frames (framed_bytes f) = ([], framed_bytes f)"
proof -
  have "length (framed_bytes f) < 4 + frame_len (framed_bytes f)"
    using assms frame_len_append [of "mb_data (sz_buf f)"]
    by (auto simp: framed_inv_def framed_bytes_def split: option.splits)
  then show ?thesis by (rule parse_frames_short)
qed

lemma feed_memory:
  assumes "buf_laws rd" and "framed_inv f"
  shows "\<exists>f'. feed rd f cs = Some (Inr (f', fst (parse_frames (framed_bytes f @ concat cs)))) \<and>
    framed_inv f' \<and> framed_bytes f' = snd (parse_frames (framed_bytes f @ concat cs))"
  using assms(2)
proof (induction cs arbitrary: f)
  case Nil
  then show ?case by (simp add: framed_inv_parse)
next
  case (Cons c cs)
  obtain f1 where f1: "Framed_decode rd f c = Some (Inr (f1, [], fst (parse_frames (framed_bytes f @ c))))"
    "framed_inv f1" "framed_bytes f1 = snd (parse_frames (framed_bytes f @ c))"
    using decode_loop_memory [OF assms(1) Cons.prems, of c "[]"] by (auto simp: Framed_decode_def)
  show ?case
    using Cons.IH [OF f1(2)] f1 parse_frames_append [of "framed_bytes f @ c" "concat cs"]
    by (auto simp: case_prod_beta)
qed

text \<open>The frame of a message, as the codec writes it.\<close>

definition frame :: "bytes \<Rightarrow> bytes" where
  "frame m = usize_to_array (of_nat (length m)) @ m"

lemma length_usize_to_array [simp]: "length (usize_to_array u) = 4"
  by (simp add: usize_to_array_def)

lemma Framed_encode_eq: "buf_laws rd \<Longrightarrow> Framed_encode rd item = Inr (frame item)"
  by (simp add: buf_laws_def Framed_encode_def frame_def write_slice_def mb_empty_def mb_remaining_def Let_def)

lemma frame_len_encode:
  assumes "length item < 2 ^ 32"
  shows "frame_len (usize_to_array (of_nat (length item))) = length item"
proof -
  let ?s = "usize_to_array (of_nat (length item) :: u64)"
  have "unat (of_nat (length item) :: u64) = length item"
    using assms by (simp add: unat_of_nat)
  then show ?thesis
    using frame_size_len [of ?s] frame_size_usize_to_array [of "of_nat (length item)" "[]"] assms by auto
qed

lemma parse_frames_concat:
  assumes "\<forall>m \<in> set ms. length m < 2 ^ 32"
  shows "parse_frames (concat (map frame ms)) = (ms, [])"
  using assms
proof (induction ms)
  case Nil
  then show ?case by (simp add: parse_frames_short)
next
  case (Cons m ms)
  then show ?case
    using parse_frames_step [of "usize_to_array (of_nat (length m))" m "concat (map frame ms)"] frame_len_encode [of m]
    by (simp add: frame_def [of m])
qed

lemma encoded_frames: "list_all2 (\<lambda>m e. Framed_encode rd m = Inr e) ms es \<Longrightarrow> buf_laws rd \<Longrightarrow> es = map frame ms"
  by (induction ms es rule: list_all2_induct) (simp_all add: Framed_encode_eq)

text \<open>What has been parsed of a prefix of a stream is a prefix of what the stream holds.\<close>

lemma parse_frames_prefix: "prefix bs cs \<Longrightarrow> prefix (fst (parse_frames bs)) (fst (parse_frames cs))"
  by (elim prefixE) (simp add: parse_frames_append [of bs] case_prod_beta Let_def)

lemma Framed_new_inv [simp]: "framed_inv Framed_new" "framed_bytes Framed_new = []"
  by (simp_all add: Framed_new_def framed_inv_def framed_bytes_def mb_empty_def)

section \<open>Stacked codecs\<close>

text \<open>\<^verbatim>\<open>CodecStack\<close>: the left codec decodes the buffer and the right one everything that comes out, in
  order and with its state threaded.\<close>

primrec decode_each :: "('r \<Rightarrow> 'm \<Rightarrow> 'r \<times> 'o list) \<Rightarrow> 'r \<Rightarrow> 'm list \<Rightarrow> 'r \<times> 'o list" where
  "decode_each dr r [] = (r, [])"
| "decode_each dr r (d # ds) =
     (let (r', os) = dr r d; (r'', os') = decode_each dr r' ds in (r'', os @ os'))"

definition CodecStack_decode ::
  "('l \<Rightarrow> 'i \<Rightarrow> 'l \<times> 'm list) \<Rightarrow> ('r \<Rightarrow> 'm \<Rightarrow> 'r \<times> 'o list) \<Rightarrow> 'l \<times> 'r \<Rightarrow> 'i \<Rightarrow> ('l \<times> 'r) \<times> 'o list" where
  "CodecStack_decode dl dr s buf =
     (let (l', ms) = dl (fst s) buf; (r', os) = decode_each dr (snd s) ms in ((l', r'), os))"

definition CodecStack_encode :: "('m \<Rightarrow> 'i) \<Rightarrow> ('o \<Rightarrow> 'm) \<Rightarrow> 'o \<Rightarrow> 'i" where
  "CodecStack_encode el er out = el (er out)"

lemma CodecStack_round_trip:
  assumes "\<And>m. dl l (el m) = (l, [m])" and "\<And>x. dr r (er x) = (r, [x])"
  shows "CodecStack_decode dl dr (l, r) (CodecStack_encode el er x) = ((l, r), [x])"
  by (simp add: CodecStack_decode_def CodecStack_encode_def assms)

section \<open>Properties\<close>

text \<open>The framing survives any fragmentation: the frames of any messages below four gigabytes,
  cut into buffers at arbitrary points, decode to exactly these messages in order, and
  nothing is left in the codec.\<close>

theorem framing_survives_fragmentation:
  assumes "buf_laws rd" and "list_all2 (\<lambda>m e. Framed_encode rd m = Inr e) ms es"
    and "\<forall>m \<in> set ms. length m < 2 ^ 32" and "concat cs = concat es"
  shows "\<exists>f'. feed rd Framed_new cs = Some (Inr (f', ms)) \<and> framed_bytes f' = []"
  using feed_memory [OF assms(1) Framed_new_inv(1), of cs] parse_frames_concat [OF assms(3)]
    encoded_frames [OF assms(2,1)] assms(4) by auto

theorem framing_survives_fragmentation_witness:
  "\<exists>f'. feed mem_buf Framed_new [[0, 0], [0, 2, 7], [8, 0, 0, 0, 1], [9]]
     = Some (Inr (f', [[7, 8], [9]])) \<and> framed_bytes f' = []"
  by (rule framing_survives_fragmentation [where es = "[[0, 0, 0, 2, 7, 8], [0, 0, 0, 1, 9]]"])
     (simp_all add: buf_laws_mem Framed_encode_eq frame_def usize_to_array_def)

text \<open>C34. Decoding a buffer returns, without a panic and with the whole buffer consumed, from every
  state that a codec can be in, and delivers exactly the complete frames of the bytes held
  back followed by the buffer; the rest is held back.\<close>

theorem Framed_decode_refines:
  assumes "buf_laws rd" and "framed_inv f"
  shows "\<exists>f'. Framed_decode rd f buf = Some (Inr (f', [], fst (parse_frames (framed_bytes f @ buf)))) \<and>
    framed_inv f' \<and> framed_bytes f' = snd (parse_frames (framed_bytes f @ buf))"
  using decode_loop_memory [OF assms, of buf "[]"] by (simp add: Framed_decode_def)

theorem Framed_decode_refines_witness:
  "\<exists>f'. Framed_decode mem_buf Framed_new [0, 0, 0, 1]
     = Some (Inr (f', [], [])) \<and> framed_bytes f' = [0, 0, 0, 1]"
  using Framed_decode_refines [of mem_buf Framed_new "[0, 0, 0, 1]"]
  by (auto simp: buf_laws_mem parse_frames_short)

text \<open>C40. The size field is exact on 32 bits: reading back the four bytes of any \<^verbatim>\<open>usize\<close> gives its
  value modulo \<open>2 ^ 32\<close>, without overflow, and any four bytes are the bytes of the size
  they denote.\<close>

theorem size_field_exact:
  "(\<exists>v. frame_size (usize_to_array u) = Inr v \<and> unat v = unat u mod 2 ^ 32) \<and>
   (\<exists>v. frame_size [a, b, c, d] = Inr v \<and> usize_to_array v = [a, b, c, d])"
proof
  show "\<exists>v. frame_size (usize_to_array u) = Inr v \<and> unat v = unat u mod 2 ^ 32"
    using frame_size_usize_to_array [of u "[]"] by simp
  obtain v where v: "frame_size [a, b, c, d] = Inr v"
    and n: "unat v = 2 ^ 24 * unat a + 2 ^ 16 * unat b + 2 ^ 8 * unat c + unat d"
    using array_to_usize_eq [of a b c d] by (auto simp: frame_size_def)
  have "map unat (usize_to_array v) = map unat [a, b, c, d]"
    unfolding usize_to_array_digits n
    using unat_u8_less [of a] unat_u8_less [of b] unat_u8_less [of c] unat_u8_less [of d]
    by (simp add: base256_digits)
  then have "usize_to_array v = [a, b, c, d]"
    by (rule map_injective) (rule injI, rule unsigned_word_eqI)
  with v show "\<exists>v. frame_size [a, b, c, d] = Inr v \<and> usize_to_array v = [a, b, c, d]" by blast
qed

end
