(* ===== verification/Server_Conn.thy ===== *)
theory Server_Conn
  imports Codec Node_State
begin

text \<open>
  \<^verbatim>\<open>server/server_conn.rs\<close>: one connection of the event loop, with the queue of frames still to
  be written and the codec that reassembles what arrives. The sockets and the poll of the
  operating system answer through the parameter record \<open>Os\<close>; what a handler does to them is the list
  of effects that it returns.
\<close>

section \<open>The operating system\<close>

type_synonym sock = nat
type_synonym io_err = string
type_synonym io = "io_err + unit"

text \<open>\<^verbatim>\<open>mio::EventSet\<close> is a set of these events; every registration is edge triggered and one-shot.\<close>

datatype Ready = Readable | Writable | Error | Hup

text \<open>The two channels on which the event loop hands requests to the server.\<close>

datatype Chan = PeerReqs | CliReqs

datatype Effect =
    Sent sock bytes
  | Register sock Token "Ready set"
  | Reregister sock Token "Ready set"
  | Queue Chan Envelope
  | Timer

text \<open>Answers to the calls of one step: \<^verbatim>\<open>try_write_buf\<close> says how many bytes it took, \<^verbatim>\<open>try_read_buf\<close>
  which bytes it put into a buffer of the given capacity, and \<open>None\<close> is the operation that would block.
  The \<open>i\<close>-th connection attempt of a step is answered separately.\<close>

record Os =
  os_write :: "sock \<Rightarrow> bytes \<Rightarrow> io_err + nat option"
  os_read :: "sock \<Rightarrow> nat \<Rightarrow> io_err + bytes option"
  os_peer_addr :: "sock \<Rightarrow> io_err + SocketAddr"
  os_register :: "sock \<Rightarrow> Token \<Rightarrow> io"
  os_reregister :: "sock \<Rightarrow> Token \<Rightarrow> io"
  os_accept :: "sock \<Rightarrow> io_err + sock option"
  os_connect :: "nat \<Rightarrow> SocketAddr \<Rightarrow> io_err + sock"
  os_bind :: "u16 \<Rightarrow> io_err + sock"
  os_timer :: io

definition sent_bytes :: "Effect list \<Rightarrow> bytes" where
  "sent_bytes es = concat (map (\<lambda>e. case e of Sent _ b \<Rightarrow> b | _ \<Rightarrow> []) es)"

definition queued :: "Effect list \<Rightarrow> Envelope list" where
  "queued es = concat (map (\<lambda>e. case e of Queue _ v \<Rightarrow> [v] | _ \<Rightarrow> []) es)"

section \<open>Connections\<close>

record ServerConn =
  sock :: sock
  req_tx :: Chan
  res_bufs :: "bytes list"
  res_remaining :: u64
  req_codec :: Framed
  token :: "Token option"
  interest :: "Ready set"

definition ServerConn_new :: "sock \<Rightarrow> Chan \<Rightarrow> ServerConn" where
  "ServerConn_new s tx = \<lparr>sock = s, req_tx = tx, res_bufs = [], res_remaining = 0, req_codec = Framed_new,
     token = None, interest = {Hup}\<rparr>"

text \<open>The end of both handlers: register the connection again under its token.\<close>

definition reregister_conn :: "Os \<Rightarrow> ServerConn \<Rightarrow> Effect list \<Rightarrow> (io \<times> ServerConn \<times> Effect list) res" where
  "reregister_conn os c es =
     and_then (unwrap (token c)) (\<lambda>t.
       Inr (os_reregister os (sock c) t, c, es @ [Reregister (sock c) t (interest c)]))"

definition push_back :: "bytes \<Rightarrow> ServerConn \<Rightarrow> ServerConn" where
  "push_back b c = (if length b \<noteq> 0 then c\<lparr>res_bufs := b # res_bufs c\<rparr> else c)"

definition ServerConn_writable :: "Os \<Rightarrow> ServerConn \<Rightarrow> (io \<times> ServerConn \<times> Effect list) res" where
  "ServerConn_writable os c =
     (case res_bufs c of
        [] \<Rightarrow> Inr (Inr (), c, [])
      | res_buf # rest \<Rightarrow>
          let c1 = c\<lparr>res_bufs := rest\<rparr> in
          (case os_write os (sock c) res_buf of
             Inr None \<Rightarrow>
               reregister_conn os (push_back res_buf (c1\<lparr>interest := interest c1 \<union> {Writable}\<rparr>)) []
           | Inr (Some r) \<Rightarrow>
               and_then (checked_sub (res_remaining c1) (of_nat r)) (\<lambda>remaining.
               let c2 = c1\<lparr>res_remaining := remaining\<rparr>;
                   c3 = (if remaining = 0
                         then c2\<lparr>interest := interest c2 \<union> {Readable} - {Writable}\<rparr> else c2)
               in reregister_conn os (push_back (drop r res_buf) c3) [Sent (sock c) (take r res_buf)])
           | Inl e \<Rightarrow> Inr (Inl e, c1, [])))"

text \<open>The loop over the decoded requests; address and token are unwrapped for each.\<close>

primrec send_requests :: "Os \<Rightarrow> ServerConn \<Rightarrow> bytes list \<Rightarrow> Effect list res" where
  "send_requests os c [] = Inr []"
| "send_requests os c (req # reqs) =
     and_then (unwrap_res (os_peer_addr os (sock c))) (\<lambda>a.
     and_then (unwrap (token c)) (\<lambda>t.
     and_then (send_requests os c reqs) (\<lambda>es.
       Inr (Queue (req_tx c) \<lparr>address = Some a, tok = t, msg = req\<rparr> # es))))"

definition decode_requests ::
  "Os \<Rightarrow> BufOps \<Rightarrow> bytes \<Rightarrow> ServerConn \<Rightarrow> (io \<times> ServerConn \<times> Effect list) res option" where
  "decode_requests os rd data c =
     (case Framed_decode rd (req_codec c) data of
        None \<Rightarrow> None
      | Some (Inl p) \<Rightarrow> Some (Inl p)
      | Some (Inr (f, _, reqs)) \<Rightarrow>
          (let c1 = c\<lparr>req_codec := f\<rparr> in
           Some (and_then (send_requests os c1 reqs) (\<lambda>es. reregister_conn os c1 es))))"

definition ServerConn_readable ::
  "Os \<Rightarrow> BufOps \<Rightarrow> ServerConn \<Rightarrow> (io \<times> ServerConn \<times> Effect list) res option" where
  "ServerConn_readable os rd c =
     (case os_read os (sock c) 1024 of
        Inr None \<Rightarrow> Some (Inl (Explicit ''got readable, but can't read from the socket''))
      | Inr (Some data) \<Rightarrow> decode_requests os rd data c
      | Inl e \<Rightarrow> decode_requests os rd [] (c\<lparr>interest := interest c - {Readable}\<rparr>))"

text \<open>The part of \<^verbatim>\<open>TrafficCop::notify\<close> that queues a message on one connection: the frame is built in a
  buffer whose capacity is the size cut to 32 bits.\<close>

definition queue_response :: "BufOps \<Rightarrow> bytes \<Rightarrow> ServerConn \<Rightarrow> ServerConn res" where
  "queue_response rd m c =
     (let size = 4 + length m;
          (n1, b1) = write_slice rd (usize_to_array (of_nat (length m))) (mb_empty (size mod 2 ^ 32)) in
      and_then (rust_assert (n1 = 4)) (\<lambda>_.
      let (n2, b2) = write_slice rd m b1 in
      and_then (rust_assert (n2 = length m)) (\<lambda>_.
      and_then (checked_add (res_remaining c) (of_nat (length (mb_data b2)))) (\<lambda>remaining.
        Inr (c\<lparr>res_remaining := remaining, res_bufs := res_bufs c @ [mb_data b2],
               interest := interest c \<union> {Writable}\<rparr>)))))"

section \<open>Histories of a connection\<close>

text \<open>What one connection has been asked to send, has sent, has received and has passed on.\<close>

record History =
  h_notified :: "bytes list"
  h_sent :: bytes
  h_received :: bytes
  h_queued :: "Envelope list"

definition received :: "Os \<Rightarrow> sock \<Rightarrow> bytes" where
  "received os s = (case os_read os s 1024 of Inr (Some data) \<Rightarrow> data | _ \<Rightarrow> [])"

text \<open>A failed write drops the frame that was being written.\<close>

definition write_fails :: "Os \<Rightarrow> ServerConn \<Rightarrow> bool" where
  "write_fails os c = (case res_bufs c of [] \<Rightarrow> False | b # _ \<Rightarrow> isl (os_write os (sock c) b))"

text \<open>The runs of a connection in which no write fails.\<close>

inductive conn_run :: "BufOps \<Rightarrow> ServerConn \<Rightarrow> History \<Rightarrow> bool" for rd where
  Start: "conn_run rd (ServerConn_new s tx\<lparr>token := Some t\<rparr>)
    (\<lparr>h_notified = [], h_sent = [], h_received = [], h_queued = []\<rparr>)"
| Notify: "conn_run rd c h \<Longrightarrow> queue_response rd m c = Inr c' \<Longrightarrow>
    conn_run rd c' (h\<lparr>h_notified := h_notified h @ [m]\<rparr>)"
| Write: "conn_run rd c h \<Longrightarrow> \<not> write_fails os c \<Longrightarrow> ServerConn_writable os c = Inr (r, c', es) \<Longrightarrow>
    conn_run rd c' (h\<lparr>h_sent := h_sent h @ sent_bytes es\<rparr>)"
| Read: "conn_run rd c h \<Longrightarrow> ServerConn_readable os rd c = Some (Inr (r, c', es)) \<Longrightarrow>
    conn_run rd c' (h\<lparr>h_received := h_received h @ received os (sock c), h_queued := h_queued h @ queued es\<rparr>)"

section \<open>Lemmas\<close>

lemma sent_bytes_simps [simp]:
  "sent_bytes [] = []" "sent_bytes (e # es) = (case e of Sent _ b \<Rightarrow> b | _ \<Rightarrow> []) @ sent_bytes es"
  "sent_bytes (es @ es') = sent_bytes es @ sent_bytes es'"
  by (simp_all add: sent_bytes_def)

lemma queued_simps [simp]:
  "queued [] = []" "queued (e # es) = (case e of Queue _ v \<Rightarrow> [v] | _ \<Rightarrow> []) @ queued es"
  "queued (es @ es') = queued es @ queued es'"
  by (simp_all add: queued_def)

lemma queue_response_eq:
  assumes "buf_laws rd" and "4 + length m < 2 ^ 32"
  shows "queue_response rd m c =
    and_then (checked_add (res_remaining c) (of_nat (4 + length m))) (\<lambda>r.
      Inr (c\<lparr>res_remaining := r, res_bufs := res_bufs c @ [frame m], interest := interest c \<union> {Writable}\<rparr>))"
  using assms
  by (simp add: buf_laws_def queue_response_def frame_def write_slice_def mb_empty_def mb_remaining_def Let_def)


text \<open>A message whose frame does not fit 32 bits fails the assertion.\<close>

lemma queue_response_Inr:
  assumes "queue_response rd m c = Inr c'" and "buf_laws rd"
  shows "4 + length m < 2 ^ 32" (is ?len) and "c' = c\<lparr>res_remaining := res_remaining c + of_nat (4 + length m),
      res_bufs := res_bufs c @ [frame m], interest := interest c \<union> {Writable}\<rparr>"
    and "unat (res_remaining c') = unat (res_remaining c) + 4 + length m"
proof -
  define cap where "cap = (4 + length m) mod 2 ^ 32"
  have "queue_response rd m c = Inr c' \<Longrightarrow> 4 \<le> cap \<and> length m \<le> cap - 4"
    unfolding queue_response_def Let_def cap_def [symmetric]
    using assms(2) by (auto simp: buf_laws_def write_slice_def mb_empty_def mb_remaining_def min_def Let_def split: if_splits)
  then have cap: "4 + length m \<le> (4 + length m) mod 2 ^ 32" using assms(1) unfolding cap_def by linarith
  show ?len
  proof (rule ccontr)
    assume "\<not> ?len"
    moreover have "(4 + length m) mod 2 ^ 32 < 2 ^ 32" by simp
    ultimately have "(4 + length m) mod 2 ^ 32 < 4 + length m" by linarith
    with cap show False by linarith
  qed
  then obtain r where r: "checked_add (res_remaining c) (of_nat (4 + length m)) = Inr r"
    and c': "c' = c\<lparr>res_remaining := r, res_bufs := res_bufs c @ [frame m], interest := interest c \<union> {Writable}\<rparr>"
    using assms by (auto simp only: queue_response_eq and_then_Inr_iff sum.inject)
  show "c' = c\<lparr>res_remaining := res_remaining c + of_nat (4 + length m),
      res_bufs := res_bufs c @ [frame m], interest := interest c \<union> {Writable}\<rparr>"
    using r unfolding c' checked_add_Inr_iff by simp
  have "unat (of_nat (4 + length m) :: u64) = 4 + length m"
    using \<open>?len\<close> by (simp only: unat_of_nat) simp
  then show "unat (res_remaining c') = unat (res_remaining c) + 4 + length m"
    using checked_add_unat [OF r] unfolding c' by simp
qed

lemma reregister_conn_Inr:
  "reregister_conn os c es = Inr (r, c', es') \<longleftrightarrow>
     (\<exists>t. token c = Some t \<and> r = os_reregister os (sock c) t \<and> c' = c \<and>
       es' = es @ [Reregister (sock c) t (interest c)])"
  by (auto simp: reregister_conn_def)

lemma push_back_simps [simp]:
  "concat (res_bufs (push_back b c)) = b @ concat (res_bufs c)"
  "token (push_back b c) = token c" "sock (push_back b c) = sock c" "req_tx (push_back b c) = req_tx c"
  "req_codec (push_back b c) = req_codec c" "interest (push_back b c) = interest c"
  "res_remaining (push_back b c) = res_remaining c"
  by (auto simp: push_back_def)

text \<open>What a write leaves of a connection besides its queue and its interest.\<close>

definition same_conn :: "ServerConn \<Rightarrow> ServerConn \<Rightarrow> bool" where
  "same_conn c c' \<longleftrightarrow> sock c' = sock c \<and> req_tx c' = req_tx c \<and> token c' = token c"

lemma ServerConn_writable_cases:
  assumes "ServerConn_writable os c = Inr (r, c', es)"
  obtains "res_bufs c = []" "r = Inr ()" "c' = c" "es = []"
  | (err) e b bs where "res_bufs c = b # bs" "os_write os (sock c) b = Inl e" "r = Inl e"
      "c' = c\<lparr>res_bufs := bs\<rparr>" "es = []"
  | (block) b bs t where "res_bufs c = b # bs" "os_write os (sock c) b = Inr None" "token c = Some t"
      "r = os_reregister os (sock c) t" "c' = push_back b (c\<lparr>res_bufs := bs, interest := interest c \<union> {Writable}\<rparr>)"
      "es = [Reregister (sock c) t (interest c \<union> {Writable})]"
  | (wrote) b bs n t where "res_bufs c = b # bs" "os_write os (sock c) b = Inr (Some n)" "token c = Some t"
      "of_nat n \<le> res_remaining c" "r = os_reregister os (sock c) t"
      "c' = push_back (drop n b) (c\<lparr>res_bufs := bs, res_remaining := res_remaining c - of_nat n,
         interest := (if res_remaining c - of_nat n = 0 then interest c \<union> {Readable} - {Writable} else interest c)\<rparr>)"
      "es = [Sent (sock c) (take n b), Reregister (sock c) t (interest c')]"
proof (cases "res_bufs c")
  case Nil
  have "r = Inr ()" "c' = c" "es = []" using assms Nil by (simp_all add: ServerConn_writable_def)
  then show ?thesis by (rule that(1) [OF Nil])
next
  case (Cons b bs)
  show ?thesis
  proof (cases "os_write os (sock c) b")
    case (Inl e)
    have "r = Inl e" "c' = c\<lparr>res_bufs := bs\<rparr>" "es = []"
      using assms Cons Inl by (simp_all add: ServerConn_writable_def Let_def)
    then show ?thesis by (rule that(2) [OF Cons Inl])
  next
    case (Inr w)
    show ?thesis
    proof (cases w)
      case None
      obtain t where t: "token c = Some t" "r = os_reregister os (sock c) t"
        "c' = push_back b (c\<lparr>res_bufs := bs, interest := interest c \<union> {Writable}\<rparr>)"
        "es = [Reregister (sock c) t (interest c \<union> {Writable})]"
        using assms Cons Inr None by (auto simp: ServerConn_writable_def Let_def reregister_conn_Inr)
      show ?thesis by (rule that(3) [OF Cons _ t]) (simp add: Inr None)
    next
      case (Some n)
      let ?rem = "res_remaining c - of_nat n"
      let ?c = "c\<lparr>res_bufs := bs, res_remaining := ?rem,
        interest := (if ?rem = 0 then interest c \<union> {Readable} - {Writable} else interest c)\<rparr>"
      have "reregister_conn os (push_back (drop n b) ?c) [Sent (sock c) (take n b)] = Inr (r, c', es)"
        and le: "of_nat n \<le> res_remaining c"
        using assms Cons Inr Some by (simp_all add: ServerConn_writable_def Let_def split: if_splits)
      then obtain t where t: "token c = Some t" "r = os_reregister os (sock c) t" "c' = push_back (drop n b) ?c"
        "es = [Sent (sock c) (take n b), Reregister (sock c) t (interest c')]"
        unfolding reregister_conn_Inr by (elim exE conjE) simp
      show ?thesis by (rule that(4) [OF Cons _ t(1) le t(2,3,4)]) (simp add: Inr Some)
    qed
  qed
qed

lemma ServerConn_writable_stream:
  assumes "ServerConn_writable os c = Inr (r, c', es)" and "\<not> write_fails os c"
  shows "sent_bytes es @ concat (res_bufs c') = concat (res_bufs c)" "req_codec c' = req_codec c" "same_conn c c'"
    "queued es = []"
  using assms(1) by (cases rule: ServerConn_writable_cases; use assms(2) in \<open>simp add: same_conn_def write_fails_def\<close>)+

lemma send_requests_Inr:
  assumes "send_requests os c reqs = Inr es"
  shows "map msg (queued es) = reqs" "sent_bytes es = []"
    "\<forall>v \<in> set (queued es). Some (tok v) = token c" "set es \<subseteq> Queue (req_tx c) ` UNIV"
  using assms by (induction reqs arbitrary: es) auto

lemma ServerConn_readable_stream:
  assumes "ServerConn_readable os rd c = Some (Inr (r, c', es))" and "buf_laws rd" and "framed_inv (req_codec c)"
  shows "(map msg (queued es), framed_bytes (req_codec c')) =
      parse_frames (framed_bytes (req_codec c) @ received os (sock c))" (is ?parse)
    and "framed_inv (req_codec c')" and "res_bufs c' = res_bufs c" "res_remaining c' = res_remaining c" "same_conn c c'"
    and "interest c' \<subseteq> interest c" "interest c - {Readable} \<subseteq> interest c'"
proof -
  obtain c0 where c0: "decode_requests os rd (received os (sock c)) c0 = Some (Inr (r, c', es))"
    "c0 = c \<or> c0 = c\<lparr>interest := interest c - {Readable}\<rparr>"
    using assms(1) by (auto simp: ServerConn_readable_def received_def split: sum.splits option.splits)
  then have codec: "req_codec c0 = req_codec c" by auto
  obtain f where f: "Framed_decode rd (req_codec c) (received os (sock c)) =
      Some (Inr (f, [], fst (parse_frames (framed_bytes (req_codec c) @ received os (sock c)))))"
    "framed_inv f" "framed_bytes f = snd (parse_frames (framed_bytes (req_codec c) @ received os (sock c)))"
    using decode_loop_memory [OF assms(2,3), of "received os (sock c)" "[]"] by (auto simp: Framed_decode_def)
  obtain es0 where es0: "send_requests os (c0\<lparr>req_codec := f\<rparr>)
      (fst (parse_frames (framed_bytes (req_codec c) @ received os (sock c)))) = Inr es0"
    "reregister_conn os (c0\<lparr>req_codec := f\<rparr>) es0 = Inr (r, c', es)"
    using c0(1) f(1) by (auto simp: decode_requests_def codec Let_def)
  show ?parse "framed_inv (req_codec c')" "res_bufs c' = res_bufs c" "res_remaining c' = res_remaining c" "same_conn c c'"
    "interest c' \<subseteq> interest c" "interest c - {Readable} \<subseteq> interest c'"
    using es0(2) send_requests_Inr [OF es0(1)] f(2,3) c0(2) by (auto simp: reregister_conn_Inr same_conn_def)
qed

lemma ServerConn_readable_result:
  assumes "ServerConn_readable os rd c = Some (Inr (r, c', es))"
  shows "\<exists>t. token c = Some t \<and> r = os_reregister os (sock c) t"
  using assms
  by (auto simp: ServerConn_readable_def decode_requests_def reregister_conn_Inr Let_def split: sum.splits option.splits)

lemma conn_run_stream:
  assumes "conn_run rd c h" and "buf_laws rd"
  shows "h_sent h @ concat (res_bufs c) = concat (map frame (h_notified h)) \<and> (\<forall>m \<in> set (h_notified h). length m < 2 ^ 32) \<and>
    framed_inv (req_codec c) \<and> parse_frames (h_received h) = (map msg (h_queued h), framed_bytes (req_codec c))"
  using assms(1)
proof induction
  case (Start s tx t)
  then show ?case by (simp add: ServerConn_new_def parse_frames_short)
next
  case (Notify c h m c')
  then show ?case using queue_response_Inr [OF Notify.hyps(2) assms(2)] by auto
next
  case (Write c h os r c' es)
  then show ?case using ServerConn_writable_stream [OF Write.hyps(3,2)] by simp
next
  case (Read c h os r c' es)
  then show ?case
    using ServerConn_readable_stream [OF Read.hyps(2) assms(2)] parse_frames_append [of "h_received h" "received os (sock c)"]
    by (auto simp: case_prod_beta Let_def) (metis fst_conv snd_conv)+
qed

text \<open>Without a response the interest of a connection stays at hang-ups.\<close>

lemma conn_run_unanswered:
  assumes "conn_run rd c h" and "buf_laws rd" and "h_notified h = []"
  shows "res_bufs c = [] \<and> interest c = {Hup}"
  using assms(1,3)
proof induction
  case (Start s tx t)
  then show ?case by (simp add: ServerConn_new_def)
next
  case (Notify c h m c')
  then show ?case by simp
next
  case (Write c h os r c' es)
  then show ?case by (simp add: ServerConn_writable_def)
next
  case (Read c h os r c' es)
  have "framed_inv (req_codec c)" using conn_run_stream [OF Read.hyps(1) assms(2)] by simp
  from ServerConn_readable_stream [OF Read.hyps(2) assms(2) this] Read show ?case by auto
qed

section \<open>No panic\<close>

text \<open>The invariant of a registered connection: it knows its token, its codec is consistent, and
  \<^verbatim>\<open>res_remaining\<close> covers the queue.\<close>

definition conn_ok :: "ServerConn \<Rightarrow> bool" where
  "conn_ok c \<longleftrightarrow> token c \<noteq> None \<and> framed_inv (req_codec c) \<and>
     length (concat (res_bufs c)) \<le> unat (res_remaining c)"

text \<open>What the code relies on: a write takes at most what it is given; a readable socket has
  something to read and a peer.\<close>

definition os_writes_ok :: "Os \<Rightarrow> bool" where
  "os_writes_ok os \<longleftrightarrow> (\<forall>s b n. os_write os s b = Inr (Some n) \<longrightarrow> n \<le> length b)"

definition os_reads_ok :: "Os \<Rightarrow> bool" where
  "os_reads_ok os \<longleftrightarrow> (\<forall>s n. os_read os s n \<noteq> Inr None) \<and> (\<forall>s. \<not> isl (os_peer_addr os s))"

lemma conn_ok_new: "conn_ok (ServerConn_new s tx\<lparr>token := Some t\<rparr>)"
  by (simp add: conn_ok_def ServerConn_new_def)

lemma ServerConn_writable_keeps:
  assumes "ServerConn_writable os c = Inr (r, c', es)" and "conn_ok c" and "os_writes_ok os"
  shows "conn_ok c'" "same_conn c c'"
proof -
  have "same_conn c c' \<and> conn_ok c'"
    using assms(1)
  proof (cases rule: ServerConn_writable_cases)
    case (wrote b bs n t)
    have n: "n \<le> length b" using assms(3) wrote(2) by (simp add: os_writes_ok_def)
    have le: "length b + length (concat bs) \<le> unat (res_remaining c)"
      using assms(2) wrote(1) by (simp add: conn_ok_def)
    moreover have "unat (res_remaining c) < 2 ^ 64" using unsigned_less [of "res_remaining c"] by simp
    ultimately have "n < 2 ^ 64" using n by linarith
    then have "unat (res_remaining c - of_nat n) = unat (res_remaining c) - n"
      using wrote(4) by (simp add: unat_sub unat_of_nat)
    with wrote assms(2) n le show ?thesis by (auto simp: conn_ok_def same_conn_def)
  qed (use assms(2) in \<open>auto simp: conn_ok_def same_conn_def\<close>)
  then show "conn_ok c'" "same_conn c c'" by simp_all
qed

lemma ServerConn_writable_ok:
  assumes "conn_ok c" and "os_writes_ok os"
  shows "\<exists>r c' es. ServerConn_writable os c = Inr (r, c', es)"
proof -
  have "of_nat n \<le> res_remaining c" if "res_bufs c = b # bs" "os_write os (sock c) b = Inr (Some n)" for b bs n
  proof -
    have "n \<le> length b" using assms(2) that(2) by (simp add: os_writes_ok_def)
    then have "n \<le> unat (res_remaining c)" using assms(1) that(1) by (simp add: conn_ok_def)
    then show ?thesis by (simp add: word_le_nat_alt unat_of_nat le_trans [OF mod_less_eq_dividend])
  qed
  moreover obtain t where "token c = Some t" using assms(1) by (auto simp: conn_ok_def)
  ultimately show ?thesis
    by (auto simp: ServerConn_writable_def reregister_conn_def checked_sub_def Let_def split: list.splits sum.splits option.splits)
qed

lemma send_requests_ok:
  assumes "token c = Some t" and "\<not> isl (os_peer_addr os (sock c))"
  shows "\<exists>es. send_requests os c reqs = Inr es"
  using assms by (cases "os_peer_addr os (sock c)"; induction reqs) auto

lemma ServerConn_readable_keeps:
  assumes "ServerConn_readable os rd c = Some (Inr (r, c', es))" and "conn_ok c" and "buf_laws rd"
  shows "conn_ok c'" "same_conn c c'"
  using ServerConn_readable_stream [OF assms(1,3)] assms(2) by (auto simp: conn_ok_def same_conn_def)

lemma decode_requests_ok:
  assumes "conn_ok c" and "buf_laws rd" and "os_reads_ok os"
  shows "\<exists>r c' es. decode_requests os rd data c = Some (Inr (r, c', es))"
proof -
  obtain t where t: "token c = Some t" using assms(1) by (auto simp: conn_ok_def)
  have codec: "framed_inv (req_codec c)" using assms(1) by (simp add: conn_ok_def)
  obtain f reqs where f: "Framed_decode rd (req_codec c) data = Some (Inr (f, [], reqs))"
    using decode_loop_memory [OF assms(2) codec, of data "[]"] by (auto simp: Framed_decode_def)
  obtain es where "send_requests os (c\<lparr>req_codec := f\<rparr>) reqs = Inr es"
    using send_requests_ok [of "c\<lparr>req_codec := f\<rparr>" t os reqs] t assms(3) by (auto simp: os_reads_ok_def)
  with f t show ?thesis by (simp add: decode_requests_def reregister_conn_def)
qed

lemma ServerConn_readable_ok:
  assumes "conn_ok c" and "buf_laws rd" and "os_reads_ok os"
  shows "\<exists>r c' es. ServerConn_readable os rd c = Some (Inr (r, c', es))"
proof -
  have "conn_ok (c\<lparr>interest := i\<rparr>)" for i using assms(1) by (simp add: conn_ok_def)
  note ok = decode_requests_ok [OF this assms(2,3)] decode_requests_ok [OF assms]
  show ?thesis
    using assms(3) ok by (auto simp: ServerConn_readable_def os_reads_ok_def split: sum.splits option.splits)
qed

lemma queue_response_keeps:
  assumes "queue_response rd m c = Inr c'" and "buf_laws rd" and "conn_ok c"
  shows "conn_ok c'" "same_conn c c'"
  using queue_response_Inr [OF assms(1,2)] assms(3) by (auto simp: conn_ok_def same_conn_def frame_def)

lemma queue_response_ok:
  assumes "buf_laws rd" and "4 + length m < 2 ^ 32" and "unat (res_remaining c) + 4 + length m < 2 ^ 64"
  shows "\<exists>c'. queue_response rd m c = Inr c'"
proof -
  have "unat (of_nat (4 + length m) :: u64) = 4 + length m"
    using assms(2) by (simp only: unat_of_nat) simp
  then have "checked_add (res_remaining c) (of_nat (4 + length m)) = Inr (res_remaining c + of_nat (4 + length m))"
    using assms(3) unfolding checked_add_Inr_iff by simp
  then show ?thesis unfolding queue_response_eq [OF assms(1,2)] by simp
qed

section \<open>A reliable network\<close>

text \<open>Every call succeeds, a write takes everything, and a read finds the given bytes.\<close>

definition demo_os :: "bytes \<Rightarrow> Os" where
  "demo_os data = \<lparr>os_write = \<lambda>s b. Inr (Some (length b)), os_read = \<lambda>s n. Inr (Some data),
     os_peer_addr = \<lambda>s. Inr ([127, 0, 0, 1], 7770), os_register = \<lambda>s t. Inr (), os_reregister = \<lambda>s t. Inr (),
     os_accept = \<lambda>s. Inr (Some 10), os_connect = \<lambda>i a. Inr (20 + i), os_bind = \<lambda>p. Inr (unat p), os_timer = Inr ()\<rparr>"

lemma demo_os_ok [simp]: "os_writes_ok (demo_os data)" "os_reads_ok (demo_os data)"
  by (simp_all add: demo_os_def os_writes_ok_def os_reads_ok_def)

lemma demo_readable:
  assumes "buf_laws rd" and "conn_ok c"
  shows "\<exists>c' es. ServerConn_readable (demo_os data) rd c = Some (Inr (Inr (), c', es))"
proof -
  obtain r c' es where *: "ServerConn_readable (demo_os data) rd c = Some (Inr (r, c', es))"
    using ServerConn_readable_ok [OF assms(2,1) demo_os_ok(2)] by blast
  then have "r = Inr ()" using ServerConn_readable_result [OF *] by (auto simp: demo_os_def)
  with * show ?thesis by blast
qed

lemma conn_run_demo_out:
  assumes "buf_laws rd"
  shows "\<exists>c h. conn_run rd c h \<and> h_notified h = [[7]] \<and> h_sent h = [0, 0, 0, 1, 7] \<and> res_bufs c = []"
proof -
  let ?c = "ServerConn_new 4 PeerReqs\<lparr>token := Some 2\<rparr>"
  let ?c1 = "?c\<lparr>res_remaining := 5, res_bufs := [[0, 0, 0, 1, 7]], interest := {Hup, Writable}\<rparr>"
  let ?c2 = "?c\<lparr>res_remaining := 0, res_bufs := [], interest := {Hup, Readable}\<rparr>"
  have "queue_response rd [7] ?c = Inr ?c1"
    by (subst queue_response_eq) (auto simp: assms ServerConn_new_def checked_add_def frame_def usize_to_array_def)
  note n = Notify [OF Start this]
  have w: "ServerConn_writable (demo_os []) ?c1 = Inr (Inr (), ?c2, [Sent 4 [0, 0, 0, 1, 7], Reregister 4 2 {Hup, Readable}])"
    by (auto simp: ServerConn_writable_def ServerConn_new_def demo_os_def reregister_conn_def push_back_def checked_sub_def)
  have "\<not> write_fails (demo_os []) ?c1" by (simp add: write_fails_def demo_os_def)
  from Write [OF n this w] show ?thesis by (intro exI conjI) (assumption, simp_all)
qed

lemma conn_run_demo_in:
  assumes "buf_laws rd"
  shows "\<exists>c h. conn_run rd c h \<and> h_received h = [0, 0, 0, 1, 7]"
proof -
  obtain c es where "ServerConn_readable (demo_os [0, 0, 0, 1, 7]) rd (ServerConn_new 5 PeerReqs\<lparr>token := Some 2\<rparr>)
      = Some (Inr (Inr (), c, es))"
    using demo_readable [OF assms conn_ok_new] by blast
  from Read [OF Start this] show ?thesis
    by (intro exI conjI) (assumption, simp add: received_def demo_os_def)
qed

section \<open>Properties\<close>

text \<open>C33. Messages cross a connection in order and intact: when what one end has received is a prefix of
  what the other end has sent, the requests it passed to its server are a prefix of the
  messages queued at the other end, however the bytes were cut; and they are all of them
  once everything has been written and received.  The runs are those in which no write fails; a
  failed write drops its buffer.\<close>

theorem link_delivers_in_order:
  assumes "buf_laws rd" and "conn_run rd c h" and "conn_run rd c' h'" and "prefix (h_received h') (h_sent h)"
  shows "prefix (map msg (h_queued h')) (h_notified h) \<and>
    (res_bufs c = [] \<and> h_received h' = h_sent h \<longrightarrow> map msg (h_queued h') = h_notified h)"
proof -
  have out: "h_sent h @ concat (res_bufs c) = concat (map frame (h_notified h))"
    "parse_frames (concat (map frame (h_notified h))) = (h_notified h, [])"
    using conn_run_stream [OF assms(2,1)] parse_frames_concat by auto
  have recv: "fst (parse_frames (h_received h')) = map msg (h_queued h')"
    using conn_run_stream [OF assms(3,1)] by simp
  have "prefix (h_received h') (concat (map frame (h_notified h)))"
    using assms(4) unfolding out(1) [symmetric] by (rule prefix_prefix)
  from parse_frames_prefix [OF this] show ?thesis using out recv by auto
qed

theorem link_delivers_in_order_witness:
  "\<exists>c h c' h'. conn_run mem_buf c h \<and> h_notified h = [[7]] \<and>
     conn_run mem_buf c' h' \<and> map msg (h_queued h') = [[7]]"
proof -
  obtain c h where out: "conn_run mem_buf c h" "h_notified h = [[7]]" "h_sent h = [0, 0, 0, 1, 7]" "res_bufs c = []"
    using conn_run_demo_out [OF buf_laws_mem] by blast
  obtain c' h' where inn: "conn_run mem_buf c' h'" "h_received h' = [0, 0, 0, 1, 7]"
    using conn_run_demo_in [OF buf_laws_mem] by blast
  have "map msg (h_queued h') = [[7]]"
    using link_delivers_in_order [OF buf_laws_mem out(1) inn(1)] out inn by simp
  then show ?thesis by (intro exI [of _ c] exI [of _ h] exI [of _ c'] exI [of _ h'] conjI) (rule out inn)+
qed

text \<open>A connection on which nothing has been answered is polled once: after a read, it is registered for
  hang-ups only, so that the rest of a request that came in pieces is not read.\<close>

theorem unanswered_conn_not_polled:
  assumes "buf_laws rd" and "conn_run rd c h" and "h_notified h = []"
    and "ServerConn_readable os rd c = Some (Inr (r, c', es))"
  shows "\<exists>t. last es = Reregister (sock c) t {Hup}"
proof -
  have codec: "framed_inv (req_codec c)" using conn_run_stream [OF assms(2,1)] by simp
  have "interest c' \<subseteq> {Hup}" "Hup \<in> interest c'"
    using conn_run_unanswered [OF Read [OF assms(2,4)] assms(1)] assms(3) by auto
  moreover have "sock c' = sock c" using ServerConn_readable_stream(5) [OF assms(4,1) codec] by (simp add: same_conn_def)
  moreover have "\<exists>t. last es = Reregister (sock c') t (interest c')"
    using assms(4) by (auto simp: ServerConn_readable_def decode_requests_def reregister_conn_Inr Let_def
        split: sum.splits option.splits)
  ultimately show ?thesis by auto
qed

theorem unanswered_conn_not_polled_witness:
  "\<exists>c' es t. ServerConn_readable (demo_os [0, 0, 0, 2, 7]) mem_buf
       (ServerConn_new 5 CliReqs\<lparr>token := Some 1024\<rparr>) = Some (Inr (Inr (), c', es)) \<and>
     last es = Reregister 5 t {Hup}"
proof -
  let ?c = "ServerConn_new 5 CliReqs\<lparr>token := Some 1024\<rparr>"
  obtain c' es where "ServerConn_readable (demo_os [0, 0, 0, 2, 7]) mem_buf ?c = Some (Inr (Inr (), c', es))"
    using demo_readable [OF buf_laws_mem conn_ok_new] by blast
  with unanswered_conn_not_polled [OF buf_laws_mem Start _ this] show ?thesis by (auto simp: ServerConn_new_def)
qed

end
