(* ===== verification/Conn_Set.thy ===== *)
theory Conn_Set
  imports Server_Conn
begin

text \<open>
  \<^verbatim>\<open>server/connset.rs\<close>: the connections behind one listening socket, kept in a \<^verbatim>\<open>Slab\<close> of the \<^verbatim>\<open>mio\<close> crate
  that hands out their tokens. The slab is a parameter, the record \<open>SlabOps\<close>, with its documented behaviour
  in \<open>slab_laws\<close>.
\<close>

section \<open>Slabs\<close>

text \<open>\<open>sl_set\<close> is an assignment through the reference that an index or \<^verbatim>\<open>get_mut\<close> returns; \<open>sl_range\<close> observes
  the first token and the number of slots.\<close>

record 'sl SlabOps =
  sl_new :: "Token \<Rightarrow> nat \<Rightarrow> 'sl"
  sl_range :: "'sl \<Rightarrow> Token \<times> nat"
  sl_get :: "'sl \<Rightarrow> Token \<Rightarrow> ServerConn option"
  sl_set :: "'sl \<Rightarrow> Token \<Rightarrow> ServerConn \<Rightarrow> 'sl"
  sl_insert :: "'sl \<Rightarrow> ServerConn \<Rightarrow> (Token \<times> 'sl) option"
  sl_remove :: "'sl \<Rightarrow> Token \<Rightarrow> 'sl"

definition in_slots :: "Token \<times> nat \<Rightarrow> Token \<Rightarrow> bool" where
  "in_slots r t \<longleftrightarrow> unat (fst r) \<le> unat t \<and> unat t < unat (fst r) + snd r"

definition slab_laws :: "'sl SlabOps \<Rightarrow> bool" where
  "slab_laws S \<longleftrightarrow>
     (\<forall>lo n. sl_range S (sl_new S lo n) = (lo, n) \<and> (\<forall>t. sl_get S (sl_new S lo n) t = None)) \<and>
     (\<forall>s t. sl_get S s t \<noteq> None \<longrightarrow> in_slots (sl_range S s) t) \<and>
     (\<forall>s t c. sl_range S (sl_set S s t c) = sl_range S s \<and>
        (\<forall>u. sl_get S (sl_set S s t c) u = (if u = t \<and> sl_get S s t \<noteq> None then Some c else sl_get S s u))) \<and>
     (\<forall>s t. sl_range S (sl_remove S s t) = sl_range S s \<and>
        (\<forall>u. sl_get S (sl_remove S s t) u = (if u = t then None else sl_get S s u))) \<and>
     (\<forall>s c t s'. sl_insert S s c = Some (t, s') \<longrightarrow> sl_get S s t = None \<and> sl_range S s' = sl_range S s \<and>
        (\<forall>u. sl_get S s' u = (if u = t then Some c else sl_get S s u))) \<and>
     (\<forall>s c. sl_insert S s c = None \<longleftrightarrow> (\<forall>t. in_slots (sl_range S s) t \<longrightarrow> sl_get S s t \<noteq> None))"

text \<open>\<^verbatim>\<open>slab[tok]\<close> panics when the slot is empty.\<close>

definition slab_index :: "'sl SlabOps \<Rightarrow> 'sl \<Rightarrow> Token \<Rightarrow> ServerConn res" where
  "slab_index S s t = (case sl_get S s t of None \<Rightarrow> Inl (Explicit ''invalid index'') | Some c \<Rightarrow> Inr c)"

section \<open>Operations\<close>

record 'sl ConnSet =
  srv_sock :: sock
  srv_token :: Token
  conns :: 'sl
  cs_req_tx :: Chan

definition ConnSet_register ::
  "'sl SlabOps \<Rightarrow> Os \<Rightarrow> sock \<Rightarrow> 'sl ConnSet \<Rightarrow> ((io_err + Token) \<times> 'sl ConnSet \<times> Effect list) res" where
  "ConnSet_register S os s cs =
     (let conn = ServerConn_new s (cs_req_tx cs);
          es = [Reregister (srv_sock cs) (srv_token cs) {Readable}] in
      case sl_insert S (conns cs) conn of
        None \<Rightarrow> Inr (Inl ''All connection slots full.'', cs, es)
      | Some (t, slots) \<Rightarrow>
          and_then (slab_index S slots t) (\<lambda>c.
          let slots' = sl_set S slots t (c\<lparr>token := Some t\<rparr>) in
          case os_register os s t of
            Inl _ \<Rightarrow> Inl (Explicit ''could not register socket with event loop'')
          | Inr _ \<Rightarrow> Inr (Inr t, cs\<lparr>conns := slots'\<rparr>, es @ [Register s t {Readable}])))"

definition ConnSet_accept :: "'sl SlabOps \<Rightarrow> Os \<Rightarrow> 'sl ConnSet \<Rightarrow> (io \<times> 'sl ConnSet \<times> Effect list) res" where
  "ConnSet_accept S os cs =
     (case os_accept os (srv_sock cs) of
        Inl e \<Rightarrow> Inr (Inl e, cs, [])
      | Inr so \<Rightarrow>
          and_then (unwrap so) (\<lambda>s.
          and_then (ConnSet_register S os s cs) (\<lambda>(r, cs', es).
            Inr (map_sum id (\<lambda>_. ()) r, cs', es))))"

definition conn_readable ::
  "'sl SlabOps \<Rightarrow> Os \<Rightarrow> BufOps \<Rightarrow> Token \<Rightarrow> 'sl ConnSet \<Rightarrow> (io \<times> 'sl ConnSet \<times> Effect list) res option" where
  "conn_readable S os rd t cs =
     (case sl_get S (conns cs) t of
        None \<Rightarrow> Some (Inr (Inr (), cs, []))
      | Some c \<Rightarrow>
          map_option (\<lambda>x. and_then x (\<lambda>(r, c', es). Inr (r, cs\<lparr>conns := sl_set S (conns cs) t c'\<rparr>, es)))
            (ServerConn_readable os rd c))"

definition conn_writable ::
  "'sl SlabOps \<Rightarrow> Os \<Rightarrow> Token \<Rightarrow> 'sl ConnSet \<Rightarrow> (io \<times> 'sl ConnSet \<times> Effect list) res" where
  "conn_writable S os t cs =
     (case sl_get S (conns cs) t of
        None \<Rightarrow> Inr (Inr (), cs, [])
      | Some c \<Rightarrow>
          and_then (ServerConn_writable os c) (\<lambda>(r, c', es).
            Inr (r, cs\<lparr>conns := sl_set S (conns cs) t c'\<rparr>, es)))"

section \<open>Laws of a slab\<close>

lemma slab_new: "slab_laws S \<Longrightarrow> sl_range S (sl_new S lo n) = (lo, n)"
  "slab_laws S \<Longrightarrow> sl_get S (sl_new S lo n) t = None"
  by (simp_all add: slab_laws_def)

lemma slab_in_range: "slab_laws S \<Longrightarrow> sl_get S s t = Some c \<Longrightarrow> in_slots (sl_range S s) t"
  by (simp add: slab_laws_def)

lemma slab_set: "slab_laws S \<Longrightarrow> sl_range S (sl_set S s t c) = sl_range S s"
  "slab_laws S \<Longrightarrow> sl_get S (sl_set S s t c) u = (if u = t \<and> sl_get S s t \<noteq> None then Some c else sl_get S s u)"
  unfolding slab_laws_def by blast+

lemma slab_remove: "slab_laws S \<Longrightarrow> sl_range S (sl_remove S s t) = sl_range S s"
  "slab_laws S \<Longrightarrow> sl_get S (sl_remove S s t) u = (if u = t then None else sl_get S s u)"
  unfolding slab_laws_def by blast+

lemma slab_insert:
  assumes "slab_laws S" and "sl_insert S s c = Some (t, s')"
  shows "sl_get S s t = None" "sl_range S s' = sl_range S s"
    "sl_get S s' u = (if u = t then Some c else sl_get S s u)"
  using assms unfolding slab_laws_def by blast+

lemma slab_full:
  assumes "slab_laws S" and "in_slots (sl_range S s) t" and "sl_get S s t = None"
  shows "\<exists>t' s'. sl_insert S s c = Some (t', s')"
proof -
  have "sl_insert S s c \<noteq> None" using assms unfolding slab_laws_def by blast
  then show ?thesis by (cases "sl_insert S s c") auto
qed

lemmas slab_simps = slab_new slab_set slab_remove

section \<open>Invariant\<close>

text \<open>Every slot holds a consistent connection that knows its own token and sends to the channel of
  its set.\<close>

definition set_ok :: "'sl SlabOps \<Rightarrow> 'sl ConnSet \<Rightarrow> bool" where
  "set_ok S cs \<longleftrightarrow>
     (\<forall>t c. sl_get S (conns cs) t = Some c \<longrightarrow> token c = Some t \<and> req_tx c = cs_req_tx cs \<and> conn_ok c)"

text \<open>What no operation changes of a set.\<close>

definition same_set :: "'sl SlabOps \<Rightarrow> 'sl ConnSet \<Rightarrow> 'sl ConnSet \<Rightarrow> bool" where
  "same_set S cs cs' \<longleftrightarrow> srv_sock cs' = srv_sock cs \<and> srv_token cs' = srv_token cs \<and> cs_req_tx cs' = cs_req_tx cs \<and>
     sl_range S (conns cs') = sl_range S (conns cs)"

lemma same_set_refl [simp]: "same_set S cs cs"
  by (simp add: same_set_def)

lemma same_set_trans: "same_set S cs cs' \<Longrightarrow> same_set S cs' cs'' \<Longrightarrow> same_set S cs cs''"
  by (simp add: same_set_def)

text \<open>What every operation but a removal guarantees: the invariant, and that no connection is lost.\<close>

definition keeps_conns :: "'sl SlabOps \<Rightarrow> 'sl ConnSet \<Rightarrow> 'sl ConnSet \<Rightarrow> bool" where
  "keeps_conns S cs cs' \<longleftrightarrow> set_ok S cs' \<and> same_set S cs cs' \<and>
     (\<forall>u. sl_get S (conns cs) u \<noteq> None \<longrightarrow> sl_get S (conns cs') u \<noteq> None)"

lemma keeps_conns_refl [simp]: "set_ok S cs \<Longrightarrow> keeps_conns S cs cs"
  by (simp add: keeps_conns_def)

lemma keeps_conns_trans: "keeps_conns S cs cs' \<Longrightarrow> keeps_conns S cs' cs'' \<Longrightarrow> keeps_conns S cs cs''"
  unfolding keeps_conns_def using same_set_trans by blast

lemma set_ok_update:
  assumes "slab_laws S" and "set_ok S cs" and "sl_get S (conns cs) t = Some c" and "conn_ok c'" and "same_conn c c'"
  shows "keeps_conns S cs (cs\<lparr>conns := sl_set S (conns cs) t c'\<rparr>)"
    "sl_get S (conns (cs\<lparr>conns := sl_set S (conns cs) t c'\<rparr>)) u = (if u = t then Some c' else sl_get S (conns cs) u)"
  using assms by (auto simp: keeps_conns_def set_ok_def same_set_def same_conn_def slab_simps)

lemma set_ok_remove:
  assumes "slab_laws S" and "set_ok S cs"
  shows "set_ok S (cs\<lparr>conns := sl_remove S (conns cs) t\<rparr>)" "same_set S cs (cs\<lparr>conns := sl_remove S (conns cs) t\<rparr>)"
  using assms by (auto simp: set_ok_def same_set_def slab_simps)

lemma ConnSet_register_cases:
  assumes "slab_laws S" and "ConnSet_register S os s cs = Inr (r, cs', es)"
  obtains (full) "r = Inl ''All connection slots full.''" "cs' = cs" "es = [Reregister (srv_sock cs) (srv_token cs) {Readable}]"
      "sl_insert S (conns cs) (ServerConn_new s (cs_req_tx cs)) = None"
  | (slot) t where "r = Inr t" "same_set S cs cs'" "sl_get S (conns cs) t = None" "in_slots (sl_range S (conns cs)) t"
      "\<And>u. sl_get S (conns cs') u =
         (if u = t then Some (ServerConn_new s (cs_req_tx cs)\<lparr>token := Some t\<rparr>) else sl_get S (conns cs) u)"
      "es = [Reregister (srv_sock cs) (srv_token cs) {Readable}, Register s t {Readable}]"
proof (cases "sl_insert S (conns cs) (ServerConn_new s (cs_req_tx cs))")
  case None
  then have "r = Inl ''All connection slots full.''" "cs' = cs" "es = [Reregister (srv_sock cs) (srv_token cs) {Readable}]"
    using assms(2) by (auto simp: ConnSet_register_def Let_def)
  then show ?thesis using None by (rule full)
next
  case (Some x)
  obtain t slots where x: "sl_insert S (conns cs) (ServerConn_new s (cs_req_tx cs)) = Some (t, slots)"
    using Some by (cases x) simp
  note ins = slab_insert [OF assms(1) x]
  have get: "sl_get S slots t = Some (ServerConn_new s (cs_req_tx cs))" using ins(3) by simp
  have r: "r = Inr t" and cs': "cs' = cs\<lparr>conns := sl_set S slots t (ServerConn_new s (cs_req_tx cs)\<lparr>token := Some t\<rparr>)\<rparr>"
    and es: "es = [Reregister (srv_sock cs) (srv_token cs) {Readable}, Register s t {Readable}]"
    using assms(2) by (simp_all add: ConnSet_register_def Let_def x slab_index_def get split: sum.splits)
  have same: "same_set S cs cs'" by (simp add: cs' same_set_def slab_set [OF assms(1)] ins(2))
  have rng: "in_slots (sl_range S (conns cs)) t" using slab_in_range [OF assms(1) get] ins(2) by simp
  show ?thesis
    by (rule slot [OF r same ins(1) rng _ es]) (simp add: cs' slab_set [OF assms(1)] get ins(3))
qed

lemma ConnSet_register_keeps:
  assumes "slab_laws S" and "set_ok S cs" and "ConnSet_register S os s cs = Inr (r, cs', es)"
  shows "keeps_conns S cs cs'"
  using assms(1,3)
proof (cases rule: ConnSet_register_cases)
  case full
  then show ?thesis using assms(2) by simp
next
  case (slot t)
  have "cs_req_tx cs' = cs_req_tx cs" using slot(2) by (simp add: same_set_def)
  then have "set_ok S cs'" using assms(2) conn_ok_new unfolding set_ok_def slot(5)
    by (auto simp: ServerConn_new_def split: if_splits)
  with slot(2,5) show ?thesis by (simp add: keeps_conns_def)
qed

lemma ConnSet_register_ok:
  assumes "slab_laws S" and "\<And>t. \<not> isl (os_register os s t)"
  shows "\<exists>r cs' es. ConnSet_register S os s cs = Inr (r, cs', es)"
proof (cases "sl_insert S (conns cs) (ServerConn_new s (cs_req_tx cs))")
  case None
  then show ?thesis by (simp add: ConnSet_register_def)
next
  case (Some x)
  obtain t slots where x: "sl_insert S (conns cs) (ServerConn_new s (cs_req_tx cs)) = Some (t, slots)"
    using Some by (cases x) simp
  have "sl_get S slots t = Some (ServerConn_new s (cs_req_tx cs))" using slab_insert(3) [OF assms(1) x] by simp
  then show ?thesis
    using assms(2) [of t] x by (cases "os_register os s t") (simp_all add: ConnSet_register_def slab_index_def Let_def)
qed

lemma ConnSet_accept_keeps:
  assumes "slab_laws S" and "set_ok S cs" and "ConnSet_accept S os cs = Inr (r, cs', es)"
  shows "keeps_conns S cs cs'"
proof -
  have "cs' = cs \<or> (\<exists>s r'. ConnSet_register S os s cs = Inr (r', cs', es))"
    using assms(3) by (auto simp: ConnSet_accept_def split: sum.splits)
  then show ?thesis using ConnSet_register_keeps [OF assms(1,2)] assms(2) by auto
qed

lemma conn_readable_keeps:
  assumes "slab_laws S" and "set_ok S cs" and "buf_laws rd" and "conn_readable S os rd t cs = Some (Inr (r, cs', es))"
  shows "keeps_conns S cs cs'"
proof (cases "sl_get S (conns cs) t")
  case None
  then show ?thesis using assms(2,4) by (simp add: conn_readable_def)
next
  case (Some c)
  obtain c' where c': "ServerConn_readable os rd c = Some (Inr (r, c', es))"
    "cs' = cs\<lparr>conns := sl_set S (conns cs) t c'\<rparr>"
    using assms(4) Some by (auto simp: conn_readable_def)
  have "conn_ok c" using assms(2) Some by (simp add: set_ok_def)
  from ServerConn_readable_keeps [OF c'(1) this assms(3)]
  show ?thesis using set_ok_update(1) [OF assms(1,2) Some] unfolding c'(2) by simp
qed

lemma conn_writable_keeps:
  assumes "slab_laws S" and "set_ok S cs" and "os_writes_ok os" and "conn_writable S os t cs = Inr (r, cs', es)"
  shows "keeps_conns S cs cs'"
proof (cases "sl_get S (conns cs) t")
  case None
  then show ?thesis using assms(2,4) by (simp add: conn_writable_def)
next
  case (Some c)
  obtain c' where c': "ServerConn_writable os c = Inr (r, c', es)" "cs' = cs\<lparr>conns := sl_set S (conns cs) t c'\<rparr>"
    using assms(4) Some by (auto simp: conn_writable_def)
  have "conn_ok c" using assms(2) Some by (simp add: set_ok_def)
  from ServerConn_writable_keeps [OF c'(1) this assms(3)]
  show ?thesis using set_ok_update(1) [OF assms(1,2) Some] unfolding c'(2) by simp
qed

section \<open>No panic\<close>

definition os_registers_ok :: "Os \<Rightarrow> bool" where
  "os_registers_ok os \<longleftrightarrow> (\<forall>s t. \<not> isl (os_register os s t) \<and> \<not> isl (os_reregister os s t)) \<and>
     (\<forall>s. os_accept os s \<noteq> Inr None)"

lemma ConnSet_accept_ok:
  assumes "slab_laws S" and "os_registers_ok os"
  shows "\<exists>r cs' es. ConnSet_accept S os cs = Inr (r, cs', es)"
proof (cases "os_accept os (srv_sock cs)")
  case (Inl e)
  then show ?thesis by (simp add: ConnSet_accept_def)
next
  case (Inr so)
  then obtain s where "so = Some s" using assms(2) by (cases so) (auto simp: os_registers_ok_def)
  moreover obtain r cs' es where "ConnSet_register S os s cs = Inr (r, cs', es)"
    using ConnSet_register_ok [OF assms(1)] assms(2) unfolding os_registers_ok_def by blast
  ultimately show ?thesis using Inr by (simp add: ConnSet_accept_def)
qed

lemma conn_readable_ok:
  assumes "set_ok S cs" and "buf_laws rd" and "os_reads_ok os" and "os_registers_ok os"
  shows "\<exists>cs' es. conn_readable S os rd t cs = Some (Inr (Inr (), cs', es))"
proof (cases "sl_get S (conns cs) t")
  case None
  then show ?thesis by (simp add: conn_readable_def)
next
  case (Some c)
  have ok: "conn_ok c" using assms(1) Some by (simp add: set_ok_def)
  obtain r c' es where c': "ServerConn_readable os rd c = Some (Inr (r, c', es))"
    using ServerConn_readable_ok [OF ok assms(2,3)] by blast
  have "\<not> isl r" using ServerConn_readable_result [OF c'] assms(4) by (auto simp: os_registers_ok_def)
  then have "r = Inr ()" by (cases r) simp_all
  with c' Some show ?thesis by (simp add: conn_readable_def)
qed

lemma conn_writable_ok:
  assumes "set_ok S cs" and "os_writes_ok os"
  shows "\<exists>r cs' es. conn_writable S os t cs = Inr (r, cs', es)"
proof (cases "sl_get S (conns cs) t")
  case None
  then show ?thesis by (simp add: conn_writable_def)
next
  case (Some c)
  have "conn_ok c" using assms(1) Some by (simp add: set_ok_def)
  then obtain r c' es where "ServerConn_writable os c = Inr (r, c', es)" using ServerConn_writable_ok assms(2) by blast
  with Some show ?thesis by (simp add: conn_writable_def)
qed

end
