(* ===== verification/Traffic_Cop.thy ===== *)
theory Traffic_Cop
  imports Conn_Set
begin

text \<open>
  \<^verbatim>\<open>server/traffic_cop.rs\<close>: the handler of the event loop. It owns the connections of clients and of
  peers, dispatches the readiness of sockets by token, reconnects to peers on a timer and
  queues the messages that the server sends.
\<close>

section \<open>State\<close>

record Peer =
  peer_addr :: SocketAddr
  peer_sock :: "Token option"

record 'sl TrafficCop =
  tc_peers :: "Peer list"
  cli_handler :: "'sl ConnSet"
  peer_handler :: "'sl ConnSet"

text \<open>\<open>parse\<close> is the parser of socket addresses.\<close>

primrec parse_peers :: "(string \<Rightarrow> SocketAddr option) \<Rightarrow> string list \<Rightarrow> Peer list res" where
  "parse_peers parse [] = Inr []"
| "parse_peers parse (a # as) =
     and_then (unwrap (parse a)) (\<lambda>addr.
     and_then (parse_peers parse as) (\<lambda>ps. Inr (\<lparr>peer_addr = addr, peer_sock = None\<rparr> # ps)))"

definition TrafficCop_new ::
  "'sl SlabOps \<Rightarrow> Os \<Rightarrow> (string \<Rightarrow> SocketAddr option) \<Rightarrow> u16 \<Rightarrow> u16 \<Rightarrow> string list \<Rightarrow> (io_err + 'sl TrafficCop) res" where
  "TrafficCop_new S os parse peer_port cli_port peer_addrs =
     (case os_bind os cli_port of
        Inl e \<Rightarrow> Inr (Inl e)
      | Inr cli_srv_sock \<Rightarrow>
          (case os_bind os peer_port of
             Inl e \<Rightarrow> Inr (Inl e)
           | Inr peer_srv_sock \<Rightarrow>
               and_then (parse_peers parse peer_addrs) (\<lambda>peers.
                 Inr (Inr \<lparr>tc_peers = peers,
                   cli_handler = \<lparr>srv_sock = cli_srv_sock, srv_token = SERVER_CLIENTS,
                     conns = sl_new S 1024 4096, cs_req_tx = CliReqs\<rparr>,
                   peer_handler = \<lparr>srv_sock = peer_srv_sock, srv_token = SERVER_PEERS,
                     conns = sl_new S 2 15, cs_req_tx = PeerReqs\<rparr>\<rparr>))))"

text \<open>What \<^verbatim>\<open>run_event_loop\<close> does before it hands control to the loop.\<close>

definition run_event_loop :: "Os \<Rightarrow> 'sl TrafficCop \<Rightarrow> Effect list res" where
  "run_event_loop os cop =
     and_then (unwrap_res (os_register os (srv_sock (cli_handler cop)) SERVER_CLIENTS)) (\<lambda>_.
     and_then (unwrap_res (os_register os (srv_sock (peer_handler cop)) SERVER_PEERS)) (\<lambda>_.
       Inr [Register (srv_sock (cli_handler cop)) SERVER_CLIENTS {Readable},
            Register (srv_sock (peer_handler cop)) SERVER_PEERS {Readable}]))"

section \<open>Readiness\<close>

definition clear_peer :: "Token \<Rightarrow> Peer \<Rightarrow> Peer" where
  "clear_peer t p = (if peer_sock p = Some t then p\<lparr>peer_sock := None\<rparr> else p)"

definition clear_conn :: "'sl SlabOps \<Rightarrow> Token \<Rightarrow> 'sl TrafficCop \<Rightarrow> 'sl TrafficCop res" where
  "clear_conn S t cop =
     (let n = unat t; ph = peer_handler cop; ch = cli_handler cop in
      if 2 \<le> n \<and> n \<le> 16 then
        Inr (if sl_get S (conns ph) t \<noteq> None
             then cop\<lparr>peer_handler := ph\<lparr>conns := sl_remove S (conns ph) t\<rparr>,
                      tc_peers := map (clear_peer t) (tc_peers cop)\<rparr>
             else cop)
      else if 1024 \<le> n \<and> n \<le> 4096 then
        Inr (if sl_get S (conns ch) t \<noteq> None
             then cop\<lparr>cli_handler := ch\<lparr>conns := sl_remove S (conns ch) t\<rparr>\<rparr> else cop)
      else Inl (Explicit ''bad token for error/hup''))"

text \<open>An error of accepting is logged and dropped, an error of reading is unwrapped.\<close>

definition ready_read ::
  "'sl SlabOps \<Rightarrow> Os \<Rightarrow> BufOps \<Rightarrow> Token \<Rightarrow> 'sl TrafficCop \<Rightarrow> ('sl TrafficCop \<times> Effect list) res option" where
  "ready_read S os rd t cop =
     (let n = unat t in
      if t = SERVER_PEERS then
        Some (and_then (ConnSet_accept S os (peer_handler cop)) (\<lambda>(_, cs, es). Inr (cop\<lparr>peer_handler := cs\<rparr>, es)))
      else if t = SERVER_CLIENTS then
        Some (and_then (ConnSet_accept S os (cli_handler cop)) (\<lambda>(_, cs, es). Inr (cop\<lparr>cli_handler := cs\<rparr>, es)))
      else if 2 \<le> n \<and> n \<le> 16 then
        map_option (\<lambda>x. and_then x (\<lambda>(r, cs, es). and_then (unwrap_res r) (\<lambda>_. Inr (cop\<lparr>peer_handler := cs\<rparr>, es))))
          (conn_readable S os rd t (peer_handler cop))
      else if 1024 \<le> n \<and> n \<le> 4096 then
        map_option (\<lambda>x. and_then x (\<lambda>(r, cs, es). and_then (unwrap_res r) (\<lambda>_. Inr (cop\<lparr>cli_handler := cs\<rparr>, es))))
          (conn_readable S os rd t (cli_handler cop))
      else Some (Inl (Explicit ''unknown token'')))"

definition ready_write ::
  "'sl SlabOps \<Rightarrow> Os \<Rightarrow> Token \<Rightarrow> 'sl TrafficCop \<Rightarrow> ('sl TrafficCop \<times> Effect list) res" where
  "ready_write S os t cop =
     (let n = unat t in
      if t = SERVER_PEERS then Inl (Explicit ''received writable for SERVER_PEERS'')
      else if t = SERVER_CLIENTS then Inl (Explicit ''received writable for token SERVER_CLIENTS'')
      else if 1 < n \<and> n \<le> 128 then
        and_then (conn_writable S os t (peer_handler cop)) (\<lambda>(_, cs, es). Inr (cop\<lparr>peer_handler := cs\<rparr>, es))
      else if 128 < n \<and> n \<le> 4096 then
        and_then (conn_writable S os t (cli_handler cop)) (\<lambda>(_, cs, es). Inr (cop\<lparr>cli_handler := cs\<rparr>, es))
      else Inl (Explicit ''received writable for out-of-range token''))"

definition TrafficCop_ready ::
  "'sl SlabOps \<Rightarrow> Os \<Rightarrow> BufOps \<Rightarrow> Token \<Rightarrow> Ready set \<Rightarrow> 'sl TrafficCop \<Rightarrow> ('sl TrafficCop \<times> Effect list) res option" where
  "TrafficCop_ready S os rd t events cop =
     (case (if Hup \<in> events \<or> Error \<in> events then clear_conn S t cop else Inr cop) of
        Inl p \<Rightarrow> Some (Inl p)
      | Inr cop1 \<Rightarrow>
          map_option (\<lambda>x.
            and_then x (\<lambda>(cop2, es).
            and_then (if Writable \<in> events then ready_write S os t cop2 else Inr (cop2, [])) (\<lambda>(cop3, es').
              Inr (cop3, es @ es'))))
          (if Readable \<in> events then ready_read S os rd t cop1 else Some (Inr (cop1, []))))"

section \<open>Reconnecting\<close>

text \<open>The loop over the peers; \<open>i\<close> counts the connection attempts.\<close>

primrec connect_peers ::
  "'sl SlabOps \<Rightarrow> Os \<Rightarrow> nat \<Rightarrow> Peer list \<Rightarrow> 'sl ConnSet \<Rightarrow> (Peer list \<times> 'sl ConnSet \<times> Effect list) res" where
  "connect_peers S os i [] cs = Inr ([], cs, [])"
| "connect_peers S os i (p # ps) cs =
     (if peer_sock p = None then
        and_then (unwrap_res (os_connect os i (peer_addr p))) (\<lambda>s.
        and_then (ConnSet_register S os s cs) (\<lambda>(r, cs1, es1).
        and_then (connect_peers S os (Suc i) ps cs1) (\<lambda>(ps', cs2, es2).
          Inr ((case r of Inl _ \<Rightarrow> p | Inr t \<Rightarrow> p\<lparr>peer_sock := Some t\<rparr>) # ps', cs2, es1 @ es2))))
      else
        and_then (connect_peers S os (Suc i) ps cs) (\<lambda>(ps', cs2, es2). Inr (p # ps', cs2, es2)))"

definition TrafficCop_timeout :: "'sl SlabOps \<Rightarrow> Os \<Rightarrow> 'sl TrafficCop \<Rightarrow> ('sl TrafficCop \<times> Effect list) res" where
  "TrafficCop_timeout S os cop =
     and_then (connect_peers S os 0 (tc_peers cop) (peer_handler cop)) (\<lambda>(ps, cs, es).
     and_then (unwrap_res (os_timer os)) (\<lambda>_.
       Inr (cop\<lparr>tc_peers := ps, peer_handler := cs\<rparr>, es @ [Timer])))"

section \<open>Sending\<close>

text \<open>The connection of a token together with the assignment through the reference that the source returns.\<close>

definition tok_to_sc ::
  "'sl SlabOps \<Rightarrow> 'sl TrafficCop \<Rightarrow> Token \<Rightarrow> (ServerConn \<times> (ServerConn \<Rightarrow> 'sl TrafficCop)) option" where
  "tok_to_sc S cop t =
     (let n = unat t; ph = peer_handler cop; ch = cli_handler cop in
      if 1 < n \<and> n \<le> 128 then
        map_option (\<lambda>c. (c, \<lambda>c'. cop\<lparr>peer_handler := ph\<lparr>conns := sl_set S (conns ph) t c'\<rparr>\<rparr>)) (sl_get S (conns ph) t)
      else if 128 < n \<and> n \<le> 4096 then
        map_option (\<lambda>c. (c, \<lambda>c'. cop\<lparr>cli_handler := ch\<lparr>conns := sl_set S (conns ch) t c'\<rparr>\<rparr>)) (sl_get S (conns ch) t)
      else None)"

definition notify_targets :: "'sl TrafficCop \<Rightarrow> Token \<Rightarrow> Token list" where
  "notify_targets cop t = (if t = PEER_BROADCAST then List.map_filter peer_sock (tc_peers cop) else [t])"

definition notify_one ::
  "'sl SlabOps \<Rightarrow> BufOps \<Rightarrow> bytes \<Rightarrow> Token \<Rightarrow> 'sl TrafficCop \<times> Effect list \<Rightarrow> ('sl TrafficCop \<times> Effect list) res" where
  "notify_one S rd m t st =
     (case tok_to_sc S (fst st) t of
        None \<Rightarrow> Inr st
      | Some (c, put) \<Rightarrow>
          and_then (queue_response rd m c) (\<lambda>c'.
            Inr (put c', snd st @ [Reregister (sock c') t (interest c')])))"

definition TrafficCop_notify ::
  "'sl SlabOps \<Rightarrow> BufOps \<Rightarrow> Envelope \<Rightarrow> 'sl TrafficCop \<Rightarrow> ('sl TrafficCop \<times> Effect list) res" where
  "TrafficCop_notify S rd env cop = fold_res (notify_one S rd (msg env)) (notify_targets cop (tok env)) (cop, [])"

section \<open>The loop\<close>

datatype Cop_Event = EvReady Token "Ready set" | EvTimeout | EvNotify Envelope

fun cop_step ::
  "'sl SlabOps \<Rightarrow> Os \<Rightarrow> BufOps \<Rightarrow> Cop_Event \<Rightarrow> 'sl TrafficCop \<Rightarrow> ('sl TrafficCop \<times> Effect list) res option" where
  "cop_step S os rd (EvReady t events) cop = TrafficCop_ready S os rd t events cop"
| "cop_step S os rd EvTimeout cop = Some (TrafficCop_timeout S os cop)"
| "cop_step S os rd (EvNotify env) cop = Some (TrafficCop_notify S rd env cop)"

inductive cop_reachable :: "'sl SlabOps \<Rightarrow> BufOps \<Rightarrow> 'sl TrafficCop \<Rightarrow> bool" for S rd where
  New: "TrafficCop_new S os parse peer_port cli_port addrs = Inr (Inr cop) \<Longrightarrow> cop_reachable S rd cop"
| Step: "cop_reachable S rd cop \<Longrightarrow> os_writes_ok os \<Longrightarrow> cop_step S os rd ev cop = Some (Inr (cop', es)) \<Longrightarrow>
    cop_reachable S rd cop'"

section \<open>Invariant\<close>

abbreviation peer_toks :: "Peer list \<Rightarrow> Token list" where
  "peer_toks ps \<equiv> List.map_filter peer_sock ps"

text \<open>The peers that are connected have different live connections.\<close>

definition peers_ok :: "'sl SlabOps \<Rightarrow> 'sl ConnSet \<Rightarrow> Peer list \<Rightarrow> bool" where
  "peers_ok S cs ps \<longleftrightarrow> distinct (peer_toks ps) \<and> (\<forall>t \<in> set (peer_toks ps). sl_get S (conns cs) t \<noteq> None)"

definition cop_inv :: "'sl SlabOps \<Rightarrow> 'sl TrafficCop \<Rightarrow> bool" where
  "cop_inv S cop \<longleftrightarrow> set_ok S (cli_handler cop) \<and> set_ok S (peer_handler cop) \<and>
     sl_range S (conns (cli_handler cop)) = (1024, 4096) \<and> sl_range S (conns (peer_handler cop)) = (2, 15) \<and>
     cs_req_tx (cli_handler cop) = CliReqs \<and> cs_req_tx (peer_handler cop) = PeerReqs \<and>
     peers_ok S (peer_handler cop) (tc_peers cop)"

lemma peer_toks_simps [simp]:
  "peer_toks [] = []"
  "peer_toks (p # ps) = (case peer_sock p of None \<Rightarrow> peer_toks ps | Some t \<Rightarrow> t # peer_toks ps)"
  by (simp_all add: List.map_filter_simps)

lemma peers_ok_keeps: "peers_ok S cs ps \<Longrightarrow> keeps_conns S cs cs' \<Longrightarrow> peers_ok S cs' ps"
  by (simp add: peers_ok_def keeps_conns_def)

lemma cop_inv_keeps_peer:
  "cop_inv S cop \<Longrightarrow> keeps_conns S (peer_handler cop) cs \<Longrightarrow> cop_inv S (cop\<lparr>peer_handler := cs\<rparr>)"
  by (auto simp: cop_inv_def keeps_conns_def same_set_def peers_ok_def)

lemma cop_inv_keeps_cli:
  "cop_inv S cop \<Longrightarrow> keeps_conns S (cli_handler cop) cs \<Longrightarrow> cop_inv S (cop\<lparr>cli_handler := cs\<rparr>)"
  by (auto simp: cop_inv_def keeps_conns_def same_set_def)

lemma peer_toks_clear: "peer_toks (map (clear_peer t) ps) = filter (\<lambda>u. u \<noteq> t) (peer_toks ps)"
  by (induction ps) (auto simp: clear_peer_def split: option.splits)

lemma clear_conn_keeps:
  assumes "slab_laws S" and "cop_inv S cop" and "clear_conn S t cop = Inr cop'"
  shows "cop_inv S cop'"
  using assms set_ok_remove [OF assms(1)]
  by (auto simp: clear_conn_def cop_inv_def same_set_def peers_ok_def peer_toks_clear slab_remove Let_def split: if_splits)

lemma ready_read_keeps:
  assumes "slab_laws S" and "buf_laws rd" and "cop_inv S cop" and "ready_read S os rd t cop = Some (Inr (cop', es))"
  shows "cop_inv S cop'"
proof -
  have ok: "set_ok S (cli_handler cop)" "set_ok S (peer_handler cop)" using assms(3) by (simp_all add: cop_inv_def)
  have "(\<exists>cs. cop' = cop\<lparr>peer_handler := cs\<rparr> \<and> keeps_conns S (peer_handler cop) cs) \<or>
        (\<exists>cs. cop' = cop\<lparr>cli_handler := cs\<rparr> \<and> keeps_conns S (cli_handler cop) cs)"
    using assms(4) ConnSet_accept_keeps [OF assms(1)] conn_readable_keeps [OF assms(1) _ assms(2)] ok
    by (auto simp: ready_read_def Let_def split: if_splits)
  then show ?thesis using cop_inv_keeps_peer cop_inv_keeps_cli assms(3) by blast
qed

lemma ready_write_keeps:
  assumes "slab_laws S" and "os_writes_ok os" and "cop_inv S cop" and "ready_write S os t cop = Inr (cop', es)"
  shows "cop_inv S cop'"
proof -
  have ok: "set_ok S (cli_handler cop)" "set_ok S (peer_handler cop)" using assms(3) by (simp_all add: cop_inv_def)
  have "(\<exists>cs. cop' = cop\<lparr>peer_handler := cs\<rparr> \<and> keeps_conns S (peer_handler cop) cs) \<or>
        (\<exists>cs. cop' = cop\<lparr>cli_handler := cs\<rparr> \<and> keeps_conns S (cli_handler cop) cs)"
    using assms(4) conn_writable_keeps [OF assms(1) _ assms(2)] ok
    by (auto simp: ready_write_def Let_def split: if_splits)
  then show ?thesis using cop_inv_keeps_peer cop_inv_keeps_cli assms(3) by blast
qed

lemma TrafficCop_ready_keeps:
  assumes "slab_laws S" and "buf_laws rd" and "os_writes_ok os" and "cop_inv S cop"
    and "TrafficCop_ready S os rd t events cop = Some (Inr (cop', es))"
  shows "cop_inv S cop'"
proof -
  obtain cop1 where c1: "(if Hup \<in> events \<or> Error \<in> events then clear_conn S t cop else Inr cop) = Inr cop1"
    using assms(5) by (auto simp: TrafficCop_ready_def split: sum.splits)
  obtain cop2 es2 where c2: "(if Readable \<in> events then ready_read S os rd t cop1 else Some (Inr (cop1, []))) = Some (Inr (cop2, es2))"
    and c3: "\<exists>es3. (if Writable \<in> events then ready_write S os t cop2 else Inr (cop2, [])) = Inr (cop', es3)"
    using assms(5) unfolding TrafficCop_ready_def c1 by auto
  have "cop_inv S cop1" using c1 clear_conn_keeps [OF assms(1,4)] assms(4) by (auto split: if_splits)
  then have "cop_inv S cop2" using c2 ready_read_keeps [OF assms(1,2)] by (auto split: if_splits)
  then show ?thesis using c3 ready_write_keeps [OF assms(1,3)] by (auto split: if_splits)
qed

text \<open>Reconnecting gives every peer that gets a connection a slot that was free.\<close>

lemma connect_peers_keeps:
  assumes "slab_laws S" and "set_ok S cs" and "peers_ok S cs ps" and "connect_peers S os i ps cs = Inr (ps', cs', es)"
  shows "keeps_conns S cs cs' \<and> peers_ok S cs' ps' \<and> set (peer_toks ps) \<subseteq> set (peer_toks ps') \<and>
    (\<forall>t \<in> set (peer_toks ps'). t \<notin> set (peer_toks ps) \<longrightarrow> sl_get S (conns cs) t = None)"
  using assms(2-4)
proof (induction ps arbitrary: i cs ps' es)
  case Nil
  then show ?case by simp
next
  case (Cons p ps)
  show ?case
  proof (cases "peer_sock p")
    case (Some t)
    obtain qs es2 where q: "connect_peers S os (Suc i) ps cs = Inr (qs, cs', es2)" "ps' = p # qs"
      using Cons.prems(3) Some by auto
    have "peers_ok S cs ps" using Cons.prems(2) Some by (simp add: peers_ok_def)
    note ih = Cons.IH [OF Cons.prems(1) this q(1)]
    then show ?thesis using Cons.prems(2) Some unfolding q(2) peers_ok_def keeps_conns_def by auto
  next
    case None
    obtain s r cs1 es1 qs es2 where q: "ConnSet_register S os s cs = Inr (r, cs1, es1)"
      "connect_peers S os (Suc i) ps cs1 = Inr (qs, cs', es2)"
      "ps' = (case r of Inl _ \<Rightarrow> p | Inr t \<Rightarrow> p\<lparr>peer_sock := Some t\<rparr>) # qs"
      using Cons.prems(3) None by auto
    have k1: "keeps_conns S cs cs1" by (rule ConnSet_register_keeps [OF assms(1) Cons.prems(1) q(1)])
    have "set_ok S cs1" "peers_ok S cs1 ps"
      using k1 peers_ok_keeps [OF _ k1] Cons.prems(2) None by (simp_all add: keeps_conns_def peers_ok_def)
    note ih = Cons.IH [OF this q(2)]
    have k: "keeps_conns S cs cs'" using keeps_conns_trans [OF k1] ih by simp
    have free: "sl_get S (conns cs1) t = None \<Longrightarrow> sl_get S (conns cs) t = None" for t
      using k1 by (auto simp: keeps_conns_def)
    show ?thesis using assms(1) q(1)
    proof (cases rule: ConnSet_register_cases)
      case full
      then show ?thesis using ih k free None unfolding q(3) peers_ok_def by auto
    next
      case (slot t)
      have occ: "sl_get S (conns cs1) t \<noteq> None" using slot(5) by simp
      have "t \<notin> set (peer_toks ps)" using slot(3) Cons.prems(2) None by (auto simp: peers_ok_def)
      then have "t \<notin> set (peer_toks qs)" using ih occ by auto
      moreover have "sl_get S (conns cs') t \<noteq> None" using ih occ by (simp add: keeps_conns_def)
      ultimately show ?thesis using ih k free None slot(1,3) unfolding q(3) peers_ok_def by auto
    qed
  qed
qed

lemma TrafficCop_timeout_keeps:
  assumes "slab_laws S" and "cop_inv S cop" and "TrafficCop_timeout S os cop = Inr (cop', es)"
  shows "cop_inv S cop'"
proof -
  obtain ps cs es' where c: "connect_peers S os 0 (tc_peers cop) (peer_handler cop) = Inr (ps, cs, es')"
    "cop' = cop\<lparr>tc_peers := ps, peer_handler := cs\<rparr>"
    using assms(3) by (auto simp: TrafficCop_timeout_def)
  show ?thesis
    using connect_peers_keeps [OF assms(1) _ _ c(1)] assms(2)
    unfolding c(2) by (auto simp: cop_inv_def keeps_conns_def same_set_def)
qed

section \<open>What a notification does\<close>

definition with_response :: "bytes \<Rightarrow> ServerConn \<Rightarrow> ServerConn" where
  "with_response m c = c\<lparr>res_remaining := res_remaining c + of_nat (4 + length m),
     res_bufs := res_bufs c @ [frame m], interest := interest c \<union> {Writable}\<rparr>"

lemma notify_one_cases:
  assumes "slab_laws S" and "buf_laws rd" and "cop_inv S cop" and "notify_one S rd m t (cop, es) = Inr (cop', es')"
  obtains (none) "tok_to_sc S cop t = None" "cop' = cop" "es' = es"
  | (peer) c cs where "1 < unat t" "unat t \<le> 128" "sl_get S (conns (peer_handler cop)) t = Some c" "4 + length m < 2 ^ 32"
      "cop' = cop\<lparr>peer_handler := cs\<rparr>" "keeps_conns S (peer_handler cop) cs"
      "\<And>u. sl_get S (conns cs) u = (if u = t then Some (with_response m c) else sl_get S (conns (peer_handler cop)) u)"
      "es' = es @ [Reregister (sock c) t (interest c \<union> {Writable})]"
  | (cli) c cs where "128 < unat t" "unat t \<le> 4096" "sl_get S (conns (cli_handler cop)) t = Some c" "4 + length m < 2 ^ 32"
      "cop' = cop\<lparr>cli_handler := cs\<rparr>" "keeps_conns S (cli_handler cop) cs"
      "\<And>u. sl_get S (conns cs) u = (if u = t then Some (with_response m c) else sl_get S (conns (cli_handler cop)) u)"
      "es' = es @ [Reregister (sock c) t (interest c \<union> {Writable})]"
proof (cases "tok_to_sc S cop t")
  case None
  have "cop' = cop" "es' = es" using assms(4) None by (simp_all add: notify_one_def)
  then show ?thesis by (rule none [OF None])
next
  case (Some x)
  obtain c put where x: "tok_to_sc S cop t = Some (c, put)" using Some by (cases x) simp
  obtain c' where c': "queue_response rd m c = Inr c'" "cop' = put c'" "es' = es @ [Reregister (sock c') t (interest c')]"
    using assms(4) x by (auto simp: notify_one_def)
  have r: "c' = with_response m c" "4 + length m < 2 ^ 32"
    using queue_response_Inr [OF c'(1) assms(2)] by (simp_all add: with_response_def)
  have es': "es' = es @ [Reregister (sock c) t (interest c \<union> {Writable})]" using c'(3) r(1) by (simp add: with_response_def)
  have ok: "set_ok S (cli_handler cop)" "set_ok S (peer_handler cop)" using assms(3) by (simp_all add: cop_inv_def)
  show ?thesis
  proof (cases "unat t \<le> 128")
    case True
    then have g: "sl_get S (conns (peer_handler cop)) t = Some c" "1 < unat t"
      and put: "put c' = cop\<lparr>peer_handler := (peer_handler cop)\<lparr>conns := sl_set S (conns (peer_handler cop)) t c'\<rparr>\<rparr>"
      using x by (auto simp: tok_to_sc_def Let_def split: if_splits)
    have "conn_ok c" using ok(2) g(1) by (simp add: set_ok_def)
    note up = set_ok_update [OF assms(1) ok(2) g(1) queue_response_keeps [OF c'(1) assms(2) this]]
    show ?thesis by (rule peer [OF g(2) True g(1) r(2) c'(2) [unfolded put] up(1) _ es']) (subst r(1) [symmetric], rule up(2))
  next
    case False
    then have g: "sl_get S (conns (cli_handler cop)) t = Some c" "128 < unat t" "unat t \<le> 4096"
      and put: "put c' = cop\<lparr>cli_handler := (cli_handler cop)\<lparr>conns := sl_set S (conns (cli_handler cop)) t c'\<rparr>\<rparr>"
      using x by (auto simp: tok_to_sc_def Let_def split: if_splits)
    have "conn_ok c" using ok(1) g(1) by (simp add: set_ok_def)
    note up = set_ok_update [OF assms(1) ok(1) g(1) queue_response_keeps [OF c'(1) assms(2) this]]
    show ?thesis by (rule cli [OF g(2,3,1) r(2) c'(2) [unfolded put] up(1) _ es']) (subst r(1) [symmetric], rule up(2))
  qed
qed

lemma notify_one_keeps:
  assumes "slab_laws S" and "buf_laws rd" and "cop_inv S (fst st)" and "notify_one S rd m t st = Inr st'"
  shows "cop_inv S (fst st')"
proof -
  obtain cop es cop' es' where st: "st = (cop, es)" "st' = (cop', es')" by fastforce
  have inv: "cop_inv S cop" using assms(3) st by simp
  show ?thesis using assms(1,2) inv assms(4) [unfolded st]
    by (cases rule: notify_one_cases) (simp_all add: st inv cop_inv_keeps_peer cop_inv_keeps_cli)
qed

lemma TrafficCop_notify_keeps:
  assumes "slab_laws S" and "buf_laws rd" and "cop_inv S cop" and "TrafficCop_notify S rd env cop = Inr (cop', es)"
  shows "cop_inv S cop'"
  using fold_res_invariant [OF assms(4) [unfolded TrafficCop_notify_def], of "\<lambda>st. cop_inv S (fst st)"]
    notify_one_keeps [OF assms(1,2)] assms(3) by simp

lemma parse_peers_toks: "parse_peers parse addrs = Inr ps \<Longrightarrow> peer_toks ps = []"
  by (induction addrs arbitrary: ps) auto

lemma TrafficCop_new_inv:
  assumes "slab_laws S" and "TrafficCop_new S os parse peer_port cli_port addrs = Inr (Inr cop)"
  shows "cop_inv S cop"
  using assms parse_peers_toks
  by (auto simp: TrafficCop_new_def cop_inv_def set_ok_def slab_new peers_ok_def split: sum.splits)

lemma cop_reachable_inv:
  assumes "cop_reachable S rd cop" and "slab_laws S" and "buf_laws rd"
  shows "cop_inv S cop"
  using assms(1)
proof induction
  case (New os parse peer_port cli_port addrs cop)
  then show ?case by (rule TrafficCop_new_inv [OF assms(2)])
next
  case (Step cop os ev cop' es)
  show ?case
  proof (cases ev)
    case (EvReady t events)
    then show ?thesis using TrafficCop_ready_keeps [OF assms(2,3) Step.hyps(2) Step.IH] Step.hyps(3) by simp
  next
    case EvTimeout
    then show ?thesis using TrafficCop_timeout_keeps [OF assms(2) Step.IH] Step.hyps(3) by simp
  next
    case (EvNotify env)
    then show ?thesis using TrafficCop_notify_keeps [OF assms(2,3) Step.IH] Step.hyps(3) by simp
  qed
qed

lemma peer_tok_range:
  assumes "slab_laws S" and "cop_inv S cop" and "sl_get S (conns (peer_handler cop)) t = Some c"
  shows "1 < unat t" "unat t \<le> 16"
  using slab_in_range [OF assms(1,3)] assms(2) by (simp_all add: cop_inv_def in_slots_def)

lemma cli_tok_range:
  assumes "slab_laws S" and "cop_inv S cop" and "sl_get S (conns (cli_handler cop)) t = Some c"
  shows "1024 \<le> unat t" "unat t < 5120"
  using slab_in_range [OF assms(1,3)] assms(2) by (simp_all add: cop_inv_def in_slots_def)

text \<open>Notifying live peers, each once.\<close>

lemma notify_peers:
  assumes "slab_laws S" and "buf_laws rd" and "cop_inv S cop" and "distinct ts" and "\<forall>t \<in> set ts. sl_get S (conns (peer_handler cop)) t \<noteq> None"
    and "fold_res (notify_one S rd m) ts (cop, es) = Inr (cop', es')"
  shows "tc_peers cop' = tc_peers cop \<and> cli_handler cop' = cli_handler cop \<and>
    (\<forall>u. sl_get S (conns (peer_handler cop')) u =
       (if u \<in> set ts then map_option (with_response m) (sl_get S (conns (peer_handler cop)) u)
        else sl_get S (conns (peer_handler cop)) u)) \<and> length es' = length es + length ts"
  using assms(3-6)
proof (induction ts arbitrary: cop es)
  case Nil
  then show ?case by simp
next
  case (Cons t ts)
  obtain cop1 es1 where one: "notify_one S rd m t (cop, es) = Inr (cop1, es1)"
    and rest: "fold_res (notify_one S rd m) ts (cop1, es1) = Inr (cop', es')"
    using Cons.prems(4) by auto
  obtain c where c: "sl_get S (conns (peer_handler cop)) t = Some c" using Cons.prems(3) by auto
  note rng = peer_tok_range [OF assms(1) Cons.prems(1) c]
  show ?case using assms(1,2) Cons.prems(1) one
  proof (cases rule: notify_one_cases)
    case none
    then show ?thesis using c rng by (simp add: tok_to_sc_def Let_def)
  next
    case (peer c' cs)
    have inv: "cop_inv S cop1" using cop_inv_keeps_peer [OF Cons.prems(1) peer(6)] peer(5) by simp
    have occ: "\<forall>t \<in> set ts. sl_get S (conns (peer_handler cop1)) t \<noteq> None"
      using Cons.prems(3) unfolding peer(5) by (simp add: peer(7))
    have "distinct ts" using Cons.prems(2) by simp
    from Cons.IH [OF inv this occ rest] Cons.prems(2) show ?thesis
      unfolding peer(5,8) by (auto simp: peer(3,7))
  next
    case (cli c' cs)
    then show ?thesis using rng by simp
  qed
qed

section \<open>A slab\<close>

text \<open>The first free slot of a table.\<close>

type_synonym demo_slab = "(Token \<times> nat) \<times> (Token \<Rightarrow> ServerConn option)"

definition slab_tokens :: "Token \<times> nat \<Rightarrow> Token list" where
  "slab_tokens r = filter (in_slots r) (map (\<lambda>i. of_nat (unat (fst r) + i)) [0..<snd r])"

definition demo_slab_ops :: "demo_slab SlabOps" where
  "demo_slab_ops = \<lparr>sl_new = \<lambda>lo n. ((lo, n), \<lambda>_. None), sl_range = fst,
     sl_get = \<lambda>s t. if in_slots (fst s) t then snd s t else None,
     sl_set = \<lambda>s t c. (fst s, if in_slots (fst s) t \<and> snd s t \<noteq> None then (snd s)(t := Some c) else snd s),
     sl_insert = \<lambda>s c. map_option (\<lambda>t. (t, (fst s, (snd s)(t := Some c))))
       (find (\<lambda>t. snd s t = None) (slab_tokens (fst s))),
     sl_remove = \<lambda>s t. (fst s, (snd s)(t := None))\<rparr>"

lemma slab_tokens_set: "set (slab_tokens r) = {t. in_slots r t}"
proof -
  have "t \<in> (\<lambda>i. of_nat (unat (fst r) + i)) ` {0..<snd r}" if "in_slots r t" for t
    by (rule image_eqI [of _ _ "unat t - unat (fst r)"]) (use that in \<open>auto simp: in_slots_def\<close>)
  then show ?thesis by (auto simp: slab_tokens_def)
qed

lemma demo_slab_laws: "slab_laws demo_slab_ops"
proof -
  have "find (\<lambda>t. f t = None) (slab_tokens r) = Some t \<Longrightarrow> in_slots r t \<and> f t = None"
    for f :: "Token \<Rightarrow> ServerConn option" and r t
    using slab_tokens_set [of r] by (force simp: find_Some_iff set_conv_nth)
  moreover have "find (\<lambda>t. f t = None) (slab_tokens r) = None \<longleftrightarrow> (\<forall>t. in_slots r t \<longrightarrow> f t \<noteq> None)"
    for f :: "Token \<Rightarrow> ServerConn option" and r
    by (auto simp: find_None_iff slab_tokens_set)
  ultimately show ?thesis by (auto simp: slab_laws_def demo_slab_ops_def)
qed

text \<open>A node with one peer: created, and after the first timeout has connected to it.\<close>

definition demo_cop0 :: "demo_slab TrafficCop" where
  "demo_cop0 = \<lparr>tc_peers = [\<lparr>peer_addr = ([127, 0, 0, 1], 7771), peer_sock = None\<rparr>],
     cli_handler = \<lparr>srv_sock = 7778, srv_token = SERVER_CLIENTS, conns = ((1024, 4096), \<lambda>_. None), cs_req_tx = CliReqs\<rparr>,
     peer_handler = \<lparr>srv_sock = 7770, srv_token = SERVER_PEERS, conns = ((2, 15), \<lambda>_. None), cs_req_tx = PeerReqs\<rparr>\<rparr>"

definition demo_cop1 :: "demo_slab TrafficCop" where
  "demo_cop1 = demo_cop0\<lparr>tc_peers := [\<lparr>peer_addr = ([127, 0, 0, 1], 7771), peer_sock = Some 2\<rparr>],
     peer_handler := (peer_handler demo_cop0)\<lparr>conns :=
       ((2, 15), (\<lambda>_. None)(2 := Some (ServerConn_new 20 PeerReqs\<lparr>token := Some 2\<rparr>)))\<rparr>\<rparr>"

lemma demo_cop0_new:
  "TrafficCop_new demo_slab_ops (demo_os []) (\<lambda>_. Some ([127, 0, 0, 1], 7771)) 7770 7778 [''127.0.0.1:7771''] = Inr (Inr demo_cop0)"
  by (simp add: TrafficCop_new_def demo_os_def demo_slab_ops_def demo_cop0_def)

lemma slab_tokens_peers: "\<exists>ts. slab_tokens (2, 15) = 2 # ts"
  by (simp add: slab_tokens_def in_slots_def upt_rec [of 0])

lemma demo_cop1_timeout:
  "TrafficCop_timeout demo_slab_ops (demo_os []) demo_cop0 =
     Inr (demo_cop1, [Reregister 7770 1 {Readable}, Register 20 2 {Readable}, Timer])"
proof -
  obtain ts where "slab_tokens (2, 15) = 2 # ts" using slab_tokens_peers by blast
  then show ?thesis
    by (simp add: TrafficCop_timeout_def demo_cop0_def demo_cop1_def demo_os_def demo_slab_ops_def ConnSet_register_def
        slab_index_def in_slots_def SERVER_PEERS_def)
qed

lemma demo_cop1_reachable: "cop_reachable demo_slab_ops rd demo_cop1"
  by (rule Step [OF New [OF demo_cop0_new] demo_os_ok(1), where ev = EvTimeout]) (simp, rule demo_cop1_timeout)

section \<open>Properties\<close>

text \<open>C37. In every state of the event loop, the connected peers have different tokens between 2 and 16, each
  of a live connection that knows this token and sends to the channel of the peers.\<close>

theorem connected_peers_live:
  assumes "slab_laws S" and "buf_laws rd" and "cop_reachable S rd cop"
  shows "distinct (List.map_filter peer_sock (tc_peers cop)) \<and>
    (\<forall>p \<in> set (tc_peers cop). \<forall>t. peer_sock p = Some t \<longrightarrow> 2 \<le> unat t \<and> unat t \<le> 16 \<and>
      (\<exists>c. sl_get S (conns (peer_handler cop)) t = Some c \<and> token c = Some t \<and> req_tx c = PeerReqs))"
proof -
  have inv: "cop_inv S cop" by (rule cop_reachable_inv [OF assms(3,1,2)])
  have mem: "p \<in> set ps \<Longrightarrow> peer_sock p = Some t \<Longrightarrow> t \<in> set (peer_toks ps)" for p ps t
    by (induction ps) (auto split: option.splits)
  have "2 \<le> unat t \<and> unat t \<le> 16 \<and> (\<exists>c. sl_get S (conns (peer_handler cop)) t = Some c \<and> token c = Some t \<and> req_tx c = PeerReqs)"
    if p: "p \<in> set (tc_peers cop)" "peer_sock p = Some t" for p t
  proof -
    obtain c where c: "sl_get S (conns (peer_handler cop)) t = Some c"
      using inv mem [OF p] by (auto simp: cop_inv_def peers_ok_def)
    then show ?thesis using peer_tok_range [OF assms(1) inv c] inv by (auto simp: cop_inv_def set_ok_def)
  qed
  with inv show ?thesis by (auto simp: cop_inv_def peers_ok_def)
qed

theorem connected_peers_live_witness:
  "\<exists>c. sl_get demo_slab_ops (conns (peer_handler demo_cop1)) 2 = Some c \<and> token c = Some 2 \<and> req_tx c = PeerReqs"
  using connected_peers_live [of demo_slab_ops mem_buf demo_cop1]
  by (simp add: demo_slab_laws buf_laws_mem demo_cop1_reachable) (simp add: demo_cop1_def)

text \<open>C36. A broadcast puts the frame of the message at the end of the queue of every connected peer, once, asks for
  these connections to be polled for writing, and touches no other connection.\<close>

theorem broadcast_reaches_each_peer:
  assumes "slab_laws S" and "buf_laws rd" and "cop_reachable S rd cop" and "tok env = PEER_BROADCAST"
    and "TrafficCop_notify S rd env cop = Inr (cop', es)"
  shows "tc_peers cop' = tc_peers cop \<and> cli_handler cop' = cli_handler cop \<and>
    (\<forall>t. sl_get S (conns (peer_handler cop')) t =
       (if t \<in> set (List.map_filter peer_sock (tc_peers cop))
        then map_option (\<lambda>c. c\<lparr>res_remaining := res_remaining c + of_nat (4 + length (msg env)),
               res_bufs := res_bufs c @ [frame (msg env)], interest := interest c \<union> {Writable}\<rparr>)
             (sl_get S (conns (peer_handler cop)) t)
        else sl_get S (conns (peer_handler cop)) t)) \<and>
    length es = length (List.map_filter peer_sock (tc_peers cop))"
proof -
  have inv: "cop_inv S cop" by (rule cop_reachable_inv [OF assms(3,1,2)])
  have f: "fold_res (notify_one S rd (msg env)) (peer_toks (tc_peers cop)) (cop, []) = Inr (cop', es)"
    using assms(4,5) by (simp add: TrafficCop_notify_def notify_targets_def)
  show ?thesis
    using notify_peers [OF assms(1,2) inv _ _ f] inv unfolding cop_inv_def peers_ok_def with_response_def by simp
qed

theorem broadcast_reaches_each_peer_witness:
  "\<exists>cop' es c. TrafficCop_notify demo_slab_ops mem_buf \<lparr>address = None, tok = PEER_BROADCAST, msg = [7]\<rparr> demo_cop1 = Inr (cop', es) \<and>
     sl_get demo_slab_ops (conns (peer_handler cop')) 2 = Some c \<and> res_bufs c = [[0, 0, 0, 1, 7]] \<and> length es = 1"
proof -
  let ?env = "\<lparr>address = None, tok = PEER_BROADCAST, msg = [7 :: u8]\<rparr>"
  let ?c = "ServerConn_new 20 PeerReqs\<lparr>token := Some 2\<rparr>"
  have g: "sl_get demo_slab_ops (conns (peer_handler demo_cop1)) 2 = Some ?c"
    by (simp add: demo_cop1_def demo_slab_ops_def in_slots_def)
  have t: "notify_targets demo_cop1 PEER_BROADCAST = [2]" by (simp add: notify_targets_def demo_cop1_def)
  obtain c' where "queue_response mem_buf [7] ?c = Inr c'"
    using queue_response_ok [of mem_buf "[7]" ?c] by (auto simp: ServerConn_new_def)
  then obtain cop' es where n: "TrafficCop_notify demo_slab_ops mem_buf ?env demo_cop1 = Inr (cop', es)"
    using g t by (simp add: TrafficCop_notify_def notify_one_def tok_to_sc_def Let_def)
  show ?thesis
    using broadcast_reaches_each_peer [OF demo_slab_laws buf_laws_mem demo_cop1_reachable _ n]
      n g by (simp add: buf_laws_mem demo_cop1_def ServerConn_new_def frame_def usize_to_array_def)
qed

text \<open>C35. While the operating system does its part (registrations succeed, a readable socket has data and a peer,
  a write takes no more than it is given), no readiness event on a listening socket, a peer or a client
  with a token up to 4096 makes the event loop panic, and handling it always returns.\<close>

theorem ready_never_panics:
  assumes "slab_laws S" and "buf_laws rd" and "cop_reachable S rd cop"
    and "os_writes_ok os" and "os_reads_ok os" and "os_registers_ok os"
    and "unat t \<in> {2..16} \<union> {1024..4096} \<or> unat t < 2 \<and> events \<subseteq> {Readable}"
  shows "\<exists>cop' es. TrafficCop_ready S os rd t events cop = Some (Inr (cop', es))"
proof -
  have inv: "cop_inv S cop" by (rule cop_reachable_inv [OF assms(3,1,2)])
  have listen: "t = SERVER_PEERS \<or> t = SERVER_CLIENTS" if "unat t < 2"
  proof -
    have "unat t = unat (0 :: Token) \<or> unat t = unat (1 :: Token)" using that by auto
    then have "t = 0 \<or> t = 1" using unsigned_word_eqI by blast
    then show ?thesis by (auto simp: SERVER_PEERS_def SERVER_CLIENTS_def)
  qed
  have nolisten: "t \<noteq> SERVER_PEERS \<and> t \<noteq> SERVER_CLIENTS" if "2 \<le> unat t"
    using that by (auto simp: SERVER_PEERS_def SERVER_CLIENTS_def)
  obtain cop1 where c1: "(if Hup \<in> events \<or> Error \<in> events then clear_conn S t cop else Inr cop) = Inr cop1"
    using assms(7) by (cases "Hup \<in> events \<or> Error \<in> events") (auto simp: clear_conn_def Let_def)
  have inv1: "cop_inv S cop1" using c1 clear_conn_keeps [OF assms(1) inv] inv by (auto split: if_splits)
  have ok1: "set_ok S (cli_handler cop1)" "set_ok S (peer_handler cop1)" using inv1 by (simp_all add: cop_inv_def)
  have "\<exists>cop2 es. ready_read S os rd t cop1 = Some (Inr (cop2, es))"
    using assms(7) listen ConnSet_accept_ok [OF assms(1,6), of "cli_handler cop1"] ConnSet_accept_ok [OF assms(1,6), of "peer_handler cop1"]
      conn_readable_ok [OF ok1(1) assms(2,5,6), of t] conn_readable_ok [OF ok1(2) assms(2,5,6), of t]
    by (auto simp: ready_read_def Let_def)
  then have "\<exists>cop2 es2. (if Readable \<in> events then ready_read S os rd t cop1 else Some (Inr (cop1, []))) = Some (Inr (cop2, es2))"
    by simp
  then obtain cop2 es2 where c2: "(if Readable \<in> events then ready_read S os rd t cop1 else Some (Inr (cop1, []))) = Some (Inr (cop2, es2))"
    by (elim exE)
  have inv2: "cop_inv S cop2" using c2 ready_read_keeps [OF assms(1,2) inv1] inv1 by (auto split: if_splits)
  have ok2: "set_ok S (cli_handler cop2)" "set_ok S (peer_handler cop2)" using inv2 by (simp_all add: cop_inv_def)
  have "\<exists>cop3 es. (if Writable \<in> events then ready_write S os t cop2 else Inr (cop2, [])) = Inr (cop3, es)"
    using assms(7) nolisten conn_writable_ok [OF ok2(1) assms(4), of t] conn_writable_ok [OF ok2(2) assms(4), of t]
    by (auto simp: ready_write_def Let_def)
  with c1 c2 show ?thesis by (auto simp: TrafficCop_ready_def)
qed

theorem ready_never_panics_witness:
  "\<exists>cop' es. TrafficCop_ready demo_slab_ops (demo_os [0, 0, 0, 1, 7]) mem_buf 2
     {Readable, Writable} demo_cop1 = Some (Inr (cop', es))"
  by (rule ready_never_panics [OF demo_slab_laws _ demo_cop1_reachable demo_os_ok])
     (simp_all add: buf_laws_mem os_registers_ok_def demo_os_def)

text \<open>C39. Clients beyond the token 4096 take the event loop down: when the slots up to it are taken, a client that is
  accepted next gets a token that the loop does not know, and its first request makes it panic.\<close>

theorem client_beyond_range_panics:
  assumes "slab_laws S" and "sl_range S (conns (cli_handler cop)) = (1024, 4096)"
    and "\<forall>t. 1024 \<le> unat t \<and> unat t \<le> 4096 \<longrightarrow> sl_get S (conns (cli_handler cop)) t \<noteq> None"
    and "TrafficCop_ready S os rd SERVER_CLIENTS {Readable} cop = Some (Inr (cop', es))" and "Register s t i \<in> set es"
  shows "TrafficCop_ready S os' rd t {Readable} cop' = Some (Inl (Explicit ''unknown token''))"
proof -
  obtain r cs where "ConnSet_accept S os (cli_handler cop) = Inr (r, cs, es)"
    using assms(4) by (auto simp: TrafficCop_ready_def ready_read_def SERVER_CLIENTS_def SERVER_PEERS_def)
  then obtain s' r' where reg: "ConnSet_register S os s' (cli_handler cop) = Inr (r', cs, es)"
    using assms(5) by (auto simp: ConnSet_accept_def split: sum.splits)
  have "4096 < unat t"
    using assms(1) reg
  proof (cases rule: ConnSet_register_cases)
    case full
    then show ?thesis using assms(5) by simp
  next
    case (slot t')
    then have t: "t = t'" using assms(5) by simp
    have "1024 \<le> unat t" using slot(4) unfolding t assms(2) by (simp add: in_slots_def)
    then show ?thesis using slot(3) assms(3) unfolding t by (meson not_less)
  qed
  then show ?thesis by (auto simp: TrafficCop_ready_def ready_read_def SERVER_CLIENTS_def SERVER_PEERS_def Let_def)
qed

theorem client_beyond_range_panics_witness:
  "\<exists>cop' es t. TrafficCop_ready demo_slab_ops (demo_os []) mem_buf SERVER_CLIENTS {Readable}
       (demo_cop0\<lparr>cli_handler := (cli_handler demo_cop0)\<lparr>conns :=
          ((1024, 4096), \<lambda>t. if unat t \<le> 4096 then Some (ServerConn_new 9 CliReqs\<lparr>token := Some t\<rparr>) else None)\<rparr>\<rparr>) = Some (Inr (cop', es)) \<and>
     TrafficCop_ready demo_slab_ops (demo_os []) mem_buf t {Readable} cop' =
       Some (Inl (Explicit ''unknown token''))"
proof -
  let ?slots = "((1024, 4096), \<lambda>t. if unat t \<le> 4096 then Some (ServerConn_new 9 CliReqs\<lparr>token := Some t\<rparr>) else None) :: demo_slab"
  let ?cop = "demo_cop0\<lparr>cli_handler := (cli_handler demo_cop0)\<lparr>conns := ?slots\<rparr>\<rparr>"
  have "in_slots (sl_range demo_slab_ops ?slots) 4097" "sl_get demo_slab_ops ?slots 4097 = None"
    by (simp_all add: demo_slab_ops_def in_slots_def)
  then obtain t slots' where ins: "sl_insert demo_slab_ops ?slots (ServerConn_new 10 CliReqs) = Some (t, slots')"
    using slab_full [OF demo_slab_laws] by blast
  have get: "sl_get demo_slab_ops slots' t = Some (ServerConn_new 10 CliReqs)"
    using slab_insert(3) [OF demo_slab_laws ins, of t] by simp
  obtain cop' es where r: "TrafficCop_ready demo_slab_ops (demo_os []) mem_buf SERVER_CLIENTS {Readable} ?cop = Some (Inr (cop', es))"
    and reg: "Register 10 t {Readable} \<in> set es"
    using ins get by (simp add: TrafficCop_ready_def ready_read_def SERVER_CLIENTS_def SERVER_PEERS_def ConnSet_accept_def
        ConnSet_register_def slab_index_def Let_def demo_cop0_def demo_os_def)
  have occ: "\<forall>t. 1024 \<le> unat t \<and> unat t \<le> 4096 \<longrightarrow> sl_get demo_slab_ops (conns (cli_handler ?cop)) t \<noteq> None"
    by (simp add: demo_slab_ops_def in_slots_def)
  show ?thesis
    using r client_beyond_range_panics [OF demo_slab_laws _ occ r reg] by (auto simp: demo_slab_ops_def)
qed

end
