(* ===== verification/Rocksdb.thy ===== *)
theory Rocksdb
  imports Prelude
begin

text \<open>
  \<^verbatim>\<open>server/rocksdb.rs\<close>: how the store is opened, or created with its column families.
\<close>

section \<open>Opening the store\<close>

text \<open>What \<^verbatim>\<open>rocksdb.rs\<close> calls of RocksDB.\<close>

record 'db DbOps =
  open_cf :: "string \<Rightarrow> string list \<Rightarrow> string + 'db"
  open_plain :: "string \<Rightarrow> string + 'db"
  create_cf :: "'db \<Rightarrow> string \<Rightarrow> (string + unit) \<times> 'db"

definition rocksdb_new :: "'db DbOps \<Rightarrow> string \<Rightarrow> 'db res" where
  "rocksdb_new D storage_dir =
     (case open_cf D storage_dir [''storage'', ''local_meta''] of
        Inr d \<Rightarrow> Inr d
      | Inl _ \<Rightarrow>
          (case open_plain D storage_dir of
             Inr d \<Rightarrow>
               (let (r, d') = create_cf D d ''storage'' in
                and_then (unwrap_res r) (\<lambda>_.
                  let (r', d'') = create_cf D d' ''local_meta'' in
                  and_then (unwrap_res r') (\<lambda>_. Inr d'')))
           | Inl e \<Rightarrow> Inl (Explicit e)))"

text \<open>A store that is opened has both column families, when opening with families needs them and creating one adds it.\<close>

definition families_ok :: "'db DbOps \<Rightarrow> ('db \<Rightarrow> string set) \<Rightarrow> bool" where
  "families_ok D cfs \<longleftrightarrow>
     (\<forall>dir fs d. open_cf D dir fs = Inr d \<longrightarrow> set fs \<subseteq> cfs d) \<and>
     (\<forall>d f u d'. create_cf D d f = (Inr u, d') \<longrightarrow> cfs d' = insert f (cfs d))"

lemma rocksdb_new_families:
  assumes "families_ok D cfs" and "rocksdb_new D dir = Inr d"
  shows "{''storage'', ''local_meta''} \<subseteq> cfs d"
proof (cases "open_cf D dir [''storage'', ''local_meta'']")
  case (Inl e)
  then obtain d0 u d1 u' where c: "create_cf D d0 ''storage'' = (Inr u, d1)" "create_cf D d1 ''local_meta'' = (Inr u', d)"
    using assms(2) by (auto simp: rocksdb_new_def split: sum.splits prod.splits)
  have "cfs d1 = insert ''storage'' (cfs d0)" "cfs d = insert ''local_meta'' (cfs d1)"
    using assms(1) c unfolding families_ok_def by metis+
  then show ?thesis by simp
next
  case (Inr d0)
  then have "open_cf D dir [''storage'', ''local_meta''] = Inr d" using assms(2) by (simp add: rocksdb_new_def)
  then have "set [''storage'', ''local_meta''] \<subseteq> cfs d" using assms(1) unfolding families_ok_def by metis
  then show ?thesis by simp
qed

end
