(* ===== verification/Process.thy ===== *)
theory Process
  imports Replication_Safety Server_Total Traffic_Cop Rocksdb
begin

text \<open>
  \<^verbatim>\<open>Server::run\<close>: the whole process of a node.  The event loop runs in a thread of its own and hands
  requests to two handler threads over channels; these and the timer thread share the server behind a
  mutex; what the server sends goes back to the event loop over its notification channel.  The main
  thread waits for a worker to announce that it has ended.

  A turn of a thread is one step, since a handler keeps the mutex while it runs and the event loop sees
  of it only the messages that it sends.
\<close>

section \<open>State\<close>

datatype Thread = IoLoop | PeerHandler | CliHandler | Cron

datatype 'sl Io = Starting "'sl TrafficCop" | Looping "'sl TrafficCop" | Ended

text \<open>\<^verbatim>\<open>process::exit(1)\<close>, and the panic of the main thread.\<close>

datatype Halt = ExitOne | MainPanic

text \<open>A mutex without a value is poisoned: a thread has panicked while it held it. \<open>live\<close> has the handler threads
  that neither have ended nor panicked.\<close>

record ('db, 'sl) Process =
  io_loop :: "'sl Io"
  live :: "Thread set"
  peer_reqs :: "Envelope list"
  cli_reqs :: "Envelope list"
  notifications :: "Envelope list"
  server :: "'db Server option"
  thread_exit :: bool
  halted :: "Halt option"

section \<open>Start\<close>

text \<open>The results of \<^verbatim>\<open>thread::Builder::spawn\<close> are not looked at: a thread that could not be started is as one
  that is gone, without a message. \<open>loop_new\<close> is the result of \<^verbatim>\<open>EventLoop::new\<close>, \<open>i\<close> the fresh identifier.\<close>

definition Server_run ::
  "'db DbOps \<Rightarrow> 'sl SlabOps \<Rightarrow> Os \<Rightarrow> (string \<Rightarrow> SocketAddr option) \<Rightarrow> io \<Rightarrow> (Thread \<Rightarrow> io) \<Rightarrow> PeerID \<Rightarrow>
     u16 \<Rightarrow> u16 \<Rightarrow> string \<Rightarrow> string list \<Rightarrow> ('db, 'sl) Process res" where
  "Server_run D S os parse loop_new spawn i pport cport storage_dir ps =
     and_then (rocksdb_new D storage_dir) (\<lambda>d.
     and_then (TrafficCop_new S os parse pport cport ps) (\<lambda>tc.
     and_then (unwrap_res tc) (\<lambda>cop.
     and_then (unwrap_res loop_new) (\<lambda>_.
     and_then (unwrap_res (os_timer os)) (\<lambda>_.
       Inr \<lparr>io_loop = (if is_ok (spawn IoLoop) then Starting cop else Ended),
            live = {th. th \<noteq> IoLoop \<and> is_ok (spawn th)},
            peer_reqs = [], cli_reqs = [], notifications = [],
            server = Some (Server_init pport cport i ps d), thread_exit = False, halted = None\<rparr>)))))"

section \<open>Turns\<close>

text \<open>What can be observed of a turn.\<close>

datatype Obs =
    Arrived Chan Envelope
  | Handled "nat \<Rightarrow> Timespec" Event
  | Notified Envelope
  | Wrote sock bytes
  | Panicked Thread

text \<open>What the surroundings answer during a turn of a handler: the clock, whether the notification channel takes
  the \<open>i\<close>-th message (a full or closed one refuses it, and the error is dropped), and, should the handler panic, what it
  had sent by then.\<close>

record Turn =
  readings :: "nat \<Rightarrow> Timespec"
  accepts :: "nat \<Rightarrow> bool"
  sent_before :: "Envelope list"

definition send_msgs :: "(nat \<Rightarrow> bool) \<Rightarrow> Envelope list \<Rightarrow> Envelope list \<Rightarrow> Envelope list" where
  "send_msgs acc ms q = q @ map snd (filter (\<lambda>(i, m). acc i) (enumerate 0 ms))"

text \<open>The next request of a thread, taken from its channel.\<close>

fun request :: "Thread \<Rightarrow> ('db, 'sl) Process \<Rightarrow> (Event \<times> ('db, 'sl) Process) option" where
  "request PeerHandler p = (case peer_reqs p of [] \<Rightarrow> None | env # q \<Rightarrow> Some (PeerEvent env, p\<lparr>peer_reqs := q\<rparr>))"
| "request CliHandler p = (case cli_reqs p of [] \<Rightarrow> None | env # q \<Rightarrow> Some (CliEvent env, p\<lparr>cli_reqs := q\<rparr>))"
| "request Cron p = Some (CronEvent, p)"
| "request IoLoop p = None"

text \<open>A thread that ends or panics drops the receiver it owns.\<close>

fun drop_receiver :: "Thread \<Rightarrow> ('db, 'sl) Process \<Rightarrow> ('db, 'sl) Process" where
  "drop_receiver PeerHandler p = p\<lparr>peer_reqs := []\<rparr>"
| "drop_receiver CliHandler p = p\<lparr>cli_reqs := []\<rparr>"
| "drop_receiver th p = p"

definition leave :: "Thread \<Rightarrow> ('db, 'sl) Process \<Rightarrow> ('db, 'sl) Process" where
  "leave th p = (drop_receiver th p)\<lparr>live := live p - {th}\<rparr>"

text \<open>A turn of a handler thread. It has none while its channel is empty; when the senders are gone too, its loop ends
  and it tells the main thread.\<close>

definition handler_turn ::
  "'db Ext \<Rightarrow> Thread \<Rightarrow> Turn \<Rightarrow> ('db, 'sl) Process \<Rightarrow> (('db, 'sl) Process \<times> Obs list) option" where
  "handler_turn E th t p =
     (if th \<notin> live p then None
      else case request th p of
        None \<Rightarrow> if io_loop p = Ended then Some ((leave th p)\<lparr>thread_exit := True\<rparr>, []) else None
      | Some (ev, p1) \<Rightarrow>
          (case server p1 of
             None \<Rightarrow> Some (p\<lparr>halted := Some ExitOne\<rparr>, [])
           | Some s \<Rightarrow>
               (case server_step E (readings t) ev s of
                  Inl _ \<Rightarrow> Some ((leave th p1)\<lparr>server := None, notifications := notifications p @ sent_before t\<rparr>, [Panicked th])
                | Inr s' \<Rightarrow>
                    Some (p1\<lparr>server := Some s',
                             notifications := send_msgs (accepts t) (drop (length (outbox s)) (outbox s')) (notifications p)\<rparr>,
                          [Handled (readings t) ev]))))"

text \<open>Requests that the event loop hands over; a channel whose receiver is gone refuses them, and the error is dropped.\<close>

definition requests_on :: "Chan \<Rightarrow> Effect list \<Rightarrow> Envelope list" where
  "requests_on ch es = concat (map (\<lambda>e. case e of Queue c env \<Rightarrow> if c = ch then [env] else [] | _ \<Rightarrow> []) es)"

definition deliver :: "Effect list \<Rightarrow> ('db, 'sl) Process \<Rightarrow> ('db, 'sl) Process" where
  "deliver es p =
     p\<lparr>peer_reqs := peer_reqs p @ (if PeerHandler \<in> live p then requests_on PeerReqs es else []),
       cli_reqs := cli_reqs p @ (if CliHandler \<in> live p then requests_on CliReqs es else [])\<rparr>"

fun obs_sent :: "Effect \<Rightarrow> Obs list" where
  "obs_sent (Sent k b) = [Wrote k b]"
| "obs_sent _ = []"

definition loop_obs :: "Effect list \<Rightarrow> Obs list" where
  "loop_obs es = map (Arrived PeerReqs) (requests_on PeerReqs es) @ map (Arrived CliReqs) (requests_on CliReqs es) @
     concat (map obs_sent es)"

text \<open>The event loop: the registrations, then one event after the other; a notification is the first one queued. When
  the thread panics, the handler of the loop is dropped with every sender it owns.\<close>

definition io_start :: "Os \<Rightarrow> ('db, 'sl) Process \<Rightarrow> (('db, 'sl) Process \<times> Obs list) option" where
  "io_start os p =
     (case io_loop p of
        Starting cop \<Rightarrow>
          (case run_event_loop os cop of
             Inl _ \<Rightarrow> Some (p\<lparr>io_loop := Ended\<rparr>, [Panicked IoLoop])
           | Inr _ \<Rightarrow> Some (p\<lparr>io_loop := Looping cop\<rparr>, []))
      | _ \<Rightarrow> None)"

fun take_event :: "Cop_Event \<Rightarrow> ('db, 'sl) Process \<Rightarrow> (('db, 'sl) Process \<times> Obs list) option" where
  "take_event (EvNotify env) p =
     (case notifications p of
        [] \<Rightarrow> None
      | m # q \<Rightarrow> if m = env then Some (p\<lparr>notifications := q\<rparr>, [Notified env]) else None)"
| "take_event ev p = Some (p, [])"

definition io_turn ::
  "'sl SlabOps \<Rightarrow> BufOps \<Rightarrow> Os \<Rightarrow> Cop_Event \<Rightarrow> ('db, 'sl) Process \<Rightarrow> (('db, 'sl) Process \<times> Obs list) option" where
  "io_turn S rd os ev p =
     (case (io_loop p, take_event ev p) of
        (Looping cop, Some (p1, os1)) \<Rightarrow>
          (case cop_step S os rd ev cop of
             None \<Rightarrow> None
           | Some (Inl _) \<Rightarrow> Some (p1\<lparr>io_loop := Ended\<rparr>, os1 @ [Panicked IoLoop])
           | Some (Inr (cop', es)) \<Rightarrow> Some (deliver es (p1\<lparr>io_loop := Looping cop'\<rparr>), os1 @ loop_obs es))
      | _ \<Rightarrow> None)"

text \<open>When the loop of mio returns, an error makes the thread panic; otherwise it tells the main thread.\<close>

definition io_return :: "io \<Rightarrow> ('db, 'sl) Process \<Rightarrow> (('db, 'sl) Process \<times> Obs list) option" where
  "io_return r p =
     (case io_loop p of
        Looping cop \<Rightarrow>
          (case r of
             Inl _ \<Rightarrow> Some (p\<lparr>io_loop := Ended\<rparr>, [Panicked IoLoop])
           | Inr _ \<Rightarrow> Some (p\<lparr>io_loop := Ended, thread_exit := True\<rparr>, []))
      | _ \<Rightarrow> None)"

definition main_turn :: "('db, 'sl) Process \<Rightarrow> (('db, 'sl) Process \<times> Obs list) option" where
  "main_turn p = (if thread_exit p then Some (p\<lparr>halted := Some MainPanic\<rparr>, []) else None)"

datatype Sched = IoStart Os | IoTurn Os Cop_Event | IoReturn io | HandlerTurn Thread Turn | MainTurn

fun proc_turn ::
  "'db Ext \<Rightarrow> 'sl SlabOps \<Rightarrow> BufOps \<Rightarrow> Sched \<Rightarrow> ('db, 'sl) Process \<Rightarrow> (('db, 'sl) Process \<times> Obs list) option" where
  "proc_turn E S rd (IoStart os) p = io_start os p"
| "proc_turn E S rd (IoTurn os ev) p = io_turn S rd os ev p"
| "proc_turn E S rd (IoReturn r) p = io_return r p"
| "proc_turn E S rd (HandlerTurn th t) p = handler_turn E th t p"
| "proc_turn E S rd MainTurn p = main_turn p"

definition proc_step ::
  "'db Ext \<Rightarrow> 'sl SlabOps \<Rightarrow> BufOps \<Rightarrow> Sched \<Rightarrow> ('db, 'sl) Process \<Rightarrow> (('db, 'sl) Process \<times> Obs list) option" where
  "proc_step E S rd ev p = (if halted p = None then proc_turn E S rd ev p else None)"

fun sched_ok :: "Sched \<Rightarrow> bool" where
  "sched_ok (IoTurn os ev) = os_writes_ok os"
| "sched_ok _ = True"

inductive proc_run ::
  "'db Ext \<Rightarrow> 'sl SlabOps \<Rightarrow> BufOps \<Rightarrow> ('db, 'sl) Process \<Rightarrow> Obs list \<Rightarrow> ('db, 'sl) Process \<Rightarrow> bool" for E S rd p0 where
  start: "proc_run E S rd p0 [] p0"
| turn: "proc_run E S rd p0 tr p \<Longrightarrow> sched_ok ev \<Longrightarrow> proc_step E S rd ev p = Some (p', obs) \<Longrightarrow> proc_run E S rd p0 (tr @ obs) p'"

text \<open>A schedule, in which a thread that cannot move is passed over.\<close>

definition turns :: "'db Ext \<Rightarrow> 'sl SlabOps \<Rightarrow> BufOps \<Rightarrow> Sched list \<Rightarrow> ('db, 'sl) Process \<Rightarrow> ('db, 'sl) Process" where
  "turns E S rd evs p = fold (\<lambda>ev p. case proc_step E S rd ev p of None \<Rightarrow> p | Some (p', _) \<Rightarrow> p') evs p"


section \<open>The process is the server fed from its channels\<close>

text \<open>What a run has handed over, handled and passed to the event loop.\<close>

fun obs_arrived :: "Chan \<Rightarrow> Obs \<Rightarrow> Envelope list" where
  "obs_arrived ch (Arrived c env) = (if c = ch then [env] else [])"
| "obs_arrived ch _ = []"

fun obs_handled :: "Obs \<Rightarrow> ((nat \<Rightarrow> Timespec) \<times> Event) list" where
  "obs_handled (Handled now ev) = [(now, ev)]"
| "obs_handled _ = []"

fun obs_notified :: "Obs \<Rightarrow> Envelope list" where
  "obs_notified (Notified env) = [env]"
| "obs_notified _ = []"

fun event_on :: "Chan \<Rightarrow> Event \<Rightarrow> Envelope list" where
  "event_on PeerReqs (PeerEvent env) = [env]"
| "event_on CliReqs (CliEvent env) = [env]"
| "event_on _ _ = []"

definition arrived :: "Chan \<Rightarrow> Obs list \<Rightarrow> Envelope list" where
  "arrived ch tr = concat (map (obs_arrived ch) tr)"

definition handled :: "Obs list \<Rightarrow> ((nat \<Rightarrow> Timespec) \<times> Event) list" where
  "handled tr = concat (map obs_handled tr)"

definition handled_on :: "Chan \<Rightarrow> Obs list \<Rightarrow> Envelope list" where
  "handled_on ch tr = concat (map (event_on ch \<circ> snd) (handled tr))"

definition notified :: "Obs list \<Rightarrow> Envelope list" where
  "notified tr = concat (map obs_notified tr)"

lemmas obs_defs = arrived_def handled_def handled_on_def notified_def

lemma obs_append [simp]:
  "arrived ch (tr @ obs) = arrived ch tr @ arrived ch obs" "handled (tr @ obs) = handled tr @ handled obs"
  "handled_on ch (tr @ obs) = handled_on ch tr @ handled_on ch obs" "notified (tr @ obs) = notified tr @ notified obs"
  by (simp_all add: obs_defs)

lemma obs_nil [simp]: "arrived ch [] = []" "handled [] = []" "handled_on ch [] = []" "notified [] = []"
  by (simp_all add: obs_defs)

lemma obs_single [simp]:
  "arrived ch [ob] = obs_arrived ch ob" "handled [ob] = obs_handled ob" "notified [ob] = obs_notified ob"
  "handled_on ch [ob] = concat (map (event_on ch \<circ> snd) (obs_handled ob))"
  by (simp_all add: obs_defs)

lemma obs_wrote [simp]:
  "arrived ch (concat (map obs_sent es)) = []" "handled (concat (map obs_sent es)) = []"
  "handled_on ch (concat (map obs_sent es)) = []" "notified (concat (map obs_sent es)) = []"
proof -
  have e: "arrived ch (obs_sent e) = [] \<and> handled (obs_sent e) = [] \<and> handled_on ch (obs_sent e) = [] \<and> notified (obs_sent e) = []" for e
    by (cases e) simp_all
  show "arrived ch (concat (map obs_sent es)) = []" "handled (concat (map obs_sent es)) = []"
    "handled_on ch (concat (map obs_sent es)) = []" "notified (concat (map obs_sent es)) = []"
    using e by (induction es) simp_all
qed

lemma obs_loop [simp]:
  "arrived ch (loop_obs es) = requests_on ch es" "handled (loop_obs es) = []" "handled_on ch (loop_obs es) = []"
  "notified (loop_obs es) = []"
  unfolding loop_obs_def obs_append obs_wrote by (cases ch; simp add: obs_defs comp_def)+

lemma loop_no_panic [simp]: "Panicked th \<notin> set (loop_obs es)"
proof -
  have "Panicked th \<notin> set (obs_sent e)" for e by (cases e) simp_all
  then show ?thesis by (auto simp: loop_obs_def)
qed

text \<open>The events of a run, one after the other, on the server alone.\<close>

abbreviation server_run :: "'db Ext \<Rightarrow> ((nat \<Rightarrow> Timespec) \<times> Event) list \<Rightarrow> 'db Server \<Rightarrow> 'db Server res" where
  "server_run E \<equiv> fold_res (\<lambda>(now, ev). server_step E now ev)"

lemma server_run_reachable: "server_run E evs s = Inr s' \<Longrightarrow> reachable E s \<Longrightarrow> reachable E s'"
  by (erule fold_res_invariant) (auto intro: reachable.step)

lemma send_msgs_subseq: "\<exists>sub. send_msgs acc ms q = q @ sub \<and> subseq sub ms"
proof -
  have "subseq (map snd (filter (\<lambda>(i, m). acc i) (enumerate 0 ms))) (map snd (enumerate 0 ms))"
    by (intro subseq_map subseq_filter_left)
  then show ?thesis unfolding send_msgs_def by auto
qed

fun cop_of :: "'sl Io \<Rightarrow> 'sl TrafficCop option" where
  "cop_of (Starting cop) = Some cop"
| "cop_of (Looping cop) = Some cop"
| "cop_of Ended = None"

definition follows :: "'db Ext \<Rightarrow> 'sl SlabOps \<Rightarrow> BufOps \<Rightarrow> 'db Server \<Rightarrow> Obs list \<Rightarrow> ('db, 'sl) Process \<Rightarrow> bool" where
  "follows E S rd s0 tr p \<longleftrightarrow>
     (\<forall>s. server p = Some s \<longrightarrow> server_run E (handled tr) s0 = Inr s \<and> subseq (notified tr @ notifications p) (outbox s)) \<and>
     (PeerHandler \<in> live p \<longrightarrow> arrived PeerReqs tr = handled_on PeerReqs tr @ peer_reqs p) \<and>
     (CliHandler \<in> live p \<longrightarrow> arrived CliReqs tr = handled_on CliReqs tr @ cli_reqs p) \<and>
     (\<forall>cop. cop_of (io_loop p) = Some cop \<longrightarrow> cop_reachable S rd cop)"

text \<open>The ways a handler thread can move.\<close>

lemma handler_turn_cases:
  assumes "handler_turn E th t p = Some (p', obs)"
  obtains (ends) "request th p = None" "io_loop p = Ended" "th \<in> live p" "p' = (leave th p)\<lparr>thread_exit := True\<rparr>" "obs = []"
    | (exits) ev p1 where "request th p = Some (ev, p1)" "th \<in> live p" "server p = None" "p' = p\<lparr>halted := Some ExitOne\<rparr>" "obs = []"
    | (panics) ev p1 s x where "request th p = Some (ev, p1)" "th \<in> live p" "server p = Some s"
        "server_step E (readings t) ev s = Inl x" "obs = [Panicked th]"
        "p' = (leave th p1)\<lparr>server := None, notifications := notifications p @ sent_before t\<rparr>"
    | (handles) ev p1 s s' where "request th p = Some (ev, p1)" "th \<in> live p" "server p = Some s"
        "server_step E (readings t) ev s = Inr s'" "obs = [Handled (readings t) ev]"
        "p' = p1\<lparr>server := Some s',
           notifications := send_msgs (accepts t) (drop (length (outbox s)) (outbox s')) (notifications p)\<rparr>"
proof -
  have live: "th \<in> live p" using assms by (simp add: handler_turn_def split: if_splits)
  show ?thesis
  proof (cases "request th p")
    case None
    then show ?thesis using assms live ends by (simp add: handler_turn_def split: if_splits)
  next
    case (Some r)
    obtain ev p1 where r: "request th p = Some (ev, p1)" using Some by (cases r) simp
    then have sv: "server p1 = server p" by (cases th) (auto split: list.splits)
    show ?thesis
    proof (cases "server p")
      case None
      then show ?thesis using assms live r sv exits by (simp add: handler_turn_def)
    next
      case (Some s)
      show ?thesis
      proof (cases "server_step E (readings t) ev s")
        case (Inl x)
        then show ?thesis using assms live r sv Some panics by (simp add: handler_turn_def)
      next
        case (Inr s')
        then show ?thesis using assms live r sv Some handles by (simp add: handler_turn_def)
      qed
    qed
  qed
qed


lemma leave_simps [simp]:
  "live (leave th p) = live p - {th}" "server (leave th p) = server p" "io_loop (leave th p) = io_loop p"
  "notifications (leave th p) = notifications p" "thread_exit (leave th p) = thread_exit p" "halted (leave th p) = halted p"
  "th \<noteq> PeerHandler \<Longrightarrow> peer_reqs (leave th p) = peer_reqs p" "th \<noteq> CliHandler \<Longrightarrow> cli_reqs (leave th p) = cli_reqs p"
  by (cases th; simp add: leave_def)+

text \<open>Taking a request touches its channel only.\<close>

lemma request_Some:
  assumes "request th p = Some (ev, p1)"
  shows "live p1 = live p \<and> io_loop p1 = io_loop p \<and> server p1 = server p \<and> notifications p1 = notifications p \<and>
    thread_exit p1 = thread_exit p \<and> halted p1 = halted p \<and>
    peer_reqs p = event_on PeerReqs ev @ peer_reqs p1 \<and> cli_reqs p = event_on CliReqs ev @ cli_reqs p1"
  using assms by (cases th) (auto split: list.splits)

lemma follows_handler:
  assumes "follows E S rd s0 tr p" and "handler_turn E th t p = Some (p', obs)"
  shows "follows E S rd s0 (tr @ obs) p'"
  using assms(2)
proof (cases rule: handler_turn_cases)
  case ends
  then show ?thesis using assms(1) by (cases th) (auto simp: follows_def)
next
  case exits
  then show ?thesis using assms(1) by (simp add: follows_def)
next
  case (panics ev p1 s x)
  note r = request_Some [OF panics(1)]
  have "th = PeerHandler \<or> event_on PeerReqs ev = []" "th = CliHandler \<or> event_on CliReqs ev = []"
    using panics(1) by (cases th; auto split: list.splits)+
  then show ?thesis using assms(1) r panics by (auto simp: follows_def)
next
  case (handles ev p1 s s')
  note r = request_Some [OF handles(1)]
  obtain envs where envs: "outbox s' = outbox s @ envs" using server_step_outbox [OF handles(4)] by blast
  obtain sub where sub: "send_msgs (accepts t) envs (notifications p) = notifications p @ sub" "subseq sub envs"
    using send_msgs_subseq by blast
  have s: "server_run E (handled tr) s0 = Inr s" "subseq (notified tr @ notifications p) (outbox s)"
    using assms(1) handles(3) by (simp_all add: follows_def)
  have "subseq (notified tr @ notifications p @ sub) (outbox s @ envs)"
    using list_emb_append_mono [OF s(2) sub(2)] by simp
  then show ?thesis using assms(1) r handles s envs sub by (auto simp: follows_def fold_res_append)
qed

lemma take_event_Some:
  assumes "take_event ev p = Some (p1, obs)"
  shows "live p1 = live p \<and> server p1 = server p \<and> peer_reqs p1 = peer_reqs p \<and> cli_reqs p1 = cli_reqs p \<and>
    thread_exit p1 = thread_exit p \<and> halted p1 = halted p \<and> io_loop p1 = io_loop p \<and>
    notifications p = notified obs @ notifications p1 \<and> arrived ch obs = [] \<and> handled obs = [] \<and> handled_on ch obs = []"
  using assms by (cases ev) (auto split: list.splits if_splits)

lemma io_turn_cases:
  assumes "io_turn S rd os ev p = Some (p', obs)"
  obtains (panics) cop p1 os1 x where "io_loop p = Looping cop" "take_event ev p = Some (p1, os1)"
      "cop_step S os rd ev cop = Some (Inl x)" "p' = p1\<lparr>io_loop := Ended\<rparr>" "obs = os1 @ [Panicked IoLoop]"
    | (moves) cop p1 os1 cop' es where "io_loop p = Looping cop" "take_event ev p = Some (p1, os1)"
      "cop_step S os rd ev cop = Some (Inr (cop', es))" "p' = deliver es (p1\<lparr>io_loop := Looping cop'\<rparr>)" "obs = os1 @ loop_obs es"
proof -
  obtain cop p1 os1 where c: "io_loop p = Looping cop" "take_event ev p = Some (p1, os1)"
    using assms by (auto simp: io_turn_def split: Io.splits option.splits)
  then obtain r where r: "cop_step S os rd ev cop = Some r" using assms by (auto simp: io_turn_def split: option.splits)
  show ?thesis
  proof (cases r)
    case (Inl x)
    then show ?thesis using assms c r panics by (simp add: io_turn_def)
  next
    case (Inr y)
    then show ?thesis using assms c r moves by (cases y) (simp add: io_turn_def)
  qed
qed

lemma follows_io:
  assumes "follows E S rd s0 tr p" and "os_writes_ok os" and "io_turn S rd os ev p = Some (p', obs)"
  shows "follows E S rd s0 (tr @ obs) p'"
  using assms(3)
proof (cases rule: io_turn_cases)
  case (panics cop p1 os1 x)
  note t = take_event_Some [OF panics(2)]
  show ?thesis using assms(1) t panics by (simp add: follows_def)
next
  case (moves cop p1 os1 cop' es)
  note t = take_event_Some [OF moves(2)]
  have "cop_reachable S rd cop" using assms(1) moves(1) by (simp add: follows_def)
  then have "cop_reachable S rd cop'" using assms(2) moves(3) by (rule cop_reachable.Step)
  then show ?thesis using assms(1) t moves by (auto simp: follows_def deliver_def)
qed

lemma follows_step:
  assumes "follows E S rd s0 tr p" and "sched_ok ev" and "proc_step E S rd ev p = Some (p', obs)"
  shows "follows E S rd s0 (tr @ obs) p'"
proof -
  have st: "proc_turn E S rd ev p = Some (p', obs)" using assms(3) by (simp add: proc_step_def split: if_splits)
  show ?thesis
  proof (cases ev)
    case (IoStart os)
    then show ?thesis using assms(1) st by (auto simp: follows_def io_start_def split: Io.splits sum.splits)
  next
    case (IoTurn os e)
    then show ?thesis using assms st by (auto intro: follows_io)
  next
    case (IoReturn r)
    then show ?thesis using assms(1) st by (auto simp: follows_def io_return_def split: Io.splits sum.splits)
  next
    case (HandlerTurn th t)
    then show ?thesis using assms(1) st by (auto intro: follows_handler)
  next
    case MainTurn
    then show ?thesis using assms(1) st by (auto simp: follows_def main_turn_def split: if_splits)
  qed
qed

lemma Server_run_Inr:
  assumes "Server_run D S os parse loop_new spawn i pport cport dir ps = Inr p"
  obtains d cop where "rocksdb_new D dir = Inr d" "TrafficCop_new S os parse pport cport ps = Inr (Inr cop)"
    "p = \<lparr>io_loop = (if is_ok (spawn IoLoop) then Starting cop else Ended),
          live = {th. th \<noteq> IoLoop \<and> is_ok (spawn th)}, peer_reqs = [], cli_reqs = [], notifications = [],
          server = Some (Server_init pport cport i ps d), thread_exit = False, halted = None\<rparr>"
  using assms by (auto simp: Server_run_def)

lemma proc_run_follows:
  assumes "proc_run E S rd p0 tr p" and "follows E S rd s0 [] p0"
  shows "follows E S rd s0 tr p"
  using assms(1) by induction (use assms(2) in \<open>auto intro: follows_step\<close>)

text \<open>What the development shows of reachable servers and event loops holds in every process.\<close>

lemma Server_run_follows:
  assumes "Server_run D S os parse loop_new spawn i pport cport dir ps = Inr p0"
  shows "\<exists>d. rocksdb_new D dir = Inr d \<and> follows E S rd (Server_init pport cport i ps d) [] p0"
proof -
  from assms obtain d cop where d: "rocksdb_new D dir = Inr d" "TrafficCop_new S os parse pport cport ps = Inr (Inr cop)"
    "p0 = \<lparr>io_loop = (if is_ok (spawn IoLoop) then Starting cop else Ended),
          live = {th. th \<noteq> IoLoop \<and> is_ok (spawn th)}, peer_reqs = [], cli_reqs = [], notifications = [],
          server = Some (Server_init pport cport i ps d), thread_exit = False, halted = None\<rparr>"
    by (rule Server_run_Inr)
  have "follows E S rd (Server_init pport cport i ps d) [] p0"
    using cop_reachable.New [OF d(2), of rd] unfolding d(3) by (simp add: follows_def)
  then show ?thesis using d(1) by blast
qed

lemma process_reachable:
  assumes "Server_run D S os parse loop_new spawn i pport cport dir ps = Inr p0" and "proc_run E S rd p0 tr p"
  shows "server p = Some s \<Longrightarrow> reachable E s" and "cop_of (io_loop p) = Some cop \<Longrightarrow> cop_reachable S rd cop"
proof -
  obtain d where "follows E S rd (Server_init pport cport i ps d) tr p"
    using Server_run_follows [OF assms(1)] proc_run_follows [OF assms(2)] by blast
  then show "server p = Some s \<Longrightarrow> reachable E s" "cop_of (io_loop p) = Some cop \<Longrightarrow> cop_reachable S rd cop"
    using server_run_reachable [OF _ reachable.start] by (auto simp: follows_def)
qed

section \<open>A process that starts, connects and reads a request\<close>

definition demo_db_ops :: "(bytes \<Rightarrow> bytes option) DbOps" where
  "demo_db_ops = \<lparr>open_cf = \<lambda>_ _. Inr Map.empty, open_plain = \<lambda>_. Inr Map.empty, create_cf = \<lambda>d _. (Inr (), d)\<rparr>"

abbreviation demo_process_server :: "(bytes \<Rightarrow> bytes option) Server" where
  "demo_process_server \<equiv> Server_init 7770 7778 ''a'' [''127.0.0.1:7771''] Map.empty"

definition demo_process :: "demo_slab Io \<Rightarrow> Envelope list \<Rightarrow> (bytes \<Rightarrow> bytes option, demo_slab) Process" where
  "demo_process io q = \<lparr>io_loop = io, live = {PeerHandler, CliHandler, Cron}, peer_reqs = q, cli_reqs = [], notifications = [],
     server = Some demo_process_server, thread_exit = False, halted = None\<rparr>"

abbreviation demo_Server_run :: "(bytes \<Rightarrow> bytes option, demo_slab) Process res" where
  "demo_Server_run \<equiv> Server_run demo_db_ops demo_slab_ops (demo_os []) (\<lambda>_. Some ([127, 0, 0, 1], 7771)) (Inr ()) (\<lambda>_. Inr ()) ''a''
     7770 7778 ''/var/lib/rasputin'' [''127.0.0.1:7771'']"

lemma demo_Server_run_eq: "demo_Server_run = Inr (demo_process (Starting demo_cop0) [])"
proof -
  have "{th. th \<noteq> IoLoop} = {PeerHandler, CliHandler, Cron}" using Thread.exhaust by auto
  then show ?thesis
    by (simp add: Server_run_def demo_db_ops_def rocksdb_new_def demo_cop0_new demo_process_def)
       (simp add: demo_os_def)
qed

text \<open>One frame that is read whole is one request.\<close>

lemma ServerConn_readable_one:
  assumes "buf_laws rd" and "framed_inv (req_codec c)" and "framed_bytes (req_codec c) = []" and "token c = Some t"
    and "os_read os (sock c) 1024 = Inr (Some (frame b))" and "length b < 2 ^ 32" and "os_peer_addr os (sock c) = Inr a"
  shows "\<exists>f. ServerConn_readable os rd c = Some (Inr (os_reregister os (sock c) t, c\<lparr>req_codec := f\<rparr>,
      [Queue (req_tx c) \<lparr>address = Some a, tok = t, msg = b\<rparr>, Reregister (sock c) t (interest c)])) \<and>
    framed_inv f \<and> framed_bytes f = []"
proof -
  have "parse_frames (frame b) = ([b], [])" using parse_frames_concat [of "[b]"] assms(6) by simp
  then obtain f where "Framed_decode rd (req_codec c) (frame b) = Some (Inr (f, [], [b]))" "framed_inv f" "framed_bytes f = []"
    using decode_loop_memory [OF assms(1,2), of "frame b" "[]"] assms(3) by (auto simp: Framed_decode_def)
  then show ?thesis using assms by (intro exI [of _ f]) (simp add: ServerConn_readable_def decode_requests_def reregister_conn_def)
qed

lemma demo_process_reads:
  "\<exists>cop env. proc_run E demo_slab_ops mem_buf (demo_process (Starting demo_cop0) []) [Arrived PeerReqs env]
     (demo_process (Looping cop) [env]) \<and> msg env = [7]"
proof -
  let ?P = "proc_run E demo_slab_ops mem_buf (demo_process (Starting demo_cop0) [])"
  let ?c = "ServerConn_new 20 PeerReqs\<lparr>token := Some 2\<rparr>" and ?os = "demo_os [0, 0, 0, 1, 7]"
  have "proc_step E demo_slab_ops mem_buf (IoStart (demo_os [])) (demo_process (Starting demo_cop0) []) =
      Some (demo_process (Looping demo_cop0) [], [])"
    by (simp add: proc_step_def io_start_def demo_process_def run_event_loop_def demo_os_def)
  then have r1: "?P [] (demo_process (Looping demo_cop0) [])" using proc_run.turn [OF proc_run.start, of "IoStart (demo_os [])"] by simp
  have "proc_step E demo_slab_ops mem_buf (IoTurn (demo_os []) EvTimeout) (demo_process (Looping demo_cop0) []) =
      Some (demo_process (Looping demo_cop1) [], [])"
    by (simp add: proc_step_def io_turn_def demo_process_def demo_cop1_timeout deliver_def requests_on_def loop_obs_def)
  then have r2: "?P [] (demo_process (Looping demo_cop1) [])" using proc_run.turn [OF r1, of "IoTurn (demo_os []) EvTimeout"] by simp
  let ?env = "\<lparr>address = Some ([127, 0, 0, 1], 7770), tok = 2, msg = [7]\<rparr>" and ?re = "Reregister 20 2 {Hup}"
  have "frame [7] = [0, 0, 0, 1, 7]" by (simp add: frame_def usize_to_array_def)
  then obtain c' where c': "ServerConn_readable ?os mem_buf ?c = Some (Inr (Inr (), c', [Queue PeerReqs ?env, ?re]))"
    using ServerConn_readable_one [of mem_buf ?c 2 ?os "[7]" "([127, 0, 0, 1], 7770)"]
    by (auto simp: ServerConn_new_def demo_os_def)
  let ?cop = "demo_cop1\<lparr>peer_handler := (peer_handler demo_cop1)\<lparr>conns := sl_set demo_slab_ops (conns (peer_handler demo_cop1)) 2 c'\<rparr>\<rparr>"
  have g: "sl_get demo_slab_ops (conns (peer_handler demo_cop1)) 2 = Some ?c"
    by (simp add: demo_slab_ops_def demo_cop1_def in_slots_def)
  have "TrafficCop_ready demo_slab_ops ?os mem_buf 2 {Readable} demo_cop1 = Some (Inr (?cop, [Queue PeerReqs ?env, ?re]))"
    by (simp add: TrafficCop_ready_def ready_read_def SERVER_PEERS_def SERVER_CLIENTS_def conn_readable_def g c' Let_def)
  then have "proc_step E demo_slab_ops mem_buf (IoTurn ?os (EvReady 2 {Readable})) (demo_process (Looping demo_cop1) []) =
      Some (demo_process (Looping ?cop) [?env], [Arrived PeerReqs ?env])"
    by (simp add: proc_step_def io_turn_def demo_process_def deliver_def loop_obs_def requests_on_def)
  then have "?P ([] @ [Arrived PeerReqs ?env]) (demo_process (Looping ?cop) [?env])"
    using proc_run.turn [OF r2, of "IoTurn ?os (EvReady 2 {Readable})"] by simp
  then show ?thesis by (intro exI [of _ ?cop] exI [of _ ?env]) simp
qed

lemma demo_process_cron:
  "\<exists>s'. server_step (mem_ext [] []) demo_now CronEvent demo_process_server = Inr s'"
  by (simp add: server_step_def cron_def become_candidate_def Server_init_def checked_add_def
      demo_now_def LEADER_DURATION_def peer_broadcast_def PeerMsg_is_initialized_def vote_request_def PeerMsg_accessors)

section \<open>Property\<close>

text \<open>C7. A process is its server fed from the channels: whatever the threads and the network do, the state in the mutex is the
  initial state after the handled requests and timer events one after the other, the requests of peers and of clients are each
  handled in the order in which they arrived, and what the event loop has been asked to send, or will be, are messages that the
  server has sent, in that order and each at most once. The event loop is one that its events can reach.\<close>

theorem process_refines_server:
  assumes "Server_run D S os parse loop_new spawn i pport cport dir ps = Inr p0" and "proc_run E S rd p0 tr p"
  shows "\<exists>d. rocksdb_new D dir = Inr d \<and>
    (\<forall>s. server p = Some s \<longrightarrow> server_run E (handled tr) (Server_init pport cport i ps d) = Inr s \<and>
       subseq (notified tr @ notifications p) (outbox s)) \<and>
    (PeerHandler \<in> live p \<longrightarrow> arrived PeerReqs tr = handled_on PeerReqs tr @ peer_reqs p) \<and>
    (CliHandler \<in> live p \<longrightarrow> arrived CliReqs tr = handled_on CliReqs tr @ cli_reqs p) \<and>
    (\<forall>cop. cop_of (io_loop p) = Some cop \<longrightarrow> cop_reachable S rd cop)"
  using Server_run_follows [OF assms(1)] proc_run_follows [OF assms(2)] unfolding follows_def by metis

theorem process_refines_server_witness:
  "\<exists>p0 tr p s. demo_Server_run = Inr p0 \<and> proc_run (mem_ext [] []) demo_slab_ops mem_buf p0 tr p \<and>
     handled tr = [(demo_now, CronEvent)] \<and> server p = Some s \<and> length (arrived PeerReqs tr) = 1 \<and>
     server_run (mem_ext [] []) [(demo_now, CronEvent)] demo_process_server = Inr s \<and> length (peer_reqs p) = 1"
proof -
  let ?E = "mem_ext [] []" and ?t = "\<lparr>readings = demo_now, accepts = \<lambda>_. True, sent_before = []\<rparr>"
  obtain cop env where r: "proc_run ?E demo_slab_ops mem_buf (demo_process (Starting demo_cop0) []) [Arrived PeerReqs env]
      (demo_process (Looping cop) [env])" using demo_process_reads by blast
  obtain s where s: "server_step ?E demo_now CronEvent demo_process_server = Inr s" using demo_process_cron by blast
  obtain p where p: "proc_step ?E demo_slab_ops mem_buf (HandlerTurn Cron ?t) (demo_process (Looping cop) [env]) =
      Some (p, [Handled demo_now CronEvent])" "server p = Some s" "peer_reqs p = [env]" "live p = {PeerHandler, CliHandler, Cron}"
    using s by (auto simp: proc_step_def handler_turn_def demo_process_def)
  let ?tr = "[Arrived PeerReqs env, Handled demo_now CronEvent]"
  have run: "proc_run ?E demo_slab_ops mem_buf (demo_process (Starting demo_cop0) []) ?tr p"
    using proc_run.turn [OF r _ p(1)] by simp
  have tr: "handled ?tr = [(demo_now, CronEvent)]" "handled_on PeerReqs ?tr = []" by (simp_all add: obs_defs)
  obtain d where "rocksdb_new demo_db_ops ''/var/lib/rasputin'' = Inr d"
    "server_run ?E (handled ?tr) (Server_init 7770 7778 ''a'' [''127.0.0.1:7771''] d) = Inr s"
    "arrived PeerReqs ?tr = handled_on PeerReqs ?tr @ peer_reqs p"
    using process_refines_server [OF demo_Server_run_eq run] p(2,4) by auto
  then have "server_run ?E [(demo_now, CronEvent)] demo_process_server = Inr s" "length (arrived PeerReqs ?tr) = 1"
    unfolding tr by (simp_all add: rocksdb_new_def demo_db_ops_def p(3))
  then show ?thesis using run tr p(2,3)
    by (intro exI [of _ "demo_process (Starting demo_cop0) []"] exI [of _ ?tr] exI [of _ p] exI [of _ s])
       (simp add: demo_Server_run_eq)
qed

end
