(* ===== verification/Process_Stop.thy ===== *)
theory Process_Stop
  imports Process
begin

text \<open>
  How a process ends.  \<^verbatim>\<open>Server::run\<close> wants it to shut down as soon as one of its threads is gone.  A handler that
  panics poisons the mutex, and the next thread that wants it exits; an event loop that is gone closes the
  channels, and the handlers that find them closed tell the main thread.
\<close>

section \<open>Panics, ends and the main thread\<close>

lemma proc_step_cases:
  assumes "proc_step E S rd ev p = Some (p', obs)"
  obtains (handler) th t where "ev = HandlerTurn th t" "handler_turn E th t p = Some (p', obs)"
    | (main) "ev = MainTurn" "thread_exit p" "p' = p\<lparr>halted := Some MainPanic\<rparr>" "obs = []"
    | (io) "io_loop p \<noteq> Ended" "server p' = server p" "live p' = live p" "thread_exit p \<longrightarrow> thread_exit p'" "halted p' = halted p"
        "handled obs = []" "\<forall>th. Panicked th \<in> set obs \<longrightarrow> th = IoLoop"
proof -
  have st: "proc_turn E S rd ev p = Some (p', obs)" using assms by (simp add: proc_step_def split: if_splits)
  show ?thesis
  proof (cases ev)
    case (IoStart os)
    then show ?thesis using st by (intro io) (auto simp: io_start_def split: Io.splits sum.splits)
  next
    case (IoTurn os e)
    then have "io_turn S rd os e p = Some (p', obs)" using st by simp
    then show ?thesis
    proof (cases rule: io_turn_cases)
      case (panics cop p1 os1 x)
      have "Panicked th \<notin> set os1" for th using panics(2) by (cases e) (auto split: list.splits if_splits)
      then show ?thesis using take_event_Some [OF panics(2)] panics by (intro io) auto
    next
      case (moves cop p1 os1 cop' es)
      have "Panicked th \<notin> set os1" for th using moves(2) by (cases e) (auto split: list.splits if_splits)
      then show ?thesis using take_event_Some [OF moves(2)] moves by (intro io) (auto simp: deliver_def)
    qed
  next
    case (IoReturn r)
    then show ?thesis using st by (intro io) (auto simp: io_return_def split: Io.splits sum.splits)
  next
    case (HandlerTurn th t)
    then show ?thesis using st handler by simp
  next
    case MainTurn
    then show ?thesis using st main by (simp add: main_turn_def split: if_splits)
  qed
qed

text \<open>A poisoned mutex stays poisoned, and nothing is handled under it.\<close>

lemma poisoned_step:
  assumes "proc_step E S rd ev p = Some (p', obs)" and "server p = None"
  shows "server p' = None \<and> handled obs = [] \<and> (\<forall>th. Panicked th \<in> set obs \<longrightarrow> th = IoLoop)"
  using assms(1)
proof (cases rule: proc_step_cases)
  case (handler th t)
  from handler(2) show ?thesis by (cases rule: handler_turn_cases) (use assms(2) in auto)
qed (use assms(2) in auto)

lemma panic_step:
  assumes "proc_step E S rd ev p = Some (p', obs)" and "Panicked th \<in> set obs" and "th \<noteq> IoLoop"
  shows "obs = [Panicked th] \<and> server p' = None"
  using assms(1)
proof (cases rule: proc_step_cases)
  case (handler th' t)
  from handler(2) show ?thesis by (cases rule: handler_turn_cases) (use assms(2) in auto)
qed (use assms(2,3) in auto)

lemma run_after_panic:
  assumes "proc_run E S rd p0 tr p" and "tr = tr1 @ Panicked th # tr2" and "th \<noteq> IoLoop"
  shows "handled tr2 = [] \<and> server p = None"
  using assms
proof (induction arbitrary: tr1 tr2)
  case (turn tr p ev p' obs)
  from turn.prems(1) consider x where "tr = tr1 @ Panicked th # x" "tr2 = x @ obs"
    | y where "tr1 = tr @ y" "obs = y @ Panicked th # tr2"
    by (auto simp: append_eq_append_conv2 Cons_eq_append_conv append_eq_Cons_conv)
  then show ?case
  proof cases
    case 1
    then show ?thesis using turn.IH [OF 1(1) turn.prems(2)] poisoned_step [OF turn.hyps(3)] by simp
  next
    case 2
    then show ?thesis using panic_step [OF turn.hyps(3) _ turn.prems(2)] by (auto simp: append_eq_Cons_conv)
  qed
qed simp

text \<open>While the mutex is sound the timer thread lives; when the handler of peers is gone, the main thread has been told or
  the timer thread will find the mutex poisoned.\<close>

definition cron_watches :: "('db, 'sl) Process \<Rightarrow> bool" where
  "cron_watches p \<longleftrightarrow> (server p \<noteq> None \<longrightarrow> Cron \<in> live p)"

definition peers_watched :: "('db, 'sl) Process \<Rightarrow> bool" where
  "peers_watched p \<longleftrightarrow> (PeerHandler \<notin> live p \<longrightarrow> thread_exit p \<or> server p = None \<and> Cron \<in> live p)"

lemma cron_watches_step:
  assumes "cron_watches p" and "proc_step E S rd ev p = Some (p', obs)"
  shows "cron_watches p'"
  using assms(2)
proof (cases rule: proc_step_cases)
  case (handler th t)
  from handler(2) show ?thesis
  proof (cases rule: handler_turn_cases)
    case ends
    then show ?thesis using assms(1) by (cases th) (auto simp: cron_watches_def)
  next
    case (handles ev p1 s s')
    then show ?thesis using assms(1) request_Some [OF handles(1)] by (simp add: cron_watches_def)
  qed (use assms(1) in \<open>auto simp: cron_watches_def\<close>)
qed (use assms(1) in \<open>auto simp: cron_watches_def\<close>)

lemma poisoned_cron_step:
  assumes "server p = None" and "Cron \<in> live p" and "proc_step E S rd ev p = Some (p', obs)"
  shows "server p' = None \<and> Cron \<in> live p'"
  using assms(3)
proof (cases rule: proc_step_cases)
  case (handler th t)
  from handler(2) show ?thesis
  proof (cases rule: handler_turn_cases)
    case ends
    then show ?thesis using assms by (cases th) auto
  qed (use assms in auto)
qed (use assms in auto)

lemma peers_watched_step:
  assumes "peers_watched p" and "cron_watches p" and "proc_step E S rd ev p = Some (p', obs)"
  shows "peers_watched p'"
  using assms(3)
proof (cases rule: proc_step_cases)
  case (handler th t)
  from handler(2) show ?thesis
  proof (cases rule: handler_turn_cases)
    case ends
    then show ?thesis by (simp add: peers_watched_def)
  next
    case (panics ev p1 s x)
    have "live p' = live p - {th}" "server p' = None" "thread_exit p' = thread_exit p"
      using panics(6) request_Some [OF panics(1)] by simp_all
    then show ?thesis using assms(1,2) panics(3) by (auto simp: peers_watched_def cron_watches_def)
  next
    case (handles ev p1 s s')
    have "live p' = live p" "server p' = Some s'" "thread_exit p' = thread_exit p"
      using handles(6) request_Some [OF handles(1)] by simp_all
    then show ?thesis using assms(1) handles(3) by (simp add: peers_watched_def)
  qed (use assms(1) in \<open>auto simp: peers_watched_def\<close>)
qed (use assms(1) in \<open>auto simp: peers_watched_def\<close>)

text \<open>What every step of a schedule keeps holds at its end.\<close>

lemma turns_simps [simp]:
  "turns E S rd [] p = p"
  "turns E S rd (ev # evs) p = turns E S rd evs (case proc_step E S rd ev p of None \<Rightarrow> p | Some (p', _) \<Rightarrow> p')"
  "turns E S rd (evs @ evs') p = turns E S rd evs' (turns E S rd evs p)"
  by (simp_all add: turns_def)

lemma turns_keep:
  assumes "P p" and "\<And>ev p p' obs. P p \<Longrightarrow> proc_step E S rd ev p = Some (p', obs) \<Longrightarrow> P p'"
  shows "P (turns E S rd evs p)"
  using assms(1) by (induction evs arbitrary: p) (auto dest: assms(2) split: option.splits)

lemma halted_stays: "halted p \<noteq> None \<Longrightarrow> turns E S rd evs p = p"
  by (induction evs) (auto simp: proc_step_def)

lemma thread_exit_stays: "thread_exit p \<Longrightarrow> thread_exit (turns E S rd evs p)"
proof (erule turns_keep)
  fix ev p p' obs assume te: "thread_exit p" and "proc_step E S rd ev p = Some (p', obs)"
  from this(2) show "thread_exit p'"
  proof (cases rule: proc_step_cases)
    case (handler th t)
    from handler(2) show ?thesis
      by (cases rule: handler_turn_cases) (use te request_Some in auto)
  qed (use te in auto)
qed

text \<open>The timer thread finds a poisoned mutex at its next turn, and the main thread a message at its own.\<close>

lemma cron_turn_halts:
  assumes "server p = None" and "Cron \<in> live p"
  shows "halted (turns E S rd [HandlerTurn Cron t] p) \<noteq> None"
  using assms by (auto simp: proc_step_def handler_turn_def)

lemma main_turn_halts: "thread_exit p \<Longrightarrow> halted (turns E S rd [MainTurn] p) \<noteq> None"
  by (auto simp: proc_step_def main_turn_def)

text \<open>Without the event loop the handler of peers gets through its channel and ends.\<close>

definition turn_of :: "Thread \<Rightarrow> Sched \<Rightarrow> bool" where
  "turn_of th ev \<longleftrightarrow> (case ev of HandlerTurn th' _ \<Rightarrow> th' = th | _ \<Rightarrow> False)"

lemma ended_step:
  assumes "io_loop p = Ended" and "proc_step E S rd ev p = Some (p', obs)"
  shows "io_loop p' = Ended \<and> live p' \<subseteq> live p \<and> (length (peer_reqs p') \<le> length (peer_reqs p)) \<and>
    (turn_of PeerHandler ev \<longrightarrow> halted p' \<noteq> None \<or> PeerHandler \<notin> live p' \<or> length (peer_reqs p') < length (peer_reqs p))"
  using assms(2)
proof (cases rule: proc_step_cases)
  case (handler th t)
  from handler(2) show ?thesis
  proof (cases rule: handler_turn_cases)
    case ends
    then show ?thesis using assms(1) handler(1) by (cases th) (auto simp: turn_of_def leave_def)
  next
    case (panics ev p1 s x)
    have r: "live p1 = live p" "io_loop p1 = io_loop p" "length (peer_reqs p1) \<le> length (peer_reqs p)"
      using request_Some [OF panics(1)] by simp_all
    have "live p' = live p - {th}" "io_loop p' = io_loop p" "length (peer_reqs p') \<le> length (peer_reqs p)"
      unfolding panics(6) using r by (cases th; simp add: leave_def)+
    then show ?thesis using assms(1) handler(1) by (auto simp: turn_of_def)
  next
    case (handles ev p1 s s')
    have "live p' = live p" "io_loop p' = io_loop p" "length (peer_reqs p') \<le> length (peer_reqs p)"
      using handles(6) request_Some [OF handles(1)] by simp_all
    moreover have "length (peer_reqs p') < length (peer_reqs p)" if "th = PeerHandler"
      using that handles(1,6) by (auto split: list.splits)
    ultimately show ?thesis using assms(1) handler(1) by (simp add: turn_of_def)
  qed (use assms(1) in \<open>auto simp: turn_of_def\<close>)
qed (use assms(1) in \<open>auto simp: turn_of_def\<close>)

lemma peer_turn_moves:
  assumes "io_loop p = Ended" and "PeerHandler \<in> live p" and "halted p = None" and "turn_of PeerHandler ev"
  shows "\<exists>p' obs. proc_step E S rd ev p = Some (p', obs)"
  using assms by (auto simp: proc_step_def turn_of_def handler_turn_def split: Sched.splits list.splits option.splits sum.splits)

lemma peer_gone_stays:
  assumes "PeerHandler \<notin> live p" and "io_loop p = Ended"
  shows "PeerHandler \<notin> live (turns E S rd evs p)"
proof -
  have "PeerHandler \<notin> live (turns E S rd evs p) \<and> io_loop (turns E S rd evs p) = Ended"
    by (rule turns_keep) (use assms ended_step in blast)+
  then show ?thesis by simp
qed

lemma peers_end:
  assumes "io_loop p = Ended" and "length (peer_reqs p) < length (filter (turn_of PeerHandler) evs)"
  shows "halted (turns E S rd evs p) \<noteq> None \<or> PeerHandler \<notin> live (turns E S rd evs p)"
  using assms
proof (induction evs arbitrary: p)
  case (Cons ev evs)
  let ?p = "case proc_step E S rd ev p of None \<Rightarrow> p | Some (p', _) \<Rightarrow> p'"
  have e: "io_loop ?p = Ended" "length (peer_reqs ?p) \<le> length (peer_reqs p)" "live ?p \<subseteq> live p"
    using Cons.prems(1) ended_step by (fastforce split: option.splits)+
  show ?case
  proof (cases "halted ?p \<noteq> None \<or> PeerHandler \<notin> live ?p")
    case True
    then show ?thesis using peer_gone_stays [OF _ e(1)] halted_stays [of ?p E S rd evs] by auto
  next
    case False
    have "halted p = None" using False by (auto simp: proc_step_def split: if_splits option.splits)
    then have "length (peer_reqs ?p) < length (peer_reqs p)" if pt: "turn_of PeerHandler ev"
    proof -
      obtain p' obs where st: "proc_step E S rd ev p = Some (p', obs)"
        using peer_turn_moves [OF Cons.prems(1) _ \<open>halted p = None\<close> pt] False e(3) by blast
      then show ?thesis using ended_step [OF Cons.prems(1) st] pt False by auto
    qed
    then have "length (peer_reqs ?p) < length (filter (turn_of PeerHandler) evs)" using e Cons.prems(2) by (auto split: if_splits)
    then show ?thesis using Cons.IH [OF e(1)] by simp
  qed
qed simp


text \<open>The requests that wait for a thread, and those that it cannot parse.\<close>

fun waiting :: "Thread \<Rightarrow> ('db, 'sl) Process \<Rightarrow> Envelope list" where
  "waiting PeerHandler p = peer_reqs p"
| "waiting CliHandler p = cli_reqs p"
| "waiting _ p = []"

fun malformed :: "'db Ext \<Rightarrow> Thread \<Rightarrow> Envelope \<Rightarrow> bool" where
  "malformed E PeerHandler env = (\<not> is_ok (parse_PeerMsg E (msg env)))"
| "malformed E CliHandler env = (\<not> is_ok (parse_CliReq E (msg env)))"
| "malformed E _ env = False"

lemma request_waiting_other: "request th p = Some (ev, p1) \<Longrightarrow> th' \<noteq> th \<Longrightarrow> waiting th' p1 = waiting th' p"
  by (cases th; cases th') (auto split: list.splits)

lemma request_waiting:
  assumes "request th p = Some (ev, p1)" and "waiting th p \<noteq> []" and "server_step E now ev s = Inr s'"
  shows "\<exists>env. waiting th p = env # waiting th p1 \<and> \<not> malformed E th env"
  using assms by (cases th) (auto simp: server_step_def handle_peer_def handle_cli_def is_ok_iff split: list.splits)

lemma waiting_None: "request th p = None \<Longrightarrow> waiting th p = []"
  by (cases th) (auto split: list.splits)

lemma waiting_leave: "th' \<noteq> th \<Longrightarrow> waiting th' (leave th p) = waiting th' p"
  by (cases th; cases th'; simp)

lemma waiting_update [simp]:
  "waiting th (p\<lparr>server := s\<rparr>) = waiting th p" "waiting th (p\<lparr>notifications := q\<rparr>) = waiting th p"
  "waiting th (p\<lparr>thread_exit := b\<rparr>) = waiting th p" "waiting th (p\<lparr>halted := h\<rparr>) = waiting th p"
  "waiting th (p\<lparr>io_loop := io\<rparr>) = waiting th p"
  by (cases th; simp)+

text \<open>A request that does not parse waits before the next turns of its handler: the mutex is poisoned under the eyes of the timer
  thread, or the process has halted, by the time its turn has come.\<close>

definition doomed :: "'db Ext \<Rightarrow> Thread \<Rightarrow> nat \<Rightarrow> ('db, 'sl) Process \<Rightarrow> bool" where
  "doomed E th n p \<longleftrightarrow> halted p \<noteq> None \<or> server p = None \<and> Cron \<in> live p \<or>
     th \<in> live p \<and> (\<exists>q1 env q2. waiting th p = q1 @ env # q2 \<and> length q1 < n \<and> malformed E th env)"

lemma doomed_own_turn:
  assumes "cron_watches p" and "doomed E th (Suc n) p" and "handler_turn E th t p = Some (p', obs)" and "halted p = None"
    and "proc_step E S rd ev p = Some (p', obs)"
  shows "doomed E th n p'"
proof (cases "server p = None \<and> Cron \<in> live p")
  case True
  then show ?thesis using poisoned_cron_step [OF _ _ assms(5)] by (simp add: doomed_def)
next
  case False
  then obtain q1 env q2 where q: "waiting th p = q1 @ env # q2" "length q1 < Suc n" "malformed E th env"
    using assms(2,4) by (auto simp: doomed_def)
  from assms(3) show ?thesis
  proof (cases rule: handler_turn_cases)
    case ends
    then show ?thesis using q(1) waiting_None [OF ends(1)] by simp
  next
    case exits
    then show ?thesis by (simp add: doomed_def)
  next
    case (panics ev' p1 s x)
    have "Cron \<in> live p" "th \<noteq> Cron" using assms(1) panics(3) q(3) by (auto simp: cron_watches_def)
    then have "server p' = None" "Cron \<in> live p'" using panics(6) request_Some [OF panics(1)] by simp_all
    then show ?thesis by (simp add: doomed_def)
  next
    case (handles ev' p1 s s')
    obtain v where v: "waiting th p = v # waiting th p1" "\<not> malformed E th v"
      using request_waiting [OF handles(1) _ handles(4)] q(1) by auto
    then obtain q0 where "q1 = v # q0" using q by (cases q1) auto
    then have "waiting th p' = q0 @ env # q2" "length q0 < n" "th \<in> live p'"
      using q v handles(2,6) request_Some [OF handles(1)] by simp_all
    then show ?thesis using q(3) unfolding doomed_def by blast
  qed
qed

lemma doomed_other_turn:
  assumes "cron_watches p" and "doomed E th n p" and "\<not> turn_of th ev" and "proc_step E S rd ev p = Some (p', obs)"
  shows "doomed E th n p'"
proof (cases "server p = None \<and> Cron \<in> live p")
  case True
  then show ?thesis using poisoned_cron_step [OF _ _ assms(4)] by (simp add: doomed_def)
next
  case False
  have h: "halted p = None" using assms(4) by (simp add: proc_step_def split: if_splits)
  then obtain q1 env q2 where q: "waiting th p = q1 @ env # q2" "length q1 < n" "malformed E th env" and live: "th \<in> live p"
    using assms(2) False by (auto simp: doomed_def)
  have keep: "doomed E th n p'" if "th \<in> live p'" "waiting th p' = waiting th p @ q3" for q3
  proof -
    have "waiting th p' = q1 @ env # (q2 @ q3)" using that(2) q(1) by simp
    then show ?thesis using that(1) q(2,3) unfolding doomed_def by blast
  qed
  have io: "live p' = live p \<and> (\<exists>q3. waiting th p' = waiting th p @ q3)"
    if "proc_turn E S rd ev p = Some (p', obs)" "\<And>th t. ev \<noteq> HandlerTurn th t"
  proof (cases ev)
    case (IoTurn os e)
    then have "io_turn S rd os e p = Some (p', obs)" using that by simp
    then show ?thesis
    proof (cases rule: io_turn_cases)
      case (panics cop p1 os1 x)
      then show ?thesis using take_event_Some [OF panics(2)] by (cases th) simp_all
    next
      case (moves cop p1 os1 cop' es)
      then show ?thesis using take_event_Some [OF moves(2)] by (cases th) (simp_all add: deliver_def)
    qed
  qed (use that in \<open>auto simp: io_start_def io_return_def main_turn_def split: Io.splits sum.splits if_splits\<close>)
  have st: "proc_turn E S rd ev p = Some (p', obs)" using assms(4) by (simp add: proc_step_def split: if_splits)
  show ?thesis
  proof (cases "\<exists>th t. ev = HandlerTurn th t")
    case False
    then obtain q3 where "live p' = live p" "waiting th p' = waiting th p @ q3" using io [OF st] by blast
    then show ?thesis using keep live by simp
  next
    case True
    then obtain th' t where ht: "handler_turn E th' t p = Some (p', obs)" and th: "th' \<noteq> th"
      using st assms(3) by (auto simp: turn_of_def)
    from ht show ?thesis
    proof (cases rule: handler_turn_cases)
      case ends
      then show ?thesis using keep [of "[]"] live th by (simp add: waiting_leave)
    next
      case exits
      then show ?thesis by (simp add: doomed_def)
    next
      case (panics ev' p1 s x)
      have "live p' = live p - {th'}" "waiting th p' = waiting th p"
        using panics(6) request_Some [OF panics(1)] request_waiting_other [OF panics(1)] th by (simp_all add: waiting_leave)
      then show ?thesis using keep [of "[]"] live th by simp
    next
      case (handles ev' p1 s s')
      have "live p' = live p" "waiting th p' = waiting th p"
        using handles(6) request_Some [OF handles(1)] request_waiting_other [OF handles(1)] th by simp_all
      then show ?thesis using keep [of "[]"] live by simp
    qed
  qed
qed

lemma doomed_turns:
  assumes "cron_watches p" and "doomed E th (length (filter (turn_of th) evs)) p"
  shows "doomed E th 0 (turns E S rd evs p)"
  using assms
proof (induction evs arbitrary: p)
  case (Cons ev evs)
  show ?case
  proof (cases "proc_step E S rd ev p")
    case None
    have "doomed E th (length (filter (turn_of th) evs)) p"
    proof (cases "turn_of th ev \<and> halted p = None")
      case True
      then obtain t where ev: "ev = HandlerTurn th t" by (auto simp: turn_of_def split: Sched.splits)
      then have "handler_turn E th t p = None" using None True by (simp add: proc_step_def)
      then have "th \<notin> live p \<or> request th p = None"
        by (auto simp: handler_turn_def split: if_splits option.splits sum.splits)
      then have "th \<notin> live p \<or> waiting th p = []" using waiting_None by blast
      then show ?thesis using Cons.prems(2) by (auto simp: doomed_def)
    next
      case False
      then show ?thesis using Cons.prems(2) by (auto simp: doomed_def split: if_splits)
    qed
    then show ?thesis using Cons.IH [OF Cons.prems(1)] None by simp
  next
    case (Some r)
    obtain p' obs where st: "proc_step E S rd ev p = Some (p', obs)" using Some by (cases r) simp
    have "doomed E th (length (filter (turn_of th) evs)) p'"
    proof (cases "turn_of th ev")
      case True
      then obtain t where ev: "ev = HandlerTurn th t" by (auto simp: turn_of_def split: Sched.splits)
      then have "handler_turn E th t p = Some (p', obs)" "halted p = None"
        using st by (simp_all add: proc_step_def split: if_splits)
      then show ?thesis using doomed_own_turn [OF Cons.prems(1) _ _ _ st] Cons.prems(2) True by simp
    next
      case False
      then show ?thesis using doomed_other_turn [OF Cons.prems(1) _ False st] Cons.prems(2) by simp
    qed
    then show ?thesis using Cons.IH [OF cron_watches_step [OF Cons.prems(1) st]] st by simp
  qed
qed simp

lemma proc_run_watches:
  assumes "proc_run E S rd p0 tr p" and "cron_watches p0"
  shows "cron_watches p \<and> (peers_watched p0 \<longrightarrow> peers_watched p)"
  using assms by induction (auto intro: cron_watches_step peers_watched_step)


text \<open>A panic of the timer thread itself goes unnoticed while nothing arrives: no thread but the event loop can move.\<close>

lemma lost_cron_lingers:
  assumes "server p = None" and "Cron \<notin> live p" and "peer_reqs p = []" and "cli_reqs p = []"
    and "io_loop p \<noteq> Ended" and "\<not> thread_exit p"
  shows "proc_step E S rd (HandlerTurn th t) p = None" and "proc_step E S rd MainTurn p = None"
  using assms by (cases th; simp add: proc_step_def handler_turn_def main_turn_def)+

section \<open>Properties\<close>

text \<open>C13. A panic in a handler stops the node for good: afterwards no request and no timer event is handled any more, and every
  thread that would handle one ends the process instead.\<close>

theorem panic_is_fail_stop:
  assumes "proc_run E S rd p0 tr p" and "tr = tr1 @ Panicked th # tr2" and "th \<noteq> IoLoop"
  shows "handled tr2 = [] \<and>
    (\<forall>th' t. th' \<in> live p \<and> request th' p \<noteq> None \<and> halted p = None \<longrightarrow>
       proc_step E S rd (HandlerTurn th' t) p = Some (p\<lparr>halted := Some ExitOne\<rparr>, []))"
proof -
  have p: "handled tr2 = []" "server p = None" using run_after_panic [OF assms] by simp_all
  have "proc_step E S rd (HandlerTurn th' t) p = Some (p\<lparr>halted := Some ExitOne\<rparr>, [])"
    if h: "th' \<in> live p" "request th' p = Some r" "halted p = None" for th' t r
  proof -
    obtain ev p1 where r: "r = (ev, p1)" by (cases r)
    then have "server p1 = None" using request_Some h(2) p(2) by fastforce
    then show ?thesis using h r by (simp add: proc_step_def handler_turn_def)
  qed
  then show ?thesis using p(1) by blast
qed

text \<open>A handler that gets what it cannot parse panics.\<close>

lemma demo_process_panics:
  "\<exists>env p. proc_run (mem_ext [] []) demo_slab_ops mem_buf (demo_process (Starting demo_cop0) [])
     ([Arrived PeerReqs env] @ Panicked PeerHandler # []) p \<and> Cron \<in> live p \<and> halted p = None"
proof -
  let ?t = "\<lparr>readings = demo_now, accepts = \<lambda>_. True, sent_before = []\<rparr>"
  obtain cop env where r: "proc_run (mem_ext [] []) demo_slab_ops mem_buf (demo_process (Starting demo_cop0) []) [Arrived PeerReqs env]
      (demo_process (Looping cop) [env])" using demo_process_reads by blast
  obtain p where "proc_step (mem_ext [] []) demo_slab_ops mem_buf (HandlerTurn PeerHandler ?t) (demo_process (Looping cop) [env]) =
      Some (p, [Panicked PeerHandler])" "Cron \<in> live p" "halted p = None"
    by (auto simp: proc_step_def handler_turn_def demo_process_def server_step_def handle_peer_def)
  then show ?thesis using proc_run.turn [OF r, of "HandlerTurn PeerHandler ?t"] by auto
qed

theorem panic_is_fail_stop_witness:
  "\<exists>env p. proc_run (mem_ext [] []) demo_slab_ops mem_buf (demo_process (Starting demo_cop0) [])
       [Arrived PeerReqs env, Panicked PeerHandler] p \<and>
     proc_step (mem_ext [] []) demo_slab_ops mem_buf (HandlerTurn Cron \<lparr>readings = demo_now, accepts = \<lambda>_. True, sent_before = []\<rparr>) p =
       Some (p\<lparr>halted := Some ExitOne\<rparr>, [])"
proof -
  obtain env p where p: "proc_run (mem_ext [] []) demo_slab_ops mem_buf (demo_process (Starting demo_cop0) [])
      ([Arrived PeerReqs env] @ Panicked PeerHandler # []) p" "Cron \<in> live p" "halted p = None"
    using demo_process_panics by blast
  show ?thesis using p panic_is_fail_stop [OF p(1) refl] by (intro exI [of _ env] exI [of _ p]) simp
qed

text \<open>C16. The node does not outlive its event loop: once the thread of the event loop has ended or panicked, a schedule halts the process
  in which the handler of peers has one turn more than requests are waiting for it, then the timer thread one and then the
  main thread one, whatever happens in between.\<close>

theorem dead_loop_stops_process:
  assumes "Server_run D S os parse loop_new spawn i pport cport dir ps = Inr p0"
    and "is_ok (spawn PeerHandler)" and "is_ok (spawn Cron)"
    and "proc_run E S rd p0 tr p" and "io_loop p = Ended"
    and "length (peer_reqs p) < length (filter (turn_of PeerHandler) evs)"
  shows "halted (turns E S rd (evs @ [HandlerTurn Cron t] @ evs' @ [MainTurn]) p) \<noteq> None"
proof -
  let ?p1 = "turns E S rd evs p" let ?p2 = "turns E S rd [HandlerTurn Cron t] ?p1"
  have "cron_watches p0 \<and> peers_watched p0" using assms(1)
    by (rule Server_run_Inr) (use assms(2,3) in \<open>simp add: cron_watches_def peers_watched_def\<close>)
  then have w: "cron_watches p" "peers_watched p" using proc_run_watches [OF assms(4)] by simp_all
  have w1: "cron_watches ?p1 \<and> peers_watched ?p1"
    by (rule turns_keep) (use w cron_watches_step peers_watched_step in blast)+
  have "halted ?p2 \<noteq> None \<or> thread_exit ?p1"
    using peers_end [OF assms(5,6), of E S rd] w1 cron_turn_halts [of ?p1 E S rd t] halted_stays [of ?p1 E S rd "[HandlerTurn Cron t]"]
    unfolding peers_watched_def by metis
  then consider "halted ?p2 \<noteq> None" | "thread_exit (turns E S rd evs' ?p2)" using thread_exit_stays by blast
  then have "halted (turns E S rd [MainTurn] (turns E S rd evs' ?p2)) \<noteq> None"
  proof cases
    case 1
    then show ?thesis by (simp only: halted_stays [OF 1] simp_thms)
  qed (rule main_turn_halts)
  then show ?thesis by (simp only: turns_simps(3) simp_thms)
qed

theorem dead_loop_stops_process_witness:
  "\<exists>p t. demo_Server_run = Inr (demo_process (Starting demo_cop0) []) \<and>
     proc_run (mem_ext [] []) demo_slab_ops mem_buf (demo_process (Starting demo_cop0) []) [Panicked IoLoop] p \<and>
     halted (turns (mem_ext [] []) demo_slab_ops mem_buf [HandlerTurn PeerHandler t, HandlerTurn Cron t, MainTurn] p) \<noteq> None"
proof -
  let ?os = "(demo_os [])\<lparr>os_register := \<lambda>s t. Inl ''no poll''\<rparr>" and ?p0 = "demo_process (Starting demo_cop0) []"
  let ?t = "\<lparr>readings = demo_now, accepts = \<lambda>_. True, sent_before = []\<rparr>"
  have "proc_step (mem_ext [] []) demo_slab_ops mem_buf (IoStart ?os) ?p0 = Some (demo_process Ended [], [Panicked IoLoop])"
    by (simp add: proc_step_def io_start_def demo_process_def run_event_loop_def)
  then have run: "proc_run (mem_ext [] []) demo_slab_ops mem_buf ?p0 [Panicked IoLoop] (demo_process Ended [])"
    using proc_run.turn [OF proc_run.start, of "IoStart ?os"] by simp
  show ?thesis
    using run dead_loop_stops_process [OF demo_Server_run_eq _ _ run, of "[HandlerTurn PeerHandler ?t]" ?t "[]"]
    by (intro exI [of _ "demo_process Ended []"] exI [of _ ?t])
       (simp add: demo_Server_run_eq demo_process_def turn_of_def del: turns_simps(2))
qed

text \<open>C26. One message that does not parse takes the node down, whether a peer or a client has sent it: when it waits in a channel, the
  process has halted after as many turns of the handler of this channel as there are requests waiting, and one of the timer
  thread, whatever happens in between.\<close>

theorem malformed_message_stops_process:
  assumes "Server_run D S os parse loop_new spawn i pport cport dir ps = Inr p0" and "is_ok (spawn Cron)"
    and "proc_run E S rd p0 tr p" and "th \<in> live p"
    and "env \<in> set (waiting th p)" and "malformed E th env"
    and "length (waiting th p) \<le> length (filter (turn_of th) evs)"
  shows "halted (turns E S rd (evs @ [HandlerTurn Cron t]) p) \<noteq> None"
proof -
  obtain q1 q2 where q: "waiting th p = q1 @ env # q2" using assms(5) by (auto simp: in_set_conv_decomp)
  have "cron_watches p0" using assms(1) by (rule Server_run_Inr) (use assms(2) in \<open>simp add: cron_watches_def\<close>)
  then have w: "cron_watches p" using proc_run_watches [OF assms(3)] by simp
  have "length q1 < length (filter (turn_of th) evs)" using assms(7) q by simp
  then have "doomed E th (length (filter (turn_of th) evs)) p" using assms(4,6) q unfolding doomed_def by blast
  then have "doomed E th 0 (turns E S rd evs p)" by (rule doomed_turns [OF w])
  then consider "halted (turns E S rd evs p) \<noteq> None" | "server (turns E S rd evs p) = None" "Cron \<in> live (turns E S rd evs p)"
    by (auto simp: doomed_def)
  then show ?thesis
  proof cases
    case 1
    then show ?thesis using halted_stays [OF 1, of E S rd "[HandlerTurn Cron t]"] by (simp del: turns_simps(2))
  next
    case 2
    then show ?thesis using cron_turn_halts by (simp del: turns_simps(2))
  qed
qed

theorem malformed_message_stops_process_witness:
  "\<exists>cop env t. proc_run (mem_ext [] []) demo_slab_ops mem_buf (demo_process (Starting demo_cop0) []) [Arrived PeerReqs env]
       (demo_process (Looping cop) [env]) \<and>
     halted (turns (mem_ext [] []) demo_slab_ops mem_buf [HandlerTurn PeerHandler t, HandlerTurn Cron t] (demo_process (Looping cop) [env])) \<noteq> None"
proof -
  let ?t = "\<lparr>readings = demo_now, accepts = \<lambda>_. True, sent_before = []\<rparr>"
  obtain cop env where r: "proc_run (mem_ext [] []) demo_slab_ops mem_buf (demo_process (Starting demo_cop0) []) [Arrived PeerReqs env]
      (demo_process (Looping cop) [env])" using demo_process_reads by blast
  show ?thesis
    using r malformed_message_stops_process [OF demo_Server_run_eq _ r, where th = PeerHandler and env = env and evs = "[HandlerTurn PeerHandler ?t]" and t = ?t]
    by (intro exI [of _ cop] exI [of _ env] exI [of _ ?t]) (simp add: demo_process_def turn_of_def del: turns_simps(2))
qed

end
