(* ===== verification/Single_Node.thy ===== *)
theory Single_Node
  imports Server_Store Log_History
begin

text \<open>
  A cluster of one node, which \<^verbatim>\<open>rasputind\<close> runs when it is given a single seed peer: the quorum
  is one, so a leader learns an entry in the step that appends it.
\<close>

section \<open>A cluster of one\<close>

text \<open>With a quorum of one nothing stays pending: an entry is learned when it is appended.\<close>

lemma single_ack:
  assumes "log_inv l" and "pending l = []" and "quorum l = 1" and "log_append t x e l = Inr l1"
  shows "snd (ack_up_to y p l1) = [(t, x)]" and "pending (fst (ack_up_to y p l1)) = []"
    and "log_get (fst (ack_up_to y p l1)) x = Some e"
proof -
  have q: "quorum l1 = 1" using log_ops_quorum(1) [OF assms(4)] assms(3) by simp
  have ha: "head_acked l1"
    using log_append_inv [OF assms(1,4)] pending_append [OF assms(1,4)] q assms(2) by (simp add: head_acked_def)
  show "snd (ack_up_to y p l1) = [(t, x)]" "pending (fst (ack_up_to y p l1)) = []"
    using ack_up_to_head [OF ha, of y p] pending_append [OF assms(1,4)] q assms(2)
    by (simp_all add: push_ack_def)
  show "log_get (fst (ack_up_to y p l1)) x = Some e"
    using ack_up_to_get [OF log_append_inv [OF assms(1,4)]] log_append_get [OF assms(4)] by simp
qed

definition lone :: "'db Server \<Rightarrow> bool" where
  "lone s \<longleftrightarrow> server_inv s \<and> length (peers s) \<le> 1 \<and> pending (rep_log s) = []"

lemma lone_log: "lone s \<Longrightarrow> log_inv (rep_log s) \<and> quorum (rep_log s) = 1 \<and> pending (rep_log s) = []"
  by (auto simp: lone_def server_inv_def log_sync_def)

text \<open>What a lone leader does with a request that changes the store.\<close>

lemma lone_submit:
  assumes "lone s" and "\<And>x t. Mutation_get_version (mk x t) = new_version x t"
    and "submit E req i mk s = Inr s'"
  obtains x t d' r b envs where "state_term (state s) = Some t" "x = max_generated_txid s + 1"
    "learn_mutation E x (mk x t) (db s) = (d', r)" "db s' = d'"
    "write_CliRes E (CliRes_set_req_id i r) = Inr b"
    "outbox s' = outbox s @ \<lparr>address = address req, tok = tok req, msg = b\<rparr> # envs"
    "pending (rep_log s') = []" "rep_peers s = [] \<longrightarrow> envs = [] \<and> rep_peers s' = []"
  using assms(3)
proof (cases rule: submit_cases)
  case (1 x t s1 ps envs)
  have x: "x = max_generated_txid s + 1" using 1(1) by (simp add: checked_add_Inr_iff)
  let ?s = "s\<lparr>max_generated_txid := x, srv_pending := bt_insert x (req, i) (srv_pending s)\<rparr>"
  note L = lone_log [OF assms(1)]
  from 1(3) obtain l1 where app: "log_append t x (mk x t) (rep_log s) = Inr l1"
    and le: "learn_each E (snd (ack_up_to x (srv_id s) l1)) (?s\<lparr>rep_log := fst (ack_up_to x (srv_id s) l1)\<rparr>) = Inr s1"
    by (cases rule: replicate_mutation_Inr) (simp add: assms(2))
  let ?l = "fst (ack_up_to x (srv_id s) l1)"
  have ack: "snd (ack_up_to x (srv_id s) l1) = [(t, x)]" "pending ?l = []" "log_get ?l x = Some (mk x t)"
    using single_ack [OF _ _ _ app] L by simp_all
  have "log_inv ?l" using ack_up_to_inv [OF log_append_inv [OF _ app]] L by blast
  then have ll: "last_learned_txid ?l = x"
    using ack(2) ack_up_to_accepted(1) [of x "srv_id s" l1] log_append_accepted [OF app]
    by (simp add: log_inv_def)
  obtain d' r where r: "learn_mutation E x (mk x t) (db s) = (d', r)" by fastforce
  have "learn E t x (?s\<lparr>rep_log := ?l\<rparr>) = Inr s1"
    using le ack(1) by (simp add: learn_each_def)
  then obtain b where b: "write_CliRes E (CliRes_set_req_id i r) = Inr b"
    and s1: "db s1 = d'" "outbox s1 = outbox s @ [\<lparr>address = address req, tok = tok req, msg = b\<rparr>]"
      "rep_log s1 = ?l" "rep_peers s1 = rep_peers s"
    using ack(3) ll r by (auto simp: learn_def reply_cli_Inr reply_def)
  show thesis
    by (rule that [OF 1(2) x r _ b]) (use s1 1(4,5) ack(2) in auto)
qed

lemma submit_peers:
  assumes "submit E req i mk s = Inr s'"
  shows "peers s' = peers s \<and> srv_id s' = srv_id s"
  using assms
proof (cases rule: submit_cases)
  case (1 x t s1 ps envs)
  then show ?thesis
    by (auto elim!: replicate_mutation_Inr dest!: learn_each_frame(1) simp: same_core_def)
qed

lemma election_peers:
  "handle_vote_req E now env i q s = Inr s' \<Longrightarrow> peers s' = peers s \<and> srv_id s' = srv_id s"
  "handle_vote_res E now env i r s = Inr s' \<Longrightarrow> peers s' = peers s \<and> srv_id s' = srv_id s"
  "cron E now s = Inr s' \<Longrightarrow> peers s' = peers s \<and> srv_id s' = srv_id s"
proof -
  show "handle_vote_req E now env i q s = Inr s' \<Longrightarrow> peers s' = peers s \<and> srv_id s' = srv_id s"
    by (auto simp: handle_vote_req_def vote_req_decide_def reply_peer_Inr reply_def
        split: if_splits State.splits option.splits)
  show "handle_vote_res E now env i r s = Inr s' \<Longrightarrow> peers s' = peers s \<and> srv_id s' = srv_id s"
    by (erule handle_vote_res_cases) (auto dest: count_vote_frame)
  show "cron E now s = Inr s' \<Longrightarrow> peers s' = peers s \<and> srv_id s' = srv_id s"
    by (auto simp: cron_def become_candidate_def peer_broadcast_def split: if_splits)
qed

lemma handle_append_res_lone:
  assumes "lone s" and "handle_append_res E env i r s = Inr s'"
  shows "pending (rep_log s') = [] \<and> peers s' = peers s"
  using assms(2)
proof (cases rule: handle_append_res_cases)
  case (acked p)
  then show ?thesis
    using lone_log [OF assms(1)] learn_each_frame(1) [OF acked(3)]
    by (simp add: same_core_def ack_up_to_eq drain_spec_def)
qed (use lone_log [OF assms(1)] in simp)

lemma handle_cli_lone:
  assumes "lone s" and "handle_cli E req s = Inr s'"
  shows "pending (rep_log s') = [] \<and> peers s' = peers s"
proof -
  have sub: "pending (rep_log s') = [] \<and> peers s' = peers s"
    if "submit E req i mk s = Inr s'" "\<And>x t. Mutation_get_version (mk x t) = new_version x t" for i mk
    using lone_submit [OF assms(1) that(2,1)] submit_peers [OF that(1)] by metis
  show ?thesis
    using assms(2) lone_log [OF assms(1)]
    by (auto simp: handle_cli_def Let_def reply_cli_Inr reply_def split: if_splits
        dest: sub [OF _ mutation_versions(3)] sub [OF _ mutation_versions(4)] sub [OF _ mutation_versions(5)])
qed

lemma lone_step:
  assumes "lone s" and "\<not> carries_append E ev" and "server_step E now ev s = Inr s'"
  shows "lone s'"
proof -
  have "pending (rep_log s') = [] \<and> peers s' = peers s"
  proof (cases ev)
    case (PeerEvent env)
    then obtain m where m: "parse_PeerMsg E (msg env) = Inr m" and "\<not> PeerMsg_has_append m"
      using assms(2,3) by (auto simp: carries_append_def server_step_def handle_peer_def)
    then show ?thesis
      using assms(3) lone_log [OF assms(1)] handle_append_res_lone [OF assms(1)]
      by (auto simp: PeerEvent server_step_def handle_peer_def Let_def split: if_splits
          dest: election_keeps_store(1,2) election_peers(1,2))
  next
    case (CliEvent req)
    then show ?thesis using assms(3) handle_cli_lone [OF assms(1)] by (simp add: server_step_def)
  next
    case CronEvent
    then show ?thesis
      using assms(3) lone_log [OF assms(1)] election_keeps_store(3) [of E now s s'] election_peers(3) [of E now s s']
      by (simp add: server_step_def)
  qed
  moreover have "server_inv s'" using server_step_inv [OF _ assms(3)] assms(1) by (simp add: lone_def)
  ultimately show ?thesis using assms(1) by (simp add: lone_def)
qed

lemma server_step_peers:
  assumes "server_step E now ev s = Inr s'"
  shows "peers s' = peers s \<and> srv_id s' = srv_id s"
proof -
  have "peers s' = peers s \<and> srv_id s' = srv_id s" if "handle_append E env i a s = Inr s'" for env i a
    using that
    by (cases rule: handle_append_cases)
       (auto simp: reply_def same_core_def dest!: learn_each_frame(1))
  moreover have "peers s' = peers s \<and> srv_id s' = srv_id s" if "handle_append_res E env i r s = Inr s'" for env i r
    using that
    by (cases rule: handle_append_res_cases) (auto simp: same_core_def dest!: learn_each_frame(1))
  ultimately show ?thesis
    using assms
    by (cases ev) (auto simp: server_step_def handle_peer_def handle_cli_def Let_def reply_cli_Inr reply_def
        split: if_splits dest: election_peers submit_peers)
qed

lemma leading_lone:
  assumes "leading E d s" and "length (peers s) \<le> 1"
  shows "lone s"
  using assms
proof induction
  case (start pport cport i ps)
  have "pending (rep_log (Server_init pport cport i ps d)) = []" by (simp add: Server_init_def empty_log_def)
  then show ?case using start Server_init_inv by (simp add: lone_def)
next
  case (step s ev now s')
  then show ?case using lone_step server_step_peers [OF step(3)] by metis
qed

text \<open>The response to a set request, by what the store answers to the write.\<close>

definition set_verdict :: "bool \<Rightarrow> SetRes" where
  "set_verdict ok = (if ok then SetRes_set_success True SetRes_new
     else SetRes_set_err ''Operational problem encountered'' (SetRes_set_success False SetRes_new))"

lemma learn_set_verdict:
  "learn_set E m d = (case db_put E d (Mutation_get_key m) (Mutation_get_value m) of (p, d') \<Rightarrow> (d', set_verdict (is_ok p)))"
  by (auto simp: learn_set_def set_verdict_def op_err_def is_ok_def split: prod.splits sum.splits)

text \<open>A set request on a lone leader.\<close>

lemma lone_set:
  assumes "store_laws E view" and "lone s"
    and "is_leader (state s)" and "parse_CliReq E (msg req) = Inr r"
    and "\<not> CliReq_has_get r" and "CliReq_has_set r" and "handle_cli E req s = Inr s'"
    and "k = SetReq_get_key (CliReq_get_set r)" and "v = SetReq_get_value (CliReq_get_set r)"
    and "db_put E (db s) k v = (p, d')"
  shows "db s' = d' \<and> view (db s') = (if is_ok p then (view (db s))(k \<mapsto> v) else view (db s)) \<and>
    (\<exists>b envs. outbox s' = outbox s @ \<lparr>address = address req, tok = tok req, msg = b\<rparr> # envs \<and>
       write_CliRes E (CliRes_set_req_id (CliReq_get_req_id r) (CliRes_set_set (set_verdict (is_ok p)) CliRes_new)) = Inr b)"
proof -
  let ?mk = "set_mutation (CliReq_get_set r)"
  have "submit E req (CliReq_get_req_id r) ?mk s = Inr s'"
    using assms(3-7) by (simp add: handle_cli_def Let_def)
  then obtain x t d1 res b envs where sub: "learn_mutation E x (?mk x t) (db s) = (d1, res)" "db s' = d1"
    "write_CliRes E (CliRes_set_req_id (CliReq_get_req_id r) res) = Inr b"
    "outbox s' = outbox s @ \<lparr>address = address req, tok = tok req, msg = b\<rparr> # envs"
    by (rule lone_submit [OF assms(2) mutation_versions(3)])
  have mut: "Mutation_get_field_type (?mk x t) = KVSET" "Mutation_get_key (?mk x t) = k" "Mutation_get_value (?mk x t) = v"
    by (simp_all add: set_mutation_def Mutation_accessors assms(8,9))
  have res: "res = CliRes_set_set (set_verdict (is_ok p)) CliRes_new" "d1 = d'"
    using sub(1) mut assms(10) by (simp_all add: learn_mutation_def learn_set_verdict)
  have "view d' = (if is_ok p then (view (db s))(k \<mapsto> v) else view (db s))"
    using store_lawsD(3,4) [OF assms(1)] assms(10) by (cases p) auto
  then show ?thesis using sub(2-4) res by auto
qed

section \<open>Properties\<close>

text \<open>C24. Writing to a cluster of one: a leader that has received no \<^verbatim>\<open>Append\<close> since it started writes the
  value of a set request to its store at once, and the first message it sends is the response
  to the client, under the request's own id.  When the store takes the write, the key has the value and the
  response is a success; when the store fails, its contents are as before and the response is a failure with the
  text of the code.\<close>

theorem single_node_set:
  assumes "store_laws E view" and "leading E d s" and "length (peers s) \<le> 1"
    and "is_leader (state s)" and "parse_CliReq E (msg req) = Inr r"
    and "\<not> CliReq_has_get r" and "CliReq_has_set r" and "handle_cli E req s = Inr s'"
    and "k = SetReq_get_key (CliReq_get_set r)" and "v = SetReq_get_value (CliReq_get_set r)"
    and "db_put E (db s) k v = (p, d')"
  shows "db s' = d' \<and> view (db s') = (if is_ok p then (view (db s))(k \<mapsto> v) else view (db s)) \<and>
    (\<exists>b envs. outbox s' = outbox s @ \<lparr>address = address req, tok = tok req, msg = b\<rparr> # envs \<and>
       write_CliRes E (CliRes_set_req_id (CliReq_get_req_id r) (CliRes_set_set (set_verdict (is_ok p)) CliRes_new)) = Inr b)"
  by (rule lone_set [OF assms(1) leading_lone [OF assms(2,3)] assms(4-11)])

theorem single_node_set_witness:
  "(\<exists>s'. handle_cli demo_ext (demo_env 2) demo_leader = Inr s' \<and> db s' = [[7] \<mapsto> [9]]) \<and>
   (\<exists>s'. handle_cli full_ext (demo_env 2) demo_leader = Inr s' \<and> db s' = Map.empty)"
proof (intro conjI)
  have lead: "length (peers demo_leader) \<le> 1" "is_leader (state demo_leader)" "db demo_leader = Map.empty"
    by (simp_all add: demo_leader_def demo_candidate_def peer_broadcast_def Server_init_def)
  have kv: "[7] = SetReq_get_key (CliReq_get_set demo_set)" "[9] = SetReq_get_value (CliReq_get_set demo_set)"
    by (simp_all add: demo_msgs SetReq_accessors)
  have p: "parse_CliReq demo_ext (msg (demo_env 2)) = Inr demo_set" "parse_CliReq full_ext (msg (demo_env 2)) = Inr demo_set"
    by (simp_all add: demo_ext_def full_ext_def demo_env_def)
  obtain s' where s': "handle_cli demo_ext (demo_env 2) demo_leader = Inr s'"
    using demo_store by (auto simp: server_step_def)
  have "db_put demo_ext (db demo_leader) [7] [9] = (Inr (), [[7] \<mapsto> [9]])" by (simp add: demo_ext_def lead(3))
  from single_node_set [OF demo_ext_store(1) demo_leading lead(1,2) p(1) demo_msgs(6,7) s' kv this] s'
  show "\<exists>s'. handle_cli demo_ext (demo_env 2) demo_leader = Inr s' \<and> db s' = [[7] \<mapsto> [9]]" by blast
  obtain s1 where s1: "handle_cli full_ext (demo_env 2) demo_leader = Inr s1" using full_step by (auto simp: server_step_def)
  have "db_put full_ext (db demo_leader) [7] [9] = (Inl ''No space left on device'', Map.empty)" by (simp add: full_ext_def lead(3))
  from single_node_set [OF full_ext_store full_leading lead(1,2) p(2) demo_msgs(6,7) s1 kv this] s1
  show "\<exists>s'. handle_cli full_ext (demo_env 2) demo_leader = Inr s' \<and> db s' = Map.empty" by blast
qed

end
