(* ===== verification/Wire_Rt.thy ===== *)
theory Wire_Rt
  imports Msg_Log
begin

text \<open>
  The wire format of messages, what all messages of \<^verbatim>\<open>serialization.rs\<close> share. The primitives of the
  \<^verbatim>\<open>protobuf\<close> crate (tags, varints, strings, embedded regions and their sizes) are the parameter record \<open>Pb\<close>;
  what the generated code relies on is \<open>pb_laws\<close> (what is written is read back, and takes the announced space) and
  \<open>pb_consumes\<close> (reading moves forward). The reading loop, the additions of sizes, which are checked at 32 bits, and
  the sequence of writes are defined here, and the lemmas that carry the round trip of every message.
\<close>

section \<open>The runtime\<close>

type_synonym perr = string

datatype WireType =
    WireTypeVarint | WireTypeFixed64 | WireTypeLengthDelimited
  | WireTypeStartGroup | WireTypeEndGroup | WireTypeFixed32

text \<open>An input stream is the list of bytes that are left. \<open>pb_read_region\<close> splits off an embedded message, which is
  what \<^verbatim>\<open>merge_message\<close> and \<^verbatim>\<open>read_repeated_message_into\<close> merge from. A write returns the bytes that it appends. Size
  computations may overflow.\<close>

record Pb =
  pb_eof :: "bytes \<Rightarrow> perr + bool"
  pb_read_tag_unpack :: "bytes \<Rightarrow> perr + (u32 \<times> WireType) \<times> bytes"
  pb_read_uint64 :: "bytes \<Rightarrow> perr + u64 \<times> bytes"
  pb_read_bool :: "bytes \<Rightarrow> perr + bool \<times> bytes"
  pb_read_enum :: "bytes \<Rightarrow> perr + MutationType \<times> bytes"
  pb_read_bytes :: "bytes \<Rightarrow> perr + bytes \<times> bytes"
  pb_read_string :: "bytes \<Rightarrow> perr + string \<times> bytes"
  pb_read_region :: "bytes \<Rightarrow> perr + bytes \<times> bytes"
  pb_read_unknown :: "WireType \<Rightarrow> bytes \<Rightarrow> perr + UnknownValue \<times> bytes"
  pb_add_value :: "u32 \<Rightarrow> UnknownValue \<Rightarrow> UnknownFields \<Rightarrow> UnknownFields"
  pb_value_size :: "u32 \<Rightarrow> u64 \<Rightarrow> WireType \<Rightarrow> u32 res"
  pb_enum_size :: "u32 \<Rightarrow> MutationType \<Rightarrow> u32 res"
  pb_bytes_size :: "u32 \<Rightarrow> bytes \<Rightarrow> u32 res"
  pb_string_size :: "u32 \<Rightarrow> string \<Rightarrow> u32 res"
  pb_varint32_size :: "u32 \<Rightarrow> u32 res"
  pb_unknown_fields_size :: "UnknownFields \<Rightarrow> u32 res"
  pb_write_uint64 :: "u32 \<Rightarrow> u64 \<Rightarrow> perr + bytes"
  pb_write_bool :: "u32 \<Rightarrow> bool \<Rightarrow> perr + bytes"
  pb_write_enum :: "u32 \<Rightarrow> int \<Rightarrow> perr + bytes"
  pb_write_bytes :: "u32 \<Rightarrow> bytes \<Rightarrow> perr + bytes"
  pb_write_string :: "u32 \<Rightarrow> string \<Rightarrow> perr + bytes"
  pb_write_tag :: "u32 \<Rightarrow> WireType \<Rightarrow> perr + bytes"
  pb_write_raw_varint32 :: "u32 \<Rightarrow> perr + bytes"
  pb_write_unknown_fields :: "UnknownFields \<Rightarrow> perr + bytes"

section \<open>Reading\<close>

text \<open>The loop of every \<^verbatim>\<open>merge_from\<close>; \<open>field\<close> is its \<^verbatim>\<open>match\<close> on the field number. A message that contains others merges
  them inside \<open>field\<close>, which is why it may fail to return.\<close>

type_synonym 'm merged = "(perr + 'm \<times> bytes) option"

partial_function (option) merge_loop ::
  "Pb \<Rightarrow> (u32 \<Rightarrow> WireType \<Rightarrow> 'm \<Rightarrow> bytes \<Rightarrow> 'm merged) \<Rightarrow> 'm \<Rightarrow> bytes \<Rightarrow> (perr + 'm) option" where
  "merge_loop rt field m is =
     (case pb_eof rt is of
        Inl e \<Rightarrow> Some (Inl e)
      | Inr eof \<Rightarrow>
          if eof then Some (Inr m)
          else (case pb_read_tag_unpack rt is of
             Inl e \<Rightarrow> Some (Inl e)
           | Inr ((field_number, wire_type), is1) \<Rightarrow>
               (case field field_number wire_type m is1 of
                  None \<Rightarrow> None
                | Some (Inl e) \<Rightarrow> Some (Inl e)
                | Some (Inr (m', is2)) \<Rightarrow> merge_loop rt field m' is2)))"

text \<open>One arm of the \<^verbatim>\<open>match\<close>: the check of the wire type, then a scalar or an embedded message.\<close>

definition expect :: "WireType \<Rightarrow> WireType \<Rightarrow> 'm merged \<Rightarrow> 'm merged" where
  "expect expected wire_type arm = (if wire_type \<noteq> expected then Some (Inl ''unexpected wire type'') else arm)"

definition read_field :: "(bytes \<Rightarrow> perr + 'v \<times> bytes) \<Rightarrow> ('v \<Rightarrow> 'm) \<Rightarrow> bytes \<Rightarrow> 'm merged" where
  "read_field rd put is = (case rd is of Inl e \<Rightarrow> Some (Inl e) | Inr (v, is') \<Rightarrow> Some (Inr (put v, is')))"

definition merge_message :: "Pb \<Rightarrow> ('v \<Rightarrow> bytes \<Rightarrow> (perr + 'v) option) \<Rightarrow> 'v \<Rightarrow> ('v \<Rightarrow> 'm) \<Rightarrow> bytes \<Rightarrow> 'm merged" where
  "merge_message rt merge_from dflt put is =
     (case pb_read_region rt is of
        Inl e \<Rightarrow> Some (Inl e)
      | Inr (inner, is') \<Rightarrow>
          (case merge_from dflt inner of
             None \<Rightarrow> None
           | Some (Inl e) \<Rightarrow> Some (Inl e)
           | Some (Inr v) \<Rightarrow> Some (Inr (put v, is'))))"

section \<open>Sizes\<close>

definition add_size :: "u32 \<Rightarrow> u32 res \<Rightarrow> u32 res" where
  "add_size my_size r = and_then r (checked_add my_size)"

definition size_opt :: "('v \<Rightarrow> u32 res) \<Rightarrow> u32 \<Rightarrow> 'v option \<Rightarrow> u32 res" where
  "size_opt sz my_size x = (case x of None \<Rightarrow> Inr my_size | Some v \<Rightarrow> add_size my_size (sz v))"

text \<open>\<^verbatim>\<open>my_size += 1 + compute_raw_varint32_size(len) + len\<close>, where \<^verbatim>\<open>compute_size\<close> of the embedded message stores
  the size in it.\<close>

definition size_embedded :: "Pb \<Rightarrow> ('v \<Rightarrow> (u32 \<times> 'v) res) \<Rightarrow> u32 \<Rightarrow> 'v \<Rightarrow> (u32 \<times> 'v) res" where
  "size_embedded rt compute_size my_size value =
     and_then (compute_size value) (\<lambda>(len, value').
     and_then (and_then (pb_varint32_size rt len) (checked_add 1)) (\<lambda>k.
     and_then (checked_add k len) (\<lambda>k'.
     and_then (checked_add my_size k') (\<lambda>my_size'. Inr (my_size', value')))))"

definition size_msg :: "Pb \<Rightarrow> ('v \<Rightarrow> (u32 \<times> 'v) res) \<Rightarrow> u32 \<Rightarrow> 'v option \<Rightarrow> (u32 \<times> 'v option) res" where
  "size_msg rt compute_size my_size x =
     (case x of
        None \<Rightarrow> Inr (my_size, None)
      | Some v \<Rightarrow> and_then (size_embedded rt compute_size my_size v) (\<lambda>(s, v'). Inr (s, Some v')))"

primrec size_rep :: "Pb \<Rightarrow> ('v \<Rightarrow> (u32 \<times> 'v) res) \<Rightarrow> u32 \<Rightarrow> 'v list \<Rightarrow> (u32 \<times> 'v list) res" where
  "size_rep rt compute_size my_size [] = Inr (my_size, [])"
| "size_rep rt compute_size my_size (v # vs) =
     and_then (size_embedded rt compute_size my_size v) (\<lambda>(s, v').
     and_then (size_rep rt compute_size s vs) (\<lambda>(s', vs'). Inr (s', v' # vs')))"

section \<open>Writing\<close>

text \<open>Statements that end in \<^verbatim>\<open>try!\<close>, one after the other.\<close>

primrec write_all :: "(perr + bytes) list \<Rightarrow> perr + bytes" where
  "write_all [] = Inr []"
| "write_all (w # ws) = and_then w (\<lambda>b. and_then (write_all ws) (\<lambda>b'. Inr (b @ b')))"

definition write_opt :: "('v \<Rightarrow> perr + bytes) \<Rightarrow> 'v option \<Rightarrow> perr + bytes" where
  "write_opt write x = (case x of None \<Rightarrow> Inr [] | Some v \<Rightarrow> write v)"

definition write_msg :: "Pb \<Rightarrow> u32 \<Rightarrow> ('v \<Rightarrow> u32) \<Rightarrow> ('v \<Rightarrow> perr + bytes) \<Rightarrow> 'v \<Rightarrow> perr + bytes" where
  "write_msg rt n get_cached_size write v =
     write_all [pb_write_tag rt n WireTypeLengthDelimited, pb_write_raw_varint32 rt (get_cached_size v), write v]"

section \<open>What the generated code relies on\<close>

text \<open>A field that is written as \<open>w\<close> is announced by its tag and read back as \<open>v\<close>.\<close>

definition reads_back :: "Pb \<Rightarrow> u32 \<Rightarrow> WireType \<Rightarrow> perr + bytes \<Rightarrow> (bytes \<Rightarrow> perr + 'v \<times> bytes) \<Rightarrow> 'v \<Rightarrow> bool" where
  "reads_back rt n wire_type w rd v \<longleftrightarrow>
     (\<exists>b p. w = Inr b \<and> b \<noteq> [] \<and>
        (\<forall>rest. pb_read_tag_unpack rt (b @ rest) = Inr ((n, wire_type), p @ rest) \<and> rd (p @ rest) = Inr (v, rest)))"

definition takes_space :: "u32 res \<Rightarrow> perr + bytes \<Rightarrow> bool" where
  "takes_space s w \<longleftrightarrow> (\<forall>k b. s = Inr k \<longrightarrow> w = Inr b \<longrightarrow> unat k = length b)"

text \<open>The field numbers that fit a tag of one byte.\<close>

definition tag_ok :: "u32 \<Rightarrow> bool" where
  "tag_ok n \<longleftrightarrow> 0 < n \<and> n < 16"

lemma tags: "tag_ok 1" "tag_ok 2" "tag_ok 3" "tag_ok 4" "tag_ok 5" "tag_ok 6" "tag_ok 7"
  by (simp_all add: tag_ok_def)

definition pb_laws :: "Pb \<Rightarrow> bool" where
  "pb_laws rt \<longleftrightarrow>
     (\<forall>is. pb_eof rt is = Inr (is = [])) \<and>
     (\<forall>n v. tag_ok n \<longrightarrow> reads_back rt n WireTypeVarint (pb_write_uint64 rt n v) (pb_read_uint64 rt) v \<and>
        takes_space (pb_value_size rt n v WireTypeVarint) (pb_write_uint64 rt n v)) \<and>
     (\<forall>n v. tag_ok n \<longrightarrow> reads_back rt n WireTypeVarint (pb_write_bool rt n v) (pb_read_bool rt) v \<and>
        takes_space (Inr 2) (pb_write_bool rt n v)) \<and>
     (\<forall>n v. tag_ok n \<longrightarrow> reads_back rt n WireTypeVarint (pb_write_enum rt n (MutationType_value v)) (pb_read_enum rt) v \<and>
        takes_space (pb_enum_size rt n v) (pb_write_enum rt n (MutationType_value v))) \<and>
     (\<forall>n v. tag_ok n \<longrightarrow> reads_back rt n WireTypeLengthDelimited (pb_write_bytes rt n v) (pb_read_bytes rt) v \<and>
        takes_space (pb_bytes_size rt n v) (pb_write_bytes rt n v)) \<and>
     (\<forall>n v. tag_ok n \<longrightarrow> reads_back rt n WireTypeLengthDelimited (pb_write_string rt n v) (pb_read_string rt) v \<and>
        takes_space (pb_string_size rt n v) (pb_write_string rt n v)) \<and>
     (\<forall>n. tag_ok n \<longrightarrow> (\<exists>b. pb_write_tag rt n WireTypeLengthDelimited = Inr [b] \<and>
        (\<forall>rest. pb_read_tag_unpack rt (b # rest) = Inr ((n, WireTypeLengthDelimited), rest)))) \<and>
     (\<forall>len. \<exists>b. pb_write_raw_varint32 rt len = Inr b \<and> takes_space (pb_varint32_size rt len) (Inr b) \<and>
        (\<forall>body rest. length body = unat len \<longrightarrow> pb_read_region rt (b @ body @ rest) = Inr (body, rest))) \<and>
     pb_write_unknown_fields rt [] = Inr [] \<and> pb_unknown_fields_size rt [] = Inr 0"

text \<open>Reading moves forward: a tag takes at least a byte, and nothing gives bytes back.\<close>

definition shrinks :: "(bytes \<Rightarrow> perr + 'v \<times> bytes) \<Rightarrow> bool" where
  "shrinks rd \<longleftrightarrow> (\<forall>is v is'. rd is = Inr (v, is') \<longrightarrow> length is' \<le> length is)"

definition pb_consumes :: "Pb \<Rightarrow> bool" where
  "pb_consumes rt \<longleftrightarrow>
     (\<forall>is t is'. pb_read_tag_unpack rt is = Inr (t, is') \<longrightarrow> length is' < length is) \<and>
     shrinks (pb_read_uint64 rt) \<and> shrinks (pb_read_bool rt) \<and> shrinks (pb_read_enum rt) \<and>
     shrinks (pb_read_bytes rt) \<and> shrinks (pb_read_string rt) \<and> shrinks (pb_read_region rt) \<and>
     (\<forall>wire_type. shrinks (pb_read_unknown rt wire_type))"

section \<open>Round trips\<close>

text \<open>Writing \<open>w\<close> takes the size from \<open>a\<close> to \<open>b\<close>, and merging what was written applies \<open>f\<close>.\<close>

definition emits ::
  "Pb \<Rightarrow> (u32 \<Rightarrow> WireType \<Rightarrow> 'm \<Rightarrow> bytes \<Rightarrow> 'm merged) \<Rightarrow> perr + bytes \<Rightarrow> ('m \<Rightarrow> 'm) \<Rightarrow> u32 \<Rightarrow> u32 \<Rightarrow> bool" where
  "emits rt field w f a b \<longleftrightarrow>
     (\<exists>bs. w = Inr bs \<and> unat b = unat a + length bs \<and>
        (\<forall>m rest. merge_loop rt field m (bs @ rest) = merge_loop rt field (f m) rest))"

text \<open>A message is good on the wire when the size it computes is stored in it and is the length of what it writes, and merging
  this into a new message gives the message back (\<open>norm\<close> forgets the stored sizes).\<close>

definition wire_ok ::
  "('v \<Rightarrow> (u32 \<times> 'v) res) \<Rightarrow> ('v \<Rightarrow> perr + bytes) \<Rightarrow> ('v \<Rightarrow> bytes \<Rightarrow> (perr + 'v) option) \<Rightarrow> 'v \<Rightarrow> ('v \<Rightarrow> 'v) \<Rightarrow> ('v \<Rightarrow> bool) \<Rightarrow>
   ('v \<Rightarrow> u32) \<Rightarrow> bool" where
  "wire_ok compute_size write merge dflt norm known cached \<longleftrightarrow>
     (\<forall>m n m'. known m \<longrightarrow> compute_size m = Inr (n, m') \<longrightarrow> cached m' = n \<and>
        (\<exists>b. write m' = Inr b \<and> length b = unat n \<and> merge dflt b = Some (Inr (norm m))))"

lemma emits_Nil: "emits rt field (write_all []) (\<lambda>m. m) a a"
  by (simp add: emits_def)

lemma emits_Cons:
  assumes "emits rt field w f a b" and "emits rt field (write_all ws) g b c"
  shows "emits rt field (write_all (w # ws)) (\<lambda>m. g (f m)) a c"
  using assms by (auto simp: emits_def)

lemma emits_unknown:
  assumes "pb_laws rt" and "add_size a (pb_unknown_fields_size rt []) = Inr b"
  shows "emits rt field (pb_write_unknown_fields rt []) (\<lambda>m. m) a b"
  using assms by (auto simp: emits_def pb_laws_def add_size_def checked_add_Inr_iff)

lemma merge_loop_field:
  assumes "pb_laws rt" and "bs \<noteq> []" and "pb_read_tag_unpack rt (bs @ rest) = Inr ((n, wire_type), is)"
    and "field n wire_type m is = Some (Inr (m', rest'))"
  shows "merge_loop rt field m (bs @ rest) = merge_loop rt field m' rest'"
  using assms by (subst merge_loop.simps) (simp add: pb_laws_def)

lemma merge_loop_end: "pb_laws rt \<Longrightarrow> merge_loop rt field m [] = Some (Inr m)"
  by (subst merge_loop.simps) (simp add: pb_laws_def)

lemma emits_scalar:
  assumes "pb_laws rt" and "reads_back rt n wire_type w rd v" and "takes_space s w" and "add_size a s = Inr b"
    and "\<And>m is. field n wire_type m is = read_field rd (\<lambda>v. put v m) is"
  shows "emits rt field w (put v) a b"
proof -
  obtain bs p where w: "w = Inr bs" "bs \<noteq> []"
    and rd: "\<And>rest. pb_read_tag_unpack rt (bs @ rest) = Inr ((n, wire_type), p @ rest)" "\<And>rest. rd (p @ rest) = Inr (v, rest)"
    using assms(2) by (auto simp: reads_back_def)
  obtain k where k: "s = Inr k" "checked_add a k = Inr b" using assms(4) by (auto simp: add_size_def)
  have "unat b = unat a + length bs" using checked_add_unat [OF k(2)] assms(3) k(1) w(1) by (simp add: takes_space_def)
  moreover have "merge_loop rt field m (bs @ rest) = merge_loop rt field (put v m) rest" for m rest
    by (rule merge_loop_field [OF assms(1) w(2) rd(1)]) (simp add: assms(5) read_field_def rd(2))
  ultimately show ?thesis using w(1) by (simp add: emits_def)
qed

lemma emits_opt:
  assumes "pb_laws rt" and "\<And>v. reads_back rt n wire_type (write v) rd v \<and> takes_space (sz v) (write v)"
    and "size_opt sz a x = Inr b"
    and "\<And>m is. field n wire_type m is = read_field rd (\<lambda>v. put v m) is"
  shows "emits rt field (write_opt write x) (case x of None \<Rightarrow> (\<lambda>m. m) | Some v \<Rightarrow> put v) a b"
proof (cases x)
  case None
  then show ?thesis using assms(3) by (simp add: write_opt_def size_opt_def emits_def)
next
  case (Some v)
  then have "add_size a (sz v) = Inr b" using assms(3) by (simp add: size_opt_def)
  from emits_scalar [where put = put and field = field, OF assms(1) _ _ this assms(4)] assms(2) Some
  show ?thesis by (simp add: write_opt_def)
qed

text \<open>The kinds of fields.\<close>

lemma emits_uint64:
  assumes "pb_laws rt" and "tag_ok n" and "size_opt (\<lambda>v. pb_value_size rt n v WireTypeVarint) a x = Inr b"
    and "\<And>m is. field n WireTypeVarint m is = read_field (pb_read_uint64 rt) (\<lambda>v. put v m) is"
  shows "emits rt field (write_opt (pb_write_uint64 rt n) x) (case x of None \<Rightarrow> (\<lambda>m. m) | Some v \<Rightarrow> put v) a b"
  by (rule emits_opt [where put = put and field = field, OF assms(1) _ assms(3,4)])
     (use assms(1,2) in \<open>simp add: pb_laws_def\<close>)

lemma emits_bool:
  assumes "pb_laws rt" and "tag_ok n" and "size_opt (\<lambda>_. Inr 2) a x = Inr b"
    and "\<And>m is. field n WireTypeVarint m is = read_field (pb_read_bool rt) (\<lambda>v. put v m) is"
  shows "emits rt field (write_opt (pb_write_bool rt n) x) (case x of None \<Rightarrow> (\<lambda>m. m) | Some v \<Rightarrow> put v) a b"
  by (rule emits_opt [where put = put and field = field, OF assms(1) _ assms(3,4)])
     (use assms(1,2) in \<open>simp add: pb_laws_def\<close>)

lemma emits_enum:
  assumes "pb_laws rt" and "tag_ok n" and "size_opt (pb_enum_size rt n) a x = Inr b"
    and "\<And>m is. field n WireTypeVarint m is = read_field (pb_read_enum rt) (\<lambda>v. put v m) is"
  shows "emits rt field (write_opt (\<lambda>v. pb_write_enum rt n (MutationType_value v)) x) (case x of None \<Rightarrow> (\<lambda>m. m) | Some v \<Rightarrow> put v) a b"
  by (rule emits_opt [where put = put and field = field, OF assms(1) _ assms(3,4)])
     (use assms(1,2) in \<open>simp add: pb_laws_def\<close>)

lemma emits_bytes:
  assumes "pb_laws rt" and "tag_ok n" and "size_opt (pb_bytes_size rt n) a x = Inr b"
    and "\<And>m is. field n WireTypeLengthDelimited m is = read_field (pb_read_bytes rt) (\<lambda>v. put v m) is"
  shows "emits rt field (write_opt (pb_write_bytes rt n) x) (case x of None \<Rightarrow> (\<lambda>m. m) | Some v \<Rightarrow> put v) a b"
  by (rule emits_opt [where put = put and field = field, OF assms(1) _ assms(3,4)])
     (use assms(1,2) in \<open>simp add: pb_laws_def\<close>)

lemma emits_string:
  assumes "pb_laws rt" and "tag_ok n" and "size_opt (pb_string_size rt n) a x = Inr b"
    and "\<And>m is. field n WireTypeLengthDelimited m is = read_field (pb_read_string rt) (\<lambda>v. put v m) is"
  shows "emits rt field (write_opt (pb_write_string rt n) x) (case x of None \<Rightarrow> (\<lambda>m. m) | Some v \<Rightarrow> put v) a b"
  by (rule emits_opt [where put = put and field = field, OF assms(1) _ assms(3,4)])
     (use assms(1,2) in \<open>simp add: pb_laws_def\<close>)

lemma pb_laws_embedded:
  assumes "pb_laws rt"
  shows "tag_ok n \<Longrightarrow> \<exists>b. pb_write_tag rt n WireTypeLengthDelimited = Inr [b] \<and>
      (\<forall>rest. pb_read_tag_unpack rt (b # rest) = Inr ((n, WireTypeLengthDelimited), rest))"
    and "\<exists>b. pb_write_raw_varint32 rt len = Inr b \<and> takes_space (pb_varint32_size rt len) (Inr b) \<and>
      (\<forall>body rest. length body = unat len \<longrightarrow> pb_read_region rt (b @ body @ rest) = Inr (body, rest))"
  using assms unfolding pb_laws_def by simp_all

lemma size_embedded_Inr:
  assumes "size_embedded rt compute_size a v = Inr (b, v')"
  obtains len k where "compute_size v = Inr (len, v')" "pb_varint32_size rt len = Inr k"
    "unat b = unat a + 1 + unat k + unat len"
proof -
  obtain len k k1 k2 where *: "compute_size v = Inr (len, v')" "pb_varint32_size rt len = Inr k"
    "checked_add 1 k = Inr k1" "checked_add k1 len = Inr k2" "checked_add a k2 = Inr b"
    using assms by (auto simp: size_embedded_def)
  show ?thesis
    using checked_add_unat [OF *(3)] checked_add_unat [OF *(4)] checked_add_unat [OF *(5)] by (intro that [OF *(1,2)]) simp
qed

lemma emits_embedded:
  assumes "pb_laws rt" and "wire_ok compute_size write merge dflt norm known cached" and "known v"
    and "size_embedded rt compute_size a v = Inr (b, v')" and "tag_ok n"
    and "\<And>m is. field n WireTypeLengthDelimited m is = merge_message rt merge dflt (\<lambda>v. put v m) is"
  shows "emits rt field (write_msg rt n cached write v') (put (norm v)) a b"
proof -
  obtain len k where s: "compute_size v = Inr (len, v')" "pb_varint32_size rt len = Inr k"
    "unat b = unat a + 1 + unat k + unat len"
    using assms(4) by (rule size_embedded_Inr)
  obtain body where body: "cached v' = len" "write v' = Inr body" "length body = unat len" "merge dflt body = Some (Inr (norm v))"
    using assms(2,3) s(1) unfolding wire_ok_def by blast
  obtain t where t: "pb_write_tag rt n WireTypeLengthDelimited = Inr [t]"
    "\<And>rest. pb_read_tag_unpack rt ([t] @ rest) = Inr ((n, WireTypeLengthDelimited), rest)"
    using pb_laws_embedded(1) [OF assms(1,5)] by auto
  obtain l where l: "pb_write_raw_varint32 rt len = Inr l" "unat k = length l"
    "\<And>rest. pb_read_region rt (l @ body @ rest) = Inr (body, rest)"
    using pb_laws_embedded(2) [OF assms(1), of len] s(2) body(3) by (auto simp: takes_space_def)
  have w: "write_msg rt n cached write v' = Inr ([t] @ l @ body)" by (simp add: write_msg_def t l body)
  have "merge_loop rt field m ([t] @ l @ body @ rest) = merge_loop rt field (put (norm v) m) rest" for m rest
    by (rule merge_loop_field [OF assms(1) _ t(2)]) (simp_all add: assms(6) merge_message_def l(3) body(4))
  then show ?thesis using w s(3) l(2) body(3) by (simp add: emits_def)
qed

lemma emits_msg:
  assumes "pb_laws rt" and "wire_ok compute_size write merge dflt norm known cached" and "pred_option known x"
    and "size_msg rt compute_size a x = Inr (b, x')" and "tag_ok n"
    and "\<And>m is. field n WireTypeLengthDelimited m is = merge_message rt merge dflt (\<lambda>v. put v m) is"
  shows "emits rt field (write_opt (write_msg rt n cached write) x')
    (case x of None \<Rightarrow> (\<lambda>m. m) | Some v \<Rightarrow> put (norm v)) a b"
proof (cases x)
  case None
  then show ?thesis using assms(4) by (auto simp: size_msg_def write_opt_def emits_def)
next
  case (Some v)
  then obtain v' where v': "size_embedded rt compute_size a v = Inr (b, v')" "x' = Some v'" and "known v"
    using assms(3,4) by (auto simp: size_msg_def)
  with emits_embedded [where put = put and field = field, OF assms(1,2) _ v'(1) assms(5,6)] Some show ?thesis by (simp add: write_opt_def)
qed

text \<open>Repeated messages are appended one by one.\<close>

lemma emits_rep:
  assumes "pb_laws rt" and "wire_ok compute_size write merge dflt norm known cached" and "list_all known xs"
    and "size_rep rt compute_size a xs = Inr (b, xs')" and "tag_ok n"
    and "\<And>m is. field n WireTypeLengthDelimited m is = merge_message rt merge dflt (\<lambda>v. put v m) is"
  shows "emits rt field (write_all (map (write_msg rt n cached write) xs')) (\<lambda>m. foldl (\<lambda>m v. put (norm v) m) m xs) a b"
  using assms(3,4)
proof (induction xs arbitrary: a xs')
  case Nil
  then show ?case using emits_Nil by simp
next
  case (Cons v vs)
  obtain s v' vs' where s: "size_embedded rt compute_size a v = Inr (s, v')" "size_rep rt compute_size s vs = Inr (b, vs')"
    "xs' = v' # vs'"
    using Cons.prems(2) by auto
  have "known v" "list_all known vs" using Cons.prems(1) by simp_all
  with emits_Cons [OF emits_embedded [where put = put and field = field, OF assms(1,2) _ s(1) assms(5,6)] Cons.IH [OF _ s(2)]] s(3) show ?case by simp
qed

text \<open>A message whose fields come back is good on the wire.\<close>

lemma emits_merge:
  assumes "pb_laws rt" and "emits rt field w f 0 n"
  shows "\<exists>b. w = Inr b \<and> length b = unat n \<and> merge_loop rt field m b = Some (Inr (f m))"
proof -
  obtain bs where bs: "w = Inr bs" "unat n = length bs"
    "\<And>m rest. merge_loop rt field m (bs @ rest) = merge_loop rt field (f m) rest"
    using assms(2) by (auto simp: emits_def)
  then show ?thesis using bs(3) [of m "[]"] merge_loop_end [OF assms(1)] by simp
qed

section \<open>Reading ends\<close>

text \<open>\<open>returns\<close>: an arm of a \<^verbatim>\<open>match\<close> ends and gives no bytes back.\<close>

definition returns :: "'m merged \<Rightarrow> bytes \<Rightarrow> bool" where
  "returns r is \<longleftrightarrow> (\<exists>x. r = Some x \<and> (\<forall>m is'. x = Inr (m, is') \<longrightarrow> length is' \<le> length is))"

lemma returns_expect: "returns arm is \<Longrightarrow> returns (expect t t' arm) is"
  by (simp add: expect_def returns_def)

lemma returns_read: "shrinks rd \<Longrightarrow> returns (read_field rd put is) is"
  by (auto simp: read_field_def returns_def shrinks_def split: sum.splits)

lemma returns_merge:
  assumes "pb_consumes rt" and "\<And>m is. \<exists>x. merge m is = Some x"
  shows "returns (merge_message rt merge dflt put is) is"
proof (cases "pb_read_region rt is")
  case (Inl e)
  then show ?thesis by (simp add: merge_message_def returns_def)
next
  case (Inr x)
  obtain inner is' where x: "pb_read_region rt is = Inr (inner, is')" using Inr by (cases x) simp
  have "length is' \<le> length is" using assms(1) x unfolding pb_consumes_def shrinks_def by blast
  moreover obtain y where "merge dflt inner = Some y" using assms(2) by blast
  ultimately show ?thesis using x by (cases y) (auto simp: merge_message_def returns_def)
qed

lemma merge_loop_returns:
  assumes "pb_consumes rt" and "\<And>n t m inp. returns (field n t m inp) inp"
  shows "\<exists>x. merge_loop rt field m inp = Some x"
proof (induction "length inp" arbitrary: m inp rule: less_induct)
  case less
  show ?case
  proof (cases "pb_eof rt inp = Inr False")
    case True
    show ?thesis
    proof (cases "pb_read_tag_unpack rt inp")
      case (Inl e)
      then show ?thesis using True by (subst merge_loop.simps) simp
    next
      case (Inr x)
      obtain n t is1 where x: "pb_read_tag_unpack rt inp = Inr ((n, t), is1)" using Inr by (cases x) auto
      have len: "length is1 < length inp" using assms(1) x unfolding pb_consumes_def by blast
      obtain y where y: "field n t m is1 = Some y" "\<And>m inp'. y = Inr (m, inp') \<Longrightarrow> length inp' \<le> length is1"
        using assms(2) unfolding returns_def by blast
      show ?thesis
      proof (cases y)
        case (Inl e)
        then show ?thesis using True x y by (subst merge_loop.simps) simp
      next
        case (Inr z)
        obtain m' is2 where z: "y = Inr (m', is2)" using Inr by (cases z) simp
        have "length is2 < length inp" using y(2) [OF z] len by simp
        from less [OF this] show ?thesis using True x y(1) z by (subst merge_loop.simps) simp
      qed
    qed
  next
    case False
    then show ?thesis by (subst merge_loop.simps) (auto split: sum.splits)
  qed
qed

lemma pb_consumes_reads:
  assumes "pb_consumes rt"
  shows "shrinks (pb_read_uint64 rt)" "shrinks (pb_read_bool rt)" "shrinks (pb_read_enum rt)" "shrinks (pb_read_bytes rt)"
    "shrinks (pb_read_string rt)" "shrinks (pb_read_unknown rt t)"
  using assms by (simp_all add: pb_consumes_def)

end
