(* ===== verification/Wire_Log.thy ===== *)
theory Wire_Log
  imports Wire_Rt
begin

text \<open>
  \<^verbatim>\<open>serialization.rs\<close>, the messages of a replicated mutation on the wire: the arms of the loop of \<^verbatim>\<open>merge_from\<close>, \<^verbatim>\<open>compute_size\<close> with the
  sizes that it stores, and \<^verbatim>\<open>write_to_with_cached_sizes\<close>, field by field. Each message is good on the wire
  (\<open>wire_ok\<close>), and merging any input returns. The round trip is for messages without unknown fields (\<open>_known\<close>)
  and gives back the message with the stored sizes forgotten (\<open>_norm\<close>), which is equal to it.
\<close>

section \<open>Definitions\<close>

subsection \<open>Version\<close>

definition Version_merge_field :: "Pb \<Rightarrow> u32 \<Rightarrow> WireType \<Rightarrow> Version \<Rightarrow> bytes \<Rightarrow> Version merged" where
  "Version_merge_field rt field_number wire_type m is =
     (if field_number = 1 then
        expect WireTypeVarint wire_type
          (read_field (pb_read_uint64 rt) (\<lambda>v. m\<lparr>Version_txid := Some v\<rparr>) is)
      else if field_number = 2 then
        expect WireTypeVarint wire_type
          (read_field (pb_read_uint64 rt) (\<lambda>v. m\<lparr>Version_term := Some v\<rparr>) is)
      else read_field (pb_read_unknown rt wire_type)
             (\<lambda>v. m\<lparr>Version_unknown_fields := pb_add_value rt field_number v (Version_unknown_fields m)\<rparr>) is)"

abbreviation Version_merge_from :: "Pb \<Rightarrow> Version \<Rightarrow> bytes \<Rightarrow> (perr + Version) option" where
  "Version_merge_from rt \<equiv> merge_loop rt (Version_merge_field rt)"

definition Version_compute_size :: "Pb \<Rightarrow> Version \<Rightarrow> (u32 \<times> Version) res" where
  "Version_compute_size rt m =
     and_then (size_opt (\<lambda>v. pb_value_size rt 1 v WireTypeVarint) 0 (Version_txid m)) (\<lambda>s1.
     and_then (size_opt (\<lambda>v. pb_value_size rt 2 v WireTypeVarint) s1 (Version_term m)) (\<lambda>s2.
     and_then (add_size s2 (pb_unknown_fields_size rt (Version_unknown_fields m))) (\<lambda>my_size.
       Inr (my_size, m\<lparr>Version_cached_size := my_size\<rparr>))))"

definition Version_write_to :: "Pb \<Rightarrow> Version \<Rightarrow> perr + bytes" where
  "Version_write_to rt m =
     write_all
      [write_opt (pb_write_uint64 rt 1) (Version_txid m),
       write_opt (pb_write_uint64 rt 2) (Version_term m),
       pb_write_unknown_fields rt (Version_unknown_fields m)]"

subsection \<open>Mutation\<close>

definition Mutation_merge_field :: "Pb \<Rightarrow> u32 \<Rightarrow> WireType \<Rightarrow> Mutation \<Rightarrow> bytes \<Rightarrow> Mutation merged" where
  "Mutation_merge_field rt field_number wire_type m is =
     (if field_number = 1 then
        expect WireTypeVarint wire_type
          (read_field (pb_read_enum rt) (\<lambda>v. m\<lparr>Mutation_field_type := Some v\<rparr>) is)
      else if field_number = 2 then
        expect WireTypeLengthDelimited wire_type
          (merge_message rt (merge_loop rt (Version_merge_field rt)) Version_new (\<lambda>v. m\<lparr>Mutation_version := Some v\<rparr>) is)
      else if field_number = 3 then
        expect WireTypeLengthDelimited wire_type
          (read_field (pb_read_bytes rt) (\<lambda>v. m\<lparr>Mutation_key := Some v\<rparr>) is)
      else if field_number = 4 then
        expect WireTypeLengthDelimited wire_type
          (read_field (pb_read_bytes rt) (\<lambda>v. m\<lparr>Mutation_value := Some v\<rparr>) is)
      else if field_number = 5 then
        expect WireTypeLengthDelimited wire_type
          (read_field (pb_read_bytes rt) (\<lambda>v. m\<lparr>Mutation_old_value := Some v\<rparr>) is)
      else read_field (pb_read_unknown rt wire_type)
             (\<lambda>v. m\<lparr>Mutation_unknown_fields := pb_add_value rt field_number v (Mutation_unknown_fields m)\<rparr>) is)"

abbreviation Mutation_merge_from :: "Pb \<Rightarrow> Mutation \<Rightarrow> bytes \<Rightarrow> (perr + Mutation) option" where
  "Mutation_merge_from rt \<equiv> merge_loop rt (Mutation_merge_field rt)"

definition Mutation_compute_size :: "Pb \<Rightarrow> Mutation \<Rightarrow> (u32 \<times> Mutation) res" where
  "Mutation_compute_size rt m =
     and_then (size_opt (pb_enum_size rt 1) 0 (Mutation_field_type m)) (\<lambda>s1.
     and_then (size_msg rt (Version_compute_size rt) s1 (Mutation_version m)) (\<lambda>(s2, version').
     and_then (size_opt (pb_bytes_size rt 3) s2 (Mutation_key m)) (\<lambda>s3.
     and_then (size_opt (pb_bytes_size rt 4) s3 (Mutation_value m)) (\<lambda>s4.
     and_then (size_opt (pb_bytes_size rt 5) s4 (Mutation_old_value m)) (\<lambda>s5.
     and_then (add_size s5 (pb_unknown_fields_size rt (Mutation_unknown_fields m))) (\<lambda>my_size.
       Inr (my_size, m\<lparr>Mutation_version := version', Mutation_cached_size := my_size\<rparr>)))))))"

definition Mutation_write_to :: "Pb \<Rightarrow> Mutation \<Rightarrow> perr + bytes" where
  "Mutation_write_to rt m =
     write_all
      [write_opt (\<lambda>v. pb_write_enum rt 1 (MutationType_value v)) (Mutation_field_type m),
       write_opt (write_msg rt 2 Version_cached_size (Version_write_to rt)) (Mutation_version m),
       write_opt (pb_write_bytes rt 3) (Mutation_key m),
       write_opt (pb_write_bytes rt 4) (Mutation_value m),
       write_opt (pb_write_bytes rt 5) (Mutation_old_value m),
       pb_write_unknown_fields rt (Mutation_unknown_fields m)]"

section \<open>On the wire\<close>

subsection \<open>Version\<close>

definition Version_norm :: "Version \<Rightarrow> Version" where
  "Version_norm m = m\<lparr>Version_cached_size := 0\<rparr>"

definition Version_known :: "Version \<Rightarrow> bool" where
  "Version_known m \<longleftrightarrow> Version_unknown_fields m = []"

lemma Version_eq_norm: "Version_eq (Version_norm m) m"
  by (simp add: Version_eq_def Version_norm_def)

lemma Version_arms:
  "Version_merge_field rt 1 WireTypeVarint m is = read_field (pb_read_uint64 rt) (\<lambda>v. m\<lparr>Version_txid := Some v\<rparr>) is"
  "Version_merge_field rt 2 WireTypeVarint m is = read_field (pb_read_uint64 rt) (\<lambda>v. m\<lparr>Version_term := Some v\<rparr>) is"
  by (simp_all add: Version_merge_field_def expect_def)

lemma Version_wire:
  assumes "pb_laws rt"
  shows "wire_ok (Version_compute_size rt) (Version_write_to rt) (Version_merge_from rt) Version_new Version_norm Version_known Version_cached_size"
  unfolding wire_ok_def
proof (intro allI impI)
  fix m n m' assume km: "Version_known m" and size: "Version_compute_size rt m = Inr (n, m')"
  have known: "Version_unknown_fields m = []" using km by (simp_all add: Version_known_def)
  obtain s1 s2 where s: "size_opt (\<lambda>v. pb_value_size rt 1 v WireTypeVarint) 0 (Version_txid m) = Inr s1" "size_opt (\<lambda>v. pb_value_size rt 2 v WireTypeVarint) s1 (Version_term m) = Inr s2" "add_size s2 (pb_unknown_fields_size rt []) = Inr n"
    and m': "m' = m\<lparr>Version_cached_size := n\<rparr>"
    using size known(1) by (auto simp: Version_compute_size_def)
  note e1 = emits_uint64 [where field = "Version_merge_field rt" and put = "\<lambda>v m. m\<lparr>Version_txid := Some v\<rparr>", OF assms tags(1) s(1) Version_arms(1)]
    and e2 = emits_uint64 [where field = "Version_merge_field rt" and put = "\<lambda>v m. m\<lparr>Version_term := Some v\<rparr>", OF assms tags(2) s(2) Version_arms(2)]
    and e3 = emits_unknown [where field = "Version_merge_field rt", OF assms s(3)]
  note chain = emits_Cons [OF e1 emits_Cons [OF e2 emits_Cons [OF e3 emits_Nil]]]
  show "Version_cached_size m' = n \<and> (\<exists>b. Version_write_to rt m' = Inr b \<and> length b = unat n \<and>
      Version_merge_from rt Version_new b = Some (Inr (Version_norm m)))"
    using emits_merge [OF assms chain, of Version_new] known(1)
    by (cases m) (simp add: m' Version_write_to_def Version_norm_def Version_new_def split: option.splits)
qed

lemma Version_merge_returns:
  assumes "pb_consumes rt"
  shows "\<exists>x. Version_merge_from rt m is = Some x"
  by (rule merge_loop_returns [OF assms])
     (simp add: Version_merge_field_def returns_expect returns_read pb_consumes_reads [OF assms])

subsection \<open>Mutation\<close>

definition Mutation_norm :: "Mutation \<Rightarrow> Mutation" where
  "Mutation_norm m = m\<lparr>Mutation_version := map_option Version_norm (Mutation_version m), Mutation_cached_size := 0\<rparr>"

definition Mutation_known :: "Mutation \<Rightarrow> bool" where
  "Mutation_known m \<longleftrightarrow> Mutation_unknown_fields m = [] \<and> pred_option Version_known (Mutation_version m)"

lemma Mutation_eq_norm: "Mutation_eq (Mutation_norm m) m"
  by (simp add: Mutation_eq_def Mutation_norm_def Version_eq_norm option.rel_map list.rel_map option.rel_refl list.rel_refl)

lemma Mutation_arms:
  "Mutation_merge_field rt 1 WireTypeVarint m is = read_field (pb_read_enum rt) (\<lambda>v. m\<lparr>Mutation_field_type := Some v\<rparr>) is"
  "Mutation_merge_field rt 2 WireTypeLengthDelimited m is = merge_message rt (Version_merge_from rt) Version_new (\<lambda>v. m\<lparr>Mutation_version := Some v\<rparr>) is"
  "Mutation_merge_field rt 3 WireTypeLengthDelimited m is = read_field (pb_read_bytes rt) (\<lambda>v. m\<lparr>Mutation_key := Some v\<rparr>) is"
  "Mutation_merge_field rt 4 WireTypeLengthDelimited m is = read_field (pb_read_bytes rt) (\<lambda>v. m\<lparr>Mutation_value := Some v\<rparr>) is"
  "Mutation_merge_field rt 5 WireTypeLengthDelimited m is = read_field (pb_read_bytes rt) (\<lambda>v. m\<lparr>Mutation_old_value := Some v\<rparr>) is"
  by (simp_all add: Mutation_merge_field_def expect_def)

lemma Mutation_wire:
  assumes "pb_laws rt"
  shows "wire_ok (Mutation_compute_size rt) (Mutation_write_to rt) (Mutation_merge_from rt) Mutation_new Mutation_norm Mutation_known Mutation_cached_size"
  unfolding wire_ok_def
proof (intro allI impI)
  fix m n m' assume km: "Mutation_known m" and size: "Mutation_compute_size rt m = Inr (n, m')"
  have known: "Mutation_unknown_fields m = []" "pred_option Version_known (Mutation_version m)" using km by (simp_all add: Mutation_known_def)
  obtain s1 s2 version' s3 s4 s5 where s: "size_opt (pb_enum_size rt 1) 0 (Mutation_field_type m) = Inr s1" "size_msg rt (Version_compute_size rt) s1 (Mutation_version m) = Inr (s2, version')" "size_opt (pb_bytes_size rt 3) s2 (Mutation_key m) = Inr s3" "size_opt (pb_bytes_size rt 4) s3 (Mutation_value m) = Inr s4" "size_opt (pb_bytes_size rt 5) s4 (Mutation_old_value m) = Inr s5" "add_size s5 (pb_unknown_fields_size rt []) = Inr n"
    and m': "m' = m\<lparr>Mutation_version := version', Mutation_cached_size := n\<rparr>"
    using size known(1) by (auto simp: Mutation_compute_size_def)
  note e1 = emits_enum [where field = "Mutation_merge_field rt" and put = "\<lambda>v m. m\<lparr>Mutation_field_type := Some v\<rparr>", OF assms tags(1) s(1) Mutation_arms(1)]
    and e2 = emits_msg [where field = "Mutation_merge_field rt" and put = "\<lambda>v m. m\<lparr>Mutation_version := Some v\<rparr>", OF assms Version_wire [OF assms] known(2) s(2) tags(2) Mutation_arms(2)]
    and e3 = emits_bytes [where field = "Mutation_merge_field rt" and put = "\<lambda>v m. m\<lparr>Mutation_key := Some v\<rparr>", OF assms tags(3) s(3) Mutation_arms(3)]
    and e4 = emits_bytes [where field = "Mutation_merge_field rt" and put = "\<lambda>v m. m\<lparr>Mutation_value := Some v\<rparr>", OF assms tags(4) s(4) Mutation_arms(4)]
    and e5 = emits_bytes [where field = "Mutation_merge_field rt" and put = "\<lambda>v m. m\<lparr>Mutation_old_value := Some v\<rparr>", OF assms tags(5) s(5) Mutation_arms(5)]
    and e6 = emits_unknown [where field = "Mutation_merge_field rt", OF assms s(6)]
  note chain = emits_Cons [OF e1 emits_Cons [OF e2 emits_Cons [OF e3 emits_Cons [OF e4 emits_Cons [OF e5 emits_Cons [OF e6 emits_Nil]]]]]]
  show "Mutation_cached_size m' = n \<and> (\<exists>b. Mutation_write_to rt m' = Inr b \<and> length b = unat n \<and>
      Mutation_merge_from rt Mutation_new b = Some (Inr (Mutation_norm m)))"
    using emits_merge [OF assms chain, of Mutation_new] known(1)
    by (cases m) (simp add: m' Mutation_write_to_def Mutation_norm_def Mutation_new_def split: option.splits)
qed

lemma Mutation_merge_returns:
  assumes "pb_consumes rt"
  shows "\<exists>x. Mutation_merge_from rt m is = Some x"
  by (rule merge_loop_returns [OF assms])
     (simp add: Mutation_merge_field_def returns_expect returns_read pb_consumes_reads [OF assms] returns_merge [OF assms] Version_merge_returns [OF assms])

end
