(* ===== verification/Wire_Peer.thy ===== *)
theory Wire_Peer
  imports Wire_Log Msg_Peer
begin

text \<open>
  \<^verbatim>\<open>serialization.rs\<close>, the messages of peers on the wire: the arms of the loop of \<^verbatim>\<open>merge_from\<close>, \<^verbatim>\<open>compute_size\<close> with the
  sizes that it stores, and \<^verbatim>\<open>write_to_with_cached_sizes\<close>, field by field. Each message is good on the wire
  (\<open>wire_ok\<close>), and merging any input returns. The round trip is for messages without unknown fields (\<open>_known\<close>)
  and gives back the message with the stored sizes forgotten (\<open>_norm\<close>), which is equal to it.
\<close>

section \<open>Definitions\<close>

subsection \<open>VoteReq\<close>

definition VoteReq_merge_field :: "Pb \<Rightarrow> u32 \<Rightarrow> WireType \<Rightarrow> VoteReq \<Rightarrow> bytes \<Rightarrow> VoteReq merged" where
  "VoteReq_merge_field rt field_number wire_type m is =
     (if field_number = 1 then
        expect WireTypeVarint wire_type
          (read_field (pb_read_uint64 rt) (\<lambda>v. m\<lparr>VoteReq_term := Some v\<rparr>) is)
      else if field_number = 2 then
        expect WireTypeVarint wire_type
          (read_field (pb_read_uint64 rt) (\<lambda>v. m\<lparr>VoteReq_last_learned_term := Some v\<rparr>) is)
      else if field_number = 3 then
        expect WireTypeVarint wire_type
          (read_field (pb_read_uint64 rt) (\<lambda>v. m\<lparr>VoteReq_last_learned_txid := Some v\<rparr>) is)
      else if field_number = 4 then
        expect WireTypeVarint wire_type
          (read_field (pb_read_uint64 rt) (\<lambda>v. m\<lparr>VoteReq_last_accepted_term := Some v\<rparr>) is)
      else if field_number = 5 then
        expect WireTypeVarint wire_type
          (read_field (pb_read_uint64 rt) (\<lambda>v. m\<lparr>VoteReq_last_accepted_txid := Some v\<rparr>) is)
      else read_field (pb_read_unknown rt wire_type)
             (\<lambda>v. m\<lparr>VoteReq_unknown_fields := pb_add_value rt field_number v (VoteReq_unknown_fields m)\<rparr>) is)"

abbreviation VoteReq_merge_from :: "Pb \<Rightarrow> VoteReq \<Rightarrow> bytes \<Rightarrow> (perr + VoteReq) option" where
  "VoteReq_merge_from rt \<equiv> merge_loop rt (VoteReq_merge_field rt)"

definition VoteReq_compute_size :: "Pb \<Rightarrow> VoteReq \<Rightarrow> (u32 \<times> VoteReq) res" where
  "VoteReq_compute_size rt m =
     and_then (size_opt (\<lambda>v. pb_value_size rt 1 v WireTypeVarint) 0 (VoteReq_term m)) (\<lambda>s1.
     and_then (size_opt (\<lambda>v. pb_value_size rt 2 v WireTypeVarint) s1 (VoteReq_last_learned_term m)) (\<lambda>s2.
     and_then (size_opt (\<lambda>v. pb_value_size rt 3 v WireTypeVarint) s2 (VoteReq_last_learned_txid m)) (\<lambda>s3.
     and_then (size_opt (\<lambda>v. pb_value_size rt 4 v WireTypeVarint) s3 (VoteReq_last_accepted_term m)) (\<lambda>s4.
     and_then (size_opt (\<lambda>v. pb_value_size rt 5 v WireTypeVarint) s4 (VoteReq_last_accepted_txid m)) (\<lambda>s5.
     and_then (add_size s5 (pb_unknown_fields_size rt (VoteReq_unknown_fields m))) (\<lambda>my_size.
       Inr (my_size, m\<lparr>VoteReq_cached_size := my_size\<rparr>)))))))"

definition VoteReq_write_to :: "Pb \<Rightarrow> VoteReq \<Rightarrow> perr + bytes" where
  "VoteReq_write_to rt m =
     write_all
      [write_opt (pb_write_uint64 rt 1) (VoteReq_term m),
       write_opt (pb_write_uint64 rt 2) (VoteReq_last_learned_term m),
       write_opt (pb_write_uint64 rt 3) (VoteReq_last_learned_txid m),
       write_opt (pb_write_uint64 rt 4) (VoteReq_last_accepted_term m),
       write_opt (pb_write_uint64 rt 5) (VoteReq_last_accepted_txid m),
       pb_write_unknown_fields rt (VoteReq_unknown_fields m)]"

subsection \<open>VoteRes\<close>

definition VoteRes_merge_field :: "Pb \<Rightarrow> u32 \<Rightarrow> WireType \<Rightarrow> VoteRes \<Rightarrow> bytes \<Rightarrow> VoteRes merged" where
  "VoteRes_merge_field rt field_number wire_type m is =
     (if field_number = 1 then
        expect WireTypeVarint wire_type
          (read_field (pb_read_bool rt) (\<lambda>v. m\<lparr>VoteRes_success := Some v\<rparr>) is)
      else if field_number = 2 then
        expect WireTypeVarint wire_type
          (read_field (pb_read_uint64 rt) (\<lambda>v. m\<lparr>VoteRes_term := Some v\<rparr>) is)
      else read_field (pb_read_unknown rt wire_type)
             (\<lambda>v. m\<lparr>VoteRes_unknown_fields := pb_add_value rt field_number v (VoteRes_unknown_fields m)\<rparr>) is)"

abbreviation VoteRes_merge_from :: "Pb \<Rightarrow> VoteRes \<Rightarrow> bytes \<Rightarrow> (perr + VoteRes) option" where
  "VoteRes_merge_from rt \<equiv> merge_loop rt (VoteRes_merge_field rt)"

definition VoteRes_compute_size :: "Pb \<Rightarrow> VoteRes \<Rightarrow> (u32 \<times> VoteRes) res" where
  "VoteRes_compute_size rt m =
     and_then (size_opt (\<lambda>_. Inr 2) 0 (VoteRes_success m)) (\<lambda>s1.
     and_then (size_opt (\<lambda>v. pb_value_size rt 2 v WireTypeVarint) s1 (VoteRes_term m)) (\<lambda>s2.
     and_then (add_size s2 (pb_unknown_fields_size rt (VoteRes_unknown_fields m))) (\<lambda>my_size.
       Inr (my_size, m\<lparr>VoteRes_cached_size := my_size\<rparr>))))"

definition VoteRes_write_to :: "Pb \<Rightarrow> VoteRes \<Rightarrow> perr + bytes" where
  "VoteRes_write_to rt m =
     write_all
      [write_opt (pb_write_bool rt 1) (VoteRes_success m),
       write_opt (pb_write_uint64 rt 2) (VoteRes_term m),
       pb_write_unknown_fields rt (VoteRes_unknown_fields m)]"

subsection \<open>Append\<close>

definition Append_merge_field :: "Pb \<Rightarrow> u32 \<Rightarrow> WireType \<Rightarrow> Append \<Rightarrow> bytes \<Rightarrow> Append merged" where
  "Append_merge_field rt field_number wire_type m is =
     (if field_number = 1 then
        expect WireTypeVarint wire_type
          (read_field (pb_read_uint64 rt) (\<lambda>v. m\<lparr>Append_from_txid := Some v\<rparr>) is)
      else if field_number = 2 then
        expect WireTypeVarint wire_type
          (read_field (pb_read_uint64 rt) (\<lambda>v. m\<lparr>Append_from_term := Some v\<rparr>) is)
      else if field_number = 3 then
        expect WireTypeLengthDelimited wire_type
          (merge_message rt (merge_loop rt (Mutation_merge_field rt)) Mutation_new (\<lambda>v. m\<lparr>Append_batch := Append_batch m @ [v]\<rparr>) is)
      else if field_number = 4 then
        expect WireTypeVarint wire_type
          (read_field (pb_read_uint64 rt) (\<lambda>v. m\<lparr>Append_last_learned_txid := Some v\<rparr>) is)
      else read_field (pb_read_unknown rt wire_type)
             (\<lambda>v. m\<lparr>Append_unknown_fields := pb_add_value rt field_number v (Append_unknown_fields m)\<rparr>) is)"

abbreviation Append_merge_from :: "Pb \<Rightarrow> Append \<Rightarrow> bytes \<Rightarrow> (perr + Append) option" where
  "Append_merge_from rt \<equiv> merge_loop rt (Append_merge_field rt)"

definition Append_compute_size :: "Pb \<Rightarrow> Append \<Rightarrow> (u32 \<times> Append) res" where
  "Append_compute_size rt m =
     and_then (size_opt (\<lambda>v. pb_value_size rt 1 v WireTypeVarint) 0 (Append_from_txid m)) (\<lambda>s1.
     and_then (size_opt (\<lambda>v. pb_value_size rt 2 v WireTypeVarint) s1 (Append_from_term m)) (\<lambda>s2.
     and_then (size_rep rt (Mutation_compute_size rt) s2 (Append_batch m)) (\<lambda>(s3, batch').
     and_then (size_opt (\<lambda>v. pb_value_size rt 4 v WireTypeVarint) s3 (Append_last_learned_txid m)) (\<lambda>s4.
     and_then (add_size s4 (pb_unknown_fields_size rt (Append_unknown_fields m))) (\<lambda>my_size.
       Inr (my_size, m\<lparr>Append_batch := batch', Append_cached_size := my_size\<rparr>))))))"

definition Append_write_to :: "Pb \<Rightarrow> Append \<Rightarrow> perr + bytes" where
  "Append_write_to rt m =
     write_all
      [write_opt (pb_write_uint64 rt 1) (Append_from_txid m),
       write_opt (pb_write_uint64 rt 2) (Append_from_term m),
       write_all (map (write_msg rt 3 Mutation_cached_size (Mutation_write_to rt)) (Append_batch m)),
       write_opt (pb_write_uint64 rt 4) (Append_last_learned_txid m),
       pb_write_unknown_fields rt (Append_unknown_fields m)]"

subsection \<open>AppendRes\<close>

definition AppendRes_merge_field :: "Pb \<Rightarrow> u32 \<Rightarrow> WireType \<Rightarrow> AppendRes \<Rightarrow> bytes \<Rightarrow> AppendRes merged" where
  "AppendRes_merge_field rt field_number wire_type m is =
     (if field_number = 1 then
        expect WireTypeVarint wire_type
          (read_field (pb_read_bool rt) (\<lambda>v. m\<lparr>AppendRes_accepted := Some v\<rparr>) is)
      else if field_number = 2 then
        expect WireTypeVarint wire_type
          (read_field (pb_read_uint64 rt) (\<lambda>v. m\<lparr>AppendRes_last_accepted_txid := Some v\<rparr>) is)
      else if field_number = 3 then
        expect WireTypeVarint wire_type
          (read_field (pb_read_uint64 rt) (\<lambda>v. m\<lparr>AppendRes_last_accepted_term := Some v\<rparr>) is)
      else read_field (pb_read_unknown rt wire_type)
             (\<lambda>v. m\<lparr>AppendRes_unknown_fields := pb_add_value rt field_number v (AppendRes_unknown_fields m)\<rparr>) is)"

abbreviation AppendRes_merge_from :: "Pb \<Rightarrow> AppendRes \<Rightarrow> bytes \<Rightarrow> (perr + AppendRes) option" where
  "AppendRes_merge_from rt \<equiv> merge_loop rt (AppendRes_merge_field rt)"

definition AppendRes_compute_size :: "Pb \<Rightarrow> AppendRes \<Rightarrow> (u32 \<times> AppendRes) res" where
  "AppendRes_compute_size rt m =
     and_then (size_opt (\<lambda>_. Inr 2) 0 (AppendRes_accepted m)) (\<lambda>s1.
     and_then (size_opt (\<lambda>v. pb_value_size rt 2 v WireTypeVarint) s1 (AppendRes_last_accepted_txid m)) (\<lambda>s2.
     and_then (size_opt (\<lambda>v. pb_value_size rt 3 v WireTypeVarint) s2 (AppendRes_last_accepted_term m)) (\<lambda>s3.
     and_then (add_size s3 (pb_unknown_fields_size rt (AppendRes_unknown_fields m))) (\<lambda>my_size.
       Inr (my_size, m\<lparr>AppendRes_cached_size := my_size\<rparr>)))))"

definition AppendRes_write_to :: "Pb \<Rightarrow> AppendRes \<Rightarrow> perr + bytes" where
  "AppendRes_write_to rt m =
     write_all
      [write_opt (pb_write_bool rt 1) (AppendRes_accepted m),
       write_opt (pb_write_uint64 rt 2) (AppendRes_last_accepted_txid m),
       write_opt (pb_write_uint64 rt 3) (AppendRes_last_accepted_term m),
       pb_write_unknown_fields rt (AppendRes_unknown_fields m)]"

subsection \<open>PeerMsg\<close>

definition PeerMsg_merge_field :: "Pb \<Rightarrow> u32 \<Rightarrow> WireType \<Rightarrow> PeerMsg \<Rightarrow> bytes \<Rightarrow> PeerMsg merged" where
  "PeerMsg_merge_field rt field_number wire_type m is =
     (if field_number = 1 then
        expect WireTypeLengthDelimited wire_type
          (read_field (pb_read_string rt) (\<lambda>v. m\<lparr>PeerMsg_srvid := Some v\<rparr>) is)
      else if field_number = 2 then
        expect WireTypeLengthDelimited wire_type
          (merge_message rt (merge_loop rt (VoteReq_merge_field rt)) VoteReq_new (\<lambda>v. m\<lparr>PeerMsg_vote_req := Some v\<rparr>) is)
      else if field_number = 3 then
        expect WireTypeLengthDelimited wire_type
          (merge_message rt (merge_loop rt (VoteRes_merge_field rt)) VoteRes_new (\<lambda>v. m\<lparr>PeerMsg_vote_res := Some v\<rparr>) is)
      else if field_number = 4 then
        expect WireTypeLengthDelimited wire_type
          (merge_message rt (merge_loop rt (Append_merge_field rt)) Append_new (\<lambda>v. m\<lparr>PeerMsg_append := Some v\<rparr>) is)
      else if field_number = 5 then
        expect WireTypeLengthDelimited wire_type
          (merge_message rt (merge_loop rt (AppendRes_merge_field rt)) AppendRes_new (\<lambda>v. m\<lparr>PeerMsg_append_res := Some v\<rparr>) is)
      else read_field (pb_read_unknown rt wire_type)
             (\<lambda>v. m\<lparr>PeerMsg_unknown_fields := pb_add_value rt field_number v (PeerMsg_unknown_fields m)\<rparr>) is)"

abbreviation PeerMsg_merge_from :: "Pb \<Rightarrow> PeerMsg \<Rightarrow> bytes \<Rightarrow> (perr + PeerMsg) option" where
  "PeerMsg_merge_from rt \<equiv> merge_loop rt (PeerMsg_merge_field rt)"

definition PeerMsg_compute_size :: "Pb \<Rightarrow> PeerMsg \<Rightarrow> (u32 \<times> PeerMsg) res" where
  "PeerMsg_compute_size rt m =
     and_then (size_opt (pb_string_size rt 1) 0 (PeerMsg_srvid m)) (\<lambda>s1.
     and_then (size_msg rt (VoteReq_compute_size rt) s1 (PeerMsg_vote_req m)) (\<lambda>(s2, vote_req').
     and_then (size_msg rt (VoteRes_compute_size rt) s2 (PeerMsg_vote_res m)) (\<lambda>(s3, vote_res').
     and_then (size_msg rt (Append_compute_size rt) s3 (PeerMsg_append m)) (\<lambda>(s4, append').
     and_then (size_msg rt (AppendRes_compute_size rt) s4 (PeerMsg_append_res m)) (\<lambda>(s5, append_res').
     and_then (add_size s5 (pb_unknown_fields_size rt (PeerMsg_unknown_fields m))) (\<lambda>my_size.
       Inr (my_size, m\<lparr>PeerMsg_vote_req := vote_req', PeerMsg_vote_res := vote_res', PeerMsg_append := append', PeerMsg_append_res := append_res', PeerMsg_cached_size := my_size\<rparr>)))))))"

definition PeerMsg_write_to :: "Pb \<Rightarrow> PeerMsg \<Rightarrow> perr + bytes" where
  "PeerMsg_write_to rt m =
     write_all
      [write_opt (pb_write_string rt 1) (PeerMsg_srvid m),
       write_opt (write_msg rt 2 VoteReq_cached_size (VoteReq_write_to rt)) (PeerMsg_vote_req m),
       write_opt (write_msg rt 3 VoteRes_cached_size (VoteRes_write_to rt)) (PeerMsg_vote_res m),
       write_opt (write_msg rt 4 Append_cached_size (Append_write_to rt)) (PeerMsg_append m),
       write_opt (write_msg rt 5 AppendRes_cached_size (AppendRes_write_to rt)) (PeerMsg_append_res m),
       pb_write_unknown_fields rt (PeerMsg_unknown_fields m)]"

section \<open>On the wire\<close>

subsection \<open>VoteReq\<close>

definition VoteReq_norm :: "VoteReq \<Rightarrow> VoteReq" where
  "VoteReq_norm m = m\<lparr>VoteReq_cached_size := 0\<rparr>"

definition VoteReq_known :: "VoteReq \<Rightarrow> bool" where
  "VoteReq_known m \<longleftrightarrow> VoteReq_unknown_fields m = []"

lemma VoteReq_eq_norm: "VoteReq_eq (VoteReq_norm m) m"
  by (simp add: VoteReq_eq_def VoteReq_norm_def)

lemma VoteReq_arms:
  "VoteReq_merge_field rt 1 WireTypeVarint m is = read_field (pb_read_uint64 rt) (\<lambda>v. m\<lparr>VoteReq_term := Some v\<rparr>) is"
  "VoteReq_merge_field rt 2 WireTypeVarint m is = read_field (pb_read_uint64 rt) (\<lambda>v. m\<lparr>VoteReq_last_learned_term := Some v\<rparr>) is"
  "VoteReq_merge_field rt 3 WireTypeVarint m is = read_field (pb_read_uint64 rt) (\<lambda>v. m\<lparr>VoteReq_last_learned_txid := Some v\<rparr>) is"
  "VoteReq_merge_field rt 4 WireTypeVarint m is = read_field (pb_read_uint64 rt) (\<lambda>v. m\<lparr>VoteReq_last_accepted_term := Some v\<rparr>) is"
  "VoteReq_merge_field rt 5 WireTypeVarint m is = read_field (pb_read_uint64 rt) (\<lambda>v. m\<lparr>VoteReq_last_accepted_txid := Some v\<rparr>) is"
  by (simp_all add: VoteReq_merge_field_def expect_def)

lemma VoteReq_wire:
  assumes "pb_laws rt"
  shows "wire_ok (VoteReq_compute_size rt) (VoteReq_write_to rt) (VoteReq_merge_from rt) VoteReq_new VoteReq_norm VoteReq_known VoteReq_cached_size"
  unfolding wire_ok_def
proof (intro allI impI)
  fix m n m' assume km: "VoteReq_known m" and size: "VoteReq_compute_size rt m = Inr (n, m')"
  have known: "VoteReq_unknown_fields m = []" using km by (simp_all add: VoteReq_known_def)
  obtain s1 s2 s3 s4 s5 where s: "size_opt (\<lambda>v. pb_value_size rt 1 v WireTypeVarint) 0 (VoteReq_term m) = Inr s1" "size_opt (\<lambda>v. pb_value_size rt 2 v WireTypeVarint) s1 (VoteReq_last_learned_term m) = Inr s2" "size_opt (\<lambda>v. pb_value_size rt 3 v WireTypeVarint) s2 (VoteReq_last_learned_txid m) = Inr s3" "size_opt (\<lambda>v. pb_value_size rt 4 v WireTypeVarint) s3 (VoteReq_last_accepted_term m) = Inr s4" "size_opt (\<lambda>v. pb_value_size rt 5 v WireTypeVarint) s4 (VoteReq_last_accepted_txid m) = Inr s5" "add_size s5 (pb_unknown_fields_size rt []) = Inr n"
    and m': "m' = m\<lparr>VoteReq_cached_size := n\<rparr>"
    using size known(1) by (auto simp: VoteReq_compute_size_def)
  note e1 = emits_uint64 [where field = "VoteReq_merge_field rt" and put = "\<lambda>v m. m\<lparr>VoteReq_term := Some v\<rparr>", OF assms tags(1) s(1) VoteReq_arms(1)]
    and e2 = emits_uint64 [where field = "VoteReq_merge_field rt" and put = "\<lambda>v m. m\<lparr>VoteReq_last_learned_term := Some v\<rparr>", OF assms tags(2) s(2) VoteReq_arms(2)]
    and e3 = emits_uint64 [where field = "VoteReq_merge_field rt" and put = "\<lambda>v m. m\<lparr>VoteReq_last_learned_txid := Some v\<rparr>", OF assms tags(3) s(3) VoteReq_arms(3)]
    and e4 = emits_uint64 [where field = "VoteReq_merge_field rt" and put = "\<lambda>v m. m\<lparr>VoteReq_last_accepted_term := Some v\<rparr>", OF assms tags(4) s(4) VoteReq_arms(4)]
    and e5 = emits_uint64 [where field = "VoteReq_merge_field rt" and put = "\<lambda>v m. m\<lparr>VoteReq_last_accepted_txid := Some v\<rparr>", OF assms tags(5) s(5) VoteReq_arms(5)]
    and e6 = emits_unknown [where field = "VoteReq_merge_field rt", OF assms s(6)]
  note chain = emits_Cons [OF e1 emits_Cons [OF e2 emits_Cons [OF e3 emits_Cons [OF e4 emits_Cons [OF e5 emits_Cons [OF e6 emits_Nil]]]]]]
  show "VoteReq_cached_size m' = n \<and> (\<exists>b. VoteReq_write_to rt m' = Inr b \<and> length b = unat n \<and>
      VoteReq_merge_from rt VoteReq_new b = Some (Inr (VoteReq_norm m)))"
    using emits_merge [OF assms chain, of VoteReq_new] known(1)
    by (cases m) (simp add: m' VoteReq_write_to_def VoteReq_norm_def VoteReq_new_def split: option.splits)
qed

lemma VoteReq_merge_returns:
  assumes "pb_consumes rt"
  shows "\<exists>x. VoteReq_merge_from rt m is = Some x"
  by (rule merge_loop_returns [OF assms])
     (simp add: VoteReq_merge_field_def returns_expect returns_read pb_consumes_reads [OF assms])

subsection \<open>VoteRes\<close>

definition VoteRes_norm :: "VoteRes \<Rightarrow> VoteRes" where
  "VoteRes_norm m = m\<lparr>VoteRes_cached_size := 0\<rparr>"

definition VoteRes_known :: "VoteRes \<Rightarrow> bool" where
  "VoteRes_known m \<longleftrightarrow> VoteRes_unknown_fields m = []"

lemma VoteRes_eq_norm: "VoteRes_eq (VoteRes_norm m) m"
  by (simp add: VoteRes_eq_def VoteRes_norm_def)

lemma VoteRes_arms:
  "VoteRes_merge_field rt 1 WireTypeVarint m is = read_field (pb_read_bool rt) (\<lambda>v. m\<lparr>VoteRes_success := Some v\<rparr>) is"
  "VoteRes_merge_field rt 2 WireTypeVarint m is = read_field (pb_read_uint64 rt) (\<lambda>v. m\<lparr>VoteRes_term := Some v\<rparr>) is"
  by (simp_all add: VoteRes_merge_field_def expect_def)

lemma VoteRes_wire:
  assumes "pb_laws rt"
  shows "wire_ok (VoteRes_compute_size rt) (VoteRes_write_to rt) (VoteRes_merge_from rt) VoteRes_new VoteRes_norm VoteRes_known VoteRes_cached_size"
  unfolding wire_ok_def
proof (intro allI impI)
  fix m n m' assume km: "VoteRes_known m" and size: "VoteRes_compute_size rt m = Inr (n, m')"
  have known: "VoteRes_unknown_fields m = []" using km by (simp_all add: VoteRes_known_def)
  obtain s1 s2 where s: "size_opt (\<lambda>_. Inr 2) 0 (VoteRes_success m) = Inr s1" "size_opt (\<lambda>v. pb_value_size rt 2 v WireTypeVarint) s1 (VoteRes_term m) = Inr s2" "add_size s2 (pb_unknown_fields_size rt []) = Inr n"
    and m': "m' = m\<lparr>VoteRes_cached_size := n\<rparr>"
    using size known(1) by (auto simp: VoteRes_compute_size_def)
  note e1 = emits_bool [where field = "VoteRes_merge_field rt" and put = "\<lambda>v m. m\<lparr>VoteRes_success := Some v\<rparr>", OF assms tags(1) s(1) VoteRes_arms(1)]
    and e2 = emits_uint64 [where field = "VoteRes_merge_field rt" and put = "\<lambda>v m. m\<lparr>VoteRes_term := Some v\<rparr>", OF assms tags(2) s(2) VoteRes_arms(2)]
    and e3 = emits_unknown [where field = "VoteRes_merge_field rt", OF assms s(3)]
  note chain = emits_Cons [OF e1 emits_Cons [OF e2 emits_Cons [OF e3 emits_Nil]]]
  show "VoteRes_cached_size m' = n \<and> (\<exists>b. VoteRes_write_to rt m' = Inr b \<and> length b = unat n \<and>
      VoteRes_merge_from rt VoteRes_new b = Some (Inr (VoteRes_norm m)))"
    using emits_merge [OF assms chain, of VoteRes_new] known(1)
    by (cases m) (simp add: m' VoteRes_write_to_def VoteRes_norm_def VoteRes_new_def split: option.splits)
qed

lemma VoteRes_merge_returns:
  assumes "pb_consumes rt"
  shows "\<exists>x. VoteRes_merge_from rt m is = Some x"
  by (rule merge_loop_returns [OF assms])
     (simp add: VoteRes_merge_field_def returns_expect returns_read pb_consumes_reads [OF assms])

subsection \<open>Append\<close>

definition Append_norm :: "Append \<Rightarrow> Append" where
  "Append_norm m = m\<lparr>Append_batch := map Mutation_norm (Append_batch m), Append_cached_size := 0\<rparr>"

definition Append_known :: "Append \<Rightarrow> bool" where
  "Append_known m \<longleftrightarrow> Append_unknown_fields m = [] \<and> list_all Mutation_known (Append_batch m)"

lemma Append_eq_norm: "Append_eq (Append_norm m) m"
  by (simp add: Append_eq_def Append_norm_def Mutation_eq_norm option.rel_map list.rel_map option.rel_refl list.rel_refl)

lemma Append_arms:
  "Append_merge_field rt 1 WireTypeVarint m is = read_field (pb_read_uint64 rt) (\<lambda>v. m\<lparr>Append_from_txid := Some v\<rparr>) is"
  "Append_merge_field rt 2 WireTypeVarint m is = read_field (pb_read_uint64 rt) (\<lambda>v. m\<lparr>Append_from_term := Some v\<rparr>) is"
  "Append_merge_field rt 3 WireTypeLengthDelimited m is = merge_message rt (Mutation_merge_from rt) Mutation_new (\<lambda>v. m\<lparr>Append_batch := Append_batch m @ [v]\<rparr>) is"
  "Append_merge_field rt 4 WireTypeVarint m is = read_field (pb_read_uint64 rt) (\<lambda>v. m\<lparr>Append_last_learned_txid := Some v\<rparr>) is"
  by (simp_all add: Append_merge_field_def expect_def)

lemma Append_batch_push: "foldl (\<lambda>m v. m\<lparr>Append_batch := Append_batch m @ [g v]\<rparr>) m vs = m\<lparr>Append_batch := Append_batch m @ map g vs\<rparr>"
  by (induction vs arbitrary: m) simp_all

lemma Append_wire:
  assumes "pb_laws rt"
  shows "wire_ok (Append_compute_size rt) (Append_write_to rt) (Append_merge_from rt) Append_new Append_norm Append_known Append_cached_size"
  unfolding wire_ok_def
proof (intro allI impI)
  fix m n m' assume km: "Append_known m" and size: "Append_compute_size rt m = Inr (n, m')"
  have known: "Append_unknown_fields m = []" "list_all Mutation_known (Append_batch m)" using km by (simp_all add: Append_known_def)
  obtain s1 s2 s3 batch' s4 where s: "size_opt (\<lambda>v. pb_value_size rt 1 v WireTypeVarint) 0 (Append_from_txid m) = Inr s1" "size_opt (\<lambda>v. pb_value_size rt 2 v WireTypeVarint) s1 (Append_from_term m) = Inr s2" "size_rep rt (Mutation_compute_size rt) s2 (Append_batch m) = Inr (s3, batch')" "size_opt (\<lambda>v. pb_value_size rt 4 v WireTypeVarint) s3 (Append_last_learned_txid m) = Inr s4" "add_size s4 (pb_unknown_fields_size rt []) = Inr n"
    and m': "m' = m\<lparr>Append_batch := batch', Append_cached_size := n\<rparr>"
    using size known(1) by (auto simp: Append_compute_size_def)
  note e1 = emits_uint64 [where field = "Append_merge_field rt" and put = "\<lambda>v m. m\<lparr>Append_from_txid := Some v\<rparr>", OF assms tags(1) s(1) Append_arms(1)]
    and e2 = emits_uint64 [where field = "Append_merge_field rt" and put = "\<lambda>v m. m\<lparr>Append_from_term := Some v\<rparr>", OF assms tags(2) s(2) Append_arms(2)]
    and e3 = emits_rep [where field = "Append_merge_field rt" and put = "\<lambda>v m. m\<lparr>Append_batch := Append_batch m @ [v]\<rparr>", OF assms Mutation_wire [OF assms] known(2) s(3) tags(3) Append_arms(3)]
    and e4 = emits_uint64 [where field = "Append_merge_field rt" and put = "\<lambda>v m. m\<lparr>Append_last_learned_txid := Some v\<rparr>", OF assms tags(4) s(4) Append_arms(4)]
    and e5 = emits_unknown [where field = "Append_merge_field rt", OF assms s(5)]
  note chain = emits_Cons [OF e1 emits_Cons [OF e2 emits_Cons [OF e3 emits_Cons [OF e4 emits_Cons [OF e5 emits_Nil]]]]]
  show "Append_cached_size m' = n \<and> (\<exists>b. Append_write_to rt m' = Inr b \<and> length b = unat n \<and>
      Append_merge_from rt Append_new b = Some (Inr (Append_norm m)))"
    using emits_merge [OF assms chain, of Append_new] known(1)
    by (cases m) (simp add: m' Append_write_to_def Append_norm_def Append_new_def Append_batch_push split: option.splits)
qed

lemma Append_merge_returns:
  assumes "pb_consumes rt"
  shows "\<exists>x. Append_merge_from rt m is = Some x"
  by (rule merge_loop_returns [OF assms])
     (simp add: Append_merge_field_def returns_expect returns_read pb_consumes_reads [OF assms] returns_merge [OF assms] Mutation_merge_returns [OF assms])

subsection \<open>AppendRes\<close>

definition AppendRes_norm :: "AppendRes \<Rightarrow> AppendRes" where
  "AppendRes_norm m = m\<lparr>AppendRes_cached_size := 0\<rparr>"

definition AppendRes_known :: "AppendRes \<Rightarrow> bool" where
  "AppendRes_known m \<longleftrightarrow> AppendRes_unknown_fields m = []"

lemma AppendRes_eq_norm: "AppendRes_eq (AppendRes_norm m) m"
  by (simp add: AppendRes_eq_def AppendRes_norm_def)

lemma AppendRes_arms:
  "AppendRes_merge_field rt 1 WireTypeVarint m is = read_field (pb_read_bool rt) (\<lambda>v. m\<lparr>AppendRes_accepted := Some v\<rparr>) is"
  "AppendRes_merge_field rt 2 WireTypeVarint m is = read_field (pb_read_uint64 rt) (\<lambda>v. m\<lparr>AppendRes_last_accepted_txid := Some v\<rparr>) is"
  "AppendRes_merge_field rt 3 WireTypeVarint m is = read_field (pb_read_uint64 rt) (\<lambda>v. m\<lparr>AppendRes_last_accepted_term := Some v\<rparr>) is"
  by (simp_all add: AppendRes_merge_field_def expect_def)

lemma AppendRes_wire:
  assumes "pb_laws rt"
  shows "wire_ok (AppendRes_compute_size rt) (AppendRes_write_to rt) (AppendRes_merge_from rt) AppendRes_new AppendRes_norm AppendRes_known AppendRes_cached_size"
  unfolding wire_ok_def
proof (intro allI impI)
  fix m n m' assume km: "AppendRes_known m" and size: "AppendRes_compute_size rt m = Inr (n, m')"
  have known: "AppendRes_unknown_fields m = []" using km by (simp_all add: AppendRes_known_def)
  obtain s1 s2 s3 where s: "size_opt (\<lambda>_. Inr 2) 0 (AppendRes_accepted m) = Inr s1" "size_opt (\<lambda>v. pb_value_size rt 2 v WireTypeVarint) s1 (AppendRes_last_accepted_txid m) = Inr s2" "size_opt (\<lambda>v. pb_value_size rt 3 v WireTypeVarint) s2 (AppendRes_last_accepted_term m) = Inr s3" "add_size s3 (pb_unknown_fields_size rt []) = Inr n"
    and m': "m' = m\<lparr>AppendRes_cached_size := n\<rparr>"
    using size known(1) by (auto simp: AppendRes_compute_size_def)
  note e1 = emits_bool [where field = "AppendRes_merge_field rt" and put = "\<lambda>v m. m\<lparr>AppendRes_accepted := Some v\<rparr>", OF assms tags(1) s(1) AppendRes_arms(1)]
    and e2 = emits_uint64 [where field = "AppendRes_merge_field rt" and put = "\<lambda>v m. m\<lparr>AppendRes_last_accepted_txid := Some v\<rparr>", OF assms tags(2) s(2) AppendRes_arms(2)]
    and e3 = emits_uint64 [where field = "AppendRes_merge_field rt" and put = "\<lambda>v m. m\<lparr>AppendRes_last_accepted_term := Some v\<rparr>", OF assms tags(3) s(3) AppendRes_arms(3)]
    and e4 = emits_unknown [where field = "AppendRes_merge_field rt", OF assms s(4)]
  note chain = emits_Cons [OF e1 emits_Cons [OF e2 emits_Cons [OF e3 emits_Cons [OF e4 emits_Nil]]]]
  show "AppendRes_cached_size m' = n \<and> (\<exists>b. AppendRes_write_to rt m' = Inr b \<and> length b = unat n \<and>
      AppendRes_merge_from rt AppendRes_new b = Some (Inr (AppendRes_norm m)))"
    using emits_merge [OF assms chain, of AppendRes_new] known(1)
    by (cases m) (simp add: m' AppendRes_write_to_def AppendRes_norm_def AppendRes_new_def split: option.splits)
qed

lemma AppendRes_merge_returns:
  assumes "pb_consumes rt"
  shows "\<exists>x. AppendRes_merge_from rt m is = Some x"
  by (rule merge_loop_returns [OF assms])
     (simp add: AppendRes_merge_field_def returns_expect returns_read pb_consumes_reads [OF assms])

subsection \<open>PeerMsg\<close>

definition PeerMsg_norm :: "PeerMsg \<Rightarrow> PeerMsg" where
  "PeerMsg_norm m = m\<lparr>PeerMsg_vote_req := map_option VoteReq_norm (PeerMsg_vote_req m), PeerMsg_vote_res := map_option VoteRes_norm (PeerMsg_vote_res m), PeerMsg_append := map_option Append_norm (PeerMsg_append m), PeerMsg_append_res := map_option AppendRes_norm (PeerMsg_append_res m), PeerMsg_cached_size := 0\<rparr>"

definition PeerMsg_known :: "PeerMsg \<Rightarrow> bool" where
  "PeerMsg_known m \<longleftrightarrow> PeerMsg_unknown_fields m = [] \<and> pred_option VoteReq_known (PeerMsg_vote_req m) \<and> pred_option VoteRes_known (PeerMsg_vote_res m) \<and> pred_option Append_known (PeerMsg_append m) \<and> pred_option AppendRes_known (PeerMsg_append_res m)"

lemma PeerMsg_eq_norm: "PeerMsg_eq (PeerMsg_norm m) m"
  by (simp add: PeerMsg_eq_def PeerMsg_norm_def Append_eq_norm AppendRes_eq_norm VoteReq_eq_norm VoteRes_eq_norm option.rel_map list.rel_map option.rel_refl list.rel_refl)

lemma PeerMsg_arms:
  "PeerMsg_merge_field rt 1 WireTypeLengthDelimited m is = read_field (pb_read_string rt) (\<lambda>v. m\<lparr>PeerMsg_srvid := Some v\<rparr>) is"
  "PeerMsg_merge_field rt 2 WireTypeLengthDelimited m is = merge_message rt (VoteReq_merge_from rt) VoteReq_new (\<lambda>v. m\<lparr>PeerMsg_vote_req := Some v\<rparr>) is"
  "PeerMsg_merge_field rt 3 WireTypeLengthDelimited m is = merge_message rt (VoteRes_merge_from rt) VoteRes_new (\<lambda>v. m\<lparr>PeerMsg_vote_res := Some v\<rparr>) is"
  "PeerMsg_merge_field rt 4 WireTypeLengthDelimited m is = merge_message rt (Append_merge_from rt) Append_new (\<lambda>v. m\<lparr>PeerMsg_append := Some v\<rparr>) is"
  "PeerMsg_merge_field rt 5 WireTypeLengthDelimited m is = merge_message rt (AppendRes_merge_from rt) AppendRes_new (\<lambda>v. m\<lparr>PeerMsg_append_res := Some v\<rparr>) is"
  by (simp_all add: PeerMsg_merge_field_def expect_def)

lemma PeerMsg_wire:
  assumes "pb_laws rt"
  shows "wire_ok (PeerMsg_compute_size rt) (PeerMsg_write_to rt) (PeerMsg_merge_from rt) PeerMsg_new PeerMsg_norm PeerMsg_known PeerMsg_cached_size"
  unfolding wire_ok_def
proof (intro allI impI)
  fix m n m' assume km: "PeerMsg_known m" and size: "PeerMsg_compute_size rt m = Inr (n, m')"
  have known: "PeerMsg_unknown_fields m = []" "pred_option VoteReq_known (PeerMsg_vote_req m)" "pred_option VoteRes_known (PeerMsg_vote_res m)" "pred_option Append_known (PeerMsg_append m)" "pred_option AppendRes_known (PeerMsg_append_res m)" using km by (simp_all add: PeerMsg_known_def)
  obtain s1 s2 vote_req' s3 vote_res' s4 append' s5 append_res' where s: "size_opt (pb_string_size rt 1) 0 (PeerMsg_srvid m) = Inr s1" "size_msg rt (VoteReq_compute_size rt) s1 (PeerMsg_vote_req m) = Inr (s2, vote_req')" "size_msg rt (VoteRes_compute_size rt) s2 (PeerMsg_vote_res m) = Inr (s3, vote_res')" "size_msg rt (Append_compute_size rt) s3 (PeerMsg_append m) = Inr (s4, append')" "size_msg rt (AppendRes_compute_size rt) s4 (PeerMsg_append_res m) = Inr (s5, append_res')" "add_size s5 (pb_unknown_fields_size rt []) = Inr n"
    and m': "m' = m\<lparr>PeerMsg_vote_req := vote_req', PeerMsg_vote_res := vote_res', PeerMsg_append := append', PeerMsg_append_res := append_res', PeerMsg_cached_size := n\<rparr>"
    using size known(1) by (auto simp: PeerMsg_compute_size_def)
  note e1 = emits_string [where field = "PeerMsg_merge_field rt" and put = "\<lambda>v m. m\<lparr>PeerMsg_srvid := Some v\<rparr>", OF assms tags(1) s(1) PeerMsg_arms(1)]
    and e2 = emits_msg [where field = "PeerMsg_merge_field rt" and put = "\<lambda>v m. m\<lparr>PeerMsg_vote_req := Some v\<rparr>", OF assms VoteReq_wire [OF assms] known(2) s(2) tags(2) PeerMsg_arms(2)]
    and e3 = emits_msg [where field = "PeerMsg_merge_field rt" and put = "\<lambda>v m. m\<lparr>PeerMsg_vote_res := Some v\<rparr>", OF assms VoteRes_wire [OF assms] known(3) s(3) tags(3) PeerMsg_arms(3)]
    and e4 = emits_msg [where field = "PeerMsg_merge_field rt" and put = "\<lambda>v m. m\<lparr>PeerMsg_append := Some v\<rparr>", OF assms Append_wire [OF assms] known(4) s(4) tags(4) PeerMsg_arms(4)]
    and e5 = emits_msg [where field = "PeerMsg_merge_field rt" and put = "\<lambda>v m. m\<lparr>PeerMsg_append_res := Some v\<rparr>", OF assms AppendRes_wire [OF assms] known(5) s(5) tags(5) PeerMsg_arms(5)]
    and e6 = emits_unknown [where field = "PeerMsg_merge_field rt", OF assms s(6)]
  note chain = emits_Cons [OF e1 emits_Cons [OF e2 emits_Cons [OF e3 emits_Cons [OF e4 emits_Cons [OF e5 emits_Cons [OF e6 emits_Nil]]]]]]
  show "PeerMsg_cached_size m' = n \<and> (\<exists>b. PeerMsg_write_to rt m' = Inr b \<and> length b = unat n \<and>
      PeerMsg_merge_from rt PeerMsg_new b = Some (Inr (PeerMsg_norm m)))"
    using emits_merge [OF assms chain, of PeerMsg_new] known(1)
    by (cases m) (simp add: m' PeerMsg_write_to_def PeerMsg_norm_def PeerMsg_new_def split: option.splits)
qed

lemma PeerMsg_merge_returns:
  assumes "pb_consumes rt"
  shows "\<exists>x. PeerMsg_merge_from rt m is = Some x"
  by (rule merge_loop_returns [OF assms])
     (simp add: PeerMsg_merge_field_def returns_expect returns_read pb_consumes_reads [OF assms] returns_merge [OF assms] Append_merge_returns [OF assms] AppendRes_merge_returns [OF assms] VoteReq_merge_returns [OF assms] VoteRes_merge_returns [OF assms])

end
