(* ===== verification/Server_Output.thy ===== *)
theory Server_Output
  imports Replication_Safety Wire_Peer
begin

text \<open>
  What leaves a node: every message that a step of \<^verbatim>\<open>server/server.rs\<close> hands to the event loop is printed from a message of
  the right shape, goes where it belongs, and a granted vote is bound to the state of the voter. This is what the nodes of a
  cluster may rely on.
\<close>

section \<open>Shapes of messages\<close>

text \<open>A message to a peer names its sender and has one body with its required fields; only the answer to an
  \<^verbatim>\<open>Append\<close> of a node that is not followed has an empty body.\<close>

definition peer_msg_typed :: "PeerID \<Rightarrow> PeerMsg \<Rightarrow> bool" where
  "peer_msg_typed i m \<longleftrightarrow>
     (\<exists>q. m = PeerMsg_set_vote_req q (PeerMsg_set_srvid i PeerMsg_new) \<and> VoteReq_is_initialized q) \<or>
     (\<exists>r. m = PeerMsg_set_vote_res r (PeerMsg_set_srvid i PeerMsg_new) \<and> VoteRes_is_initialized r) \<or>
     (\<exists>a. m = PeerMsg_set_append a (PeerMsg_set_srvid i PeerMsg_new) \<and> Append_is_initialized a) \<or>
     (\<exists>r. m = PeerMsg_set_append_res r (PeerMsg_set_srvid i PeerMsg_new) \<and>
        (AppendRes_is_initialized r \<or> r = AppendRes_new))"

text \<open>A response to a client names its request and has at most one body. The body of a get, a compare-and-set or a redirect
  has its required fields; that of a set or a delete has its verdict.\<close>

definition cli_res_typed :: "CliRes \<Rightarrow> bool" where
  "cli_res_typed r \<longleftrightarrow>
     CliRes_has_req_id r \<and>
     length (filter (\<lambda>b. b) [CliRes_has_get r, CliRes_has_set r, CliRes_has_cas r, CliRes_has_del r, CliRes_has_watch r,
       CliRes_has_redirect r]) \<le> 1 \<and>
     pred_option GetRes_is_initialized (CliRes_get r) \<and> pred_option SetRes_has_success (CliRes_set r) \<and>
     pred_option CASRes_is_initialized (CliRes_cas r) \<and> pred_option DelRes_has_success (CliRes_del r) \<and>
     pred_option RedirectRes_is_initialized (CliRes_redirect r)"

lemma bodies_initialized:
  "VoteRes_is_initialized (VoteRes_set_success ok (VoteRes_set_term t VoteRes_new))"
  "VoteReq_is_initialized (VoteReq_set_last_learned_txid a (VoteReq_set_last_learned_term b
     (VoteReq_set_last_accepted_txid c (VoteReq_set_last_accepted_term d (VoteReq_set_term t VoteReq_new)))))"
  "Append_is_initialized (Append_set_batch mus (Append_set_last_learned_txid a
     (Append_set_from_term b (Append_set_from_txid c Append_new))))"
  "AppendRes_is_initialized (AppendRes_set_last_accepted_txid a (AppendRes_set_last_accepted_term b
     (AppendRes_set_accepted ok AppendRes_new)))"
  by (simp_all add: VoteRes_is_initialized_def VoteReq_is_initialized_def Append_is_initialized_def
      AppendRes_is_initialized_def msg_accessors)

lemma peer_msgs_typed:
  "peer_msg_typed (srv_id s) (vote_reply s t ok)"
  "peer_msg_typed (srv_id s) (vote_request s t)"
  "AppendRes_is_initialized r \<or> r = AppendRes_new \<Longrightarrow> peer_msg_typed (srv_id s) (append_reply s r)"
  "peer_msg_typed i (append_message i p x b)"
  unfolding peer_msg_typed_def vote_reply_def vote_request_def append_reply_def append_message_def
  using bodies_initialized by blast+

lemma results_initialized:
  "SetRes_has_success (snd (learn_set E mu d))"
  "CASRes_is_initialized (snd (learn_cas E x mu d))"
  "DelRes_has_success (snd (learn_del E mu d))"
  "RedirectRes_is_initialized (redirect_response E st)"
  "GetRes_is_initialized (get_response E k s)"
proof -
  show "SetRes_has_success (snd (learn_set E mu d))"
    by (auto simp: learn_set_def SetRes_accessors split: prod.split sum.split)
  show "CASRes_is_initialized (snd (learn_cas E x mu d))"
    by (auto simp: learn_cas_def Let_def CASRes_is_initialized_def CASRes_accessors split: prod.split sum.split DBResult.split)
  show "DelRes_has_success (snd (learn_del E mu d))"
    by (auto simp: learn_del_def Let_def DelRes_accessors split: prod.split sum.split DBResult.split)
  show "RedirectRes_is_initialized (redirect_response E st)"
    by (cases st) (simp_all add: redirect_response_def RedirectRes_is_initialized_def RedirectRes_accessors)
  show "GetRes_is_initialized (get_response E k s)"
    by (auto simp: get_response_def GetRes_is_initialized_def GetRes_accessors split: DBResult.split)
qed

lemma replies_typed:
  "cli_res_typed (CliRes_set_req_id q CliRes_new)"
  "cli_res_typed (CliRes_set_redirect (redirect_response E st) (CliRes_set_req_id q CliRes_new))"
  "cli_res_typed (CliRes_set_get (get_response E k s) (CliRes_set_req_id q CliRes_new))"
  by (simp_all add: cli_res_typed_def CliRes_accessors results_initialized)

lemma learn_typed: "cli_res_typed (CliRes_set_req_id q (snd (learn_mutation E x mu d)))"
  by (cases "Mutation_get_field_type mu")
     (simp_all add: learn_mutation_def cli_res_typed_def CliRes_accessors case_prod_beta results_initialized)

section \<open>Steps that send\<close>

text \<open>From \<open>s\<close> to \<open>s'\<close> the node only adds messages: printed peer messages that satisfy \<open>P\<close> and printed responses that
  satisfy \<open>C\<close>, each with its envelope.\<close>

definition sends ::
  "'db Ext \<Rightarrow> (Envelope \<Rightarrow> PeerMsg \<Rightarrow> bool) \<Rightarrow> (Envelope \<Rightarrow> CliRes \<Rightarrow> bool) \<Rightarrow> 'db Server \<Rightarrow> 'db Server \<Rightarrow> bool" where
  "sends E P C s s' \<longleftrightarrow>
     (\<exists>ms. outbox s' = outbox s @ ms \<and>
       (\<forall>e \<in> set ms. (\<exists>m. write_PeerMsg E m = Inr (msg e) \<and> P e m) \<or> (\<exists>r. write_CliRes E r = Inr (msg e) \<and> C e r)))"

lemma sends_nothing: "outbox s' = outbox s \<Longrightarrow> sends E P C s s'"
  by (simp add: sends_def)

lemma sends_trans:
  assumes "sends E P C s s'" and "sends E P C s' s''"
  shows "sends E P C s s''"
proof -
  obtain ms ms' where "outbox s' = outbox s @ ms" "outbox s'' = outbox s' @ ms'"
    "\<forall>e \<in> set ms \<union> set ms'. (\<exists>m. write_PeerMsg E m = Inr (msg e) \<and> P e m) \<or> (\<exists>r. write_CliRes E r = Inr (msg e) \<and> C e r)"
    using assms unfolding sends_def by blast
  then show ?thesis unfolding sends_def by (intro exI [of _ "ms @ ms'"]) simp
qed

lemma sends_mono:
  assumes "sends E P C s s'" and "\<And>e m. P e m \<Longrightarrow> P' e m" and "\<And>e r. C e r \<Longrightarrow> C' e r"
  shows "sends E P' C' s s'"
  using assms unfolding sends_def by meson

lemma sends_same_outbox: "outbox t = outbox s \<Longrightarrow> sends E P C t s' = sends E P C s s'"
  by (simp add: sends_def)

lemma sends_reply_peer:
  "write_PeerMsg E m = Inr b \<Longrightarrow> P \<lparr>address = address env, tok = tok env, msg = b\<rparr> m \<Longrightarrow> sends E P C s (reply env b s)"
  by (auto simp: sends_def reply_def)

lemma sends_reply_cli:
  "write_CliRes E r = Inr b \<Longrightarrow> C \<lparr>address = address env, tok = tok env, msg = b\<rparr> r \<Longrightarrow> sends E P C s (reply env b s)"
  by (auto simp: sends_def reply_def)

section \<open>Learning answers waiting clients only\<close>

text \<open>The connections on which clients wait.\<close>

definition waits_on :: "Token set \<Rightarrow> 'db Server \<Rightarrow> bool" where
  "waits_on T s \<longleftrightarrow> (\<forall>(k, env, q) \<in> set (srv_pending s). tok env \<in> T)"

definition answers_on :: "Token set \<Rightarrow> Envelope \<Rightarrow> CliRes \<Rightarrow> bool" where
  "answers_on T e r \<longleftrightarrow> tok e \<in> T \<and> cli_res_typed r"

lemma bt_get_set: "bt_get m k = Some v \<Longrightarrow> (k, v) \<in> set m"
  by (induction m) (auto split: if_splits)

lemma bt_remove_set: "set (bt_remove k m) \<subseteq> set m"
  by (induction m) auto

lemma learn_sends:
  assumes "waits_on T s" and "learn E t x s = Inr s'"
  shows "sends E P (answers_on T) s s' \<and> waits_on T s'"
proof (cases "log_get (rep_log s) x")
  case None
  then show ?thesis using assms by (simp add: learn_def sends_nothing)
next
  case (Some mu)
  let ?l = "learn_mutation E (last_learned_txid (rep_log s)) mu (db s)"
  let ?s = "s\<lparr>db := fst ?l, srv_pending := bt_remove x (srv_pending s)\<rparr>"
  have w: "waits_on T ?s" using assms(1) bt_remove_set [of x "srv_pending s"] by (auto simp: waits_on_def)
  show ?thesis
  proof (cases "bt_get (srv_pending s) x")
    case None
    then have "s' = ?s" using assms(2) Some by (simp add: learn_def Let_def case_prod_beta)
    then show ?thesis using w by (simp add: sends_nothing)
  next
    case (Some p)
    obtain env q where p: "p = (env, q)" by fastforce
    have "tok env \<in> T" using assms(1) bt_get_set [OF Some] p by (auto simp: waits_on_def)
    moreover obtain b where "write_CliRes E (CliRes_set_req_id q (snd ?l)) = Inr b" "s' = reply env b ?s"
      using assms(2) \<open>log_get (rep_log s) x = Some mu\<close> Some p
      by (auto simp: learn_def Let_def case_prod_beta reply_cli_Inr)
    ultimately show ?thesis
      using w sends_reply_cli [of E "CliRes_set_req_id q (snd ?l)" b "answers_on T" env P ?s]
      by (simp add: answers_on_def learn_typed sends_def waits_on_def)
  qed
qed

lemma learn_each_sends:
  assumes "waits_on T s" and "learn_each E ids s = Inr s'"
  shows "sends E P (answers_on T) s s' \<and> waits_on T s'"
  using assms(2) [unfolded learn_each_def]
proof (rule fold_res_invariant)
  show "sends E P (answers_on T) s s \<and> waits_on T s" using assms(1) by (simp add: sends_nothing)
  fix e u u'
  assume "sends E P (answers_on T) s u \<and> waits_on T u" and "(case e of (trm, txid) \<Rightarrow> learn E trm txid) u = Inr u'"
  then show "sends E P (answers_on T) s u' \<and> waits_on T u'"
    using learn_sends [of T u E "fst e" "snd e" u' P] sends_trans by (auto split: prod.splits)
qed

section \<open>Entries of the log\<close>

definition log_all :: "('t \<Rightarrow> bool) \<Rightarrow> 't InMemoryLog \<Rightarrow> bool" where
  "log_all P l \<longleftrightarrow> (\<forall>e \<in> set (pending l). P (le_entry (inner (snd e)))) \<and> (\<forall>e \<in> set (committed l). P (le_entry (snd e)))"

lemma log_all_get: "log_all P l \<Longrightarrow> log_get l x = Some e \<Longrightarrow> P e"
  by (auto simp: log_all_def log_get_def dest!: bt_get_set split: option.splits)

lemma ball_bt_insert:
  assumes "\<forall>e \<in> set m. Q (snd e)" and "Q v"
  shows "\<forall>e \<in> set (bt_insert k v m). Q (snd e)"
  using assms bt_insert_set [of k v m] by fastforce

lemma log_all_append:
  assumes "log_all P l" and "P e" and "log_append t x e l = Inr l'"
  shows "log_all P l'"
proof -
  let ?a = "\<lparr>acks = [], inner = \<lparr>le_txid = x, le_term = t, le_last_txid = last_accepted_txid l,
    le_last_term = last_accepted_term l, le_entry = e\<rparr>\<rparr>"
  have "pending l' = bt_insert x ?a (pending l)" "committed l' = committed l"
    using assms(3) by (auto simp: log_append_def rust_assert_def split: if_splits)
  then show ?thesis
    using assms(1,2) ball_bt_insert [of "pending l" "\<lambda>a. P (le_entry (inner a))" ?a x] by (simp add: log_all_def)
qed

lemma log_all_learn_entry:
  assumes "log_all P l" and "P (le_entry (inner a))"
  shows "log_all P (learn_entry k a l)"
  using assms ball_bt_insert [of "committed l" "\<lambda>e. P (le_entry e)"] by (simp add: log_all_def)

lemma log_all_learn_all: "log_all P l \<Longrightarrow> \<forall>e \<in> set es. P (le_entry (inner (snd e))) \<Longrightarrow> log_all P (learn_all key es l)"
  by (induction es arbitrary: l) (simp_all add: log_all_learn_entry)

lemma log_all_drain: "log_all P l \<Longrightarrow> log_all P (fst (drain_spec Q key l))"
  unfolding drain_spec_def fst_conv
  by (rule log_all_learn_all) (auto simp: log_all_def dest: set_takeWhileD set_dropWhileD)

lemma ack_loop_inner: "e \<in> set (ack_loop peer p) \<Longrightarrow> \<exists>e' \<in> set p. inner (snd e) = inner (snd e')"
  by (induction peer p rule: ack_loop.induct) (auto split: if_splits)

lemma log_all_ack: "log_all P l \<Longrightarrow> log_all P (fst (ack_up_to x peer l))"
  unfolding ack_up_to_eq by (rule log_all_drain) (auto simp: log_all_def dest!: ack_loop_inner)

lemma log_all_commit: "log_all P l \<Longrightarrow> log_all P (fst (commit_up_to x l))"
  unfolding commit_up_to_eq by (rule log_all_drain)

lemma log_all_batch:
  assumes "fold_res append_mutation b (t, x, l) = Inr (t', x', l')" and "list_all P b" and "log_all P l"
  shows "log_all P l'"
proof -
  have "log_all P (snd (snd (t', x', l')))"
    using assms(1)
  proof (rule fold_res_invariant)
    fix mu st st'
    assume "mu \<in> set b" and "log_all P (snd (snd st))" and "append_mutation mu st = Inr st'"
    then show "log_all P (snd (snd st'))"
      using assms(2) log_all_append [of P "snd (snd st)" mu]
      by (auto simp: append_mutation_def Let_def list_all_iff split: if_splits prod.splits)
  qed (use assms(3) in simp)
  then show ?thesis by simp
qed

text \<open>The mutations a client request asks for are built field by field.\<close>

lemma mutations_known:
  "Mutation_known (set_mutation sr x t)" "Mutation_known (cas_mutation cr x t)" "Mutation_known (del_mutation dr x t)"
  by (simp_all add: Mutation_known_def Version_known_def set_mutation_def cas_mutation_def del_mutation_def new_version_def
      msg_accessors)

lemma submit_log_all:
  assumes "submit E req q mk s = Inr s'" and "\<And>x t. P (mk x t)" and "log_all P (rep_log s)"
  shows "log_all P (rep_log s')"
  using assms(1)
proof (rule submit_cases)
  fix x t s1 ps envs
  assume r: "replicate_mutation E (mk x t)
       (s\<lparr>max_generated_txid := x, srv_pending := bt_insert x (req, q) (srv_pending s)\<rparr>) = Inr s1"
    and s': "s' = s1\<lparr>rep_peers := ps, outbox := outbox s1 @ envs\<rparr>"
  from r show ?thesis
  proof (rule replicate_mutation_Inr)
    fix l :: "Mutation InMemoryLog"
    let ?mu = "mk x t" let ?s = "s\<lparr>max_generated_txid := x, srv_pending := bt_insert x (req, q) (srv_pending s)\<rparr>"
    let ?l = "fst (ack_up_to (Version_get_txid (Mutation_get_version ?mu)) (srv_id ?s) l)"
    assume app: "log_append (Version_get_term (Mutation_get_version ?mu)) (Version_get_txid (Mutation_get_version ?mu)) ?mu
        (rep_log ?s) = Inr l"
      and ln: "learn_each E (snd (ack_up_to (Version_get_txid (Mutation_get_version ?mu)) (srv_id ?s) l)) (?s\<lparr>rep_log := ?l\<rparr>)
        = Inr s1"
    have "log_all P ?l" using log_all_append [of P "rep_log ?s" ?mu, OF _ assms(2) app] assms(3) log_all_ack by simp
    then show ?thesis using learn_each_frame(1) [OF ln] s' by (simp add: same_core_def)
  qed
qed

lemma step_log_known:
  assumes "server_step E now ev s = Inr s'" and "log_all Mutation_known (rep_log s)"
    and "\<And>env m. ev = PeerEvent env \<Longrightarrow> parse_PeerMsg E (msg env) = Inr m \<Longrightarrow>
      list_all Mutation_known (Append_get_batch (PeerMsg_get_append m))"
  shows "log_all Mutation_known (rep_log s')"
  using assms(1)
proof (cases rule: server_step_cases)
  case (vote_res env m)
  from vote_res(4) show ?thesis by (rule handle_vote_res_cases) (use assms(2) in \<open>auto dest: count_vote_frame\<close>)
next
  case (vote_req env m)
  then show ?thesis using assms(2)
    by (auto simp: handle_vote_req_def vote_req_decide_def reply_peer_Inr reply_def split: if_splits State.splits option.splits)
next
  case (append env m)
  from append(4) show ?thesis
  proof (cases rule: handle_append_cases)
    case (accepted t x l s1 b)
    have "log_all Mutation_known l" by (rule log_all_batch [OF accepted(3) assms(3) [OF append(1,2)] assms(2)])
    then show ?thesis using log_all_commit learn_each_frame(1) [OF accepted(4)] accepted(6) by (simp add: same_core_def reply_def)
  qed (use assms(2) in \<open>simp_all add: reply_def\<close>)
next
  case (append_res env m)
  from append_res(4) show ?thesis
  proof (cases rule: handle_append_res_cases)
    case (acked p)
    then show ?thesis using learn_each_frame(1) [OF acked(3)] log_all_ack [OF assms(2)] by (simp add: same_core_def)
  qed (use assms(2) in simp)
next
  case (cli env)
  then show ?thesis
    by (auto simp: handle_cli_def Let_def reply_cli_Inr reply_def split: if_splits intro: assms(2)
        elim!: submit_log_all [OF _ mutations_known(1) assms(2)] submit_log_all [OF _ mutations_known(2) assms(2)]
          submit_log_all [OF _ mutations_known(3) assms(2)])
next
  case cron
  then show ?thesis using assms(2) by (auto simp: cron_def become_candidate_def peer_broadcast_def split: if_splits)
qed (use assms(2) in simp)

section \<open>What a step sends\<close>

text \<open>A peer message \<open>m\<close> in the envelope \<open>e\<close> of a step: it has the shape of a message of this node, a vote request is
  broadcast, and a vote goes back to the connection of the request. A vote that is granted to another node leaves the voter following
  that node for the lease.\<close>

definition step_msg ::
  "'db Ext \<Rightarrow> (nat \<Rightarrow> Timespec) \<Rightarrow> Event \<Rightarrow> 'db Server \<Rightarrow> 'db Server \<Rightarrow> Envelope \<Rightarrow> PeerMsg \<Rightarrow> bool" where
  "step_msg E now ev s s' e m \<longleftrightarrow>
     peer_msg_typed (srv_id s) m \<and>
     (log_all Mutation_known (rep_log s') \<longrightarrow> PeerMsg_known m) \<and>
     (PeerMsg_has_vote_req m \<longrightarrow> tok e = PEER_BROADCAST) \<and>
     (PeerMsg_has_vote_res m \<longrightarrow>
       (\<exists>env q. ev = PeerEvent env \<and> tok e = tok env \<and> parse_PeerMsg E (msg env) = Inr q \<and> PeerMsg_has_vote_req q \<and>
         (VoteRes_get_success (PeerMsg_get_vote_res m) \<longrightarrow>
            PeerMsg_get_srvid q = srv_id s \<or>
            (\<exists>trm k a n. state s' = Follower trm (PeerMsg_get_srvid q) k a (tadd E (now n) LEADER_DURATION)))))"

lemma peer_msgs_known:
  "PeerMsg_known (vote_reply s t ok)" "PeerMsg_known (vote_request s t)"
  "AppendRes_unknown_fields r = [] \<Longrightarrow> PeerMsg_known (append_reply s r)"
  "list_all Mutation_known b \<Longrightarrow> PeerMsg_known (append_message i p x b)"
  by (simp_all add: vote_reply_def vote_request_def append_reply_def append_message_def PeerMsg_known_def VoteReq_known_def
      VoteRes_known_def Append_known_def AppendRes_known_def msg_accessors)

lemma peer_msg_bodies:
  "\<not> PeerMsg_has_vote_req (vote_reply s t ok)" "PeerMsg_get_vote_res (vote_reply s t ok) = VoteRes_set_success ok (VoteRes_set_term t VoteRes_new)"
  "\<not> PeerMsg_has_vote_res (vote_request s t)"
  "\<not> PeerMsg_has_vote_req (append_reply s r)" "\<not> PeerMsg_has_vote_res (append_reply s r)"
  "\<not> PeerMsg_has_vote_req (append_message i p x b)" "\<not> PeerMsg_has_vote_res (append_message i p x b)"
  by (simp_all add: vote_reply_def vote_request_def append_reply_def append_message_def PeerMsg_accessors)

lemma append_reply_msg:
  assumes "AppendRes_is_initialized r \<or> r = AppendRes_new" and "AppendRes_unknown_fields r = []" and "srv_id s1 = srv_id s"
  shows "step_msg E now ev s s' e (append_reply s1 r)"
  using assms peer_msgs_typed(3) [OF assms(1), of s1] by (simp add: step_msg_def peer_msg_bodies peer_msgs_known)

lemma batch_known: "log_all P l \<Longrightarrow> list_all P (List.map_filter (log_get l) xs)"
  by (induction xs) (auto simp: List.map_filter_simps split: option.splits intro: log_all_get)

lemma vote_req_sends:
  assumes "handle_vote_req E now env (PeerMsg_get_srvid q) r s = Inr s'" and "parse_PeerMsg E (msg env) = Inr q"
    and "PeerMsg_has_vote_req q"
  shows "sends E (step_msg E now (PeerEvent env) s s') C s s'"
proof -
  let ?i = "PeerMsg_get_srvid q"
  obtain s1 trm ok b where d: "vote_req_decide E now env ?i r s = Inr (s1, trm, ok)"
    and b: "write_PeerMsg E (vote_reply s1 trm ok) = Inr b" and s': "s' = reply env b s1"
    using assms(1) by (auto simp: handle_vote_req_def reply_peer_Inr split: prod.splits)
  have frame: "srv_id s1 = srv_id s" "outbox s1 = outbox s"
    using d by (auto simp: vote_req_decide_def split: if_splits State.splits option.splits)
  have "?i = srv_id s \<or> (\<exists>tm k a n. state s1 = Follower tm ?i k a (tadd E (now n) LEADER_DURATION))" if ok
    using d that by (auto simp: vote_req_decide_def following_iff split: if_splits State.splits option.splits)
  then have "step_msg E now (PeerEvent env) s s' \<lparr>address = address env, tok = tok env, msg = b\<rparr> (vote_reply s1 trm ok)"
    using assms(2,3) frame(1) peer_msgs_typed(1) [of s1 trm ok] s'
    by (auto simp: step_msg_def peer_msg_bodies peer_msgs_known VoteRes_accessors reply_def)
  then show ?thesis
    using sends_reply_peer [of E _ b "step_msg E now (PeerEvent env) s s'" env C s1, OF b] frame(2) s'
    by (simp add: sends_same_outbox [OF frame(2)])
qed

lemma append_sends:
  assumes "handle_append E env i a s = Inr s'" and "waits_on T s"
  shows "sends E (step_msg E now ev s s') (answers_on T) s s' \<and> waits_on T s'"
  using assms(1)
proof (cases rule: handle_append_cases)
  case leader
  then show ?thesis using assms(2) by (simp add: sends_nothing)
next
  case (stranger b)
  have "step_msg E now ev s s' \<lparr>address = address env, tok = tok env, msg = b\<rparr> (append_reply s AppendRes_new)"
    by (rule append_reply_msg) (simp_all add: AppendRes_accessors)
  then show ?thesis using stranger assms(2) by (simp add: sends_reply_peer waits_on_def)
next
  case (unlinked b)
  have "step_msg E now ev s s' \<lparr>address = address env, tok = tok env, msg = b\<rparr> (append_reply s
      (AppendRes_set_last_accepted_txid (last_accepted_txid (rep_log s))
        (AppendRes_set_last_accepted_term (last_accepted_term (rep_log s)) (AppendRes_set_accepted False AppendRes_new))))"
    by (rule append_reply_msg) (simp_all add: bodies_initialized, simp_all add: AppendRes_accessors)
  then show ?thesis using unlinked assms(2) by (simp add: sends_reply_peer waits_on_def)
next
  case (accepted t x l s1 b)
  let ?s = "s\<lparr>max_generated_txid := x, rep_log := fst (commit_up_to (Append_get_last_learned_txid a) l)\<rparr>"
  have id: "srv_id s1 = srv_id s" using learn_each_frame(1) [OF accepted(4)] by (simp add: same_core_def)
  have w: "waits_on T ?s" using assms(2) by (simp add: waits_on_def)
  have "step_msg E now ev s s' \<lparr>address = address env, tok = tok env, msg = b\<rparr> (append_reply s1
      (AppendRes_set_last_accepted_txid x (AppendRes_set_last_accepted_term t (AppendRes_set_accepted True AppendRes_new))))"
    by (rule append_reply_msg) (simp_all add: bodies_initialized id, simp_all add: AppendRes_accessors)
  then have "sends E (step_msg E now ev s s') (answers_on T) s1 s'"
    using accepted(5,6) by (simp add: sends_reply_peer)
  moreover have "sends E (step_msg E now ev s s') (answers_on T) s s1" "waits_on T s1"
    using learn_each_sends [OF w accepted(4), of "step_msg E now ev s s'"] by (simp_all add: sends_def)
  ultimately show ?thesis using sends_trans accepted(6) by (auto simp: waits_on_def)
qed

lemma submit_sends:
  assumes "submit E req q mk s = Inr s'" and "waits_on T s" and "tok req \<in> T"
  shows "sends E (step_msg E now ev s s') (answers_on T) s s' \<and> waits_on T s'"
  using assms(1)
proof (rule submit_cases)
  fix x t s1 ps envs
  let ?s = "s\<lparr>max_generated_txid := x, srv_pending := bt_insert x (req, q) (srv_pending s)\<rparr>"
  assume r: "replicate_mutation E (mk x t) ?s = Inr s1"
    and ps: "send_to_peers E (srv_id s1) (rep_log s1) (rep_peers s1) = Inr (ps, envs)"
    and s': "s' = s1\<lparr>rep_peers := ps, outbox := outbox s1 @ envs\<rparr>"
  have w: "waits_on T ?s" using assms(2,3) bt_insert_set [of x "(req, q)" "srv_pending s"] by (auto simp: waits_on_def)
  from r obtain ids l where l: "learn_each E ids (?s\<lparr>rep_log := l\<rparr>) = Inr s1" by (rule replicate_mutation_Inr) blast
  have "sends E (step_msg E now ev s s') (answers_on T) s s1 \<and> waits_on T s1" "srv_id s1 = srv_id s"
    using learn_each_sends [OF _ l, of T "step_msg E now ev s s'"] learn_each_frame(1) [OF l] w
    by (simp_all add: sends_def waits_on_def same_core_def)
  moreover have "sends E (step_msg E now ev s s') (answers_on T) s1 s'"
  proof -
    have "\<exists>m. write_PeerMsg E m = Inr (msg e) \<and> step_msg E now ev s s' e m" if e: "e \<in> set envs" for e
    proof -
      obtain p lo hi where "write_PeerMsg E (append_message (srv_id s1) p (last_learned_txid (rep_log s1))
          (List.map_filter (log_get (rep_log s1)) (u64_range lo hi))) = Inr (msg e)"
        using send_to_peers_envelopes [OF ps] e by (fastforce simp: list_all2_conv_all_nth in_set_conv_nth)
      moreover have "step_msg E now ev s s' e (append_message (srv_id s1) p (last_learned_txid (rep_log s1))
          (List.map_filter (log_get (rep_log s1)) (u64_range lo hi)))"
        using \<open>srv_id s1 = srv_id s\<close> s' by (simp add: step_msg_def peer_msg_bodies peer_msgs_known peer_msgs_typed batch_known)
      ultimately show ?thesis by blast
    qed
    then show ?thesis using s' unfolding sends_def by (intro exI [of _ envs]) simp
  qed
  ultimately show ?thesis using sends_trans s' by (auto simp: waits_on_def)
qed

lemma cli_sends:
  assumes "handle_cli E req s = Inr s'" and "waits_on T s" and "tok req \<in> T"
  shows "sends E (step_msg E now ev s s') (answers_on T) s s' \<and> waits_on T s'"
proof -
  have "sends E (step_msg E now ev s s') (answers_on T) s s' \<and> waits_on T s'"
    if "reply_cli E req r s = Inr s'" "cli_res_typed r" for r
    using that assms(2,3) by (auto simp: reply_cli_Inr answers_on_def waits_on_def intro: sends_reply_cli)
  then show ?thesis
    using assms(1) submit_sends [OF _ assms(2,3)]
    by (auto simp: handle_cli_def Let_def replies_typed split: if_splits)
qed

lemma cron_sends:
  assumes "cron E now s = Inr s'"
  shows "sends E (step_msg E now ev s s') C s s'"
proof -
  obtain s1 where s1: "become_candidate E now s = Inr s1"
    and s': "s' = s1 \<or> (\<exists>b trm. write_PeerMsg E (vote_request s1 trm) = Inr b \<and> s' = peer_broadcast b s1)"
    using assms by (auto simp: cron_def split: if_splits)
  have frame: "srv_id s1 = srv_id s" "outbox s1 = outbox s" using s1 by (auto simp: become_candidate_def split: if_splits)
  have "step_msg E now ev s s' \<lparr>address = None, tok = PEER_BROADCAST, msg = b\<rparr> (vote_request s1 trm)" for b trm
    using frame(1) peer_msgs_typed(2) [of s1 trm] by (simp add: step_msg_def peer_msg_bodies peer_msgs_known)
  then show ?thesis using s' frame(2) by (fastforce simp: sends_def peer_broadcast_def)
qed

lemma step_sends:
  assumes "server_step E now ev s = Inr s'" and "waits_on T s" and "\<And>env. ev = CliEvent env \<Longrightarrow> tok env \<in> T"
  shows "sends E (step_msg E now ev s s') (answers_on T) s s' \<and> waits_on T s'"
  using assms(1)
proof (cases rule: server_step_cases)
  case (vote_res env m)
  from vote_res(4) have "outbox s' = outbox s \<and> srv_pending s' = srv_pending s"
    by (rule handle_vote_res_cases) (auto dest: count_vote_frame)
  then show ?thesis using assms(2) by (simp add: sends_nothing waits_on_def)
next
  case (vote_req env m)
  have "waits_on T s'"
    using assms(2) vote_req(4)
    by (auto simp: waits_on_def handle_vote_req_def vote_req_decide_def reply_peer_Inr split: if_splits State.splits option.splits)
  then show ?thesis using vote_req_sends [OF vote_req(4,2,3)] vote_req(1) by blast
next
  case (append env m)
  then show ?thesis using append_sends [OF append(4) assms(2)] by blast
next
  case (append_res env m)
  from append_res(4) show ?thesis
  proof (cases rule: handle_append_res_cases)
    case (acked p)
    show ?thesis
      using learn_each_sends [OF _ acked(3), of T "step_msg E now ev s s'"] assms(2) by (simp add: sends_def waits_on_def)
  qed (use assms(2) in \<open>simp add: sends_nothing\<close>)
next
  case (cli env)
  then show ?thesis using cli_sends [OF cli(2) assms(2) assms(3)] by blast
next
  case cron
  have "waits_on T s'"
    using assms(2) cron(2) by (auto simp: waits_on_def cron_def become_candidate_def peer_broadcast_def split: if_splits)
  then show ?thesis using cron_sends [OF cron(2)] by blast
qed (use assms(2) in \<open>simp add: sends_nothing\<close>)

section \<open>Properties\<close>

text \<open>C29. Every message that leaves a node is well formed: a step only adds messages, and each of them is the print of a
  peer message that names this node and has exactly one body, or of a response that names its request and has at
  most one body. Required fields are set, but for the empty answer to an \<^verbatim>\<open>Append\<close> of a node that is not followed and all but the
  verdict in the responses to set and delete.\<close>

theorem step_sends_typed:
  assumes "server_step E now ev s = Inr s'"
  shows "\<exists>ms. outbox s' = outbox s @ ms \<and>
    (\<forall>e \<in> set ms. (\<exists>m. write_PeerMsg E m = Inr (msg e) \<and> peer_msg_typed (srv_id s) m) \<or>
       (\<exists>r. write_CliRes E r = Inr (msg e) \<and> cli_res_typed r))"
proof -
  have "waits_on UNIV s" by (simp add: waits_on_def)
  then have "sends E (\<lambda>_. peer_msg_typed (srv_id s)) (\<lambda>_. cli_res_typed) s s'"
    using step_sends [OF assms] sends_mono [of E "step_msg E now ev s s'" "answers_on UNIV" s s']
    by (simp add: step_msg_def answers_on_def)
  then show ?thesis unfolding sends_def .
qed

theorem step_sends_typed_witness:
  "\<exists>s' b r. server_step demo_ext demo_now (CliEvent (demo_env 2)) demo_start = Inr s' \<and>
     outbox s' = [(demo_env 2)\<lparr>msg := b\<rparr>] \<and>
     ((\<exists>m. write_PeerMsg demo_ext m = Inr b \<and> peer_msg_typed ''a'' m) \<or> write_CliRes demo_ext r = Inr b \<and> cli_res_typed r)"
proof -
  obtain s' where s': "server_step demo_ext demo_now (CliEvent (demo_env 2)) demo_start = Inr s'"
    "outbox s' = [(demo_env 2)\<lparr>msg := []\<rparr>]"
    by (simp add: server_step_def handle_cli_def demo_ext_def demo_env_def demo_msgs Let_def Server_init_def reply_cli_def
        reply_def)
  have "outbox demo_start = []" "srv_id demo_start = ''a''" by (simp_all add: Server_init_def)
  then show ?thesis using step_sends_typed [OF s'(1)] s' by auto
qed

end
