(* ===== verification/Election_Safety.thy ===== *)
theory Election_Safety
  imports Server_Invariant Memory_Ext
begin

text \<open>
  Elections and leases: when a vote is granted, how long it binds the voter, what makes a
  node leader and when it campaigns.  All of it is about the handlers \<^verbatim>\<open>handle_vote_req\<close>,
  \<^verbatim>\<open>handle_vote_res\<close> and \<^verbatim>\<open>cron\<close> of \<^verbatim>\<open>server/server.rs\<close> inside the steps of a whole node.
\<close>

section \<open>Granting a vote\<close>

text \<open>The log comparison of \<^verbatim>\<open>should_grant_vote\<close>: the term is not below the learned one, and the
  pair of learned term and accepted txid is at least the voter's in lexicographic order.\<close>

definition up_to_date :: "VoteReq \<Rightarrow> Mutation InMemoryLog \<Rightarrow> bool" where
  "up_to_date r l \<longleftrightarrow>
     last_learned_term l \<le> VoteReq_get_term r \<and>
     (last_learned_term l < VoteReq_get_last_learned_term r \<or>
      last_learned_term l = VoteReq_get_last_learned_term r \<and>
      last_accepted_txid l \<le> VoteReq_get_last_accepted_txid r)"

lemma should_grant_vote_iff:
  "should_grant_vote s now r \<longleftrightarrow> \<not> valid_leader (state s) now \<and> up_to_date r (rep_log s)"
  by (auto simp: should_grant_vote_def up_to_date_def not_less)

lemma vote_req_decide_refused:
  assumes "i \<noteq> srv_id s" and "\<not> following (state s) i"
    and "valid_leader (state s) t \<or> \<not> up_to_date r (rep_log s)"
  shows "vote_req_decide E (\<lambda>_. t) env i r s =
    Inr (s, (case state_term (state s) of Some u \<Rightarrow> u | None \<Rightarrow> VoteReq_get_term r), False)"
  using assms by (cases "state s") (auto simp: vote_req_decide_def should_grant_vote_iff)

lemma vote_req_decide_granted:
  assumes "i \<noteq> srv_id s" and "\<not> following (state s) i" and "address env = Some a"
    and "\<not> valid_leader (state s) t" and "up_to_date r (rep_log s)"
  shows "vote_req_decide E (\<lambda>_. t) env i r s =
    Inr (s\<lparr>highest_term := VoteReq_get_term r,
           state := Follower (VoteReq_get_term r) i (tok env) a (tadd E t LEADER_DURATION)\<rparr>,
         VoteReq_get_term r, True)"
  using assms by (simp add: vote_req_decide_def should_grant_vote_iff)

section \<open>A vote binds the voter for its lease\<close>

text \<open>Steps under a clock: every step reads one stamp.\<close>

definition timed_run :: "'db Ext \<Rightarrow> (Timespec \<times> Event) list \<Rightarrow> 'db Server \<Rightarrow> 'db Server res" where
  "timed_run E evs s = fold_res (\<lambda>(t, ev). server_step E (\<lambda>_. t) ev) evs s"

text \<open>Adding a duration to stamps keeps their order.\<close>

definition tadd_mono :: "'db Ext \<Rightarrow> bool" where
  "tadd_mono E \<longleftrightarrow> (\<forall>t t' d. t \<le> t' \<longrightarrow> tadd E t d \<le> tadd E t' d)"

lemma handle_append_state: "handle_append E env i a s = Inr s' \<Longrightarrow> state s' = state s"
  by (erule handle_append_cases) (auto simp: reply_def same_core_def dest!: learn_each_frame(1))

lemma handle_append_res_state: "handle_append_res E env i r s = Inr s' \<Longrightarrow> state s' = state s"
  by (erule handle_append_res_cases) (auto simp: same_core_def dest!: learn_each_frame(1))

lemma submit_state: "submit E req i mk s = Inr s' \<Longrightarrow> state s' = state s"
  by (erule submit_cases)
     (auto simp: same_core_def elim!: replicate_mutation_Inr dest!: learn_each_frame(1))

lemma handle_cli_state: "handle_cli E req s = Inr s' \<Longrightarrow> state s' = state s"
  by (auto simp: handle_cli_def Let_def reply_cli_Inr reply_def dest: submit_state split: if_splits)

lemma handle_vote_res_follower:
  "state s = Follower tm i k a u \<Longrightarrow> handle_vote_res E now env j r s = Inr s' \<Longrightarrow> s' = s"
  by (erule handle_vote_res_cases) auto

lemma handle_vote_req_follower:
  assumes "state s = Follower tm i k a u" and "t < u" and "handle_vote_req E (\<lambda>_. t) env j r s = Inr s'"
  shows "state s' = state s \<or> state s' = Follower tm i k a (tadd E t LEADER_DURATION)"
proof -
  obtain s1 t1 ok b where d: "vote_req_decide E (\<lambda>_. t) env j r s = Inr (s1, t1, ok)" and s': "s' = reply env b s1"
    using assms(3) by (auto simp: handle_vote_req_def reply_peer_Inr)
  show ?thesis
    using d assms(1,2) s' by (auto simp: vote_req_decide_def reply_def split: if_splits)
qed

lemma cron_follower:
  "state s = Follower tm i k a u \<Longrightarrow> t < u \<Longrightarrow> cron E (\<lambda>_. t) s = Inr s' \<Longrightarrow> state s' = state s"
  by (auto simp: cron_def become_candidate_def)

lemma follower_step:
  assumes "state s = Follower tm i k a u" and "t < u" and "server_step E (\<lambda>_. t) ev s = Inr s'"
  shows "state s' = state s \<or> state s' = Follower tm i k a (tadd E t LEADER_DURATION)"
  using assms(3)
proof (cases rule: server_step_cases)
  case (vote_res env m)
  then show ?thesis using handle_vote_res_follower [OF assms(1) vote_res(4)] by simp
next
  case (vote_req env m)
  then show ?thesis using handle_vote_req_follower [OF assms(1,2) vote_req(4)] by simp
next
  case cron
  then show ?thesis using cron_follower [OF assms(1,2) cron(2)] by simp
qed (auto dest: handle_append_state handle_append_res_state handle_cli_state)

lemma follower_run:
  assumes "tadd_mono E" and "state s = Follower tm i k a u0" and "tadd E t0 LEADER_DURATION \<le> u0"
    and "timed_run E evs s = Inr s'" and "\<forall>(t, ev) \<in> set evs. t0 \<le> t \<and> t < tadd E t0 LEADER_DURATION"
  shows "\<exists>u. state s' = Follower tm i k a u \<and> tadd E t0 LEADER_DURATION \<le> u"
  using assms(4) unfolding timed_run_def
proof (rule fold_res_invariant)
  show "\<exists>u. state s = Follower tm i k a u \<and> tadd E t0 LEADER_DURATION \<le> u" using assms(2,3) by simp
  fix e s1 s2
  assume e: "e \<in> set evs" and inv: "\<exists>u. state s1 = Follower tm i k a u \<and> tadd E t0 LEADER_DURATION \<le> u"
    and st: "(case e of (t, ev) \<Rightarrow> server_step E (\<lambda>_. t) ev) s1 = Inr s2"
  obtain t ev where te: "e = (t, ev)" by (cases e)
  have t: "t0 \<le> t" "t < tadd E t0 LEADER_DURATION" using assms(5) e te by auto
  from inv obtain u where u: "state s1 = Follower tm i k a u" "tadd E t0 LEADER_DURATION \<le> u" by blast
  have "state s2 = state s1 \<or> state s2 = Follower tm i k a (tadd E t LEADER_DURATION)"
    using follower_step [OF u(1), of t E ev s2] t(2) u(2) st te by simp
  then show "\<exists>u. state s2 = Follower tm i k a u \<and> tadd E t0 LEADER_DURATION \<le> u"
    using u assms(1) t(1) by (auto simp: tadd_mono_def)
qed

section \<open>Becoming leader\<close>

text \<open>A step that makes a leader or moves the lease of one has just counted a vote.\<close>

lemma leader_step:
  assumes "state s' = Leader t h' n u'" and "\<nexists>h. state s = Leader t h n u'" and "server_step E now ev s = Inr s'"
  obtains env m h u s1 where "ev = PeerEvent env" "parse_PeerMsg E (msg env) = Inr m"
    "PeerMsg_has_vote_res m" "VoteRes_get_term (PeerMsg_get_vote_res m) = t"
    "state s = Candidate t h n u \<or> state s = Leader t h n u"
    "unat n \<le> length (fst (count_vote env (PeerMsg_get_srvid m) (PeerMsg_get_vote_res m) t h s))"
proof -
  have vreq: False if "handle_vote_req E now env i q s = Inr s'" for env i q
    using that assms(1,2)
    by (cases "state s") (auto simp: handle_vote_req_def vote_req_decide_def reply_peer_Inr reply_def
        split: if_splits option.splits)
  show thesis
    using assms(3)
  proof (cases rule: server_step_cases)
    case (vote_res env m)
    note found = that [OF vote_res(1-3)]
    from vote_res(4) show thesis
    proof (cases rule: handle_vote_res_cases)
      case (elected h n0 u h1 s1)
      then show thesis using assms(1) by (intro found [of h u]) auto
    next
      case (extended h n0 u h1 s1)
      then show thesis using assms(1) by (intro found [of h u]) auto
    next
      case (renewing h n0 u h1 s1)
      then show thesis using assms(1,2) by auto
    qed (use assms(1,2) in auto)
  next
    case (vote_req env m)
    then show thesis using vreq by blast
  next
    case cron
    then show thesis
      using assms(1,2) by (auto simp: cron_def become_candidate_def peer_broadcast_def split: if_splits)
  qed (use assms(1,2) in \<open>auto dest: handle_append_state handle_append_res_state handle_cli_state\<close>)
qed

lemma leader_step_majority:
  assumes "role_inv s" and "length (peers s) < 510"
    and "state s' = Leader t h' n u'" and "\<nexists>h. state s = Leader t h n u'" and "server_step E now ev s = Inr s'"
  shows "\<exists>env m h u. ev = PeerEvent env \<and> parse_PeerMsg E (msg env) = Inr m \<and> PeerMsg_has_vote_res m \<and>
    VoteRes_get_term (PeerMsg_get_vote_res m) = t \<and> (state s = Candidate t h n u \<or> state s = Leader t h n u) \<and>
    distinct (h @ [tok env]) \<and> length (h @ [tok env]) = length (peers s) div 2 + 1"
  using assms(3-5)
proof (rule leader_step)
  fix env m h u
  assume ev: "ev = PeerEvent env" "parse_PeerMsg E (msg env) = Inr m" "PeerMsg_has_vote_res m"
    "VoteRes_get_term (PeerMsg_get_vote_res m) = t" and st: "state s = Candidate t h n u \<or> state s = Leader t h n u"
    and enough: "unat n \<le> length (fst (count_vote env (PeerMsg_get_srvid m) (PeerMsg_get_vote_res m) t h s))"
  have "n = of_nat (length (peers s) div 2 + 1)" using assms(1) st by (auto simp: role_inv_def)
  then have n: "unat n = length (peers s) div 2 + 1"
    using assms(2) by (simp only: unat_of_nat) simp
  have h: "distinct h" "length h < unat n"
    using assms(1) st n by (auto simp: role_inv_def word_less_nat_alt)
  have "tok env \<notin> set h" "length h + 1 = unat n"
    using enough h(2) by (auto simp: count_vote_def split: if_splits)
  then show ?thesis using ev st h(1) n by auto
qed

section \<open>Enough votes make a leader\<close>

definition grants :: "'db Ext \<Rightarrow> Term \<Rightarrow> Envelope \<Rightarrow> bool" where
  "grants E t env \<longleftrightarrow> address env \<noteq> None \<and>
     (case parse_PeerMsg E (msg env) of
        Inl _ \<Rightarrow> False
      | Inr m \<Rightarrow> PeerMsg_has_vote_res m \<and> VoteRes_get_term (PeerMsg_get_vote_res m) = t \<and>
                 VoteRes_get_success (PeerMsg_get_vote_res m))"

lemma vote_step:
  assumes "state s = Candidate t h n u" and "grants E t env" and "tok env \<notin> set h" and "\<forall>i. now i < u"
  shows "\<exists>s'. server_step E now (PeerEvent env) s = Inr s' \<and>
    state s' = (if unat n \<le> length h + 1 then Leader t [] n u else Candidate t (h @ [tok env]) n u)"
  using assms
  by (auto simp: grants_def server_step_def handle_peer_def handle_vote_res_def count_vote_def Let_def split: sum.splits)

lemma votes_elect:
  assumes "state s = Candidate t h n u" and "\<forall>env \<in> set envs. grants E t env"
    and "distinct (h @ map tok envs)" and "length h + length envs = unat n" and "envs \<noteq> []" and "\<forall>i. now i < u"
  shows "\<exists>s'. fold_res (\<lambda>env. server_step E now (PeerEvent env)) envs s = Inr s' \<and> state s' = Leader t [] n u"
  using assms(1-5)
proof (induction envs arbitrary: s h)
  case (Cons env envs)
  obtain s1 where s1: "server_step E now (PeerEvent env) s = Inr s1"
    and st: "state s1 = (if unat n \<le> length h + 1 then Leader t [] n u else Candidate t (h @ [tok env]) n u)"
    using vote_step [OF Cons.prems(1) _ _ assms(6), of E env] Cons.prems(2,3) by auto
  show ?case
  proof (cases envs)
    case Nil
    then show ?thesis using s1 st Cons.prems(4) by auto
  next
    case (Cons e es)
    then have "state s1 = Candidate t (h @ [tok env]) n u" using st Cons.prems(4) by auto
    then show ?thesis using Cons.IH [of s1 "h @ [tok env]"] Cons.prems s1 Cons by auto
  qed
qed simp

section \<open>Properties\<close>

text \<open>C6. Every node that \<^verbatim>\<open>Server::run\<close> starts keeps its invariant through any events: the term of its
  role is the highest it has adopted, the votes it counts are distinct and fewer than it
  needs, its replication peers are keyed by their ids and exclude itself, its log is a chain
  that ends at its txid counter, and no client waits for a txid it has not issued.\<close>

theorem reachable_server_inv:
  assumes "reachable E s"
  shows "server_inv s"
  by (rule reachable_inv [OF assms])

theorem reachable_server_inv_witness: "server_inv demo_leader"
  by (rule reachable_server_inv [OF reachable.step [OF reachable.step [OF reachable.start demo_cron] demo_elect]])

text \<open>C20. The verdict on a vote request, under a steady clock.  A request of the node itself is granted and
  changes nothing.  A request of the leader that the node follows is granted, whatever its term and log and whether
  the lease still runs: the lease starts anew, in the term and over the connection it had.  Any other request is
  granted exactly when no lease is valid and the requester's log is up to date; then the voter follows the requester
  in the requested term for the lease duration.  A refusal leaves the node unchanged and reports the voter's own
  term if it has one.  The one message sent is the verdict to the requester.\<close>

theorem vote_request_verdict:
  assumes "handle_vote_req E (\<lambda>_. t) env i r s = Inr s'"
  shows "\<exists>b. if i = srv_id s
      then s' = reply env b s \<and> write_PeerMsg E (vote_reply s (VoteReq_get_term r) True) = Inr b
      else if following (state s) i
      then (\<exists>tm k a u. state s = Follower tm i k a u \<and>
             s' = reply env b (s\<lparr>state := Follower tm i k a (tadd E t LEADER_DURATION)\<rparr>)) \<and>
           write_PeerMsg E (vote_reply s (VoteReq_get_term r) True) = Inr b
      else if \<not> valid_leader (state s) t \<and> up_to_date r (rep_log s)
      then (\<exists>a. address env = Some a \<and>
             s' = reply env b (s\<lparr>highest_term := VoteReq_get_term r,
               state := Follower (VoteReq_get_term r) i (tok env) a (tadd E t LEADER_DURATION)\<rparr>)) \<and>
           write_PeerMsg E (vote_reply s (VoteReq_get_term r) True) = Inr b
      else s' = reply env b s \<and>
           write_PeerMsg E (vote_reply s
             (case state_term (state s) of Some u \<Rightarrow> u | None \<Rightarrow> VoteReq_get_term r) False) = Inr b"
proof -
  consider (self) "i = srv_id s" | (follow) "i \<noteq> srv_id s" "following (state s) i"
    | (grant) "i \<noteq> srv_id s" "\<not> following (state s) i" "\<not> valid_leader (state s) t" "up_to_date r (rep_log s)"
    | (refuse) "i \<noteq> srv_id s" "\<not> following (state s) i" "valid_leader (state s) t \<or> \<not> up_to_date r (rep_log s)"
    by blast
  then show ?thesis
  proof cases
    case self
    then show ?thesis using assms by (auto simp: handle_vote_req_def vote_req_decide_def reply_peer_Inr)
  next
    case follow
    then obtain tm k a u where "state s = Follower tm i k a u" by (auto simp: following_iff)
    then show ?thesis
      using assms follow by (auto simp: handle_vote_req_def vote_req_decide_def reply_peer_Inr vote_reply_def)
  next
    case grant
    then obtain a where "address env = Some a"
      using assms by (auto simp: handle_vote_req_def vote_req_decide_def should_grant_vote_iff)
    then show ?thesis
      using assms grant vote_req_decide_granted [OF grant(1,2) _ grant(3,4), of env a E]
      by (auto simp: handle_vote_req_def reply_peer_Inr vote_reply_def)
  next
    case refuse
    then show ?thesis
      using assms vote_req_decide_refused [OF refuse, of E env] by (auto simp: handle_vote_req_def reply_peer_Inr)
  qed
qed

theorem vote_request_verdict_witness:
  "\<exists>s'. handle_vote_req (mem_ext [] []) (\<lambda>_. Timespec 0 0) (demo_env 1) ''b'' (VoteReq_set_term 5 VoteReq_new) demo_start
      = Inr s' \<and> state s' = Follower 5 ''b'' 5 ([127, 0, 0, 1], 7777) (Timespec 12 0)"
proof -
  let ?r = "VoteReq_set_term 5 VoteReq_new"
  have date: "up_to_date ?r (rep_log demo_start)" and trm: "VoteReq_get_term ?r = 5"
    by (simp_all add: up_to_date_def Server_init_def empty_log_def VoteReq_accessors)
  have st: "srv_id demo_start = ''a''" "state demo_start = Init" by (simp_all add: Server_init_def)
  obtain s' where s': "handle_vote_req (mem_ext [] []) (\<lambda>_. Timespec 0 0) (demo_env 1) ''b'' ?r demo_start = Inr s'"
    using st date trm
    by (simp add: handle_vote_req_def vote_req_decide_def should_grant_vote_iff demo_env_def reply_peer_def
        vote_reply_def PeerMsg_is_initialized_def PeerMsg_accessors)
  have "state s' = Follower 5 ''b'' 5 ([127, 0, 0, 1], 7777) (Timespec 12 0)"
    using vote_request_verdict [OF s'] st date trm
    by (auto simp: demo_env_def reply_def LEADER_DURATION_def)
  with s' show ?thesis by (intro exI [of _ s'] conjI)
qed

text \<open>C2. A vote binds: a node that granted a vote at \<open>t0\<close> still follows that leader, in that
  term, after any events whose clock readings lie in the lease, whatever other candidates
  ask of it, and its lease never gets shorter.\<close>

theorem vote_binds_for_lease:
  assumes "tadd_mono E" and "state s = Follower tm i k a (tadd E t0 LEADER_DURATION)"
    and "timed_run E evs s = Inr s'" and "\<forall>(t, ev) \<in> set evs. t0 \<le> t \<and> t < tadd E t0 LEADER_DURATION"
  shows "\<exists>u. state s' = Follower tm i k a u \<and> tadd E t0 LEADER_DURATION \<le> u"
  by (rule follower_run [OF assms(1,2) order_refl assms(3,4)])

theorem vote_binds_for_lease_witness:
  "\<exists>s' u. timed_run (mem_ext [] []) [(Timespec 3 0, CronEvent), (Timespec 11 0, CronEvent)]
       (demo_start\<lparr>state := Follower 5 ''b'' 5 ([127, 0, 0, 1], 7777) (Timespec 12 0)\<rparr>) = Inr s' \<and>
     state s' = Follower 5 ''b'' 5 ([127, 0, 0, 1], 7777) u \<and> Timespec 12 0 \<le> u"
proof -
  let ?s = "demo_start\<lparr>state := Follower 5 ''b'' 5 ([127, 0, 0, 1], 7777) (Timespec 12 0)\<rparr>"
  have mono: "tadd_mono (mem_ext [] [])" by (auto simp: tadd_mono_def less_eq_Timespec_def)
  obtain s' where s': "timed_run (mem_ext [] []) [(Timespec 3 0, CronEvent), (Timespec 11 0, CronEvent)] ?s = Inr s'"
    by (simp add: timed_run_def server_step_def cron_def become_candidate_def)
  have "\<exists>u. state s' = Follower 5 ''b'' 5 ([127, 0, 0, 1], 7777) u \<and> Timespec 12 0 \<le> u"
    using vote_binds_for_lease [OF mono _ s', of 5 "''b''" 5 "([127, 0, 0, 1], 7777)" "Timespec 0 0"]
    by (simp add: LEADER_DURATION_def)
  with s' show ?thesis by blast
qed

text \<open>C3. Leadership needs a majority: a step after which a node leads although it did not
  before, or leads with a different lease, handles a vote response of its term, and the
  votes counted since the last change, this one included, come over distinct connections
  and are \<open>n div 2 + 1\<close> in a cluster of \<open>n\<close> nodes.  There are fewer than 510 nodes: the code keeps
  the majority in a \<^verbatim>\<open>u8\<close>, which truncates from there on.\<close>

theorem leadership_needs_majority:
  assumes "reachable E s" and "length (peers s) < 510" and "server_step E now ev s = Inr s'"
    and "state s' = Leader t h' n u'" and "\<nexists>h. state s = Leader t h n u'"
  shows "\<exists>env m h u. ev = PeerEvent env \<and> parse_PeerMsg E (msg env) = Inr m \<and> PeerMsg_has_vote_res m \<and>
    VoteRes_get_term (PeerMsg_get_vote_res m) = t \<and> (state s = Candidate t h n u \<or> state s = Leader t h n u) \<and>
    distinct (h @ [tok env]) \<and> length (h @ [tok env]) = length (peers s) div 2 + 1"
  using leader_step_majority [OF _ assms(2,4,5,3)] reachable_inv [OF assms(1)] by (simp add: server_inv_def)

theorem leadership_needs_majority_witness:
  "\<exists>env h u. PeerEvent (demo_env 1) = PeerEvent env \<and> state demo_candidate = Candidate 1 h 1 u \<and>
     distinct (h @ [tok env]) \<and> length (h @ [tok env]) = 1"
proof -
  have r: "reachable demo_ext demo_candidate" by (rule reachable.step [OF reachable.start demo_cron])
  have "state demo_candidate = Candidate 1 [] 1 (Timespec 12 0)" "peers demo_candidate = [''a'']"
      "state demo_leader = Leader 1 [] 1 (Timespec 12 0)"
    by (simp_all add: demo_candidate_def demo_leader_def peer_broadcast_def Server_init_def)
  then show ?thesis using leadership_needs_majority [OF r _ demo_elect, of 1 "[]" 1 "Timespec 12 0"] by auto
qed

text \<open>C12. A majority elects: a candidate that receives grants of its term over as many further
  distinct connections as it still needs, while its lease lasts, handles every one of them
  and ends as the leader of that term.\<close>

theorem majority_elects_leader:
  assumes "state s = Candidate t h n u" and "\<forall>env \<in> set envs. grants E t env"
    and "distinct (h @ map tok envs)" and "length h + length envs = unat n" and "envs \<noteq> []" and "\<forall>i. now i < u"
  shows "\<exists>s'. fold_res (\<lambda>env. server_step E now (PeerEvent env)) envs s = Inr s' \<and> state s' = Leader t [] n u"
  by (rule votes_elect [OF assms])

theorem majority_elects_leader_witness:
  "\<exists>s'. fold_res (\<lambda>env. server_step demo_ext demo_now (PeerEvent env))
      [demo_env 1, (demo_env 1)\<lparr>tok := 6\<rparr>]
      (demo_start\<lparr>peers := [''a'', ''b'', ''c''], state := Candidate 1 [] 2 (Timespec 12 0)\<rparr>) = Inr s' \<and>
     state s' = Leader 1 [] 2 (Timespec 12 0)"
  by (rule majority_elects_leader)
     (simp_all add: grants_def demo_ext_def demo_env_def demo_msgs demo_now_def)

text \<open>C25. A node without a valid lease campaigns: at the next cron it is a candidate of a new
  term, one above the highest it has adopted, with no votes, and it broadcasts one request
  that names this term and the positions of its log.\<close>

theorem expired_node_campaigns:
  assumes "\<not> valid_leader (state s) t" and "\<not> valid_candidate (state s) t" and "t < tadd E t LEADER_DURATION"
    and "cron E (\<lambda>_. t) s = Inr s'"
  shows "\<exists>b. s' = peer_broadcast b (s\<lparr>highest_term := highest_term s + 1,
        state := Candidate (highest_term s + 1) [] (of_nat (length (peers s) div 2 + 1)) (tadd E t LEADER_DURATION)\<rparr>) \<and>
      highest_term s < highest_term s' \<and>
      write_PeerMsg E (PeerMsg_set_vote_req
        (VoteReq_set_last_learned_txid (last_learned_txid (rep_log s))
          (VoteReq_set_last_learned_term (last_learned_term (rep_log s))
            (VoteReq_set_last_accepted_txid (last_accepted_txid (rep_log s))
              (VoteReq_set_last_accepted_term (last_accepted_term (rep_log s))
                (VoteReq_set_term (highest_term s + 1) VoteReq_new)))))
        (PeerMsg_set_srvid (srv_id s) PeerMsg_new)) = Inr b"
proof -
  obtain x where x: "checked_add (highest_term s) 1 = Inr x"
    using assms by (auto simp: cron_def become_candidate_def)
  then have "x = highest_term s + 1" by (simp add: checked_add_Inr_iff)
  then show ?thesis
    using assms x checked_add_1_greater [OF x]
    by (auto simp: cron_def become_candidate_def vote_request_def peer_broadcast_def)
qed

theorem expired_node_campaigns_witness:
  "highest_term demo_start < highest_term demo_candidate"
  using expired_node_campaigns [of demo_start "Timespec 0 0" demo_ext demo_candidate] demo_cron
  by (auto simp: server_step_def demo_now_def [abs_def] demo_ext_def Server_init_def LEADER_DURATION_def)

text \<open>A vote is not remembered beyond its lease: a follower whose lease has run out grants
  another candidate the very term in which it has already voted.\<close>

theorem vote_given_twice_in_a_term:
  assumes "state s = Follower (VoteReq_get_term r) i k a u" and "u \<le> t" and "up_to_date r (rep_log s)"
    and "j \<noteq> i" and "j \<noteq> srv_id s" and "address env = Some b"
    and "handle_vote_req E (\<lambda>_. t) env j r s = Inr s'"
  shows "state s' = Follower (VoteReq_get_term r) j (tok env) b (tadd E t LEADER_DURATION)"
proof -
  have "\<not> following (state s) j" "\<not> valid_leader (state s) t" using assms(1,2,4) by auto
  then show ?thesis
    using assms(7) vote_req_decide_granted [OF assms(5) _ assms(6) _ assms(3)]
    by (auto simp: handle_vote_req_def reply_peer_Inr reply_def)
qed

theorem vote_given_twice_in_a_term_witness:
  "\<exists>s'. handle_vote_req (mem_ext [] []) (\<lambda>_. Timespec 12 0) (demo_env 1) ''c'' (VoteReq_set_term 5 VoteReq_new)
       (demo_start\<lparr>state := Follower 5 ''b'' 5 ([127, 0, 0, 1], 7777) (Timespec 12 0)\<rparr>) = Inr s' \<and>
     state s' = Follower 5 ''c'' 5 ([127, 0, 0, 1], 7777) (Timespec 24 0)"
proof -
  let ?r = "VoteReq_set_term 5 VoteReq_new"
  let ?s = "demo_start\<lparr>state := Follower 5 ''b'' 5 ([127, 0, 0, 1], 7777) (Timespec 12 0)\<rparr>"
  have date: "up_to_date ?r (rep_log ?s)" and trm: "VoteReq_get_term ?r = 5"
    by (simp_all add: up_to_date_def Server_init_def empty_log_def VoteReq_accessors)
  have id: "srv_id ?s = ''a''" by (simp add: Server_init_def)
  obtain s' where s': "handle_vote_req (mem_ext [] []) (\<lambda>_. Timespec 12 0) (demo_env 1) ''c'' ?r ?s = Inr s'"
    using id date trm
    by (auto simp: handle_vote_req_def vote_req_decide_def should_grant_vote_iff demo_env_def reply_peer_def
        vote_reply_def PeerMsg_is_initialized_def PeerMsg_accessors)
  have "state s' = Follower 5 ''c'' 5 ([127, 0, 0, 1], 7777) (Timespec 24 0)"
    using vote_given_twice_in_a_term [OF _ _ date _ _ _ s'] id trm by (simp add: demo_env_def LEADER_DURATION_def)
  with s' show ?thesis by (intro exI [of _ s'] conjI)
qed

end
