(* ===== verification/Wire_Varint.thy ===== *)
theory Wire_Varint
  imports Wire_Rt
begin

text \<open>
  One runtime: base 128 varints, tags of a field number and a wire type, and length-prefixed bytes. It keeps the laws that the
  generated code relies on, so that the round trips apply to it.
\<close>

section \<open>Varints\<close>

fun varint_enc :: "nat \<Rightarrow> bytes" where
  "varint_enc n = (if n < 128 then [of_nat n] else of_nat (n mod 128 + 128) # varint_enc (n div 128))"

declare varint_enc.simps [simp del]

fun varint_dec :: "bytes \<Rightarrow> perr + nat \<times> bytes" where
  "varint_dec [] = Inl ''unexpected eof''"
| "varint_dec (b # bs) =
     (if unat b < 128 then Inr (unat b, bs)
      else and_then (varint_dec bs) (\<lambda>(n, r). Inr (unat b - 128 + 128 * n, r)))"

lemma unat_byte: "n < 256 \<Longrightarrow> unat (of_nat n :: u8) = n"
  by (simp add: unat_of_nat)

lemma varint_round_trip [simp]: "varint_dec (varint_enc n @ rest) = Inr (n, rest)"
proof (induction n rule: varint_enc.induct)
  case (1 n)
  show ?case
  proof (cases "n < 128")
    case True
    then show ?thesis by (simp add: varint_enc.simps [of n] unat_byte)
  next
    case False
    have "n mod 128 + 128 < 256" by simp
    then have u: "unat (of_nat (n mod 128 + 128) :: u8) = n mod 128 + 128" by (rule unat_byte)
    show ?thesis using 1 [OF False] False u
      by (simp add: varint_enc.simps [of n] del: of_nat_add)
  qed
qed

lemma varint_enc_nonempty [simp]: "varint_enc n \<noteq> []"
  by (simp add: varint_enc.simps [of n])

lemma varint_enc_small: "n < 128 \<Longrightarrow> varint_enc n = [of_nat n]"
  by (simp add: varint_enc.simps)

lemma varint_dec_shrinks: "varint_dec bs = Inr (n, r) \<Longrightarrow> length r < length bs"
  by (induction bs arbitrary: n r) (auto split: if_splits)

section \<open>The runtime\<close>

definition wire_code :: "WireType \<Rightarrow> nat" where
  "wire_code t = (case t of WireTypeVarint \<Rightarrow> 0 | WireTypeFixed64 \<Rightarrow> 1 | WireTypeLengthDelimited \<Rightarrow> 2
     | WireTypeStartGroup \<Rightarrow> 3 | WireTypeEndGroup \<Rightarrow> 4 | WireTypeFixed32 \<Rightarrow> 5)"

definition wire_of :: "nat \<Rightarrow> WireType option" where
  "wire_of k = (if k = 0 then Some WireTypeVarint else if k = 1 then Some WireTypeFixed64
     else if k = 2 then Some WireTypeLengthDelimited else if k = 3 then Some WireTypeStartGroup
     else if k = 4 then Some WireTypeEndGroup else if k = 5 then Some WireTypeFixed32 else None)"

definition tag_enc :: "u32 \<Rightarrow> WireType \<Rightarrow> bytes" where
  "tag_enc n t = varint_enc (unat n * 8 + wire_code t)"

definition tag_dec :: "bytes \<Rightarrow> perr + (u32 \<times> WireType) \<times> bytes" where
  "tag_dec bs = and_then (varint_dec bs) (\<lambda>(k, r).
     case wire_of (k mod 8) of None \<Rightarrow> Inl ''bad wire type'' | Some t \<Rightarrow> Inr ((of_nat (k div 8), t), r))"

definition map_read :: "('a \<Rightarrow> perr + 'b) \<Rightarrow> (bytes \<Rightarrow> perr + 'a \<times> bytes) \<Rightarrow> bytes \<Rightarrow> perr + 'b \<times> bytes" where
  "map_read f rd bs = and_then (rd bs) (\<lambda>(v, r). and_then (f v) (\<lambda>w. Inr (w, r)))"

definition blob_dec :: "bytes \<Rightarrow> perr + bytes \<times> bytes" where
  "blob_dec bs = and_then (varint_dec bs) (\<lambda>(k, r).
     if k \<le> length r then Inr (take k r, drop k r) else Inl ''unexpected eof'')"

definition blob_enc :: "bytes \<Rightarrow> bytes" where
  "blob_enc b = varint_enc (length b) @ b"

definition string_bytes :: "string \<Rightarrow> bytes" where
  "string_bytes s = map (\<lambda>c. of_nat (of_char c)) s"

definition bytes_string :: "bytes \<Rightarrow> string" where
  "bytes_string b = map (\<lambda>w. char_of (unat w)) b"

definition size_of :: "bytes \<Rightarrow> u32 res" where
  "size_of b = (if length b < 2 ^ 32 then Inr (of_nat (length b)) else Inl Overflow)"

definition unknown_dec :: "WireType \<Rightarrow> bytes \<Rightarrow> perr + UnknownValue \<times> bytes" where
  "unknown_dec t =
     (case t of
        WireTypeVarint \<Rightarrow> map_read (\<lambda>k. Inr (UVarint (of_nat k))) varint_dec
      | WireTypeLengthDelimited \<Rightarrow> map_read (\<lambda>b. Inr (ULengthDelimited b)) blob_dec
      | _ \<Rightarrow> (\<lambda>_. Inl ''unsupported''))"

definition unknown_enc :: "UnknownFields \<Rightarrow> bytes" where
  "unknown_enc us = concat (map (\<lambda>(n, u). case u of
     UVarint v \<Rightarrow> tag_enc n WireTypeVarint @ varint_enc (unat v)
   | ULengthDelimited b \<Rightarrow> tag_enc n WireTypeLengthDelimited @ blob_enc b
   | _ \<Rightarrow> []) us)"

definition pb_varint :: Pb where
  "pb_varint =
     \<lparr>pb_eof = \<lambda>bs. Inr (bs = []),
      pb_read_tag_unpack = tag_dec,
      pb_read_uint64 = map_read (\<lambda>k. Inr (of_nat k)) varint_dec,
      pb_read_bool = map_read (\<lambda>k. Inr (k \<noteq> 0)) varint_dec,
      pb_read_enum = map_read (\<lambda>k. case MutationType_from_i32 (int k) of None \<Rightarrow> Inl ''bad enum'' | Some t \<Rightarrow> Inr t) varint_dec,
      pb_read_bytes = blob_dec,
      pb_read_string = map_read (\<lambda>b. Inr (bytes_string b)) blob_dec,
      pb_read_region = blob_dec,
      pb_read_unknown = unknown_dec,
      pb_add_value = \<lambda>n u us. us @ [(n, u)],
      pb_value_size = \<lambda>n v t. size_of (tag_enc n t @ varint_enc (unat v)),
      pb_enum_size = \<lambda>n v. size_of (tag_enc n WireTypeVarint @ varint_enc (nat (MutationType_value v))),
      pb_bytes_size = \<lambda>n v. size_of (tag_enc n WireTypeLengthDelimited @ blob_enc v),
      pb_string_size = \<lambda>n v. size_of (tag_enc n WireTypeLengthDelimited @ blob_enc (string_bytes v)),
      pb_varint32_size = \<lambda>len. size_of (varint_enc (unat len)),
      pb_unknown_fields_size = \<lambda>us. size_of (unknown_enc us),
      pb_write_uint64 = \<lambda>n v. Inr (tag_enc n WireTypeVarint @ varint_enc (unat v)),
      pb_write_bool = \<lambda>n v. Inr (tag_enc n WireTypeVarint @ varint_enc (if v then 1 else 0)),
      pb_write_enum = \<lambda>n v. Inr (tag_enc n WireTypeVarint @ varint_enc (nat v)),
      pb_write_bytes = \<lambda>n v. Inr (tag_enc n WireTypeLengthDelimited @ blob_enc v),
      pb_write_string = \<lambda>n v. Inr (tag_enc n WireTypeLengthDelimited @ blob_enc (string_bytes v)),
      pb_write_tag = \<lambda>n t. Inr (tag_enc n t),
      pb_write_raw_varint32 = \<lambda>len. Inr (varint_enc (unat len)),
      pb_write_unknown_fields = \<lambda>us. Inr (unknown_enc us)\<rparr>"

lemma pb_varint_simps [simp]:
  "pb_eof pb_varint = (\<lambda>bs. Inr (bs = []))"
  "pb_read_tag_unpack pb_varint = tag_dec"
  "pb_read_uint64 pb_varint = map_read (\<lambda>k. Inr (of_nat k)) varint_dec"
  "pb_read_bool pb_varint = map_read (\<lambda>k. Inr (k \<noteq> 0)) varint_dec"
  "pb_read_enum pb_varint = map_read (\<lambda>k. case MutationType_from_i32 (int k) of None \<Rightarrow> Inl ''bad enum'' | Some t \<Rightarrow> Inr t) varint_dec"
  "pb_read_bytes pb_varint = blob_dec"
  "pb_read_string pb_varint = map_read (\<lambda>b. Inr (bytes_string b)) blob_dec"
  "pb_read_region pb_varint = blob_dec"
  "pb_read_unknown pb_varint = unknown_dec"
  "pb_add_value pb_varint = (\<lambda>n u us. us @ [(n, u)])"
  "pb_value_size pb_varint = (\<lambda>n v t. size_of (tag_enc n t @ varint_enc (unat v)))"
  "pb_enum_size pb_varint = (\<lambda>n v. size_of (tag_enc n WireTypeVarint @ varint_enc (nat (MutationType_value v))))"
  "pb_bytes_size pb_varint = (\<lambda>n v. size_of (tag_enc n WireTypeLengthDelimited @ blob_enc v))"
  "pb_string_size pb_varint = (\<lambda>n v. size_of (tag_enc n WireTypeLengthDelimited @ blob_enc (string_bytes v)))"
  "pb_varint32_size pb_varint = (\<lambda>len. size_of (varint_enc (unat len)))"
  "pb_unknown_fields_size pb_varint = (\<lambda>us. size_of (unknown_enc us))"
  "pb_write_uint64 pb_varint = (\<lambda>n v. Inr (tag_enc n WireTypeVarint @ varint_enc (unat v)))"
  "pb_write_bool pb_varint = (\<lambda>n v. Inr (tag_enc n WireTypeVarint @ varint_enc (if v then 1 else 0)))"
  "pb_write_enum pb_varint = (\<lambda>n v. Inr (tag_enc n WireTypeVarint @ varint_enc (nat v)))"
  "pb_write_bytes pb_varint = (\<lambda>n v. Inr (tag_enc n WireTypeLengthDelimited @ blob_enc v))"
  "pb_write_string pb_varint = (\<lambda>n v. Inr (tag_enc n WireTypeLengthDelimited @ blob_enc (string_bytes v)))"
  "pb_write_tag pb_varint = (\<lambda>n t. Inr (tag_enc n t))"
  "pb_write_raw_varint32 pb_varint = (\<lambda>len. Inr (varint_enc (unat len)))"
  "pb_write_unknown_fields pb_varint = (\<lambda>us. Inr (unknown_enc us))"
  by (simp_all add: pb_varint_def)

section \<open>Its laws\<close>

lemma wire_of_code: "wire_of (wire_code t) = Some t" "wire_code t < 8"
  by (cases t; simp add: wire_of_def wire_code_def)+

lemma tag_round_trip [simp]: "tag_dec (tag_enc n t @ rest) = Inr ((n, t), rest)"
  using wire_of_code [of t] by (simp add: tag_dec_def tag_enc_def)

lemma tag_enc_nonempty [simp]: "tag_enc n t \<noteq> []"
  by (simp add: tag_enc_def)

lemma tag_enc_one: "tag_ok n \<Longrightarrow> \<exists>b. tag_enc n t = [b]"
proof -
  assume "tag_ok n"
  then have "unat n < 16" by (simp add: tag_ok_def word_less_nat_alt)
  then have "unat n * 8 + wire_code t < 128" using wire_of_code(2) [of t] by simp
  then show ?thesis unfolding tag_enc_def by (simp add: varint_enc_small)
qed

lemma blob_round_trip [simp]: "blob_dec (blob_enc b @ rest) = Inr (b, rest)"
  by (simp add: blob_dec_def blob_enc_def)

lemma bytes_string_round_trip [simp]: "bytes_string (string_bytes s) = s"
proof -
  have "unat (of_nat (of_char c) :: u8) = of_char c" for c :: char
    by (rule unat_byte) (rule nat_of_char_less_256)
  then show ?thesis by (simp add: bytes_string_def string_bytes_def comp_def)
qed

lemma takes_space_size_of: "takes_space (size_of b) (Inr b)"
  by (auto simp: takes_space_def size_of_def unat_of_nat)

lemma size_of_Nil: "size_of [] = Inr 0"
  by (simp add: size_of_def)

lemma reads_back_field:
  assumes "\<And>rest. rd (p @ rest) = Inr (v, rest)"
  shows "reads_back pb_varint n t (Inr (tag_enc n t @ p)) rd v"
  using assms unfolding reads_back_def by (intro exI [of _ "tag_enc n t @ p"] exI [of _ p]) simp

lemma bool_space: "tag_ok n \<Longrightarrow> takes_space (Inr 2) (Inr (tag_enc n t @ varint_enc (if v then 1 else 0)))"
  using tag_enc_one [of n t] by (auto simp: takes_space_def varint_enc_small)

lemma embedded_tag:
  "tag_ok n \<Longrightarrow> \<exists>b. tag_enc n WireTypeLengthDelimited = [b] \<and> (\<forall>rest. tag_dec (b # rest) = Inr ((n, WireTypeLengthDelimited), rest))"
  using tag_enc_one [of n WireTypeLengthDelimited] tag_round_trip [of n WireTypeLengthDelimited] by fastforce

lemma embedded_region: "length body = unat len \<Longrightarrow> blob_dec (varint_enc (unat len) @ body @ rest) = Inr (body, rest)"
  using blob_round_trip [of body rest] by (simp add: blob_enc_def)

lemma scalar_reads:
  fixes v :: u64
  shows "map_read (\<lambda>k. Inr (of_nat k)) varint_dec (varint_enc (unat v) @ rest) = Inr (v, rest)"
    "map_read (\<lambda>k. Inr (k \<noteq> 0)) varint_dec (varint_enc (if b then 1 else 0) @ rest) = Inr (b, rest)"
  "map_read (\<lambda>k. case MutationType_from_i32 (int k) of None \<Rightarrow> Inl ''bad enum'' | Some t \<Rightarrow> Inr t) varint_dec
     (varint_enc (nat (MutationType_value t)) @ rest) = Inr (t, rest)"
  "map_read (\<lambda>b. Inr (bytes_string b)) blob_dec (blob_enc (string_bytes s) @ rest) = Inr (s, rest)"
  by (simp_all add: map_read_def)
     (cases t; simp add: MutationType_from_i32_def MutationType_value_def)

lemma pb_varint_laws: "pb_laws pb_varint"
  unfolding pb_laws_def pb_varint_simps
proof (intro conjI allI impI)
  fix n assume n: "tag_ok n"
  show "reads_back pb_varint n WireTypeVarint (Inr (tag_enc n WireTypeVarint @ varint_enc (unat v)))
      (map_read (\<lambda>k. Inr (of_nat k)) varint_dec) v" for v :: u64
    by (rule reads_back_field) (rule scalar_reads)
  show "reads_back pb_varint n WireTypeVarint (Inr (tag_enc n WireTypeVarint @ varint_enc (if v then 1 else 0)))
      (map_read (\<lambda>k. Inr (k \<noteq> 0)) varint_dec) v" for v
    by (rule reads_back_field) (rule scalar_reads)
  show "reads_back pb_varint n WireTypeVarint (Inr (tag_enc n WireTypeVarint @ varint_enc (nat (MutationType_value v))))
      (map_read (\<lambda>k. case MutationType_from_i32 (int k) of None \<Rightarrow> Inl ''bad enum'' | Some t \<Rightarrow> Inr t) varint_dec) v" for v
    by (rule reads_back_field) (rule scalar_reads)
  show "reads_back pb_varint n WireTypeLengthDelimited (Inr (tag_enc n WireTypeLengthDelimited @ blob_enc v)) blob_dec v" for v
    by (rule reads_back_field) (rule blob_round_trip)
  show "reads_back pb_varint n WireTypeLengthDelimited (Inr (tag_enc n WireTypeLengthDelimited @ blob_enc (string_bytes v)))
      (map_read (\<lambda>b. Inr (bytes_string b)) blob_dec) v" for v
    by (rule reads_back_field) (rule scalar_reads)
  show "takes_space (Inr 2) (Inr (tag_enc n WireTypeVarint @ varint_enc (if v then 1 else 0)))" for v
    by (rule bool_space [OF n])
  show "\<exists>b. Inr (tag_enc n WireTypeLengthDelimited) = Inr [b] \<and>
      (\<forall>rest. tag_dec (b # rest) = Inr ((n, WireTypeLengthDelimited), rest))"
    using embedded_tag [OF n] by simp
next
  fix len :: u32
  show "\<exists>b. Inr (varint_enc (unat len)) = Inr b \<and> takes_space (size_of (varint_enc (unat len))) (Inr b) \<and>
      (\<forall>body rest. length body = unat len \<longrightarrow> blob_dec (b @ body @ rest) = Inr (body, rest))"
    by (intro exI [of _ "varint_enc (unat len)"]) (simp add: takes_space_size_of embedded_region)
qed (simp_all add: takes_space_size_of unknown_enc_def size_of_Nil)

lemma varint_dec_consumes: "shrinks varint_dec"
  by (auto simp: shrinks_def dest!: varint_dec_shrinks)

lemma blob_dec_consumes: "shrinks blob_dec"
  by (auto simp: shrinks_def blob_dec_def split: if_splits dest!: varint_dec_shrinks)

lemma map_read_consumes: "shrinks rd \<Longrightarrow> shrinks (map_read f rd)"
  by (auto simp: shrinks_def map_read_def)

lemma unknown_dec_consumes: "shrinks (unknown_dec t)"
  by (cases t) (simp_all add: unknown_dec_def map_read_consumes varint_dec_consumes blob_dec_consumes, simp_all add: shrinks_def)

lemma pb_varint_consumes: "pb_consumes pb_varint"
proof -
  have "length r < length bs" if "tag_dec bs = Inr (t, r)" for bs t r
    using that by (auto simp: tag_dec_def split: option.splits dest: varint_dec_shrinks)
  then show ?thesis
    unfolding pb_consumes_def pb_varint_simps
    by (simp add: map_read_consumes varint_dec_consumes blob_dec_consumes unknown_dec_consumes)
qed

end
