(* ===== verification/Wire_Client.thy ===== *)
theory Wire_Client
  imports Wire_Log Msg_Client
begin

text \<open>
  \<^verbatim>\<open>serialization.rs\<close>, the messages of clients on the wire: the arms of the loop of \<^verbatim>\<open>merge_from\<close>, \<^verbatim>\<open>compute_size\<close> with the
  sizes that it stores, and \<^verbatim>\<open>write_to_with_cached_sizes\<close>, field by field. Each message is good on the wire
  (\<open>wire_ok\<close>), and merging any input returns. The round trip is for messages without unknown fields (\<open>_known\<close>)
  and gives back the message with the stored sizes forgotten (\<open>_norm\<close>), which is equal to it.
\<close>

section \<open>Definitions\<close>

subsection \<open>SetReq\<close>

definition SetReq_merge_field :: "Pb \<Rightarrow> u32 \<Rightarrow> WireType \<Rightarrow> SetReq \<Rightarrow> bytes \<Rightarrow> SetReq merged" where
  "SetReq_merge_field rt field_number wire_type m is =
     (if field_number = 1 then
        expect WireTypeLengthDelimited wire_type
          (read_field (pb_read_bytes rt) (\<lambda>v. m\<lparr>SetReq_key := Some v\<rparr>) is)
      else if field_number = 2 then
        expect WireTypeLengthDelimited wire_type
          (read_field (pb_read_bytes rt) (\<lambda>v. m\<lparr>SetReq_value := Some v\<rparr>) is)
      else read_field (pb_read_unknown rt wire_type)
             (\<lambda>v. m\<lparr>SetReq_unknown_fields := pb_add_value rt field_number v (SetReq_unknown_fields m)\<rparr>) is)"

abbreviation SetReq_merge_from :: "Pb \<Rightarrow> SetReq \<Rightarrow> bytes \<Rightarrow> (perr + SetReq) option" where
  "SetReq_merge_from rt \<equiv> merge_loop rt (SetReq_merge_field rt)"

definition SetReq_compute_size :: "Pb \<Rightarrow> SetReq \<Rightarrow> (u32 \<times> SetReq) res" where
  "SetReq_compute_size rt m =
     and_then (size_opt (pb_bytes_size rt 1) 0 (SetReq_key m)) (\<lambda>s1.
     and_then (size_opt (pb_bytes_size rt 2) s1 (SetReq_value m)) (\<lambda>s2.
     and_then (add_size s2 (pb_unknown_fields_size rt (SetReq_unknown_fields m))) (\<lambda>my_size.
       Inr (my_size, m\<lparr>SetReq_cached_size := my_size\<rparr>))))"

definition SetReq_write_to :: "Pb \<Rightarrow> SetReq \<Rightarrow> perr + bytes" where
  "SetReq_write_to rt m =
     write_all
      [write_opt (pb_write_bytes rt 1) (SetReq_key m),
       write_opt (pb_write_bytes rt 2) (SetReq_value m),
       pb_write_unknown_fields rt (SetReq_unknown_fields m)]"

subsection \<open>SetRes\<close>

definition SetRes_merge_field :: "Pb \<Rightarrow> u32 \<Rightarrow> WireType \<Rightarrow> SetRes \<Rightarrow> bytes \<Rightarrow> SetRes merged" where
  "SetRes_merge_field rt field_number wire_type m is =
     (if field_number = 1 then
        expect WireTypeVarint wire_type
          (read_field (pb_read_bool rt) (\<lambda>v. m\<lparr>SetRes_success := Some v\<rparr>) is)
      else if field_number = 2 then
        expect WireTypeVarint wire_type
          (read_field (pb_read_uint64 rt) (\<lambda>v. m\<lparr>SetRes_txid := Some v\<rparr>) is)
      else if field_number = 3 then
        expect WireTypeLengthDelimited wire_type
          (read_field (pb_read_string rt) (\<lambda>v. m\<lparr>SetRes_err := Some v\<rparr>) is)
      else read_field (pb_read_unknown rt wire_type)
             (\<lambda>v. m\<lparr>SetRes_unknown_fields := pb_add_value rt field_number v (SetRes_unknown_fields m)\<rparr>) is)"

abbreviation SetRes_merge_from :: "Pb \<Rightarrow> SetRes \<Rightarrow> bytes \<Rightarrow> (perr + SetRes) option" where
  "SetRes_merge_from rt \<equiv> merge_loop rt (SetRes_merge_field rt)"

definition SetRes_compute_size :: "Pb \<Rightarrow> SetRes \<Rightarrow> (u32 \<times> SetRes) res" where
  "SetRes_compute_size rt m =
     and_then (size_opt (\<lambda>_. Inr 2) 0 (SetRes_success m)) (\<lambda>s1.
     and_then (size_opt (\<lambda>v. pb_value_size rt 2 v WireTypeVarint) s1 (SetRes_txid m)) (\<lambda>s2.
     and_then (size_opt (pb_string_size rt 3) s2 (SetRes_err m)) (\<lambda>s3.
     and_then (add_size s3 (pb_unknown_fields_size rt (SetRes_unknown_fields m))) (\<lambda>my_size.
       Inr (my_size, m\<lparr>SetRes_cached_size := my_size\<rparr>)))))"

definition SetRes_write_to :: "Pb \<Rightarrow> SetRes \<Rightarrow> perr + bytes" where
  "SetRes_write_to rt m =
     write_all
      [write_opt (pb_write_bool rt 1) (SetRes_success m),
       write_opt (pb_write_uint64 rt 2) (SetRes_txid m),
       write_opt (pb_write_string rt 3) (SetRes_err m),
       pb_write_unknown_fields rt (SetRes_unknown_fields m)]"

subsection \<open>GetReq\<close>

definition GetReq_merge_field :: "Pb \<Rightarrow> u32 \<Rightarrow> WireType \<Rightarrow> GetReq \<Rightarrow> bytes \<Rightarrow> GetReq merged" where
  "GetReq_merge_field rt field_number wire_type m is =
     (if field_number = 1 then
        expect WireTypeLengthDelimited wire_type
          (read_field (pb_read_bytes rt) (\<lambda>v. m\<lparr>GetReq_key := Some v\<rparr>) is)
      else read_field (pb_read_unknown rt wire_type)
             (\<lambda>v. m\<lparr>GetReq_unknown_fields := pb_add_value rt field_number v (GetReq_unknown_fields m)\<rparr>) is)"

abbreviation GetReq_merge_from :: "Pb \<Rightarrow> GetReq \<Rightarrow> bytes \<Rightarrow> (perr + GetReq) option" where
  "GetReq_merge_from rt \<equiv> merge_loop rt (GetReq_merge_field rt)"

definition GetReq_compute_size :: "Pb \<Rightarrow> GetReq \<Rightarrow> (u32 \<times> GetReq) res" where
  "GetReq_compute_size rt m =
     and_then (size_opt (pb_bytes_size rt 1) 0 (GetReq_key m)) (\<lambda>s1.
     and_then (add_size s1 (pb_unknown_fields_size rt (GetReq_unknown_fields m))) (\<lambda>my_size.
       Inr (my_size, m\<lparr>GetReq_cached_size := my_size\<rparr>)))"

definition GetReq_write_to :: "Pb \<Rightarrow> GetReq \<Rightarrow> perr + bytes" where
  "GetReq_write_to rt m =
     write_all
      [write_opt (pb_write_bytes rt 1) (GetReq_key m),
       pb_write_unknown_fields rt (GetReq_unknown_fields m)]"

subsection \<open>GetRes\<close>

definition GetRes_merge_field :: "Pb \<Rightarrow> u32 \<Rightarrow> WireType \<Rightarrow> GetRes \<Rightarrow> bytes \<Rightarrow> GetRes merged" where
  "GetRes_merge_field rt field_number wire_type m is =
     (if field_number = 1 then
        expect WireTypeVarint wire_type
          (read_field (pb_read_bool rt) (\<lambda>v. m\<lparr>GetRes_success := Some v\<rparr>) is)
      else if field_number = 2 then
        expect WireTypeVarint wire_type
          (read_field (pb_read_uint64 rt) (\<lambda>v. m\<lparr>GetRes_txid := Some v\<rparr>) is)
      else if field_number = 3 then
        expect WireTypeLengthDelimited wire_type
          (read_field (pb_read_bytes rt) (\<lambda>v. m\<lparr>GetRes_value := Some v\<rparr>) is)
      else if field_number = 4 then
        expect WireTypeLengthDelimited wire_type
          (read_field (pb_read_string rt) (\<lambda>v. m\<lparr>GetRes_err := Some v\<rparr>) is)
      else read_field (pb_read_unknown rt wire_type)
             (\<lambda>v. m\<lparr>GetRes_unknown_fields := pb_add_value rt field_number v (GetRes_unknown_fields m)\<rparr>) is)"

abbreviation GetRes_merge_from :: "Pb \<Rightarrow> GetRes \<Rightarrow> bytes \<Rightarrow> (perr + GetRes) option" where
  "GetRes_merge_from rt \<equiv> merge_loop rt (GetRes_merge_field rt)"

definition GetRes_compute_size :: "Pb \<Rightarrow> GetRes \<Rightarrow> (u32 \<times> GetRes) res" where
  "GetRes_compute_size rt m =
     and_then (size_opt (\<lambda>_. Inr 2) 0 (GetRes_success m)) (\<lambda>s1.
     and_then (size_opt (\<lambda>v. pb_value_size rt 2 v WireTypeVarint) s1 (GetRes_txid m)) (\<lambda>s2.
     and_then (size_opt (pb_bytes_size rt 3) s2 (GetRes_value m)) (\<lambda>s3.
     and_then (size_opt (pb_string_size rt 4) s3 (GetRes_err m)) (\<lambda>s4.
     and_then (add_size s4 (pb_unknown_fields_size rt (GetRes_unknown_fields m))) (\<lambda>my_size.
       Inr (my_size, m\<lparr>GetRes_cached_size := my_size\<rparr>))))))"

definition GetRes_write_to :: "Pb \<Rightarrow> GetRes \<Rightarrow> perr + bytes" where
  "GetRes_write_to rt m =
     write_all
      [write_opt (pb_write_bool rt 1) (GetRes_success m),
       write_opt (pb_write_uint64 rt 2) (GetRes_txid m),
       write_opt (pb_write_bytes rt 3) (GetRes_value m),
       write_opt (pb_write_string rt 4) (GetRes_err m),
       pb_write_unknown_fields rt (GetRes_unknown_fields m)]"

subsection \<open>CASReq\<close>

definition CASReq_merge_field :: "Pb \<Rightarrow> u32 \<Rightarrow> WireType \<Rightarrow> CASReq \<Rightarrow> bytes \<Rightarrow> CASReq merged" where
  "CASReq_merge_field rt field_number wire_type m is =
     (if field_number = 1 then
        expect WireTypeLengthDelimited wire_type
          (read_field (pb_read_bytes rt) (\<lambda>v. m\<lparr>CASReq_key := Some v\<rparr>) is)
      else if field_number = 2 then
        expect WireTypeLengthDelimited wire_type
          (read_field (pb_read_bytes rt) (\<lambda>v. m\<lparr>CASReq_new_value := Some v\<rparr>) is)
      else if field_number = 3 then
        expect WireTypeLengthDelimited wire_type
          (read_field (pb_read_bytes rt) (\<lambda>v. m\<lparr>CASReq_old_value := Some v\<rparr>) is)
      else read_field (pb_read_unknown rt wire_type)
             (\<lambda>v. m\<lparr>CASReq_unknown_fields := pb_add_value rt field_number v (CASReq_unknown_fields m)\<rparr>) is)"

abbreviation CASReq_merge_from :: "Pb \<Rightarrow> CASReq \<Rightarrow> bytes \<Rightarrow> (perr + CASReq) option" where
  "CASReq_merge_from rt \<equiv> merge_loop rt (CASReq_merge_field rt)"

definition CASReq_compute_size :: "Pb \<Rightarrow> CASReq \<Rightarrow> (u32 \<times> CASReq) res" where
  "CASReq_compute_size rt m =
     and_then (size_opt (pb_bytes_size rt 1) 0 (CASReq_key m)) (\<lambda>s1.
     and_then (size_opt (pb_bytes_size rt 2) s1 (CASReq_new_value m)) (\<lambda>s2.
     and_then (size_opt (pb_bytes_size rt 3) s2 (CASReq_old_value m)) (\<lambda>s3.
     and_then (add_size s3 (pb_unknown_fields_size rt (CASReq_unknown_fields m))) (\<lambda>my_size.
       Inr (my_size, m\<lparr>CASReq_cached_size := my_size\<rparr>)))))"

definition CASReq_write_to :: "Pb \<Rightarrow> CASReq \<Rightarrow> perr + bytes" where
  "CASReq_write_to rt m =
     write_all
      [write_opt (pb_write_bytes rt 1) (CASReq_key m),
       write_opt (pb_write_bytes rt 2) (CASReq_new_value m),
       write_opt (pb_write_bytes rt 3) (CASReq_old_value m),
       pb_write_unknown_fields rt (CASReq_unknown_fields m)]"

subsection \<open>CASRes\<close>

definition CASRes_merge_field :: "Pb \<Rightarrow> u32 \<Rightarrow> WireType \<Rightarrow> CASRes \<Rightarrow> bytes \<Rightarrow> CASRes merged" where
  "CASRes_merge_field rt field_number wire_type m is =
     (if field_number = 1 then
        expect WireTypeVarint wire_type
          (read_field (pb_read_bool rt) (\<lambda>v. m\<lparr>CASRes_success := Some v\<rparr>) is)
      else if field_number = 2 then
        expect WireTypeVarint wire_type
          (read_field (pb_read_uint64 rt) (\<lambda>v. m\<lparr>CASRes_txid := Some v\<rparr>) is)
      else if field_number = 3 then
        expect WireTypeLengthDelimited wire_type
          (read_field (pb_read_bytes rt) (\<lambda>v. m\<lparr>CASRes_value := Some v\<rparr>) is)
      else if field_number = 4 then
        expect WireTypeLengthDelimited wire_type
          (read_field (pb_read_string rt) (\<lambda>v. m\<lparr>CASRes_err := Some v\<rparr>) is)
      else read_field (pb_read_unknown rt wire_type)
             (\<lambda>v. m\<lparr>CASRes_unknown_fields := pb_add_value rt field_number v (CASRes_unknown_fields m)\<rparr>) is)"

abbreviation CASRes_merge_from :: "Pb \<Rightarrow> CASRes \<Rightarrow> bytes \<Rightarrow> (perr + CASRes) option" where
  "CASRes_merge_from rt \<equiv> merge_loop rt (CASRes_merge_field rt)"

definition CASRes_compute_size :: "Pb \<Rightarrow> CASRes \<Rightarrow> (u32 \<times> CASRes) res" where
  "CASRes_compute_size rt m =
     and_then (size_opt (\<lambda>_. Inr 2) 0 (CASRes_success m)) (\<lambda>s1.
     and_then (size_opt (\<lambda>v. pb_value_size rt 2 v WireTypeVarint) s1 (CASRes_txid m)) (\<lambda>s2.
     and_then (size_opt (pb_bytes_size rt 3) s2 (CASRes_value m)) (\<lambda>s3.
     and_then (size_opt (pb_string_size rt 4) s3 (CASRes_err m)) (\<lambda>s4.
     and_then (add_size s4 (pb_unknown_fields_size rt (CASRes_unknown_fields m))) (\<lambda>my_size.
       Inr (my_size, m\<lparr>CASRes_cached_size := my_size\<rparr>))))))"

definition CASRes_write_to :: "Pb \<Rightarrow> CASRes \<Rightarrow> perr + bytes" where
  "CASRes_write_to rt m =
     write_all
      [write_opt (pb_write_bool rt 1) (CASRes_success m),
       write_opt (pb_write_uint64 rt 2) (CASRes_txid m),
       write_opt (pb_write_bytes rt 3) (CASRes_value m),
       write_opt (pb_write_string rt 4) (CASRes_err m),
       pb_write_unknown_fields rt (CASRes_unknown_fields m)]"

subsection \<open>DelReq\<close>

definition DelReq_merge_field :: "Pb \<Rightarrow> u32 \<Rightarrow> WireType \<Rightarrow> DelReq \<Rightarrow> bytes \<Rightarrow> DelReq merged" where
  "DelReq_merge_field rt field_number wire_type m is =
     (if field_number = 1 then
        expect WireTypeLengthDelimited wire_type
          (read_field (pb_read_bytes rt) (\<lambda>v. m\<lparr>DelReq_key := Some v\<rparr>) is)
      else read_field (pb_read_unknown rt wire_type)
             (\<lambda>v. m\<lparr>DelReq_unknown_fields := pb_add_value rt field_number v (DelReq_unknown_fields m)\<rparr>) is)"

abbreviation DelReq_merge_from :: "Pb \<Rightarrow> DelReq \<Rightarrow> bytes \<Rightarrow> (perr + DelReq) option" where
  "DelReq_merge_from rt \<equiv> merge_loop rt (DelReq_merge_field rt)"

definition DelReq_compute_size :: "Pb \<Rightarrow> DelReq \<Rightarrow> (u32 \<times> DelReq) res" where
  "DelReq_compute_size rt m =
     and_then (size_opt (pb_bytes_size rt 1) 0 (DelReq_key m)) (\<lambda>s1.
     and_then (add_size s1 (pb_unknown_fields_size rt (DelReq_unknown_fields m))) (\<lambda>my_size.
       Inr (my_size, m\<lparr>DelReq_cached_size := my_size\<rparr>)))"

definition DelReq_write_to :: "Pb \<Rightarrow> DelReq \<Rightarrow> perr + bytes" where
  "DelReq_write_to rt m =
     write_all
      [write_opt (pb_write_bytes rt 1) (DelReq_key m),
       pb_write_unknown_fields rt (DelReq_unknown_fields m)]"

subsection \<open>DelRes\<close>

definition DelRes_merge_field :: "Pb \<Rightarrow> u32 \<Rightarrow> WireType \<Rightarrow> DelRes \<Rightarrow> bytes \<Rightarrow> DelRes merged" where
  "DelRes_merge_field rt field_number wire_type m is =
     (if field_number = 1 then
        expect WireTypeVarint wire_type
          (read_field (pb_read_bool rt) (\<lambda>v. m\<lparr>DelRes_success := Some v\<rparr>) is)
      else if field_number = 2 then
        expect WireTypeVarint wire_type
          (read_field (pb_read_uint64 rt) (\<lambda>v. m\<lparr>DelRes_txid := Some v\<rparr>) is)
      else if field_number = 3 then
        expect WireTypeLengthDelimited wire_type
          (read_field (pb_read_bytes rt) (\<lambda>v. m\<lparr>DelRes_value := Some v\<rparr>) is)
      else if field_number = 4 then
        expect WireTypeLengthDelimited wire_type
          (read_field (pb_read_string rt) (\<lambda>v. m\<lparr>DelRes_err := Some v\<rparr>) is)
      else read_field (pb_read_unknown rt wire_type)
             (\<lambda>v. m\<lparr>DelRes_unknown_fields := pb_add_value rt field_number v (DelRes_unknown_fields m)\<rparr>) is)"

abbreviation DelRes_merge_from :: "Pb \<Rightarrow> DelRes \<Rightarrow> bytes \<Rightarrow> (perr + DelRes) option" where
  "DelRes_merge_from rt \<equiv> merge_loop rt (DelRes_merge_field rt)"

definition DelRes_compute_size :: "Pb \<Rightarrow> DelRes \<Rightarrow> (u32 \<times> DelRes) res" where
  "DelRes_compute_size rt m =
     and_then (size_opt (\<lambda>_. Inr 2) 0 (DelRes_success m)) (\<lambda>s1.
     and_then (size_opt (\<lambda>v. pb_value_size rt 2 v WireTypeVarint) s1 (DelRes_txid m)) (\<lambda>s2.
     and_then (size_opt (pb_bytes_size rt 3) s2 (DelRes_value m)) (\<lambda>s3.
     and_then (size_opt (pb_string_size rt 4) s3 (DelRes_err m)) (\<lambda>s4.
     and_then (add_size s4 (pb_unknown_fields_size rt (DelRes_unknown_fields m))) (\<lambda>my_size.
       Inr (my_size, m\<lparr>DelRes_cached_size := my_size\<rparr>))))))"

definition DelRes_write_to :: "Pb \<Rightarrow> DelRes \<Rightarrow> perr + bytes" where
  "DelRes_write_to rt m =
     write_all
      [write_opt (pb_write_bool rt 1) (DelRes_success m),
       write_opt (pb_write_uint64 rt 2) (DelRes_txid m),
       write_opt (pb_write_bytes rt 3) (DelRes_value m),
       write_opt (pb_write_string rt 4) (DelRes_err m),
       pb_write_unknown_fields rt (DelRes_unknown_fields m)]"

subsection \<open>WatchReq\<close>

definition WatchReq_merge_field :: "Pb \<Rightarrow> u32 \<Rightarrow> WireType \<Rightarrow> WatchReq \<Rightarrow> bytes \<Rightarrow> WatchReq merged" where
  "WatchReq_merge_field rt field_number wire_type m is =
     (if field_number = 1 then
        expect WireTypeLengthDelimited wire_type
          (read_field (pb_read_bytes rt) (\<lambda>v. m\<lparr>WatchReq_key := Some v\<rparr>) is)
      else if field_number = 2 then
        expect WireTypeVarint wire_type
          (read_field (pb_read_uint64 rt) (\<lambda>v. m\<lparr>WatchReq_last_txid := Some v\<rparr>) is)
      else if field_number = 3 then
        expect WireTypeVarint wire_type
          (read_field (pb_read_bool rt) (\<lambda>v. m\<lparr>WatchReq_recursive := Some v\<rparr>) is)
      else if field_number = 4 then
        expect WireTypeVarint wire_type
          (read_field (pb_read_bool rt) (\<lambda>v. m\<lparr>WatchReq_historical := Some v\<rparr>) is)
      else read_field (pb_read_unknown rt wire_type)
             (\<lambda>v. m\<lparr>WatchReq_unknown_fields := pb_add_value rt field_number v (WatchReq_unknown_fields m)\<rparr>) is)"

abbreviation WatchReq_merge_from :: "Pb \<Rightarrow> WatchReq \<Rightarrow> bytes \<Rightarrow> (perr + WatchReq) option" where
  "WatchReq_merge_from rt \<equiv> merge_loop rt (WatchReq_merge_field rt)"

definition WatchReq_compute_size :: "Pb \<Rightarrow> WatchReq \<Rightarrow> (u32 \<times> WatchReq) res" where
  "WatchReq_compute_size rt m =
     and_then (size_opt (pb_bytes_size rt 1) 0 (WatchReq_key m)) (\<lambda>s1.
     and_then (size_opt (\<lambda>v. pb_value_size rt 2 v WireTypeVarint) s1 (WatchReq_last_txid m)) (\<lambda>s2.
     and_then (size_opt (\<lambda>_. Inr 2) s2 (WatchReq_recursive m)) (\<lambda>s3.
     and_then (size_opt (\<lambda>_. Inr 2) s3 (WatchReq_historical m)) (\<lambda>s4.
     and_then (add_size s4 (pb_unknown_fields_size rt (WatchReq_unknown_fields m))) (\<lambda>my_size.
       Inr (my_size, m\<lparr>WatchReq_cached_size := my_size\<rparr>))))))"

definition WatchReq_write_to :: "Pb \<Rightarrow> WatchReq \<Rightarrow> perr + bytes" where
  "WatchReq_write_to rt m =
     write_all
      [write_opt (pb_write_bytes rt 1) (WatchReq_key m),
       write_opt (pb_write_uint64 rt 2) (WatchReq_last_txid m),
       write_opt (pb_write_bool rt 3) (WatchReq_recursive m),
       write_opt (pb_write_bool rt 4) (WatchReq_historical m),
       pb_write_unknown_fields rt (WatchReq_unknown_fields m)]"

subsection \<open>WatchRes\<close>

definition WatchRes_merge_field :: "Pb \<Rightarrow> u32 \<Rightarrow> WireType \<Rightarrow> WatchRes \<Rightarrow> bytes \<Rightarrow> WatchRes merged" where
  "WatchRes_merge_field rt field_number wire_type m is =
     (if field_number = 1 then
        expect WireTypeVarint wire_type
          (read_field (pb_read_bool rt) (\<lambda>v. m\<lparr>WatchRes_success := Some v\<rparr>) is)
      else if field_number = 2 then
        expect WireTypeLengthDelimited wire_type
          (merge_message rt (merge_loop rt (Mutation_merge_field rt)) Mutation_new (\<lambda>v. m\<lparr>WatchRes_history := WatchRes_history m @ [v]\<rparr>) is)
      else if field_number = 3 then
        expect WireTypeLengthDelimited wire_type
          (read_field (pb_read_string rt) (\<lambda>v. m\<lparr>WatchRes_err := Some v\<rparr>) is)
      else read_field (pb_read_unknown rt wire_type)
             (\<lambda>v. m\<lparr>WatchRes_unknown_fields := pb_add_value rt field_number v (WatchRes_unknown_fields m)\<rparr>) is)"

abbreviation WatchRes_merge_from :: "Pb \<Rightarrow> WatchRes \<Rightarrow> bytes \<Rightarrow> (perr + WatchRes) option" where
  "WatchRes_merge_from rt \<equiv> merge_loop rt (WatchRes_merge_field rt)"

definition WatchRes_compute_size :: "Pb \<Rightarrow> WatchRes \<Rightarrow> (u32 \<times> WatchRes) res" where
  "WatchRes_compute_size rt m =
     and_then (size_opt (\<lambda>_. Inr 2) 0 (WatchRes_success m)) (\<lambda>s1.
     and_then (size_rep rt (Mutation_compute_size rt) s1 (WatchRes_history m)) (\<lambda>(s2, history').
     and_then (size_opt (pb_string_size rt 3) s2 (WatchRes_err m)) (\<lambda>s3.
     and_then (add_size s3 (pb_unknown_fields_size rt (WatchRes_unknown_fields m))) (\<lambda>my_size.
       Inr (my_size, m\<lparr>WatchRes_history := history', WatchRes_cached_size := my_size\<rparr>)))))"

definition WatchRes_write_to :: "Pb \<Rightarrow> WatchRes \<Rightarrow> perr + bytes" where
  "WatchRes_write_to rt m =
     write_all
      [write_opt (pb_write_bool rt 1) (WatchRes_success m),
       write_all (map (write_msg rt 2 Mutation_cached_size (Mutation_write_to rt)) (WatchRes_history m)),
       write_opt (pb_write_string rt 3) (WatchRes_err m),
       pb_write_unknown_fields rt (WatchRes_unknown_fields m)]"

subsection \<open>RedirectRes\<close>

definition RedirectRes_merge_field :: "Pb \<Rightarrow> u32 \<Rightarrow> WireType \<Rightarrow> RedirectRes \<Rightarrow> bytes \<Rightarrow> RedirectRes merged" where
  "RedirectRes_merge_field rt field_number wire_type m is =
     (if field_number = 1 then
        expect WireTypeVarint wire_type
          (read_field (pb_read_bool rt) (\<lambda>v. m\<lparr>RedirectRes_success := Some v\<rparr>) is)
      else if field_number = 2 then
        expect WireTypeLengthDelimited wire_type
          (read_field (pb_read_string rt) (\<lambda>v. m\<lparr>RedirectRes_address := Some v\<rparr>) is)
      else if field_number = 3 then
        expect WireTypeLengthDelimited wire_type
          (read_field (pb_read_string rt) (\<lambda>v. m\<lparr>RedirectRes_err := Some v\<rparr>) is)
      else read_field (pb_read_unknown rt wire_type)
             (\<lambda>v. m\<lparr>RedirectRes_unknown_fields := pb_add_value rt field_number v (RedirectRes_unknown_fields m)\<rparr>) is)"

abbreviation RedirectRes_merge_from :: "Pb \<Rightarrow> RedirectRes \<Rightarrow> bytes \<Rightarrow> (perr + RedirectRes) option" where
  "RedirectRes_merge_from rt \<equiv> merge_loop rt (RedirectRes_merge_field rt)"

definition RedirectRes_compute_size :: "Pb \<Rightarrow> RedirectRes \<Rightarrow> (u32 \<times> RedirectRes) res" where
  "RedirectRes_compute_size rt m =
     and_then (size_opt (\<lambda>_. Inr 2) 0 (RedirectRes_success m)) (\<lambda>s1.
     and_then (size_opt (pb_string_size rt 2) s1 (RedirectRes_address m)) (\<lambda>s2.
     and_then (size_opt (pb_string_size rt 3) s2 (RedirectRes_err m)) (\<lambda>s3.
     and_then (add_size s3 (pb_unknown_fields_size rt (RedirectRes_unknown_fields m))) (\<lambda>my_size.
       Inr (my_size, m\<lparr>RedirectRes_cached_size := my_size\<rparr>)))))"

definition RedirectRes_write_to :: "Pb \<Rightarrow> RedirectRes \<Rightarrow> perr + bytes" where
  "RedirectRes_write_to rt m =
     write_all
      [write_opt (pb_write_bool rt 1) (RedirectRes_success m),
       write_opt (pb_write_string rt 2) (RedirectRes_address m),
       write_opt (pb_write_string rt 3) (RedirectRes_err m),
       pb_write_unknown_fields rt (RedirectRes_unknown_fields m)]"

subsection \<open>CliReq\<close>

definition CliReq_merge_field :: "Pb \<Rightarrow> u32 \<Rightarrow> WireType \<Rightarrow> CliReq \<Rightarrow> bytes \<Rightarrow> CliReq merged" where
  "CliReq_merge_field rt field_number wire_type m is =
     (if field_number = 1 then
        expect WireTypeVarint wire_type
          (read_field (pb_read_uint64 rt) (\<lambda>v. m\<lparr>CliReq_req_id := Some v\<rparr>) is)
      else if field_number = 2 then
        expect WireTypeLengthDelimited wire_type
          (merge_message rt (merge_loop rt (GetReq_merge_field rt)) GetReq_new (\<lambda>v. m\<lparr>CliReq_get := Some v\<rparr>) is)
      else if field_number = 3 then
        expect WireTypeLengthDelimited wire_type
          (merge_message rt (merge_loop rt (SetReq_merge_field rt)) SetReq_new (\<lambda>v. m\<lparr>CliReq_set := Some v\<rparr>) is)
      else if field_number = 4 then
        expect WireTypeLengthDelimited wire_type
          (merge_message rt (merge_loop rt (CASReq_merge_field rt)) CASReq_new (\<lambda>v. m\<lparr>CliReq_cas := Some v\<rparr>) is)
      else if field_number = 5 then
        expect WireTypeLengthDelimited wire_type
          (merge_message rt (merge_loop rt (DelReq_merge_field rt)) DelReq_new (\<lambda>v. m\<lparr>CliReq_del := Some v\<rparr>) is)
      else if field_number = 6 then
        expect WireTypeLengthDelimited wire_type
          (merge_message rt (merge_loop rt (WatchReq_merge_field rt)) WatchReq_new (\<lambda>v. m\<lparr>CliReq_watch := Some v\<rparr>) is)
      else read_field (pb_read_unknown rt wire_type)
             (\<lambda>v. m\<lparr>CliReq_unknown_fields := pb_add_value rt field_number v (CliReq_unknown_fields m)\<rparr>) is)"

abbreviation CliReq_merge_from :: "Pb \<Rightarrow> CliReq \<Rightarrow> bytes \<Rightarrow> (perr + CliReq) option" where
  "CliReq_merge_from rt \<equiv> merge_loop rt (CliReq_merge_field rt)"

definition CliReq_compute_size :: "Pb \<Rightarrow> CliReq \<Rightarrow> (u32 \<times> CliReq) res" where
  "CliReq_compute_size rt m =
     and_then (size_opt (\<lambda>v. pb_value_size rt 1 v WireTypeVarint) 0 (CliReq_req_id m)) (\<lambda>s1.
     and_then (size_msg rt (GetReq_compute_size rt) s1 (CliReq_get m)) (\<lambda>(s2, get').
     and_then (size_msg rt (SetReq_compute_size rt) s2 (CliReq_set m)) (\<lambda>(s3, set').
     and_then (size_msg rt (CASReq_compute_size rt) s3 (CliReq_cas m)) (\<lambda>(s4, cas').
     and_then (size_msg rt (DelReq_compute_size rt) s4 (CliReq_del m)) (\<lambda>(s5, del').
     and_then (size_msg rt (WatchReq_compute_size rt) s5 (CliReq_watch m)) (\<lambda>(s6, watch').
     and_then (add_size s6 (pb_unknown_fields_size rt (CliReq_unknown_fields m))) (\<lambda>my_size.
       Inr (my_size, m\<lparr>CliReq_get := get', CliReq_set := set', CliReq_cas := cas', CliReq_del := del', CliReq_watch := watch', CliReq_cached_size := my_size\<rparr>))))))))"

definition CliReq_write_to :: "Pb \<Rightarrow> CliReq \<Rightarrow> perr + bytes" where
  "CliReq_write_to rt m =
     write_all
      [write_opt (pb_write_uint64 rt 1) (CliReq_req_id m),
       write_opt (write_msg rt 2 GetReq_cached_size (GetReq_write_to rt)) (CliReq_get m),
       write_opt (write_msg rt 3 SetReq_cached_size (SetReq_write_to rt)) (CliReq_set m),
       write_opt (write_msg rt 4 CASReq_cached_size (CASReq_write_to rt)) (CliReq_cas m),
       write_opt (write_msg rt 5 DelReq_cached_size (DelReq_write_to rt)) (CliReq_del m),
       write_opt (write_msg rt 6 WatchReq_cached_size (WatchReq_write_to rt)) (CliReq_watch m),
       pb_write_unknown_fields rt (CliReq_unknown_fields m)]"

subsection \<open>CliRes\<close>

definition CliRes_merge_field :: "Pb \<Rightarrow> u32 \<Rightarrow> WireType \<Rightarrow> CliRes \<Rightarrow> bytes \<Rightarrow> CliRes merged" where
  "CliRes_merge_field rt field_number wire_type m is =
     (if field_number = 1 then
        expect WireTypeVarint wire_type
          (read_field (pb_read_uint64 rt) (\<lambda>v. m\<lparr>CliRes_req_id := Some v\<rparr>) is)
      else if field_number = 2 then
        expect WireTypeLengthDelimited wire_type
          (merge_message rt (merge_loop rt (GetRes_merge_field rt)) GetRes_new (\<lambda>v. m\<lparr>CliRes_get := Some v\<rparr>) is)
      else if field_number = 3 then
        expect WireTypeLengthDelimited wire_type
          (merge_message rt (merge_loop rt (SetRes_merge_field rt)) SetRes_new (\<lambda>v. m\<lparr>CliRes_set := Some v\<rparr>) is)
      else if field_number = 4 then
        expect WireTypeLengthDelimited wire_type
          (merge_message rt (merge_loop rt (CASRes_merge_field rt)) CASRes_new (\<lambda>v. m\<lparr>CliRes_cas := Some v\<rparr>) is)
      else if field_number = 5 then
        expect WireTypeLengthDelimited wire_type
          (merge_message rt (merge_loop rt (DelRes_merge_field rt)) DelRes_new (\<lambda>v. m\<lparr>CliRes_del := Some v\<rparr>) is)
      else if field_number = 6 then
        expect WireTypeLengthDelimited wire_type
          (merge_message rt (merge_loop rt (WatchRes_merge_field rt)) WatchRes_new (\<lambda>v. m\<lparr>CliRes_watch := Some v\<rparr>) is)
      else if field_number = 7 then
        expect WireTypeLengthDelimited wire_type
          (merge_message rt (merge_loop rt (RedirectRes_merge_field rt)) RedirectRes_new (\<lambda>v. m\<lparr>CliRes_redirect := Some v\<rparr>) is)
      else read_field (pb_read_unknown rt wire_type)
             (\<lambda>v. m\<lparr>CliRes_unknown_fields := pb_add_value rt field_number v (CliRes_unknown_fields m)\<rparr>) is)"

abbreviation CliRes_merge_from :: "Pb \<Rightarrow> CliRes \<Rightarrow> bytes \<Rightarrow> (perr + CliRes) option" where
  "CliRes_merge_from rt \<equiv> merge_loop rt (CliRes_merge_field rt)"

definition CliRes_compute_size :: "Pb \<Rightarrow> CliRes \<Rightarrow> (u32 \<times> CliRes) res" where
  "CliRes_compute_size rt m =
     and_then (size_opt (\<lambda>v. pb_value_size rt 1 v WireTypeVarint) 0 (CliRes_req_id m)) (\<lambda>s1.
     and_then (size_msg rt (GetRes_compute_size rt) s1 (CliRes_get m)) (\<lambda>(s2, get').
     and_then (size_msg rt (SetRes_compute_size rt) s2 (CliRes_set m)) (\<lambda>(s3, set').
     and_then (size_msg rt (CASRes_compute_size rt) s3 (CliRes_cas m)) (\<lambda>(s4, cas').
     and_then (size_msg rt (DelRes_compute_size rt) s4 (CliRes_del m)) (\<lambda>(s5, del').
     and_then (size_msg rt (WatchRes_compute_size rt) s5 (CliRes_watch m)) (\<lambda>(s6, watch').
     and_then (size_msg rt (RedirectRes_compute_size rt) s6 (CliRes_redirect m)) (\<lambda>(s7, redirect').
     and_then (add_size s7 (pb_unknown_fields_size rt (CliRes_unknown_fields m))) (\<lambda>my_size.
       Inr (my_size, m\<lparr>CliRes_get := get', CliRes_set := set', CliRes_cas := cas', CliRes_del := del', CliRes_watch := watch', CliRes_redirect := redirect', CliRes_cached_size := my_size\<rparr>)))))))))"

definition CliRes_write_to :: "Pb \<Rightarrow> CliRes \<Rightarrow> perr + bytes" where
  "CliRes_write_to rt m =
     write_all
      [write_opt (pb_write_uint64 rt 1) (CliRes_req_id m),
       write_opt (write_msg rt 2 GetRes_cached_size (GetRes_write_to rt)) (CliRes_get m),
       write_opt (write_msg rt 3 SetRes_cached_size (SetRes_write_to rt)) (CliRes_set m),
       write_opt (write_msg rt 4 CASRes_cached_size (CASRes_write_to rt)) (CliRes_cas m),
       write_opt (write_msg rt 5 DelRes_cached_size (DelRes_write_to rt)) (CliRes_del m),
       write_opt (write_msg rt 6 WatchRes_cached_size (WatchRes_write_to rt)) (CliRes_watch m),
       write_opt (write_msg rt 7 RedirectRes_cached_size (RedirectRes_write_to rt)) (CliRes_redirect m),
       pb_write_unknown_fields rt (CliRes_unknown_fields m)]"

section \<open>On the wire\<close>

subsection \<open>SetReq\<close>

definition SetReq_norm :: "SetReq \<Rightarrow> SetReq" where
  "SetReq_norm m = m\<lparr>SetReq_cached_size := 0\<rparr>"

definition SetReq_known :: "SetReq \<Rightarrow> bool" where
  "SetReq_known m \<longleftrightarrow> SetReq_unknown_fields m = []"

lemma SetReq_eq_norm: "SetReq_eq (SetReq_norm m) m"
  by (simp add: SetReq_eq_def SetReq_norm_def)

lemma SetReq_arms:
  "SetReq_merge_field rt 1 WireTypeLengthDelimited m is = read_field (pb_read_bytes rt) (\<lambda>v. m\<lparr>SetReq_key := Some v\<rparr>) is"
  "SetReq_merge_field rt 2 WireTypeLengthDelimited m is = read_field (pb_read_bytes rt) (\<lambda>v. m\<lparr>SetReq_value := Some v\<rparr>) is"
  by (simp_all add: SetReq_merge_field_def expect_def)

lemma SetReq_wire:
  assumes "pb_laws rt"
  shows "wire_ok (SetReq_compute_size rt) (SetReq_write_to rt) (SetReq_merge_from rt) SetReq_new SetReq_norm SetReq_known SetReq_cached_size"
  unfolding wire_ok_def
proof (intro allI impI)
  fix m n m' assume km: "SetReq_known m" and size: "SetReq_compute_size rt m = Inr (n, m')"
  have known: "SetReq_unknown_fields m = []" using km by (simp_all add: SetReq_known_def)
  obtain s1 s2 where s: "size_opt (pb_bytes_size rt 1) 0 (SetReq_key m) = Inr s1" "size_opt (pb_bytes_size rt 2) s1 (SetReq_value m) = Inr s2" "add_size s2 (pb_unknown_fields_size rt []) = Inr n"
    and m': "m' = m\<lparr>SetReq_cached_size := n\<rparr>"
    using size known(1) by (auto simp: SetReq_compute_size_def)
  note e1 = emits_bytes [where field = "SetReq_merge_field rt" and put = "\<lambda>v m. m\<lparr>SetReq_key := Some v\<rparr>", OF assms tags(1) s(1) SetReq_arms(1)]
    and e2 = emits_bytes [where field = "SetReq_merge_field rt" and put = "\<lambda>v m. m\<lparr>SetReq_value := Some v\<rparr>", OF assms tags(2) s(2) SetReq_arms(2)]
    and e3 = emits_unknown [where field = "SetReq_merge_field rt", OF assms s(3)]
  note chain = emits_Cons [OF e1 emits_Cons [OF e2 emits_Cons [OF e3 emits_Nil]]]
  show "SetReq_cached_size m' = n \<and> (\<exists>b. SetReq_write_to rt m' = Inr b \<and> length b = unat n \<and>
      SetReq_merge_from rt SetReq_new b = Some (Inr (SetReq_norm m)))"
    using emits_merge [OF assms chain, of SetReq_new] known(1)
    by (cases m) (simp add: m' SetReq_write_to_def SetReq_norm_def SetReq_new_def split: option.splits)
qed

lemma SetReq_merge_returns:
  assumes "pb_consumes rt"
  shows "\<exists>x. SetReq_merge_from rt m is = Some x"
  by (rule merge_loop_returns [OF assms])
     (simp add: SetReq_merge_field_def returns_expect returns_read pb_consumes_reads [OF assms])

subsection \<open>SetRes\<close>

definition SetRes_norm :: "SetRes \<Rightarrow> SetRes" where
  "SetRes_norm m = m\<lparr>SetRes_cached_size := 0\<rparr>"

definition SetRes_known :: "SetRes \<Rightarrow> bool" where
  "SetRes_known m \<longleftrightarrow> SetRes_unknown_fields m = []"

lemma SetRes_eq_norm: "SetRes_eq (SetRes_norm m) m"
  by (simp add: SetRes_eq_def SetRes_norm_def)

lemma SetRes_arms:
  "SetRes_merge_field rt 1 WireTypeVarint m is = read_field (pb_read_bool rt) (\<lambda>v. m\<lparr>SetRes_success := Some v\<rparr>) is"
  "SetRes_merge_field rt 2 WireTypeVarint m is = read_field (pb_read_uint64 rt) (\<lambda>v. m\<lparr>SetRes_txid := Some v\<rparr>) is"
  "SetRes_merge_field rt 3 WireTypeLengthDelimited m is = read_field (pb_read_string rt) (\<lambda>v. m\<lparr>SetRes_err := Some v\<rparr>) is"
  by (simp_all add: SetRes_merge_field_def expect_def)

lemma SetRes_wire:
  assumes "pb_laws rt"
  shows "wire_ok (SetRes_compute_size rt) (SetRes_write_to rt) (SetRes_merge_from rt) SetRes_new SetRes_norm SetRes_known SetRes_cached_size"
  unfolding wire_ok_def
proof (intro allI impI)
  fix m n m' assume km: "SetRes_known m" and size: "SetRes_compute_size rt m = Inr (n, m')"
  have known: "SetRes_unknown_fields m = []" using km by (simp_all add: SetRes_known_def)
  obtain s1 s2 s3 where s: "size_opt (\<lambda>_. Inr 2) 0 (SetRes_success m) = Inr s1" "size_opt (\<lambda>v. pb_value_size rt 2 v WireTypeVarint) s1 (SetRes_txid m) = Inr s2" "size_opt (pb_string_size rt 3) s2 (SetRes_err m) = Inr s3" "add_size s3 (pb_unknown_fields_size rt []) = Inr n"
    and m': "m' = m\<lparr>SetRes_cached_size := n\<rparr>"
    using size known(1) by (auto simp: SetRes_compute_size_def)
  note e1 = emits_bool [where field = "SetRes_merge_field rt" and put = "\<lambda>v m. m\<lparr>SetRes_success := Some v\<rparr>", OF assms tags(1) s(1) SetRes_arms(1)]
    and e2 = emits_uint64 [where field = "SetRes_merge_field rt" and put = "\<lambda>v m. m\<lparr>SetRes_txid := Some v\<rparr>", OF assms tags(2) s(2) SetRes_arms(2)]
    and e3 = emits_string [where field = "SetRes_merge_field rt" and put = "\<lambda>v m. m\<lparr>SetRes_err := Some v\<rparr>", OF assms tags(3) s(3) SetRes_arms(3)]
    and e4 = emits_unknown [where field = "SetRes_merge_field rt", OF assms s(4)]
  note chain = emits_Cons [OF e1 emits_Cons [OF e2 emits_Cons [OF e3 emits_Cons [OF e4 emits_Nil]]]]
  show "SetRes_cached_size m' = n \<and> (\<exists>b. SetRes_write_to rt m' = Inr b \<and> length b = unat n \<and>
      SetRes_merge_from rt SetRes_new b = Some (Inr (SetRes_norm m)))"
    using emits_merge [OF assms chain, of SetRes_new] known(1)
    by (cases m) (simp add: m' SetRes_write_to_def SetRes_norm_def SetRes_new_def split: option.splits)
qed

lemma SetRes_merge_returns:
  assumes "pb_consumes rt"
  shows "\<exists>x. SetRes_merge_from rt m is = Some x"
  by (rule merge_loop_returns [OF assms])
     (simp add: SetRes_merge_field_def returns_expect returns_read pb_consumes_reads [OF assms])

subsection \<open>GetReq\<close>

definition GetReq_norm :: "GetReq \<Rightarrow> GetReq" where
  "GetReq_norm m = m\<lparr>GetReq_cached_size := 0\<rparr>"

definition GetReq_known :: "GetReq \<Rightarrow> bool" where
  "GetReq_known m \<longleftrightarrow> GetReq_unknown_fields m = []"

lemma GetReq_eq_norm: "GetReq_eq (GetReq_norm m) m"
  by (simp add: GetReq_eq_def GetReq_norm_def)

lemma GetReq_arms:
  "GetReq_merge_field rt 1 WireTypeLengthDelimited m is = read_field (pb_read_bytes rt) (\<lambda>v. m\<lparr>GetReq_key := Some v\<rparr>) is"
  by (simp_all add: GetReq_merge_field_def expect_def)

lemma GetReq_wire:
  assumes "pb_laws rt"
  shows "wire_ok (GetReq_compute_size rt) (GetReq_write_to rt) (GetReq_merge_from rt) GetReq_new GetReq_norm GetReq_known GetReq_cached_size"
  unfolding wire_ok_def
proof (intro allI impI)
  fix m n m' assume km: "GetReq_known m" and size: "GetReq_compute_size rt m = Inr (n, m')"
  have known: "GetReq_unknown_fields m = []" using km by (simp_all add: GetReq_known_def)
  obtain s1 where s: "size_opt (pb_bytes_size rt 1) 0 (GetReq_key m) = Inr s1" "add_size s1 (pb_unknown_fields_size rt []) = Inr n"
    and m': "m' = m\<lparr>GetReq_cached_size := n\<rparr>"
    using size known(1) by (auto simp: GetReq_compute_size_def)
  note e1 = emits_bytes [where field = "GetReq_merge_field rt" and put = "\<lambda>v m. m\<lparr>GetReq_key := Some v\<rparr>", OF assms tags(1) s(1) GetReq_arms(1)]
    and e2 = emits_unknown [where field = "GetReq_merge_field rt", OF assms s(2)]
  note chain = emits_Cons [OF e1 emits_Cons [OF e2 emits_Nil]]
  show "GetReq_cached_size m' = n \<and> (\<exists>b. GetReq_write_to rt m' = Inr b \<and> length b = unat n \<and>
      GetReq_merge_from rt GetReq_new b = Some (Inr (GetReq_norm m)))"
    using emits_merge [OF assms chain, of GetReq_new] known(1)
    by (cases m) (simp add: m' GetReq_write_to_def GetReq_norm_def GetReq_new_def split: option.splits)
qed

lemma GetReq_merge_returns:
  assumes "pb_consumes rt"
  shows "\<exists>x. GetReq_merge_from rt m is = Some x"
  by (rule merge_loop_returns [OF assms])
     (simp add: GetReq_merge_field_def returns_expect returns_read pb_consumes_reads [OF assms])

subsection \<open>GetRes\<close>

definition GetRes_norm :: "GetRes \<Rightarrow> GetRes" where
  "GetRes_norm m = m\<lparr>GetRes_cached_size := 0\<rparr>"

definition GetRes_known :: "GetRes \<Rightarrow> bool" where
  "GetRes_known m \<longleftrightarrow> GetRes_unknown_fields m = []"

lemma GetRes_eq_norm: "GetRes_eq (GetRes_norm m) m"
  by (simp add: GetRes_eq_def GetRes_norm_def)

lemma GetRes_arms:
  "GetRes_merge_field rt 1 WireTypeVarint m is = read_field (pb_read_bool rt) (\<lambda>v. m\<lparr>GetRes_success := Some v\<rparr>) is"
  "GetRes_merge_field rt 2 WireTypeVarint m is = read_field (pb_read_uint64 rt) (\<lambda>v. m\<lparr>GetRes_txid := Some v\<rparr>) is"
  "GetRes_merge_field rt 3 WireTypeLengthDelimited m is = read_field (pb_read_bytes rt) (\<lambda>v. m\<lparr>GetRes_value := Some v\<rparr>) is"
  "GetRes_merge_field rt 4 WireTypeLengthDelimited m is = read_field (pb_read_string rt) (\<lambda>v. m\<lparr>GetRes_err := Some v\<rparr>) is"
  by (simp_all add: GetRes_merge_field_def expect_def)

lemma GetRes_wire:
  assumes "pb_laws rt"
  shows "wire_ok (GetRes_compute_size rt) (GetRes_write_to rt) (GetRes_merge_from rt) GetRes_new GetRes_norm GetRes_known GetRes_cached_size"
  unfolding wire_ok_def
proof (intro allI impI)
  fix m n m' assume km: "GetRes_known m" and size: "GetRes_compute_size rt m = Inr (n, m')"
  have known: "GetRes_unknown_fields m = []" using km by (simp_all add: GetRes_known_def)
  obtain s1 s2 s3 s4 where s: "size_opt (\<lambda>_. Inr 2) 0 (GetRes_success m) = Inr s1" "size_opt (\<lambda>v. pb_value_size rt 2 v WireTypeVarint) s1 (GetRes_txid m) = Inr s2" "size_opt (pb_bytes_size rt 3) s2 (GetRes_value m) = Inr s3" "size_opt (pb_string_size rt 4) s3 (GetRes_err m) = Inr s4" "add_size s4 (pb_unknown_fields_size rt []) = Inr n"
    and m': "m' = m\<lparr>GetRes_cached_size := n\<rparr>"
    using size known(1) by (auto simp: GetRes_compute_size_def)
  note e1 = emits_bool [where field = "GetRes_merge_field rt" and put = "\<lambda>v m. m\<lparr>GetRes_success := Some v\<rparr>", OF assms tags(1) s(1) GetRes_arms(1)]
    and e2 = emits_uint64 [where field = "GetRes_merge_field rt" and put = "\<lambda>v m. m\<lparr>GetRes_txid := Some v\<rparr>", OF assms tags(2) s(2) GetRes_arms(2)]
    and e3 = emits_bytes [where field = "GetRes_merge_field rt" and put = "\<lambda>v m. m\<lparr>GetRes_value := Some v\<rparr>", OF assms tags(3) s(3) GetRes_arms(3)]
    and e4 = emits_string [where field = "GetRes_merge_field rt" and put = "\<lambda>v m. m\<lparr>GetRes_err := Some v\<rparr>", OF assms tags(4) s(4) GetRes_arms(4)]
    and e5 = emits_unknown [where field = "GetRes_merge_field rt", OF assms s(5)]
  note chain = emits_Cons [OF e1 emits_Cons [OF e2 emits_Cons [OF e3 emits_Cons [OF e4 emits_Cons [OF e5 emits_Nil]]]]]
  show "GetRes_cached_size m' = n \<and> (\<exists>b. GetRes_write_to rt m' = Inr b \<and> length b = unat n \<and>
      GetRes_merge_from rt GetRes_new b = Some (Inr (GetRes_norm m)))"
    using emits_merge [OF assms chain, of GetRes_new] known(1)
    by (cases m) (simp add: m' GetRes_write_to_def GetRes_norm_def GetRes_new_def split: option.splits)
qed

lemma GetRes_merge_returns:
  assumes "pb_consumes rt"
  shows "\<exists>x. GetRes_merge_from rt m is = Some x"
  by (rule merge_loop_returns [OF assms])
     (simp add: GetRes_merge_field_def returns_expect returns_read pb_consumes_reads [OF assms])

subsection \<open>CASReq\<close>

definition CASReq_norm :: "CASReq \<Rightarrow> CASReq" where
  "CASReq_norm m = m\<lparr>CASReq_cached_size := 0\<rparr>"

definition CASReq_known :: "CASReq \<Rightarrow> bool" where
  "CASReq_known m \<longleftrightarrow> CASReq_unknown_fields m = []"

lemma CASReq_eq_norm: "CASReq_eq (CASReq_norm m) m"
  by (simp add: CASReq_eq_def CASReq_norm_def)

lemma CASReq_arms:
  "CASReq_merge_field rt 1 WireTypeLengthDelimited m is = read_field (pb_read_bytes rt) (\<lambda>v. m\<lparr>CASReq_key := Some v\<rparr>) is"
  "CASReq_merge_field rt 2 WireTypeLengthDelimited m is = read_field (pb_read_bytes rt) (\<lambda>v. m\<lparr>CASReq_new_value := Some v\<rparr>) is"
  "CASReq_merge_field rt 3 WireTypeLengthDelimited m is = read_field (pb_read_bytes rt) (\<lambda>v. m\<lparr>CASReq_old_value := Some v\<rparr>) is"
  by (simp_all add: CASReq_merge_field_def expect_def)

lemma CASReq_wire:
  assumes "pb_laws rt"
  shows "wire_ok (CASReq_compute_size rt) (CASReq_write_to rt) (CASReq_merge_from rt) CASReq_new CASReq_norm CASReq_known CASReq_cached_size"
  unfolding wire_ok_def
proof (intro allI impI)
  fix m n m' assume km: "CASReq_known m" and size: "CASReq_compute_size rt m = Inr (n, m')"
  have known: "CASReq_unknown_fields m = []" using km by (simp_all add: CASReq_known_def)
  obtain s1 s2 s3 where s: "size_opt (pb_bytes_size rt 1) 0 (CASReq_key m) = Inr s1" "size_opt (pb_bytes_size rt 2) s1 (CASReq_new_value m) = Inr s2" "size_opt (pb_bytes_size rt 3) s2 (CASReq_old_value m) = Inr s3" "add_size s3 (pb_unknown_fields_size rt []) = Inr n"
    and m': "m' = m\<lparr>CASReq_cached_size := n\<rparr>"
    using size known(1) by (auto simp: CASReq_compute_size_def)
  note e1 = emits_bytes [where field = "CASReq_merge_field rt" and put = "\<lambda>v m. m\<lparr>CASReq_key := Some v\<rparr>", OF assms tags(1) s(1) CASReq_arms(1)]
    and e2 = emits_bytes [where field = "CASReq_merge_field rt" and put = "\<lambda>v m. m\<lparr>CASReq_new_value := Some v\<rparr>", OF assms tags(2) s(2) CASReq_arms(2)]
    and e3 = emits_bytes [where field = "CASReq_merge_field rt" and put = "\<lambda>v m. m\<lparr>CASReq_old_value := Some v\<rparr>", OF assms tags(3) s(3) CASReq_arms(3)]
    and e4 = emits_unknown [where field = "CASReq_merge_field rt", OF assms s(4)]
  note chain = emits_Cons [OF e1 emits_Cons [OF e2 emits_Cons [OF e3 emits_Cons [OF e4 emits_Nil]]]]
  show "CASReq_cached_size m' = n \<and> (\<exists>b. CASReq_write_to rt m' = Inr b \<and> length b = unat n \<and>
      CASReq_merge_from rt CASReq_new b = Some (Inr (CASReq_norm m)))"
    using emits_merge [OF assms chain, of CASReq_new] known(1)
    by (cases m) (simp add: m' CASReq_write_to_def CASReq_norm_def CASReq_new_def split: option.splits)
qed

lemma CASReq_merge_returns:
  assumes "pb_consumes rt"
  shows "\<exists>x. CASReq_merge_from rt m is = Some x"
  by (rule merge_loop_returns [OF assms])
     (simp add: CASReq_merge_field_def returns_expect returns_read pb_consumes_reads [OF assms])

subsection \<open>CASRes\<close>

definition CASRes_norm :: "CASRes \<Rightarrow> CASRes" where
  "CASRes_norm m = m\<lparr>CASRes_cached_size := 0\<rparr>"

definition CASRes_known :: "CASRes \<Rightarrow> bool" where
  "CASRes_known m \<longleftrightarrow> CASRes_unknown_fields m = []"

lemma CASRes_eq_norm: "CASRes_eq (CASRes_norm m) m"
  by (simp add: CASRes_eq_def CASRes_norm_def)

lemma CASRes_arms:
  "CASRes_merge_field rt 1 WireTypeVarint m is = read_field (pb_read_bool rt) (\<lambda>v. m\<lparr>CASRes_success := Some v\<rparr>) is"
  "CASRes_merge_field rt 2 WireTypeVarint m is = read_field (pb_read_uint64 rt) (\<lambda>v. m\<lparr>CASRes_txid := Some v\<rparr>) is"
  "CASRes_merge_field rt 3 WireTypeLengthDelimited m is = read_field (pb_read_bytes rt) (\<lambda>v. m\<lparr>CASRes_value := Some v\<rparr>) is"
  "CASRes_merge_field rt 4 WireTypeLengthDelimited m is = read_field (pb_read_string rt) (\<lambda>v. m\<lparr>CASRes_err := Some v\<rparr>) is"
  by (simp_all add: CASRes_merge_field_def expect_def)

lemma CASRes_wire:
  assumes "pb_laws rt"
  shows "wire_ok (CASRes_compute_size rt) (CASRes_write_to rt) (CASRes_merge_from rt) CASRes_new CASRes_norm CASRes_known CASRes_cached_size"
  unfolding wire_ok_def
proof (intro allI impI)
  fix m n m' assume km: "CASRes_known m" and size: "CASRes_compute_size rt m = Inr (n, m')"
  have known: "CASRes_unknown_fields m = []" using km by (simp_all add: CASRes_known_def)
  obtain s1 s2 s3 s4 where s: "size_opt (\<lambda>_. Inr 2) 0 (CASRes_success m) = Inr s1" "size_opt (\<lambda>v. pb_value_size rt 2 v WireTypeVarint) s1 (CASRes_txid m) = Inr s2" "size_opt (pb_bytes_size rt 3) s2 (CASRes_value m) = Inr s3" "size_opt (pb_string_size rt 4) s3 (CASRes_err m) = Inr s4" "add_size s4 (pb_unknown_fields_size rt []) = Inr n"
    and m': "m' = m\<lparr>CASRes_cached_size := n\<rparr>"
    using size known(1) by (auto simp: CASRes_compute_size_def)
  note e1 = emits_bool [where field = "CASRes_merge_field rt" and put = "\<lambda>v m. m\<lparr>CASRes_success := Some v\<rparr>", OF assms tags(1) s(1) CASRes_arms(1)]
    and e2 = emits_uint64 [where field = "CASRes_merge_field rt" and put = "\<lambda>v m. m\<lparr>CASRes_txid := Some v\<rparr>", OF assms tags(2) s(2) CASRes_arms(2)]
    and e3 = emits_bytes [where field = "CASRes_merge_field rt" and put = "\<lambda>v m. m\<lparr>CASRes_value := Some v\<rparr>", OF assms tags(3) s(3) CASRes_arms(3)]
    and e4 = emits_string [where field = "CASRes_merge_field rt" and put = "\<lambda>v m. m\<lparr>CASRes_err := Some v\<rparr>", OF assms tags(4) s(4) CASRes_arms(4)]
    and e5 = emits_unknown [where field = "CASRes_merge_field rt", OF assms s(5)]
  note chain = emits_Cons [OF e1 emits_Cons [OF e2 emits_Cons [OF e3 emits_Cons [OF e4 emits_Cons [OF e5 emits_Nil]]]]]
  show "CASRes_cached_size m' = n \<and> (\<exists>b. CASRes_write_to rt m' = Inr b \<and> length b = unat n \<and>
      CASRes_merge_from rt CASRes_new b = Some (Inr (CASRes_norm m)))"
    using emits_merge [OF assms chain, of CASRes_new] known(1)
    by (cases m) (simp add: m' CASRes_write_to_def CASRes_norm_def CASRes_new_def split: option.splits)
qed

lemma CASRes_merge_returns:
  assumes "pb_consumes rt"
  shows "\<exists>x. CASRes_merge_from rt m is = Some x"
  by (rule merge_loop_returns [OF assms])
     (simp add: CASRes_merge_field_def returns_expect returns_read pb_consumes_reads [OF assms])

subsection \<open>DelReq\<close>

definition DelReq_norm :: "DelReq \<Rightarrow> DelReq" where
  "DelReq_norm m = m\<lparr>DelReq_cached_size := 0\<rparr>"

definition DelReq_known :: "DelReq \<Rightarrow> bool" where
  "DelReq_known m \<longleftrightarrow> DelReq_unknown_fields m = []"

lemma DelReq_eq_norm: "DelReq_eq (DelReq_norm m) m"
  by (simp add: DelReq_eq_def DelReq_norm_def)

lemma DelReq_arms:
  "DelReq_merge_field rt 1 WireTypeLengthDelimited m is = read_field (pb_read_bytes rt) (\<lambda>v. m\<lparr>DelReq_key := Some v\<rparr>) is"
  by (simp_all add: DelReq_merge_field_def expect_def)

lemma DelReq_wire:
  assumes "pb_laws rt"
  shows "wire_ok (DelReq_compute_size rt) (DelReq_write_to rt) (DelReq_merge_from rt) DelReq_new DelReq_norm DelReq_known DelReq_cached_size"
  unfolding wire_ok_def
proof (intro allI impI)
  fix m n m' assume km: "DelReq_known m" and size: "DelReq_compute_size rt m = Inr (n, m')"
  have known: "DelReq_unknown_fields m = []" using km by (simp_all add: DelReq_known_def)
  obtain s1 where s: "size_opt (pb_bytes_size rt 1) 0 (DelReq_key m) = Inr s1" "add_size s1 (pb_unknown_fields_size rt []) = Inr n"
    and m': "m' = m\<lparr>DelReq_cached_size := n\<rparr>"
    using size known(1) by (auto simp: DelReq_compute_size_def)
  note e1 = emits_bytes [where field = "DelReq_merge_field rt" and put = "\<lambda>v m. m\<lparr>DelReq_key := Some v\<rparr>", OF assms tags(1) s(1) DelReq_arms(1)]
    and e2 = emits_unknown [where field = "DelReq_merge_field rt", OF assms s(2)]
  note chain = emits_Cons [OF e1 emits_Cons [OF e2 emits_Nil]]
  show "DelReq_cached_size m' = n \<and> (\<exists>b. DelReq_write_to rt m' = Inr b \<and> length b = unat n \<and>
      DelReq_merge_from rt DelReq_new b = Some (Inr (DelReq_norm m)))"
    using emits_merge [OF assms chain, of DelReq_new] known(1)
    by (cases m) (simp add: m' DelReq_write_to_def DelReq_norm_def DelReq_new_def split: option.splits)
qed

lemma DelReq_merge_returns:
  assumes "pb_consumes rt"
  shows "\<exists>x. DelReq_merge_from rt m is = Some x"
  by (rule merge_loop_returns [OF assms])
     (simp add: DelReq_merge_field_def returns_expect returns_read pb_consumes_reads [OF assms])

subsection \<open>DelRes\<close>

definition DelRes_norm :: "DelRes \<Rightarrow> DelRes" where
  "DelRes_norm m = m\<lparr>DelRes_cached_size := 0\<rparr>"

definition DelRes_known :: "DelRes \<Rightarrow> bool" where
  "DelRes_known m \<longleftrightarrow> DelRes_unknown_fields m = []"

lemma DelRes_eq_norm: "DelRes_eq (DelRes_norm m) m"
  by (simp add: DelRes_eq_def DelRes_norm_def)

lemma DelRes_arms:
  "DelRes_merge_field rt 1 WireTypeVarint m is = read_field (pb_read_bool rt) (\<lambda>v. m\<lparr>DelRes_success := Some v\<rparr>) is"
  "DelRes_merge_field rt 2 WireTypeVarint m is = read_field (pb_read_uint64 rt) (\<lambda>v. m\<lparr>DelRes_txid := Some v\<rparr>) is"
  "DelRes_merge_field rt 3 WireTypeLengthDelimited m is = read_field (pb_read_bytes rt) (\<lambda>v. m\<lparr>DelRes_value := Some v\<rparr>) is"
  "DelRes_merge_field rt 4 WireTypeLengthDelimited m is = read_field (pb_read_string rt) (\<lambda>v. m\<lparr>DelRes_err := Some v\<rparr>) is"
  by (simp_all add: DelRes_merge_field_def expect_def)

lemma DelRes_wire:
  assumes "pb_laws rt"
  shows "wire_ok (DelRes_compute_size rt) (DelRes_write_to rt) (DelRes_merge_from rt) DelRes_new DelRes_norm DelRes_known DelRes_cached_size"
  unfolding wire_ok_def
proof (intro allI impI)
  fix m n m' assume km: "DelRes_known m" and size: "DelRes_compute_size rt m = Inr (n, m')"
  have known: "DelRes_unknown_fields m = []" using km by (simp_all add: DelRes_known_def)
  obtain s1 s2 s3 s4 where s: "size_opt (\<lambda>_. Inr 2) 0 (DelRes_success m) = Inr s1" "size_opt (\<lambda>v. pb_value_size rt 2 v WireTypeVarint) s1 (DelRes_txid m) = Inr s2" "size_opt (pb_bytes_size rt 3) s2 (DelRes_value m) = Inr s3" "size_opt (pb_string_size rt 4) s3 (DelRes_err m) = Inr s4" "add_size s4 (pb_unknown_fields_size rt []) = Inr n"
    and m': "m' = m\<lparr>DelRes_cached_size := n\<rparr>"
    using size known(1) by (auto simp: DelRes_compute_size_def)
  note e1 = emits_bool [where field = "DelRes_merge_field rt" and put = "\<lambda>v m. m\<lparr>DelRes_success := Some v\<rparr>", OF assms tags(1) s(1) DelRes_arms(1)]
    and e2 = emits_uint64 [where field = "DelRes_merge_field rt" and put = "\<lambda>v m. m\<lparr>DelRes_txid := Some v\<rparr>", OF assms tags(2) s(2) DelRes_arms(2)]
    and e3 = emits_bytes [where field = "DelRes_merge_field rt" and put = "\<lambda>v m. m\<lparr>DelRes_value := Some v\<rparr>", OF assms tags(3) s(3) DelRes_arms(3)]
    and e4 = emits_string [where field = "DelRes_merge_field rt" and put = "\<lambda>v m. m\<lparr>DelRes_err := Some v\<rparr>", OF assms tags(4) s(4) DelRes_arms(4)]
    and e5 = emits_unknown [where field = "DelRes_merge_field rt", OF assms s(5)]
  note chain = emits_Cons [OF e1 emits_Cons [OF e2 emits_Cons [OF e3 emits_Cons [OF e4 emits_Cons [OF e5 emits_Nil]]]]]
  show "DelRes_cached_size m' = n \<and> (\<exists>b. DelRes_write_to rt m' = Inr b \<and> length b = unat n \<and>
      DelRes_merge_from rt DelRes_new b = Some (Inr (DelRes_norm m)))"
    using emits_merge [OF assms chain, of DelRes_new] known(1)
    by (cases m) (simp add: m' DelRes_write_to_def DelRes_norm_def DelRes_new_def split: option.splits)
qed

lemma DelRes_merge_returns:
  assumes "pb_consumes rt"
  shows "\<exists>x. DelRes_merge_from rt m is = Some x"
  by (rule merge_loop_returns [OF assms])
     (simp add: DelRes_merge_field_def returns_expect returns_read pb_consumes_reads [OF assms])

subsection \<open>WatchReq\<close>

definition WatchReq_norm :: "WatchReq \<Rightarrow> WatchReq" where
  "WatchReq_norm m = m\<lparr>WatchReq_cached_size := 0\<rparr>"

definition WatchReq_known :: "WatchReq \<Rightarrow> bool" where
  "WatchReq_known m \<longleftrightarrow> WatchReq_unknown_fields m = []"

lemma WatchReq_eq_norm: "WatchReq_eq (WatchReq_norm m) m"
  by (simp add: WatchReq_eq_def WatchReq_norm_def)

lemma WatchReq_arms:
  "WatchReq_merge_field rt 1 WireTypeLengthDelimited m is = read_field (pb_read_bytes rt) (\<lambda>v. m\<lparr>WatchReq_key := Some v\<rparr>) is"
  "WatchReq_merge_field rt 2 WireTypeVarint m is = read_field (pb_read_uint64 rt) (\<lambda>v. m\<lparr>WatchReq_last_txid := Some v\<rparr>) is"
  "WatchReq_merge_field rt 3 WireTypeVarint m is = read_field (pb_read_bool rt) (\<lambda>v. m\<lparr>WatchReq_recursive := Some v\<rparr>) is"
  "WatchReq_merge_field rt 4 WireTypeVarint m is = read_field (pb_read_bool rt) (\<lambda>v. m\<lparr>WatchReq_historical := Some v\<rparr>) is"
  by (simp_all add: WatchReq_merge_field_def expect_def)

lemma WatchReq_wire:
  assumes "pb_laws rt"
  shows "wire_ok (WatchReq_compute_size rt) (WatchReq_write_to rt) (WatchReq_merge_from rt) WatchReq_new WatchReq_norm WatchReq_known WatchReq_cached_size"
  unfolding wire_ok_def
proof (intro allI impI)
  fix m n m' assume km: "WatchReq_known m" and size: "WatchReq_compute_size rt m = Inr (n, m')"
  have known: "WatchReq_unknown_fields m = []" using km by (simp_all add: WatchReq_known_def)
  obtain s1 s2 s3 s4 where s: "size_opt (pb_bytes_size rt 1) 0 (WatchReq_key m) = Inr s1" "size_opt (\<lambda>v. pb_value_size rt 2 v WireTypeVarint) s1 (WatchReq_last_txid m) = Inr s2" "size_opt (\<lambda>_. Inr 2) s2 (WatchReq_recursive m) = Inr s3" "size_opt (\<lambda>_. Inr 2) s3 (WatchReq_historical m) = Inr s4" "add_size s4 (pb_unknown_fields_size rt []) = Inr n"
    and m': "m' = m\<lparr>WatchReq_cached_size := n\<rparr>"
    using size known(1) by (auto simp: WatchReq_compute_size_def)
  note e1 = emits_bytes [where field = "WatchReq_merge_field rt" and put = "\<lambda>v m. m\<lparr>WatchReq_key := Some v\<rparr>", OF assms tags(1) s(1) WatchReq_arms(1)]
    and e2 = emits_uint64 [where field = "WatchReq_merge_field rt" and put = "\<lambda>v m. m\<lparr>WatchReq_last_txid := Some v\<rparr>", OF assms tags(2) s(2) WatchReq_arms(2)]
    and e3 = emits_bool [where field = "WatchReq_merge_field rt" and put = "\<lambda>v m. m\<lparr>WatchReq_recursive := Some v\<rparr>", OF assms tags(3) s(3) WatchReq_arms(3)]
    and e4 = emits_bool [where field = "WatchReq_merge_field rt" and put = "\<lambda>v m. m\<lparr>WatchReq_historical := Some v\<rparr>", OF assms tags(4) s(4) WatchReq_arms(4)]
    and e5 = emits_unknown [where field = "WatchReq_merge_field rt", OF assms s(5)]
  note chain = emits_Cons [OF e1 emits_Cons [OF e2 emits_Cons [OF e3 emits_Cons [OF e4 emits_Cons [OF e5 emits_Nil]]]]]
  show "WatchReq_cached_size m' = n \<and> (\<exists>b. WatchReq_write_to rt m' = Inr b \<and> length b = unat n \<and>
      WatchReq_merge_from rt WatchReq_new b = Some (Inr (WatchReq_norm m)))"
    using emits_merge [OF assms chain, of WatchReq_new] known(1)
    by (cases m) (simp add: m' WatchReq_write_to_def WatchReq_norm_def WatchReq_new_def split: option.splits)
qed

lemma WatchReq_merge_returns:
  assumes "pb_consumes rt"
  shows "\<exists>x. WatchReq_merge_from rt m is = Some x"
  by (rule merge_loop_returns [OF assms])
     (simp add: WatchReq_merge_field_def returns_expect returns_read pb_consumes_reads [OF assms])

subsection \<open>WatchRes\<close>

definition WatchRes_norm :: "WatchRes \<Rightarrow> WatchRes" where
  "WatchRes_norm m = m\<lparr>WatchRes_history := map Mutation_norm (WatchRes_history m), WatchRes_cached_size := 0\<rparr>"

definition WatchRes_known :: "WatchRes \<Rightarrow> bool" where
  "WatchRes_known m \<longleftrightarrow> WatchRes_unknown_fields m = [] \<and> list_all Mutation_known (WatchRes_history m)"

lemma WatchRes_eq_norm: "WatchRes_eq (WatchRes_norm m) m"
  by (simp add: WatchRes_eq_def WatchRes_norm_def Mutation_eq_norm option.rel_map list.rel_map option.rel_refl list.rel_refl)

lemma WatchRes_arms:
  "WatchRes_merge_field rt 1 WireTypeVarint m is = read_field (pb_read_bool rt) (\<lambda>v. m\<lparr>WatchRes_success := Some v\<rparr>) is"
  "WatchRes_merge_field rt 2 WireTypeLengthDelimited m is = merge_message rt (Mutation_merge_from rt) Mutation_new (\<lambda>v. m\<lparr>WatchRes_history := WatchRes_history m @ [v]\<rparr>) is"
  "WatchRes_merge_field rt 3 WireTypeLengthDelimited m is = read_field (pb_read_string rt) (\<lambda>v. m\<lparr>WatchRes_err := Some v\<rparr>) is"
  by (simp_all add: WatchRes_merge_field_def expect_def)

lemma WatchRes_history_push: "foldl (\<lambda>m v. m\<lparr>WatchRes_history := WatchRes_history m @ [g v]\<rparr>) m vs = m\<lparr>WatchRes_history := WatchRes_history m @ map g vs\<rparr>"
  by (induction vs arbitrary: m) simp_all

lemma WatchRes_wire:
  assumes "pb_laws rt"
  shows "wire_ok (WatchRes_compute_size rt) (WatchRes_write_to rt) (WatchRes_merge_from rt) WatchRes_new WatchRes_norm WatchRes_known WatchRes_cached_size"
  unfolding wire_ok_def
proof (intro allI impI)
  fix m n m' assume km: "WatchRes_known m" and size: "WatchRes_compute_size rt m = Inr (n, m')"
  have known: "WatchRes_unknown_fields m = []" "list_all Mutation_known (WatchRes_history m)" using km by (simp_all add: WatchRes_known_def)
  obtain s1 s2 history' s3 where s: "size_opt (\<lambda>_. Inr 2) 0 (WatchRes_success m) = Inr s1" "size_rep rt (Mutation_compute_size rt) s1 (WatchRes_history m) = Inr (s2, history')" "size_opt (pb_string_size rt 3) s2 (WatchRes_err m) = Inr s3" "add_size s3 (pb_unknown_fields_size rt []) = Inr n"
    and m': "m' = m\<lparr>WatchRes_history := history', WatchRes_cached_size := n\<rparr>"
    using size known(1) by (auto simp: WatchRes_compute_size_def)
  note e1 = emits_bool [where field = "WatchRes_merge_field rt" and put = "\<lambda>v m. m\<lparr>WatchRes_success := Some v\<rparr>", OF assms tags(1) s(1) WatchRes_arms(1)]
    and e2 = emits_rep [where field = "WatchRes_merge_field rt" and put = "\<lambda>v m. m\<lparr>WatchRes_history := WatchRes_history m @ [v]\<rparr>", OF assms Mutation_wire [OF assms] known(2) s(2) tags(2) WatchRes_arms(2)]
    and e3 = emits_string [where field = "WatchRes_merge_field rt" and put = "\<lambda>v m. m\<lparr>WatchRes_err := Some v\<rparr>", OF assms tags(3) s(3) WatchRes_arms(3)]
    and e4 = emits_unknown [where field = "WatchRes_merge_field rt", OF assms s(4)]
  note chain = emits_Cons [OF e1 emits_Cons [OF e2 emits_Cons [OF e3 emits_Cons [OF e4 emits_Nil]]]]
  show "WatchRes_cached_size m' = n \<and> (\<exists>b. WatchRes_write_to rt m' = Inr b \<and> length b = unat n \<and>
      WatchRes_merge_from rt WatchRes_new b = Some (Inr (WatchRes_norm m)))"
    using emits_merge [OF assms chain, of WatchRes_new] known(1)
    by (cases m) (simp add: m' WatchRes_write_to_def WatchRes_norm_def WatchRes_new_def WatchRes_history_push split: option.splits)
qed

lemma WatchRes_merge_returns:
  assumes "pb_consumes rt"
  shows "\<exists>x. WatchRes_merge_from rt m is = Some x"
  by (rule merge_loop_returns [OF assms])
     (simp add: WatchRes_merge_field_def returns_expect returns_read pb_consumes_reads [OF assms] returns_merge [OF assms] Mutation_merge_returns [OF assms])

subsection \<open>RedirectRes\<close>

definition RedirectRes_norm :: "RedirectRes \<Rightarrow> RedirectRes" where
  "RedirectRes_norm m = m\<lparr>RedirectRes_cached_size := 0\<rparr>"

definition RedirectRes_known :: "RedirectRes \<Rightarrow> bool" where
  "RedirectRes_known m \<longleftrightarrow> RedirectRes_unknown_fields m = []"

lemma RedirectRes_eq_norm: "RedirectRes_eq (RedirectRes_norm m) m"
  by (simp add: RedirectRes_eq_def RedirectRes_norm_def)

lemma RedirectRes_arms:
  "RedirectRes_merge_field rt 1 WireTypeVarint m is = read_field (pb_read_bool rt) (\<lambda>v. m\<lparr>RedirectRes_success := Some v\<rparr>) is"
  "RedirectRes_merge_field rt 2 WireTypeLengthDelimited m is = read_field (pb_read_string rt) (\<lambda>v. m\<lparr>RedirectRes_address := Some v\<rparr>) is"
  "RedirectRes_merge_field rt 3 WireTypeLengthDelimited m is = read_field (pb_read_string rt) (\<lambda>v. m\<lparr>RedirectRes_err := Some v\<rparr>) is"
  by (simp_all add: RedirectRes_merge_field_def expect_def)

lemma RedirectRes_wire:
  assumes "pb_laws rt"
  shows "wire_ok (RedirectRes_compute_size rt) (RedirectRes_write_to rt) (RedirectRes_merge_from rt) RedirectRes_new RedirectRes_norm RedirectRes_known RedirectRes_cached_size"
  unfolding wire_ok_def
proof (intro allI impI)
  fix m n m' assume km: "RedirectRes_known m" and size: "RedirectRes_compute_size rt m = Inr (n, m')"
  have known: "RedirectRes_unknown_fields m = []" using km by (simp_all add: RedirectRes_known_def)
  obtain s1 s2 s3 where s: "size_opt (\<lambda>_. Inr 2) 0 (RedirectRes_success m) = Inr s1" "size_opt (pb_string_size rt 2) s1 (RedirectRes_address m) = Inr s2" "size_opt (pb_string_size rt 3) s2 (RedirectRes_err m) = Inr s3" "add_size s3 (pb_unknown_fields_size rt []) = Inr n"
    and m': "m' = m\<lparr>RedirectRes_cached_size := n\<rparr>"
    using size known(1) by (auto simp: RedirectRes_compute_size_def)
  note e1 = emits_bool [where field = "RedirectRes_merge_field rt" and put = "\<lambda>v m. m\<lparr>RedirectRes_success := Some v\<rparr>", OF assms tags(1) s(1) RedirectRes_arms(1)]
    and e2 = emits_string [where field = "RedirectRes_merge_field rt" and put = "\<lambda>v m. m\<lparr>RedirectRes_address := Some v\<rparr>", OF assms tags(2) s(2) RedirectRes_arms(2)]
    and e3 = emits_string [where field = "RedirectRes_merge_field rt" and put = "\<lambda>v m. m\<lparr>RedirectRes_err := Some v\<rparr>", OF assms tags(3) s(3) RedirectRes_arms(3)]
    and e4 = emits_unknown [where field = "RedirectRes_merge_field rt", OF assms s(4)]
  note chain = emits_Cons [OF e1 emits_Cons [OF e2 emits_Cons [OF e3 emits_Cons [OF e4 emits_Nil]]]]
  show "RedirectRes_cached_size m' = n \<and> (\<exists>b. RedirectRes_write_to rt m' = Inr b \<and> length b = unat n \<and>
      RedirectRes_merge_from rt RedirectRes_new b = Some (Inr (RedirectRes_norm m)))"
    using emits_merge [OF assms chain, of RedirectRes_new] known(1)
    by (cases m) (simp add: m' RedirectRes_write_to_def RedirectRes_norm_def RedirectRes_new_def split: option.splits)
qed

lemma RedirectRes_merge_returns:
  assumes "pb_consumes rt"
  shows "\<exists>x. RedirectRes_merge_from rt m is = Some x"
  by (rule merge_loop_returns [OF assms])
     (simp add: RedirectRes_merge_field_def returns_expect returns_read pb_consumes_reads [OF assms])

subsection \<open>CliReq\<close>

definition CliReq_norm :: "CliReq \<Rightarrow> CliReq" where
  "CliReq_norm m = m\<lparr>CliReq_get := map_option GetReq_norm (CliReq_get m), CliReq_set := map_option SetReq_norm (CliReq_set m), CliReq_cas := map_option CASReq_norm (CliReq_cas m), CliReq_del := map_option DelReq_norm (CliReq_del m), CliReq_watch := map_option WatchReq_norm (CliReq_watch m), CliReq_cached_size := 0\<rparr>"

definition CliReq_known :: "CliReq \<Rightarrow> bool" where
  "CliReq_known m \<longleftrightarrow> CliReq_unknown_fields m = [] \<and> pred_option GetReq_known (CliReq_get m) \<and> pred_option SetReq_known (CliReq_set m) \<and> pred_option CASReq_known (CliReq_cas m) \<and> pred_option DelReq_known (CliReq_del m) \<and> pred_option WatchReq_known (CliReq_watch m)"

lemma CliReq_eq_norm: "CliReq_eq (CliReq_norm m) m"
  by (simp add: CliReq_eq_def CliReq_norm_def CASReq_eq_norm DelReq_eq_norm GetReq_eq_norm SetReq_eq_norm WatchReq_eq_norm option.rel_map list.rel_map option.rel_refl list.rel_refl)

lemma CliReq_arms:
  "CliReq_merge_field rt 1 WireTypeVarint m is = read_field (pb_read_uint64 rt) (\<lambda>v. m\<lparr>CliReq_req_id := Some v\<rparr>) is"
  "CliReq_merge_field rt 2 WireTypeLengthDelimited m is = merge_message rt (GetReq_merge_from rt) GetReq_new (\<lambda>v. m\<lparr>CliReq_get := Some v\<rparr>) is"
  "CliReq_merge_field rt 3 WireTypeLengthDelimited m is = merge_message rt (SetReq_merge_from rt) SetReq_new (\<lambda>v. m\<lparr>CliReq_set := Some v\<rparr>) is"
  "CliReq_merge_field rt 4 WireTypeLengthDelimited m is = merge_message rt (CASReq_merge_from rt) CASReq_new (\<lambda>v. m\<lparr>CliReq_cas := Some v\<rparr>) is"
  "CliReq_merge_field rt 5 WireTypeLengthDelimited m is = merge_message rt (DelReq_merge_from rt) DelReq_new (\<lambda>v. m\<lparr>CliReq_del := Some v\<rparr>) is"
  "CliReq_merge_field rt 6 WireTypeLengthDelimited m is = merge_message rt (WatchReq_merge_from rt) WatchReq_new (\<lambda>v. m\<lparr>CliReq_watch := Some v\<rparr>) is"
  by (simp_all add: CliReq_merge_field_def expect_def)

lemma CliReq_wire:
  assumes "pb_laws rt"
  shows "wire_ok (CliReq_compute_size rt) (CliReq_write_to rt) (CliReq_merge_from rt) CliReq_new CliReq_norm CliReq_known CliReq_cached_size"
  unfolding wire_ok_def
proof (intro allI impI)
  fix m n m' assume km: "CliReq_known m" and size: "CliReq_compute_size rt m = Inr (n, m')"
  have known: "CliReq_unknown_fields m = []" "pred_option GetReq_known (CliReq_get m)" "pred_option SetReq_known (CliReq_set m)" "pred_option CASReq_known (CliReq_cas m)" "pred_option DelReq_known (CliReq_del m)" "pred_option WatchReq_known (CliReq_watch m)" using km by (simp_all add: CliReq_known_def)
  obtain s1 s2 get' s3 set' s4 cas' s5 del' s6 watch' where s: "size_opt (\<lambda>v. pb_value_size rt 1 v WireTypeVarint) 0 (CliReq_req_id m) = Inr s1" "size_msg rt (GetReq_compute_size rt) s1 (CliReq_get m) = Inr (s2, get')" "size_msg rt (SetReq_compute_size rt) s2 (CliReq_set m) = Inr (s3, set')" "size_msg rt (CASReq_compute_size rt) s3 (CliReq_cas m) = Inr (s4, cas')" "size_msg rt (DelReq_compute_size rt) s4 (CliReq_del m) = Inr (s5, del')" "size_msg rt (WatchReq_compute_size rt) s5 (CliReq_watch m) = Inr (s6, watch')" "add_size s6 (pb_unknown_fields_size rt []) = Inr n"
    and m': "m' = m\<lparr>CliReq_get := get', CliReq_set := set', CliReq_cas := cas', CliReq_del := del', CliReq_watch := watch', CliReq_cached_size := n\<rparr>"
    using size known(1) by (auto simp: CliReq_compute_size_def)
  note e1 = emits_uint64 [where field = "CliReq_merge_field rt" and put = "\<lambda>v m. m\<lparr>CliReq_req_id := Some v\<rparr>", OF assms tags(1) s(1) CliReq_arms(1)]
    and e2 = emits_msg [where field = "CliReq_merge_field rt" and put = "\<lambda>v m. m\<lparr>CliReq_get := Some v\<rparr>", OF assms GetReq_wire [OF assms] known(2) s(2) tags(2) CliReq_arms(2)]
    and e3 = emits_msg [where field = "CliReq_merge_field rt" and put = "\<lambda>v m. m\<lparr>CliReq_set := Some v\<rparr>", OF assms SetReq_wire [OF assms] known(3) s(3) tags(3) CliReq_arms(3)]
    and e4 = emits_msg [where field = "CliReq_merge_field rt" and put = "\<lambda>v m. m\<lparr>CliReq_cas := Some v\<rparr>", OF assms CASReq_wire [OF assms] known(4) s(4) tags(4) CliReq_arms(4)]
    and e5 = emits_msg [where field = "CliReq_merge_field rt" and put = "\<lambda>v m. m\<lparr>CliReq_del := Some v\<rparr>", OF assms DelReq_wire [OF assms] known(5) s(5) tags(5) CliReq_arms(5)]
    and e6 = emits_msg [where field = "CliReq_merge_field rt" and put = "\<lambda>v m. m\<lparr>CliReq_watch := Some v\<rparr>", OF assms WatchReq_wire [OF assms] known(6) s(6) tags(6) CliReq_arms(6)]
    and e7 = emits_unknown [where field = "CliReq_merge_field rt", OF assms s(7)]
  note chain = emits_Cons [OF e1 emits_Cons [OF e2 emits_Cons [OF e3 emits_Cons [OF e4 emits_Cons [OF e5 emits_Cons [OF e6 emits_Cons [OF e7 emits_Nil]]]]]]]
  show "CliReq_cached_size m' = n \<and> (\<exists>b. CliReq_write_to rt m' = Inr b \<and> length b = unat n \<and>
      CliReq_merge_from rt CliReq_new b = Some (Inr (CliReq_norm m)))"
    using emits_merge [OF assms chain, of CliReq_new] known(1)
    by (cases m) (simp add: m' CliReq_write_to_def CliReq_norm_def CliReq_new_def split: option.splits)
qed

lemma CliReq_merge_returns:
  assumes "pb_consumes rt"
  shows "\<exists>x. CliReq_merge_from rt m is = Some x"
  by (rule merge_loop_returns [OF assms])
     (simp add: CliReq_merge_field_def returns_expect returns_read pb_consumes_reads [OF assms] returns_merge [OF assms] CASReq_merge_returns [OF assms] DelReq_merge_returns [OF assms] GetReq_merge_returns [OF assms] SetReq_merge_returns [OF assms] WatchReq_merge_returns [OF assms])

subsection \<open>CliRes\<close>

definition CliRes_norm :: "CliRes \<Rightarrow> CliRes" where
  "CliRes_norm m = m\<lparr>CliRes_get := map_option GetRes_norm (CliRes_get m), CliRes_set := map_option SetRes_norm (CliRes_set m), CliRes_cas := map_option CASRes_norm (CliRes_cas m), CliRes_del := map_option DelRes_norm (CliRes_del m), CliRes_watch := map_option WatchRes_norm (CliRes_watch m), CliRes_redirect := map_option RedirectRes_norm (CliRes_redirect m), CliRes_cached_size := 0\<rparr>"

definition CliRes_known :: "CliRes \<Rightarrow> bool" where
  "CliRes_known m \<longleftrightarrow> CliRes_unknown_fields m = [] \<and> pred_option GetRes_known (CliRes_get m) \<and> pred_option SetRes_known (CliRes_set m) \<and> pred_option CASRes_known (CliRes_cas m) \<and> pred_option DelRes_known (CliRes_del m) \<and> pred_option WatchRes_known (CliRes_watch m) \<and> pred_option RedirectRes_known (CliRes_redirect m)"

lemma CliRes_eq_norm: "CliRes_eq (CliRes_norm m) m"
  by (simp add: CliRes_eq_def CliRes_norm_def CASRes_eq_norm DelRes_eq_norm GetRes_eq_norm RedirectRes_eq_norm SetRes_eq_norm WatchRes_eq_norm option.rel_map list.rel_map option.rel_refl list.rel_refl)

lemma CliRes_arms:
  "CliRes_merge_field rt 1 WireTypeVarint m is = read_field (pb_read_uint64 rt) (\<lambda>v. m\<lparr>CliRes_req_id := Some v\<rparr>) is"
  "CliRes_merge_field rt 2 WireTypeLengthDelimited m is = merge_message rt (GetRes_merge_from rt) GetRes_new (\<lambda>v. m\<lparr>CliRes_get := Some v\<rparr>) is"
  "CliRes_merge_field rt 3 WireTypeLengthDelimited m is = merge_message rt (SetRes_merge_from rt) SetRes_new (\<lambda>v. m\<lparr>CliRes_set := Some v\<rparr>) is"
  "CliRes_merge_field rt 4 WireTypeLengthDelimited m is = merge_message rt (CASRes_merge_from rt) CASRes_new (\<lambda>v. m\<lparr>CliRes_cas := Some v\<rparr>) is"
  "CliRes_merge_field rt 5 WireTypeLengthDelimited m is = merge_message rt (DelRes_merge_from rt) DelRes_new (\<lambda>v. m\<lparr>CliRes_del := Some v\<rparr>) is"
  "CliRes_merge_field rt 6 WireTypeLengthDelimited m is = merge_message rt (WatchRes_merge_from rt) WatchRes_new (\<lambda>v. m\<lparr>CliRes_watch := Some v\<rparr>) is"
  "CliRes_merge_field rt 7 WireTypeLengthDelimited m is = merge_message rt (RedirectRes_merge_from rt) RedirectRes_new (\<lambda>v. m\<lparr>CliRes_redirect := Some v\<rparr>) is"
  by (simp_all add: CliRes_merge_field_def expect_def)

lemma CliRes_wire:
  assumes "pb_laws rt"
  shows "wire_ok (CliRes_compute_size rt) (CliRes_write_to rt) (CliRes_merge_from rt) CliRes_new CliRes_norm CliRes_known CliRes_cached_size"
  unfolding wire_ok_def
proof (intro allI impI)
  fix m n m' assume km: "CliRes_known m" and size: "CliRes_compute_size rt m = Inr (n, m')"
  have known: "CliRes_unknown_fields m = []" "pred_option GetRes_known (CliRes_get m)" "pred_option SetRes_known (CliRes_set m)" "pred_option CASRes_known (CliRes_cas m)" "pred_option DelRes_known (CliRes_del m)" "pred_option WatchRes_known (CliRes_watch m)" "pred_option RedirectRes_known (CliRes_redirect m)" using km by (simp_all add: CliRes_known_def)
  obtain s1 s2 get' s3 set' s4 cas' s5 del' s6 watch' s7 redirect' where s: "size_opt (\<lambda>v. pb_value_size rt 1 v WireTypeVarint) 0 (CliRes_req_id m) = Inr s1" "size_msg rt (GetRes_compute_size rt) s1 (CliRes_get m) = Inr (s2, get')" "size_msg rt (SetRes_compute_size rt) s2 (CliRes_set m) = Inr (s3, set')" "size_msg rt (CASRes_compute_size rt) s3 (CliRes_cas m) = Inr (s4, cas')" "size_msg rt (DelRes_compute_size rt) s4 (CliRes_del m) = Inr (s5, del')" "size_msg rt (WatchRes_compute_size rt) s5 (CliRes_watch m) = Inr (s6, watch')" "size_msg rt (RedirectRes_compute_size rt) s6 (CliRes_redirect m) = Inr (s7, redirect')" "add_size s7 (pb_unknown_fields_size rt []) = Inr n"
    and m': "m' = m\<lparr>CliRes_get := get', CliRes_set := set', CliRes_cas := cas', CliRes_del := del', CliRes_watch := watch', CliRes_redirect := redirect', CliRes_cached_size := n\<rparr>"
    using size known(1) by (auto simp: CliRes_compute_size_def)
  note e1 = emits_uint64 [where field = "CliRes_merge_field rt" and put = "\<lambda>v m. m\<lparr>CliRes_req_id := Some v\<rparr>", OF assms tags(1) s(1) CliRes_arms(1)]
    and e2 = emits_msg [where field = "CliRes_merge_field rt" and put = "\<lambda>v m. m\<lparr>CliRes_get := Some v\<rparr>", OF assms GetRes_wire [OF assms] known(2) s(2) tags(2) CliRes_arms(2)]
    and e3 = emits_msg [where field = "CliRes_merge_field rt" and put = "\<lambda>v m. m\<lparr>CliRes_set := Some v\<rparr>", OF assms SetRes_wire [OF assms] known(3) s(3) tags(3) CliRes_arms(3)]
    and e4 = emits_msg [where field = "CliRes_merge_field rt" and put = "\<lambda>v m. m\<lparr>CliRes_cas := Some v\<rparr>", OF assms CASRes_wire [OF assms] known(4) s(4) tags(4) CliRes_arms(4)]
    and e5 = emits_msg [where field = "CliRes_merge_field rt" and put = "\<lambda>v m. m\<lparr>CliRes_del := Some v\<rparr>", OF assms DelRes_wire [OF assms] known(5) s(5) tags(5) CliRes_arms(5)]
    and e6 = emits_msg [where field = "CliRes_merge_field rt" and put = "\<lambda>v m. m\<lparr>CliRes_watch := Some v\<rparr>", OF assms WatchRes_wire [OF assms] known(6) s(6) tags(6) CliRes_arms(6)]
    and e7 = emits_msg [where field = "CliRes_merge_field rt" and put = "\<lambda>v m. m\<lparr>CliRes_redirect := Some v\<rparr>", OF assms RedirectRes_wire [OF assms] known(7) s(7) tags(7) CliRes_arms(7)]
    and e8 = emits_unknown [where field = "CliRes_merge_field rt", OF assms s(8)]
  note chain = emits_Cons [OF e1 emits_Cons [OF e2 emits_Cons [OF e3 emits_Cons [OF e4 emits_Cons [OF e5 emits_Cons [OF e6 emits_Cons [OF e7 emits_Cons [OF e8 emits_Nil]]]]]]]]
  show "CliRes_cached_size m' = n \<and> (\<exists>b. CliRes_write_to rt m' = Inr b \<and> length b = unat n \<and>
      CliRes_merge_from rt CliRes_new b = Some (Inr (CliRes_norm m)))"
    using emits_merge [OF assms chain, of CliRes_new] known(1)
    by (cases m) (simp add: m' CliRes_write_to_def CliRes_norm_def CliRes_new_def split: option.splits)
qed

lemma CliRes_merge_returns:
  assumes "pb_consumes rt"
  shows "\<exists>x. CliRes_merge_from rt m is = Some x"
  by (rule merge_loop_returns [OF assms])
     (simp add: CliRes_merge_field_def returns_expect returns_read pb_consumes_reads [OF assms] returns_merge [OF assms] CASRes_merge_returns [OF assms] DelRes_merge_returns [OF assms] GetRes_merge_returns [OF assms] RedirectRes_merge_returns [OF assms] SetRes_merge_returns [OF assms] WatchRes_merge_returns [OF assms])

end
