(* ===== verification/Range_Bounds.thy ===== *)
theory Range_Bounds
  imports Prelude
begin

text \<open>
  \<^verbatim>\<open>range_bounds.rs\<close>: half-open key ranges and the comparison under which the client's
  range map stores them.
\<close>

section \<open>Data and operations\<close>

record RangeBounds =
  lower :: bytes
  upper :: bytes

datatype Ordering = Less | Equal | Greater

definition RangeBounds_new :: "bytes \<Rightarrow> bytes \<Rightarrow> string + RangeBounds" where
  "RangeBounds_new lo up =
     (if lo \<ge> up then Inl ''lower is >= upper, which is incorrect!''
      else Inr \<lparr>lower = lo, upper = up\<rparr>)"

definition RangeBounds_cmp :: "RangeBounds \<Rightarrow> RangeBounds \<Rightarrow> Ordering res" where
  "RangeBounds_cmp self other =
     and_then (rust_assert (upper self > lower self)) (\<lambda>_.
     and_then (rust_assert (upper other > lower other)) (\<lambda>_.
       if upper self \<le> lower other then Inr Less
       else if lower self \<ge> upper other then Inr Greater
       else Inr Equal))"

definition RangeBounds_partial_cmp :: "RangeBounds \<Rightarrow> RangeBounds \<Rightarrow> Ordering option res" where
  "RangeBounds_partial_cmp self other =
     and_then (RangeBounds_cmp self other) (\<lambda>o'. Inr (Some o'))"

definition RangeBounds_eq :: "RangeBounds \<Rightarrow> RangeBounds \<Rightarrow> bool" where
  "RangeBounds_eq self other \<longleftrightarrow> (lower self, upper self) = (lower other, upper other)"

text \<open>The keys a range holds.\<close>

definition in_range :: "bytes \<Rightarrow> RangeBounds \<Rightarrow> bool" where
  "in_range k r \<longleftrightarrow> lower r \<le> k \<and> k < upper r"

section \<open>Properties\<close>

lemma RangeBounds_new_Inr:
  "RangeBounds_new lo up = Inr r \<longleftrightarrow> lo < up \<and> r = \<lparr>lower = lo, upper = up\<rparr>"
  by (auto simp: RangeBounds_new_def)

lemma RangeBounds_cmp_Inr:
  assumes "lower a < upper a" and "lower b < upper b"
  shows "RangeBounds_cmp a b =
    Inr (if upper a \<le> lower b then Less else if upper b \<le> lower a then Greater else Equal)"
  using assms by (simp add: RangeBounds_cmp_def)

lemma below_iff_keys:
  assumes "lower a < upper a" and "lower b < upper b"
  shows "upper a \<le> lower b \<longleftrightarrow> (\<forall>j k. in_range j a \<longrightarrow> in_range k b \<longrightarrow> j < k)"
proof
  assume "upper a \<le> lower b"
  then show "\<forall>j k. in_range j a \<longrightarrow> in_range k b \<longrightarrow> j < k"
    by (auto simp: in_range_def)
next
  assume all: "\<forall>j k. in_range j a \<longrightarrow> in_range k b \<longrightarrow> j < k"
  show "upper a \<le> lower b"
  proof (rule ccontr)
    assume "\<not> upper a \<le> lower b"
    then have lt: "lower b < upper a" by simp
    show False
    proof (cases "lower a \<le> lower b")
      case True
      then have "in_range (lower b) a" "in_range (lower b) b"
        using lt assms by (simp_all add: in_range_def)
      then show False using all by blast
    next
      case False
      have a: "in_range (lower a) a" and b: "in_range (lower b) b"
        using assms by (simp_all add: in_range_def)
      from all a b have "lower a < lower b" by blast
      with False show False by simp
    qed
  qed
qed

text \<open>C32.  Two ranges built by \<^verbatim>\<open>RangeBounds::new\<close> compare without panicking, as \<^verbatim>\<open>Less\<close> exactly
  when every key of the first is below every key of the second, as \<^verbatim>\<open>Greater\<close> exactly in the
  converse case, and as \<^verbatim>\<open>Equal\<close> exactly when they share a key.\<close>

theorem RangeBounds_cmp_orders_keys:
  assumes "RangeBounds_new la ua = Inr a" and "RangeBounds_new lb ub = Inr b"
  shows "\<exists>c. RangeBounds_cmp a b = Inr c \<and>
    (c = Less \<longleftrightarrow> (\<forall>j k. in_range j a \<longrightarrow> in_range k b \<longrightarrow> j < k)) \<and>
    (c = Greater \<longleftrightarrow> (\<forall>j k. in_range j a \<longrightarrow> in_range k b \<longrightarrow> k < j)) \<and>
    (c = Equal \<longleftrightarrow> (\<exists>k. in_range k a \<and> in_range k b))"
proof -
  have ab: "lower a < upper a" "lower b < upper b"
    using assms by (auto simp: RangeBounds_new_Inr)
  have "upper a \<le> lower b \<Longrightarrow> \<not> upper b \<le> lower a" using ab by auto
  moreover have "\<not> upper a \<le> lower b \<Longrightarrow> \<not> upper b \<le> lower a \<Longrightarrow> \<exists>k. in_range k a \<and> in_range k b"
    using ab by (intro exI [of _ "max (lower a) (lower b)"]) (auto simp: in_range_def max_def)
  moreover have "in_range k a \<Longrightarrow> in_range k b \<Longrightarrow> \<not> upper a \<le> lower b \<and> \<not> upper b \<le> lower a" for k
    by (auto simp: in_range_def)
  moreover have "(\<forall>j k. in_range j a \<longrightarrow> in_range k b \<longrightarrow> k < j) \<longleftrightarrow> upper b \<le> lower a"
    using below_iff_keys [OF ab(2,1)] by blast
  moreover have "(\<forall>j k. in_range j a \<longrightarrow> in_range k b \<longrightarrow> j < k) \<longleftrightarrow> upper a \<le> lower b"
    using below_iff_keys [OF ab] by blast
  ultimately show ?thesis
    unfolding RangeBounds_cmp_Inr [OF ab] by (auto split: if_splits)
qed

theorem RangeBounds_cmp_orders_keys_witness:
  "\<exists>c. RangeBounds_cmp \<lparr>lower = [1], upper = [5]\<rparr> \<lparr>lower = [5], upper = [9]\<rparr> = Inr c \<and>
    (c = Less \<longleftrightarrow> (\<forall>j k. in_range j \<lparr>lower = [1], upper = [5]\<rparr> \<longrightarrow>
       in_range k \<lparr>lower = [5], upper = [9]\<rparr> \<longrightarrow> j < k))"
proof -
  have a: "RangeBounds_new [1] [5] = Inr \<lparr>lower = [1], upper = [5]\<rparr>"
    and b: "RangeBounds_new [5] [9] = Inr \<lparr>lower = [5], upper = [9]\<rparr>"
    by (simp_all add: RangeBounds_new_Inr)
  show ?thesis using RangeBounds_cmp_orders_keys [OF a b] by blast
qed

text \<open>\<^verbatim>\<open>Ord\<close> and \<^verbatim>\<open>Eq\<close> disagree, and \<^verbatim>\<open>Equal\<close> is not transitive: there are three
  well-formed ranges where the first and the second compare \<^verbatim>\<open>Equal\<close>, the second and the
  third compare \<^verbatim>\<open>Equal\<close>, the first and the third compare \<^verbatim>\<open>Less\<close>, and no two are equal
  under \<^verbatim>\<open>==\<close>.\<close>

theorem RangeBounds_Equal_not_transitive:
  "\<exists>a b c. RangeBounds_cmp a b = Inr Equal \<and> RangeBounds_cmp b c = Inr Equal \<and>
     RangeBounds_cmp a c = Inr Less \<and>
     \<not> RangeBounds_eq a b \<and> \<not> RangeBounds_eq b c \<and> \<not> RangeBounds_eq a c"
  by (intro exI [of _ "\<lparr>lower = [1], upper = [3]\<rparr>"] exI [of _ "\<lparr>lower = [2], upper = [5]\<rparr>"]
        exI [of _ "\<lparr>lower = [4], upper = [6]\<rparr>"])
    (simp add: RangeBounds_cmp_def RangeBounds_eq_def)

end
