(* ===== verification/Client_Lib.thy ===== *)
theory Client_Lib
  imports Codec Range_Bounds Btree_Map Msg_Client
begin

text \<open>
  \<^verbatim>\<open>client/mod.rs\<close>: the client library. A request goes to the servers in order until one gives an answer
  that is not a redirect. The answers of the sockets are parameters: for each attempt a record
  \<open>Link\<close> says how connecting and the successive reads and writes end. Sending and receiving are loops
  that may run forever, so they are partial functions and \<open>None\<close> is a loop that does not end.
\<close>

section \<open>State\<close>

record Client =
  cl_servers :: "SocketAddr list"
  cl_ranges :: "(RangeBounds \<times> SocketAddr) list"
  cl_nthreads :: nat
  req_counter :: u64

definition Client_new :: "SocketAddr list \<Rightarrow> nat \<Rightarrow> Client" where
  "Client_new servers nthreads = \<lparr>cl_servers = servers, cl_ranges = [], cl_nthreads = nthreads, req_counter = 0\<rparr>"

definition get_id :: "Client \<Rightarrow> (u64 \<times> Client) res" where
  "get_id self = and_then (checked_add (req_counter self) 1) (\<lambda>n. Inr (n, self\<lparr>req_counter := n\<rparr>))"

section \<open>Sockets\<close>

text \<open>\<open>ln_write i b\<close> is the answer of the \<open>i\<close>-th \<^verbatim>\<open>try_write_buf\<close>, \<open>ln_read i\<close> the bytes of the \<open>i\<close>-th
  \<^verbatim>\<open>try_read_buf\<close>; \<open>None\<close> is an operation that would block.\<close>

record Link =
  ln_connect :: "string + unit"
  ln_write :: "nat \<Rightarrow> bytes \<Rightarrow> string + nat option"
  ln_read :: "nat \<Rightarrow> string + bytes option"

partial_function (option) send_to :: "Link \<Rightarrow> nat \<Rightarrow> bytes \<Rightarrow> (string + unit) option" where
  "send_to ln i buf =
     (case ln_write ln i buf of
        Inr None \<Rightarrow> send_to ln (Suc i) buf
      | Inr (Some r) \<Rightarrow> (let buf' = drop r buf in if buf' = [] then Some (Inr ()) else send_to ln (Suc i) buf')
      | Inl e \<Rightarrow> Some (Inl e))"

text \<open>The bytes that a read leaves in the buffer: none when it fails or would block.\<close>

definition read_data :: "Link \<Rightarrow> nat \<Rightarrow> bytes" where
  "read_data ln i = (case ln_read ln i of Inr (Some d) \<Rightarrow> d | _ \<Rightarrow> [])"

partial_function (option) recv_into :: "BufOps \<Rightarrow> Link \<Rightarrow> nat \<Rightarrow> Framed \<Rightarrow> (string + bytes) res option" where
  "recv_into rd ln i codec =
     (case Framed_decode rd codec (read_data ln i) of
        None \<Rightarrow> None
      | Some (Inl p) \<Rightarrow> Some (Inl p)
      | Some (Inr (codec', _, r)) \<Rightarrow>
          if length r = 1 then Some (Inr (Inr (hd r))) else recv_into rd ln (Suc i) codec')"

section \<open>Requests\<close>

text \<open>The serializer and the parser of messages are parameters.\<close>

record Cli_Ext =
  write_CliReq :: "CliReq \<Rightarrow> string + bytes"
  parse_CliRes :: "bytes \<Rightarrow> string + CliRes"

text \<open>The loop over the servers; \<open>net i\<close> is the connection of the \<open>i\<close>-th attempt.\<close>

primrec req_loop ::
  "Cli_Ext \<Rightarrow> BufOps \<Rightarrow> (nat \<Rightarrow> SocketAddr \<Rightarrow> Link) \<Rightarrow> CliReq \<Rightarrow> nat \<Rightarrow> SocketAddr list \<Rightarrow> (string + CliRes) res option" where
  "req_loop X rd net req i [] = Some (Inr (Inl ''unable to reach any servers!''))"
| "req_loop X rd net req i (peer # peers) =
     (let ln = net i peer; next = req_loop X rd net req (Suc i) peers in
      case ln_connect ln of
        Inl _ \<Rightarrow> next
      | Inr _ \<Rightarrow>
          (case and_then (unwrap_res (write_CliReq X req)) (Framed_encode rd) of
             Inl p \<Rightarrow> Some (Inl p)
           | Inr msg \<Rightarrow>
               (case send_to ln 0 msg of
                  None \<Rightarrow> None
                | Some (Inl _) \<Rightarrow> next
                | Some (Inr _) \<Rightarrow>
                    (case recv_into rd ln 0 Framed_new of
                       None \<Rightarrow> None
                     | Some (Inl p) \<Rightarrow> Some (Inl p)
                     | Some (Inr (Inl _)) \<Rightarrow> next
                     | Some (Inr (Inr res_buf)) \<Rightarrow>
                         (case unwrap_res (parse_CliRes X res_buf) of
                            Inl p \<Rightarrow> Some (Inl p)
                          | Inr cli_res \<Rightarrow> if CliRes_has_redirect cli_res then next else Some (Inr (Inr cli_res)))))))"

definition Client_req ::
  "Cli_Ext \<Rightarrow> BufOps \<Rightarrow> (nat \<Rightarrow> SocketAddr \<Rightarrow> Link) \<Rightarrow> Client \<Rightarrow> CliReq \<Rightarrow> (string + CliRes) res option" where
  "Client_req X rd net self req = req_loop X rd net req 0 (cl_servers self)"

text \<open>The common end of the four operations: number the request, send it, and take the answer apart.\<close>

definition numbered_req ::
  "Cli_Ext \<Rightarrow> BufOps \<Rightarrow> (nat \<Rightarrow> SocketAddr \<Rightarrow> Link) \<Rightarrow> (CliRes \<Rightarrow> 'r) \<Rightarrow> CliReq \<Rightarrow> Client \<Rightarrow> ((string + 'r) \<times> Client) res option" where
  "numbered_req X rd net extract req self =
     (case get_id self of
        Inl p \<Rightarrow> Some (Inl p)
      | Inr (n, self') \<Rightarrow>
          map_option (\<lambda>x. and_then x (\<lambda>r. Inr (map_sum id extract r, self')))
            (Client_req X rd net self' (CliReq_set_req_id n req)))"

definition Client_set ::
  "Cli_Ext \<Rightarrow> BufOps \<Rightarrow> (nat \<Rightarrow> SocketAddr \<Rightarrow> Link) \<Rightarrow> bytes \<Rightarrow> bytes \<Rightarrow> Client \<Rightarrow> ((string + SetRes) \<times> Client) res option" where
  "Client_set X rd net key value self =
     numbered_req X rd net CliRes_get_set
       (CliReq_set_set (SetReq_set_value value (SetReq_set_key key SetReq_new)) CliReq_new) self"

definition Client_get ::
  "Cli_Ext \<Rightarrow> BufOps \<Rightarrow> (nat \<Rightarrow> SocketAddr \<Rightarrow> Link) \<Rightarrow> bytes \<Rightarrow> Client \<Rightarrow> ((string + GetRes) \<times> Client) res option" where
  "Client_get X rd net key self =
     numbered_req X rd net CliRes_get_get (CliReq_set_get (GetReq_set_key key GetReq_new) CliReq_new) self"

definition Client_cas ::
  "Cli_Ext \<Rightarrow> BufOps \<Rightarrow> (nat \<Rightarrow> SocketAddr \<Rightarrow> Link) \<Rightarrow> bytes \<Rightarrow> bytes \<Rightarrow> bytes \<Rightarrow> Client \<Rightarrow> ((string + CASRes) \<times> Client) res option" where
  "Client_cas X rd net key old_value new_value self =
     numbered_req X rd net CliRes_get_cas
       (CliReq_set_cas (CASReq_set_new_value new_value (CASReq_set_old_value old_value (CASReq_set_key key CASReq_new))) CliReq_new) self"

definition Client_del ::
  "Cli_Ext \<Rightarrow> BufOps \<Rightarrow> (nat \<Rightarrow> SocketAddr \<Rightarrow> Link) \<Rightarrow> bytes \<Rightarrow> Client \<Rightarrow> ((string + DelRes) \<times> Client) res option" where
  "Client_del X rd net key self =
     numbered_req X rd net CliRes_get_del (CliReq_set_del (DelReq_set_key key DelReq_new) CliReq_new) self"

section \<open>Sending and receiving\<close>

text \<open>A link takes a message when finitely many attempts block and then everything is written.\<close>

inductive takes :: "Link \<Rightarrow> nat \<Rightarrow> bytes \<Rightarrow> bool" for ln where
  Blocks: "ln_write ln i buf = Inr None \<Longrightarrow> takes ln (Suc i) buf \<Longrightarrow> takes ln i buf"
| Part: "ln_write ln i buf = Inr (Some r) \<Longrightarrow> r < length buf \<Longrightarrow> takes ln (Suc i) (drop r buf) \<Longrightarrow> takes ln i buf"
| Rest: "ln_write ln i buf = Inr (Some r) \<Longrightarrow> length buf \<le> r \<Longrightarrow> takes ln i buf"

lemma send_to_takes: "takes ln i buf \<Longrightarrow> send_to ln i buf = Some (Inr ())"
  by (induction rule: takes.induct) (subst send_to.simps; simp)+

lemma parse_frames_none: "parse_frames bs = ([], r) \<Longrightarrow> r = bs"
  by (subst (asm) parse_frames.simps) (auto split: if_splits prod.splits)

lemma parse_frames_partial:
  assumes "length m < 2 ^ 32" and "bs @ rest = frame m" and "rest \<noteq> []"
  shows "parse_frames bs = ([], bs)"
proof -
  obtain fs r where p: "parse_frames bs = (fs, r)" by fastforce
  obtain fs' r' where q: "parse_frames (r @ rest) = (fs', r')" by fastforce
  have "(fs @ fs', r') = ([m], [])"
    using parse_frames_append [of bs rest] parse_frames_concat [of "[m]"] assms(1,2) p q by simp
  then have "fs = [] \<or> fs' = [] \<and> r' = []" by (cases fs) auto
  then have "fs = []" using parse_frames_none q assms(3) by blast
  with p show ?thesis using parse_frames_none by blast
qed

text \<open>A frame that arrives in any number of pieces is received.\<close>

lemma recv_into_frame:
  assumes "buf_laws rd" and "length m < 2 ^ 32" and "framed_inv f"
    and "framed_bytes f @ concat (map (read_data ln) [i..<i + n]) = frame m" and "framed_bytes f \<noteq> frame m"
  shows "recv_into rd ln i f = Some (Inr (Inr m))"
  using assms(3-5)
proof (induction n arbitrary: i f)
  case 0
  then show ?case by simp
next
  case (Suc n)
  let ?bs = "framed_bytes f @ read_data ln i"
  define rest where "rest = concat (map (read_data ln) [Suc i..<Suc i + n])"
  have split: "?bs @ rest = frame m"
    using Suc.prems(2) by (simp add: rest_def upt_conv_Cons del: upt_Suc)
  obtain f' where f': "Framed_decode rd f (read_data ln i) = Some (Inr (f', [], fst (parse_frames ?bs)))"
    "framed_inv f'" "framed_bytes f' = snd (parse_frames ?bs)"
    using decode_loop_memory [OF assms(1) Suc.prems(1), of "read_data ln i" "[]"] by (auto simp: Framed_decode_def)
  show ?case
  proof (cases "?bs = frame m")
    case True
    then have "parse_frames ?bs = ([m], [])" using parse_frames_concat [of "[m]"] assms(2) by simp
    then show ?thesis using f' by (subst recv_into.simps) simp
  next
    case False
    then have "rest \<noteq> []" using split by auto
    from parse_frames_partial [OF assms(2) split this] have part: "parse_frames ?bs = ([], ?bs)" .
    have "recv_into rd ln (Suc i) f' = Some (Inr (Inr m))"
      by (rule Suc.IH) (use f' part split False in \<open>simp_all add: rest_def del: upt_Suc\<close>)
    then show ?thesis using f' part by (subst recv_into.simps) simp
  qed
qed

text \<open>A server that goes silent before its answer is complete is waited for without end.\<close>

lemma recv_into_silent:
  assumes "recv_into rd ln i f = Some y"
  shows "buf_laws rd \<longrightarrow> framed_inv f \<longrightarrow> \<not> (\<forall>j \<ge> i. read_data ln j = [])"
  using assms
proof (rule recv_into.raw_induct [where P = "\<lambda>rd ln i f _. buf_laws rd \<longrightarrow> framed_inv f \<longrightarrow> \<not> (\<forall>j \<ge> i. read_data ln j = [])", rotated])
  fix rcv rd ln i f y
  assume IH: "\<And>rd ln i f y. rcv rd ln i f = Some y \<Longrightarrow> buf_laws rd \<longrightarrow> framed_inv f \<longrightarrow> \<not> (\<forall>j \<ge> i. read_data ln j = [])"
    and eq: "(case Framed_decode rd f (read_data ln i) of
        None \<Rightarrow> None
      | Some (Inl p) \<Rightarrow> Some (Inl p)
      | Some (Inr (codec', _, r)) \<Rightarrow> if length r = 1 then Some (Inr (Inr (hd r))) else rcv rd ln (Suc i) codec') = Some y"
  show "buf_laws rd \<longrightarrow> framed_inv f \<longrightarrow> \<not> (\<forall>j \<ge> i. read_data ln j = [])"
  proof (intro impI notI)
    assume rd: "buf_laws rd" and f: "framed_inv f" and silent: "\<forall>j \<ge> i. read_data ln j = []"
    obtain f' where "Framed_decode rd f [] = Some (Inr (f', [], []))" "framed_inv f'"
      using decode_loop_memory [OF rd f, of "[]" "[]"] framed_inv_parse [OF f] by (auto simp: Framed_decode_def)
    then have "rcv rd ln (Suc i) f' = Some y" "framed_inv f'" using eq silent by simp_all
    then show False using IH rd silent by (meson Suc_leD)
  qed
qed

lemma recv_into_starves:
  assumes "buf_laws rd" and "framed_inv f" and "\<forall>j \<ge> i + n. read_data ln j = []"
    and "parse_frames (framed_bytes f @ concat (map (read_data ln) [i..<i + n])) = ([], r)"
  shows "recv_into rd ln i f = None"
  using assms(2-4)
proof (induction n arbitrary: i f)
  case 0
  then show ?case using recv_into_silent [of rd ln i f] assms(1) by (cases "recv_into rd ln i f") auto
next
  case (Suc n)
  let ?bs = "framed_bytes f @ read_data ln i"
  define rest where "rest = concat (map (read_data ln) [Suc i..<Suc i + n])"
  have all: "parse_frames (?bs @ rest) = ([], r)"
    using Suc.prems(3) by (simp add: rest_def upt_conv_Cons del: upt_Suc)
  then have none: "fst (parse_frames ?bs) = []" using parse_frames_prefix [of ?bs "?bs @ rest"] by simp
  then have bs: "snd (parse_frames ?bs) = ?bs" using parse_frames_none by (metis prod.collapse)
  obtain f' where f': "Framed_decode rd f (read_data ln i) = Some (Inr (f', [], []))" "framed_inv f'" "framed_bytes f' = ?bs"
    using decode_loop_memory [OF assms(1) Suc.prems(1), of "read_data ln i" "[]"] none bs by (auto simp: Framed_decode_def)
  have "recv_into rd ln (Suc i) f' = None"
    by (rule Suc.IH [OF f'(2)]) (use Suc.prems(2) all f'(3) in \<open>simp_all add: rest_def del: upt_Suc\<close>)
  then show ?case using f'(1) by (subst recv_into.simps) simp
qed

section \<open>The loop over the servers\<close>

text \<open>The ways in which a server is passed over: no connection, a failed write, or a redirect.\<close>

definition passes_over :: "Cli_Ext \<Rightarrow> BufOps \<Rightarrow> bytes \<Rightarrow> Link \<Rightarrow> bool" where
  "passes_over X rd b ln \<longleftrightarrow> isl (ln_connect ln) \<or> (\<exists>e. send_to ln 0 (frame b) = Some (Inl e)) \<or>
     send_to ln 0 (frame b) = Some (Inr ()) \<and>
       (\<exists>m res. recv_into rd ln 0 Framed_new = Some (Inr (Inr m)) \<and> parse_CliRes X m = Inr res \<and> CliRes_has_redirect res)"

text \<open>A server that answers: it takes the request, and its response \<open>m\<close> comes in some number of pieces.\<close>

definition answers :: "bytes \<Rightarrow> bytes \<Rightarrow> Link \<Rightarrow> bool" where
  "answers b m ln \<longleftrightarrow> \<not> isl (ln_connect ln) \<and> takes ln 0 (frame b) \<and> length m < 2 ^ 32 \<and>
     (\<exists>n. concat (map (read_data ln) [0..<n]) = frame m)"

lemma req_loop_passes:
  assumes "write_CliReq X req = Inr b" and "buf_laws rd" and "\<forall>j < length ps. passes_over X rd b (net (i + j) (ps ! j))"
  shows "req_loop X rd net req i (ps @ qs) = req_loop X rd net req (i + length ps) qs"
  using assms(3)
proof (induction ps arbitrary: i)
  case Nil
  then show ?case by simp
next
  case (Cons p ps)
  have rest: "req_loop X rd net req (Suc i) (ps @ qs) = req_loop X rd net req (i + length (p # ps)) qs"
    using Cons.IH [of "Suc i"] Cons.prems by force
  have "passes_over X rd b (net i p)" using Cons.prems by force
  then show ?case
    using assms(1) rest
    by (auto simp: passes_over_def Let_def Framed_encode_eq [OF assms(2)] split: sum.splits)
qed

lemma frame_neq_Nil [simp]: "frame m \<noteq> []"
  by (simp add: frame_def usize_to_array_def)

lemma req_loop_answers:
  assumes "write_CliReq X req = Inr b" and "buf_laws rd" and "answers b m (net i p)"
    and "parse_CliRes X m = Inr res" and "\<not> CliRes_has_redirect res"
  shows "req_loop X rd net req i (p # ps) = Some (Inr (Inr res))"
proof -
  obtain n where n: "concat (map (read_data (net i p)) [0..<n]) = frame m" and m: "length m < 2 ^ 32"
    using assms(3) by (auto simp: answers_def)
  have "recv_into rd (net i p) 0 Framed_new = Some (Inr (Inr m))"
    by (rule recv_into_frame [OF assms(2) m, where n = n]) (simp_all add: n frame_neq_Nil [symmetric])
  moreover have "send_to (net i p) 0 (frame b) = Some (Inr ())" "\<not> isl (ln_connect (net i p))"
    using assms(3) send_to_takes by (simp_all add: answers_def)
  ultimately show ?thesis
    using assms(1,4,5) by (cases "ln_connect (net i p)") (simp_all add: Let_def Framed_encode_eq [OF assms(2)])
qed

lemma get_id_ok:
  "unat (req_counter self) < 2 ^ 64 - 1 \<Longrightarrow>
     get_id self = Inr (req_counter self + 1, self\<lparr>req_counter := req_counter self + 1\<rparr>)"
  by (simp add: get_id_def checked_add_def)

text \<open>Two servers: the first refuses connections, the second writes at once and reads the given pieces.\<close>

definition demo_link :: "bytes list \<Rightarrow> Link" where
  "demo_link ds = \<lparr>ln_connect = Inr (), ln_write = \<lambda>i b. Inr (Some (length b)),
     ln_read = \<lambda>i. Inr (Some (if i < length ds then ds ! i else []))\<rparr>"

definition demo_net :: "bytes list \<Rightarrow> nat \<Rightarrow> SocketAddr \<Rightarrow> Link" where
  "demo_net ds i a = (if i = 0 then (demo_link [])\<lparr>ln_connect := Inl ''refused''\<rparr> else demo_link ds)"

definition demo_cli_ext :: Cli_Ext where
  "demo_cli_ext = \<lparr>write_CliReq = \<lambda>_. Inr [1], parse_CliRes = \<lambda>_. Inr (CliRes_set_set SetRes_new CliRes_new)\<rparr>"

lemma demo_link_takes: "takes (demo_link ds) i buf"
  by (rule takes.Rest [where r = "length buf"]) (simp_all add: demo_link_def)

lemma demo_answers: "answers b [9] (demo_net [[0, 0, 0], [1, 9]] (Suc 0) a)"
proof -
  have "concat (map (read_data (demo_link [[0, 0, 0], [1, 9]])) [0..<2]) = frame [9]"
    by (simp add: read_data_def demo_link_def frame_def usize_to_array_def upt_rec)
  then show ?thesis
    unfolding answers_def demo_net_def by (auto simp: demo_link_takes intro!: exI [of _ 2]) (simp add: demo_link_def)
qed

lemma demo_refused: "passes_over X rd b (demo_net ds 0 a)"
  by (simp add: passes_over_def demo_net_def)

section \<open>Properties\<close>

text \<open>A request returns the first answer that is not a redirect: when the servers before one that answers are
  passed over, and the answer arrives in any number of pieces, the caller gets this answer and the
  request counter has advanced by one.\<close>

theorem client_first_answer:
  assumes "buf_laws rd" and "unat (req_counter self) < 2 ^ 64 - 1" and "cl_servers self = ps @ p # qs"
    and "write_CliReq X (CliReq_set_req_id (req_counter self + 1)
           (CliReq_set_set (SetReq_set_value value (SetReq_set_key key SetReq_new)) CliReq_new)) = Inr b"
    and "\<forall>j < length ps. passes_over X rd b (net j (ps ! j))" and "answers b m (net (length ps) p)"
    and "parse_CliRes X m = Inr res" and "\<not> CliRes_has_redirect res"
  shows "Client_set X rd net key value self =
    Some (Inr (Inr (CliRes_get_set res), self\<lparr>req_counter := req_counter self + 1\<rparr>))"
  using req_loop_passes [OF assms(4,1), of ps net 0 "p # qs"] req_loop_answers [where net = net and i = "length ps" and p = p and ps = qs, OF assms(4,1,6-8)] assms(3,5)
  by (simp add: Client_set_def numbered_req_def get_id_ok [OF assms(2)] Client_req_def)

theorem client_first_answer_witness:
  "Client_set demo_cli_ext mem_buf (demo_net [[0, 0, 0], [1, 9]]) [107] [118]
     (Client_new [([127, 0, 0, 1], 1), ([127, 0, 0, 1], 2)] 1) =
   Some (Inr (Inr SetRes_new, (Client_new [([127, 0, 0, 1], 1), ([127, 0, 0, 1], 2)] 1)\<lparr>req_counter := 1\<rparr>))"
  using client_first_answer [of mem_buf "Client_new [([127, 0, 0, 1], 1), ([127, 0, 0, 1], 2)] 1"
      "[([127, 0, 0, 1], 1)]" "([127, 0, 0, 1], 2)" "[]" demo_cli_ext "[118]" "[107]" "[1]" "demo_net [[0, 0, 0], [1, 9]]" "[9]"
      "CliRes_set_set SetRes_new CliRes_new"]
    demo_refused demo_answers
  by (simp add: buf_laws_mem Client_new_def demo_cli_ext_def CliRes_accessors)

text \<open>When every server is passed over, the caller gets the error that no server could be reached.\<close>

theorem client_unreachable:
  assumes "buf_laws rd" and "unat (req_counter self) < 2 ^ 64 - 1"
    and "write_CliReq X (CliReq_set_req_id (req_counter self + 1) (CliReq_set_get (GetReq_set_key key GetReq_new) CliReq_new)) = Inr b"
    and "\<forall>j < length (cl_servers self). passes_over X rd b (net j (cl_servers self ! j))"
  shows "Client_get X rd net key self =
    Some (Inr (Inl ''unable to reach any servers!'', self\<lparr>req_counter := req_counter self + 1\<rparr>))"
  using req_loop_passes [OF assms(3,1), of "cl_servers self" net 0 "[]"] assms(4)
  by (simp add: Client_get_def numbered_req_def get_id_ok [OF assms(2)] Client_req_def)

theorem client_unreachable_witness:
  "Client_get demo_cli_ext mem_buf (demo_net []) [107] (Client_new [([127, 0, 0, 1], 1)] 1) =
   Some (Inr (Inl ''unable to reach any servers!'', (Client_new [([127, 0, 0, 1], 1)] 1)\<lparr>req_counter := 1\<rparr>))"
  using client_unreachable [of mem_buf "Client_new [([127, 0, 0, 1], 1)] 1" demo_cli_ext "[107]" "[1]" "demo_net []"] demo_refused
  by (simp add: Client_new_def demo_cli_ext_def)

text \<open>C38. A server that takes a request and falls silent before its answer is complete holds the client forever: the
  operation does not return, and no other server is tried.\<close>

theorem client_waits_forever:
  assumes "buf_laws rd" and "unat (req_counter self) < 2 ^ 64 - 1" and "cl_servers self = p # qs"
    and "write_CliReq X (CliReq_set_req_id (req_counter self + 1) (CliReq_set_del (DelReq_set_key key DelReq_new) CliReq_new)) = Inr b"
    and "\<not> isl (ln_connect (net 0 p))" and "takes (net 0 p) 0 (frame b)"
    and "\<forall>j \<ge> n. read_data (net 0 p) j = []" and "fst (parse_frames (concat (map (read_data (net 0 p)) [0..<n]))) = []"
  shows "Client_del X rd net key self = None"
proof -
  obtain r where "parse_frames (concat (map (read_data (net 0 p)) [0..<n])) = ([], r)"
    using assms(8) by (metis prod.collapse)
  then have "recv_into rd (net 0 p) 0 Framed_new = None"
    using recv_into_starves [OF assms(1) Framed_new_inv(1), of 0 n] assms(7) by simp
  moreover have "send_to (net 0 p) 0 (frame b) = Some (Inr ())" by (rule send_to_takes [OF assms(6)])
  moreover obtain u where "ln_connect (net 0 p) = Inr u" using assms(5) by (cases "ln_connect (net 0 p)") auto
  ultimately show ?thesis
    using assms(3,4) by (simp add: Client_del_def numbered_req_def get_id_ok [OF assms(2)] Client_req_def Let_def Framed_encode_eq [OF assms(1)])
qed

theorem client_waits_forever_witness:
  "Client_del demo_cli_ext mem_buf (\<lambda>i a. demo_link [[0, 0]]) [107]
     (Client_new [([127, 0, 0, 1], 1), ([127, 0, 0, 1], 2)] 1) = None"
  by (rule client_waits_forever [where n = 1, OF _ _ _ _ _ demo_link_takes])
     (simp_all add: buf_laws_mem Client_new_def demo_cli_ext_def, simp_all add: demo_link_def read_data_def parse_frames_short)

end
