(* ===== verification/Wire_Format.thy ===== *)
theory Wire_Format
  imports Wire_Varint Wire_Client Wire_Peer Client_Lib Memory_Ext
begin

text \<open>
  The wire format of the messages that servers and clients exchange, and what it means for them: when the printer and the
  parser that a server and a client are given are the generated code of \<^verbatim>\<open>serialization.rs\<close>, what one side
  prints, the other side parses back.
\<close>

section \<open>Printers and parsers made of the generated code\<close>

text \<open>\<^verbatim>\<open>write_to_bytes\<close> of the \<^verbatim>\<open>protobuf\<close> crate: the message must be initialized, its sizes are computed and it is written with
  them.\<close>

definition writes_by ::
  "('m \<Rightarrow> bool) \<Rightarrow> ('m \<Rightarrow> (u32 \<times> 'm) res) \<Rightarrow> ('m \<Rightarrow> perr + bytes) \<Rightarrow> ('m \<Rightarrow> string + bytes) \<Rightarrow> bool" where
  "writes_by initialized compute_size write write_to_bytes \<longleftrightarrow>
     (\<forall>m b. write_to_bytes m = Inr b \<longrightarrow> initialized m \<and> (\<exists>n m'. compute_size m = Inr (n, m') \<and> write m' = Inr b))"

text \<open>\<^verbatim>\<open>parse_from_bytes\<close>: merge everything into a new message, which must be initialized then.\<close>

definition parses_by ::
  "('m \<Rightarrow> bool) \<Rightarrow> 'm \<Rightarrow> ('m \<Rightarrow> bytes \<Rightarrow> (perr + 'm) option) \<Rightarrow> (bytes \<Rightarrow> string + 'm) \<Rightarrow> bool" where
  "parses_by initialized dflt merge parse_from_bytes \<longleftrightarrow>
     (\<forall>b m. merge dflt b = Some (Inr m) \<and> initialized m \<longrightarrow> parse_from_bytes b = Inr m)"

lemma printed_parses:
  assumes "wire_ok compute_size write merge dflt norm known cached"
    and "writes_by initialized compute_size write write_to_bytes" and "parses_by initialized dflt merge parse_from_bytes"
    and "\<And>m. initialized (norm m) = initialized m" and "known m" and "write_to_bytes m = Inr b"
  shows "parse_from_bytes b = Inr (norm m)"
proof -
  obtain n m' where m': "compute_size m = Inr (n, m')" "write m' = Inr b" and init: "initialized m"
    using assms(2,6) unfolding writes_by_def by blast
  then have "merge dflt b = Some (Inr (norm m))" using assms(1,5) unfolding wire_ok_def by fastforce
  then show ?thesis using assms(3,4) init unfolding parses_by_def by blast
qed

lemma norm_initialized [simp]:
  "PeerMsg_is_initialized (PeerMsg_norm m) = PeerMsg_is_initialized m"
  "CliReq_is_initialized (CliReq_norm r) = CliReq_is_initialized r"
  "CliRes_is_initialized (CliRes_norm s) = CliRes_is_initialized s"
  by (simp_all add: PeerMsg_is_initialized_def PeerMsg_norm_def CliReq_is_initialized_def CliReq_norm_def
      CliRes_is_initialized_def CliRes_norm_def)

text \<open>The externals of a server and of a client that print and parse with the generated code over the runtime \<open>rt\<close>.\<close>

definition wire_ext :: "Pb \<Rightarrow> 'db Ext \<Rightarrow> bool" where
  "wire_ext rt E \<longleftrightarrow>
     writes_by PeerMsg_is_initialized (PeerMsg_compute_size rt) (PeerMsg_write_to rt) (write_PeerMsg E) \<and>
     parses_by PeerMsg_is_initialized PeerMsg_new (PeerMsg_merge_from rt) (parse_PeerMsg E) \<and>
     parses_by CliReq_is_initialized CliReq_new (CliReq_merge_from rt) (parse_CliReq E) \<and>
     writes_by CliRes_is_initialized (CliRes_compute_size rt) (CliRes_write_to rt) (write_CliRes E)"

definition wire_cli_ext :: "Pb \<Rightarrow> Cli_Ext \<Rightarrow> bool" where
  "wire_cli_ext rt X \<longleftrightarrow>
     writes_by CliReq_is_initialized (CliReq_compute_size rt) (CliReq_write_to rt) (write_CliReq X) \<and>
     parses_by CliRes_is_initialized CliRes_new (CliRes_merge_from rt) (parse_CliRes X)"

lemma peer_message_parses:
  assumes "pb_laws rt" and "wire_ext rt E" and "wire_ext rt E'" and "PeerMsg_known m" and "write_PeerMsg E m = Inr b"
  shows "parse_PeerMsg E' b = Inr (PeerMsg_norm m)"
  by (rule printed_parses [OF PeerMsg_wire [OF assms(1)], of PeerMsg_is_initialized "write_PeerMsg E"])
     (use assms in \<open>simp_all add: wire_ext_def\<close>)

lemma client_request_parses:
  assumes "pb_laws rt" and "wire_cli_ext rt X" and "wire_ext rt E" and "CliReq_known m" and "write_CliReq X m = Inr b"
  shows "parse_CliReq E b = Inr (CliReq_norm m)"
  by (rule printed_parses [OF CliReq_wire [OF assms(1)], of CliReq_is_initialized "write_CliReq X"])
     (use assms in \<open>simp_all add: wire_ext_def wire_cli_ext_def\<close>)

lemma client_response_parses:
  assumes "pb_laws rt" and "wire_ext rt E" and "wire_cli_ext rt X" and "CliRes_known m" and "write_CliRes E m = Inr b"
  shows "parse_CliRes X b = Inr (CliRes_norm m)"
  by (rule printed_parses [OF CliRes_wire [OF assms(1)], of CliRes_is_initialized "write_CliRes E"])
     (use assms in \<open>simp_all add: wire_ext_def wire_cli_ext_def\<close>)

section \<open>One instance of externals on the wire format\<close>

definition write_with :: "('m \<Rightarrow> bool) \<Rightarrow> ('m \<Rightarrow> (u32 \<times> 'm) res) \<Rightarrow> ('m \<Rightarrow> perr + bytes) \<Rightarrow> 'm \<Rightarrow> string + bytes" where
  "write_with initialized compute_size write m =
     (if initialized m then (case compute_size m of Inl _ \<Rightarrow> Inl ''overflow'' | Inr (n, m') \<Rightarrow> write m') else Inl ''not initialized'')"

definition parse_with ::
  "('m \<Rightarrow> bool) \<Rightarrow> 'm \<Rightarrow> ('m \<Rightarrow> bytes \<Rightarrow> (perr + 'm) option) \<Rightarrow> bytes \<Rightarrow> string + 'm" where
  "parse_with initialized dflt merge b =
     (case merge dflt b of
        None \<Rightarrow> Inl ''no result''
      | Some (Inl e) \<Rightarrow> Inl e
      | Some (Inr m) \<Rightarrow> if initialized m then Inr m else Inl ''not initialized'')"

definition wire_mem :: "Pb \<Rightarrow> (bytes \<Rightarrow> bytes option) Ext" where
  "wire_mem rt = (mem_ext [] [])
     \<lparr>parse_PeerMsg := parse_with PeerMsg_is_initialized PeerMsg_new (PeerMsg_merge_from rt),
      parse_CliReq := parse_with CliReq_is_initialized CliReq_new (CliReq_merge_from rt),
      write_PeerMsg := write_with PeerMsg_is_initialized (PeerMsg_compute_size rt) (PeerMsg_write_to rt),
      write_CliRes := write_with CliRes_is_initialized (CliRes_compute_size rt) (CliRes_write_to rt)\<rparr>"

lemma write_with_by: "writes_by initialized compute_size write (write_with initialized compute_size write)"
  by (auto simp: writes_by_def write_with_def split: if_splits sum.splits)

lemma parse_with_by: "parses_by initialized dflt merge (parse_with initialized dflt merge)"
  by (auto simp: parses_by_def parse_with_def)

lemma wire_mem_ext: "wire_ext rt (wire_mem rt)"
  by (simp add: wire_ext_def wire_mem_def write_with_by parse_with_by)

lemma wire_mem_simps [simp]:
  "tadd (wire_mem rt) t d = Timespec (sec t + int d) (nsec t)"
  "db_get (wire_mem rt) d' k = (case d' k of Some v \<Rightarrow> DBSome v | None \<Rightarrow> DBNone)"
  "db_put (wire_mem rt) d' k v = (Inr (), d'(k \<mapsto> v))"
  by (simp_all add: wire_mem_def)

lemma wire_mem_writes:
  "write_PeerMsg (wire_mem rt) = write_with PeerMsg_is_initialized (PeerMsg_compute_size rt) (PeerMsg_write_to rt)"
  "write_CliRes (wire_mem rt) = write_with CliRes_is_initialized (CliRes_compute_size rt) (CliRes_write_to rt)"
  by (simp_all add: wire_mem_def)

definition wire_cli :: "Pb \<Rightarrow> Cli_Ext" where
  "wire_cli rt =
     \<lparr>write_CliReq = write_with CliReq_is_initialized (CliReq_compute_size rt) (CliReq_write_to rt),
      parse_CliRes = parse_with CliRes_is_initialized CliRes_new (CliRes_merge_from rt)\<rparr>"

lemma wire_cli_cli_ext: "wire_cli_ext rt (wire_cli rt)"
  by (simp add: wire_cli_ext_def wire_cli_def write_with_by parse_with_by)

section \<open>Properties\<close>

text \<open>C30. Every message survives the wire: for a peer message, a request or a response without unknown fields whose size can be
  computed, writing succeeds, the computed size is the length of what is written, and merging it into
  a new message gives an equal message.\<close>

theorem messages_round_trip:
  assumes "pb_laws rt"
  shows "(PeerMsg_known p \<and> PeerMsg_compute_size rt p = Inr (n, p') \<longrightarrow>
      (\<exists>b q. PeerMsg_write_to rt p' = Inr b \<and> length b = unat n \<and>
         merge_loop rt (PeerMsg_merge_field rt) PeerMsg_new b = Some (Inr q) \<and> PeerMsg_eq q p)) \<and>
    (CliReq_known r \<and> CliReq_compute_size rt r = Inr (n, r') \<longrightarrow>
      (\<exists>b q. CliReq_write_to rt r' = Inr b \<and> length b = unat n \<and>
         merge_loop rt (CliReq_merge_field rt) CliReq_new b = Some (Inr q) \<and> CliReq_eq q r)) \<and>
    (CliRes_known s \<and> CliRes_compute_size rt s = Inr (n, s') \<longrightarrow>
      (\<exists>b q. CliRes_write_to rt s' = Inr b \<and> length b = unat n \<and>
         merge_loop rt (CliRes_merge_field rt) CliRes_new b = Some (Inr q) \<and> CliRes_eq q s))"
  using PeerMsg_wire [OF assms] CliReq_wire [OF assms] CliRes_wire [OF assms]
    PeerMsg_eq_norm CliReq_eq_norm CliRes_eq_norm
  unfolding wire_ok_def by meson

definition demo_vote_msg :: PeerMsg where
  "demo_vote_msg = PeerMsg_set_vote_res (VoteRes_set_success True (VoteRes_set_term 300 VoteRes_new))
     (PeerMsg_set_srvid ''n'' PeerMsg_new)"

lemmas demo_sizes = PeerMsg_compute_size_def VoteRes_compute_size_def size_opt_def add_size_def size_msg_def
  size_embedded_def size_of_def tag_enc_def blob_enc_def string_bytes_def wire_code_def unknown_enc_def varint_enc.simps
  checked_add_def

lemma demo_vote_msg_size:
  "PeerMsg_known demo_vote_msg"
  "\<exists>m. PeerMsg_compute_size pb_varint demo_vote_msg = Inr (10, m)"
  by (simp add: demo_vote_msg_def PeerMsg_vote_res_field_def PeerMsg_srvid_field_def PeerMsg_new_def PeerMsg_known_def
      VoteRes_known_def VoteRes_success_field_def VoteRes_term_field_def VoteRes_new_def)
     (simp add: demo_vote_msg_def PeerMsg_vote_res_field_def PeerMsg_srvid_field_def PeerMsg_new_def demo_sizes
      VoteRes_success_field_def VoteRes_term_field_def VoteRes_new_def)

theorem messages_round_trip_witness:
  "\<exists>m b q. PeerMsg_compute_size pb_varint demo_vote_msg = Inr (10, m) \<and> PeerMsg_write_to pb_varint m = Inr b \<and>
     length b = 10 \<and> merge_loop pb_varint (PeerMsg_merge_field pb_varint) PeerMsg_new b = Some (Inr q) \<and>
     PeerMsg_eq q demo_vote_msg"
proof -
  obtain m where m: "PeerMsg_compute_size pb_varint demo_vote_msg = Inr (10, m)" using demo_vote_msg_size(2) by blast
  with messages_round_trip [OF pb_varint_laws, of demo_vote_msg 10 m] demo_vote_msg_size(1) show ?thesis by auto
qed

text \<open>C31. Parsing returns on every input: whatever bytes arrive, merging them into a message ends with a message or an
  error.\<close>

theorem parsing_returns:
  assumes "pb_consumes rt"
  shows "(\<exists>x. merge_loop rt (PeerMsg_merge_field rt) p bs = Some x) \<and>
    (\<exists>x. merge_loop rt (CliReq_merge_field rt) r bs = Some x) \<and>
    (\<exists>x. merge_loop rt (CliRes_merge_field rt) s bs = Some x)"
  using PeerMsg_merge_returns [OF assms] CliReq_merge_returns [OF assms] CliRes_merge_returns [OF assms] by blast

theorem parsing_returns_witness:
  "\<exists>x. merge_loop pb_varint (PeerMsg_merge_field pb_varint) PeerMsg_new [10, 255, 3] = Some x"
  using parsing_returns [OF pb_varint_consumes] by blast

end
