(* ===== verification/Cluster.thy ===== *)
theory Cluster
  imports Single_Node Server_Output Election_Safety Wire_Format
begin

text \<open>
  A cluster: the nodes of \<^verbatim>\<open>server/server.rs\<close>, the connections that their event loops keep between them, and the messages under way,
  printed and parsed by the generated code of \<^verbatim>\<open>serialization.rs\<close>. All nodes read one clock. Messages may be delayed,
  repeated, reordered and lost; connections do not change.
\<close>

section \<open>Nodes and connections\<close>

text \<open>\<open>conn\<close> gives for an end of a connection (a node and the token under which its event loop knows it) the other end. \<open>dialled\<close> are
  the tokens of the peers that a node has connected to (\<^verbatim>\<open>Peer::sock\<close> in \<^verbatim>\<open>traffic_cop.rs\<close>), over which it broadcasts. A token without
  another end belongs to a client.\<close>

record Net =
  members :: "PeerID list"
  conn :: "PeerID \<times> Token \<Rightarrow> (PeerID \<times> Token) option"
  dialled :: "PeerID \<Rightarrow> Token list"

abbreviation peer_at :: "Net \<Rightarrow> PeerID \<Rightarrow> Token \<Rightarrow> PeerID" where
  "peer_at net i k \<equiv> fst (the (conn net (i, k)))"

text \<open>Connections have two ends, both at members, the broadcast token is not one of them, and a node has dialled each peer at most once.\<close>

definition net_ok :: "Net \<Rightarrow> bool" where
  "net_ok net \<longleftrightarrow>
     distinct (members net) \<and>
     (\<forall>x y. conn net x = Some y \<longrightarrow> conn net y = Some x \<and> fst x \<in> set (members net)) \<and>
     (\<forall>i. conn net (i, PEER_BROADCAST) = None) \<and>
     (\<forall>i. inj_on (peer_at net i) (set (dialled net i)))"

lemma net_okD:
  assumes "net_ok net"
  shows "conn net x = Some y \<Longrightarrow> conn net y = Some x" "conn net x = Some y \<Longrightarrow> fst x \<in> set (members net)"
    "conn net (i, PEER_BROADCAST) = None" "inj_on (peer_at net i) (set (dialled net i))" "distinct (members net)"
  using assms unfolding net_ok_def by blast+

record 'db Cluster =
  time :: Timespec
  node :: "PeerID \<Rightarrow> 'db Server"
  sent :: "(Timespec \<times> (PeerID \<times> Token) \<times> bytes) list"

section \<open>Steps\<close>

text \<open>What the event loop of node \<open>i\<close> does with new envelopes (\<^verbatim>\<open>TrafficCop::notify\<close>): a broadcast goes over every dialled
  connection, any other message over its own.\<close>

definition posts :: "Net \<Rightarrow> PeerID \<Rightarrow> Timespec \<Rightarrow> Envelope list \<Rightarrow> (Timespec \<times> (PeerID \<times> Token) \<times> bytes) list" where
  "posts net i t ms =
     concat (map (\<lambda>e. map (\<lambda>k. (t, (i, k), msg e)) (if tok e = PEER_BROADCAST then dialled net i else [tok e])) ms)"

text \<open>An event that can happen at node \<open>i\<close>: its timer, a request on a client connection, or a message that was sent at \<open>ts\<close> from the
  other end of the connection on which it arrives.\<close>

definition may_happen :: "Net \<Rightarrow> 'db Cluster \<Rightarrow> PeerID \<Rightarrow> Event \<Rightarrow> Timespec \<Rightarrow> bool" where
  "may_happen net c i ev ts \<longleftrightarrow>
     (case ev of
        CronEvent \<Rightarrow> True
      | CliEvent env \<Rightarrow> conn net (i, tok env) = None \<and> tok env \<noteq> PEER_BROADCAST
      | PeerEvent env \<Rightarrow> \<exists>(t, src, b) \<in> set (sent c). t = ts \<and> b = msg env \<and> conn net src = Some (i, tok env))"

datatype Label = Tick Timespec | Act PeerID Event Timespec

definition acted :: "Net \<Rightarrow> PeerID \<Rightarrow> 'db Server \<Rightarrow> 'db Cluster \<Rightarrow> 'db Cluster" where
  "acted net i s' c =
     c\<lparr>node := (node c)(i := s'),
       sent := sent c @ posts net i (time c) (drop (length (outbox (node c i))) (outbox s'))\<rparr>"

inductive cluster_step :: "Net \<Rightarrow> 'db Ext \<Rightarrow> 'db Cluster \<Rightarrow> Label \<Rightarrow> 'db Cluster \<Rightarrow> bool" for net E where
  tick: "time c \<le> t \<Longrightarrow> cluster_step net E c (Tick t) (c\<lparr>time := t\<rparr>)"
| act: "i \<in> set (members net) \<Longrightarrow> may_happen net c i ev ts \<Longrightarrow> server_step E (\<lambda>_. time c) ev (node c i) = Inr s' \<Longrightarrow>
    cluster_step net E c (Act i ev ts) (acted net i s' c)"

text \<open>Every member starts as \<^verbatim>\<open>Server::run\<close> makes it, with an address for each member.\<close>

definition cluster_start :: "Net \<Rightarrow> 'db Cluster \<Rightarrow> bool" where
  "cluster_start net c \<longleftrightarrow> sent c = [] \<and>
     (\<forall>i \<in> set (members net). \<exists>pport cport ps d.
        node c i = Server_init pport cport i ps d \<and> length ps = length (members net))"

text \<open>The states that a cluster reaches by steps that satisfy \<open>ok\<close>.\<close>

inductive cluster_run :: "Net \<Rightarrow> 'db Ext \<Rightarrow> ('db Cluster \<Rightarrow> Label \<Rightarrow> 'db Cluster \<Rightarrow> bool) \<Rightarrow> 'db Cluster \<Rightarrow> bool"
  for net E ok where
  start: "cluster_start net c \<Longrightarrow> cluster_run net E ok c"
| step: "cluster_run net E ok c \<Longrightarrow> cluster_step net E c lab c' \<Longrightarrow> ok c lab c' \<Longrightarrow> cluster_run net E ok c'"

text \<open>A step in which a candidate is given no vote that is older than its candidacy (a lease counted from the sending of the vote
  covers the candidate's own), and a leader does not move its lease.\<close>

definition votes_in :: "'db Ext \<Rightarrow> Event \<Rightarrow> bool" where
  "votes_in E ev \<longleftrightarrow>
     (case ev of
        PeerEvent env \<Rightarrow> (case parse_PeerMsg E (msg env) of Inl _ \<Rightarrow> False | Inr m \<Rightarrow> PeerMsg_has_vote_res m)
      | _ \<Rightarrow> False)"

definition timely :: "'db Ext \<Rightarrow> 'db Cluster \<Rightarrow> Label \<Rightarrow> 'db Cluster \<Rightarrow> bool" where
  "timely E c lab c' \<longleftrightarrow>
     (case lab of
        Tick _ \<Rightarrow> True
      | Act i ev ts \<Rightarrow>
          (case state (node c i) of
             Candidate _ _ _ u \<Rightarrow> votes_in E ev \<longrightarrow> u \<le> tadd E ts LEADER_DURATION
           | Leader _ _ _ u \<Rightarrow> is_leader (state (node c' i)) \<longrightarrow> state_until (state (node c' i)) = Some u
           | _ \<Rightarrow> True))"

section \<open>How the role of a node changes in a step\<close>

lemma vote_res_counts_grants:
  assumes "handle_vote_res E (\<lambda>_. t) env i r s = Inr s'" and "state s = Candidate (VoteRes_get_term r) h n u" and "t < u"
    and "state s' \<noteq> Init"
  shows "VoteRes_get_success r"
  using assms by (auto simp: handle_vote_res_def split: if_splits option.splits)

lemma step_role_cases:
  assumes "server_step E (\<lambda>_. t) ev s = Inr s'" and "role_inv s" and "length (peers s) < 510"
  obtains (same) "state s' = state s"
    | (resigned) "state s' = Init \<or> is_follower (state s')"
    | (campaign) trm n where "state s' = Candidate trm [] n (tadd E t LEADER_DURATION)"
    | (counted) env m trm h n u where "ev = PeerEvent env" "parse_PeerMsg E (msg env) = Inr m" "PeerMsg_has_vote_res m"
        "VoteRes_get_success (PeerMsg_get_vote_res m)" "state s = Candidate trm h n u" "t < u" "distinct (h @ [tok env])"
        "state s' = Candidate trm (h @ [tok env]) n u \<or>
         state s' = Leader trm [] n u \<and> length (h @ [tok env]) = length (peers s) div 2 + 1"
    | (leads) trm h n u h' u' where "state s = Leader trm h n u" "state s' = Leader trm h' n u'"
proof -
  have need: "unat n = length (peers s) div 2 + 1" "distinct h" "length h < unat n" if "state s = Candidate trm h n u" for trm h n u
  proof -
    have n: "n = of_nat (length (peers s) div 2 + 1)" using assms(2) that by (simp add: role_inv_def)
    show "unat n = length (peers s) div 2 + 1" unfolding n using assms(3) by (simp only: unat_of_nat) simp
    then show "distinct h" "length h < unat n" using assms(2) that by (auto simp: role_inv_def word_less_nat_alt)
  qed
  show thesis
    using assms(1)
  proof (cases rule: server_step_cases)
    case (vote_res env m)
    let ?r = "PeerMsg_get_vote_res m"
    from vote_res(4) show thesis
    proof (cases rule: handle_vote_res_cases)
      case (elected h n u h' s1)
      have g: "VoteRes_get_success ?r" by (rule vote_res_counts_grants [OF vote_res(4) elected(1)]) (use elected in simp_all)
      have "h' = h @ [tok env]" "tok env \<notin> set h" "length h' = unat n"
        using elected(3,4) need(3) [OF elected(1)] by (auto simp: count_vote_def split: if_splits)
      then show thesis using vote_res g elected need [OF elected(1)] by (intro counted [of env m _ h n u]) auto
    next
      case (counted h n u h' s1)
      have g: "VoteRes_get_success ?r" by (rule vote_res_counts_grants [OF vote_res(4) counted(1)]) (use counted in simp_all)
      show thesis
      proof (cases "tok env \<in> set h")
        case True
        then have "state s' = state s" using counted by (simp add: count_vote_def)
        then show thesis by (rule same)
      next
        case False
        then have "h' = h @ [tok env]" using counted(3) by (auto simp: count_vote_def)
        then show thesis using False vote_res g counted need(2) [OF counted(1)] by (intro that(4) [of env m _ h n u]) auto
      qed
    next
      case (extended h n u h' s1)
      then show thesis by (intro leads) auto
    next
      case (renewing h n u h' s1)
      then show thesis by (intro leads) auto
    qed (use same resigned in simp_all)
  next
    case (vote_req env m)
    then have "state s' = state s \<or> is_follower (state s')"
      by (auto simp: handle_vote_req_def vote_req_decide_def reply_peer_Inr reply_def split: if_splits State.splits option.splits)
    then show thesis using same resigned by blast
  next
    case cron
    then have "state s' = state s \<or> (\<exists>trm n. state s' = Candidate trm [] n (tadd E t LEADER_DURATION))"
      by (auto simp: cron_def become_candidate_def peer_broadcast_def split: if_splits)
    then show thesis using same campaign by blast
  qed (use same in \<open>auto dest: handle_append_state handle_append_res_state handle_cli_state\<close>)
qed

section \<open>The invariant of messages under way\<close>

text \<open>Node \<open>j\<close> stands by node \<open>i\<close> up to \<open>u\<close>: it is that node, or follows it with a lease that long.\<close>

definition supports :: "'db Cluster \<Rightarrow> PeerID \<Rightarrow> Timespec \<Rightarrow> PeerID \<Rightarrow> bool" where
  "supports c i u j \<longleftrightarrow> j = i \<or> (\<exists>trm k a v. state (node c j) = Follower trm i k a v \<and> u \<le> v)"

text \<open>The tokens of clients at node \<open>i\<close>.\<close>

definition client_toks :: "Net \<Rightarrow> PeerID \<Rightarrow> Token set" where
  "client_toks net i = {k. conn net (i, k) = None \<and> k \<noteq> PEER_BROADCAST}"

definition node_ok :: "Net \<Rightarrow> PeerID \<Rightarrow> 'db Server \<Rightarrow> bool" where
  "node_ok net i s \<longleftrightarrow> srv_id s = i \<and> length (peers s) = length (members net) \<and> server_inv s \<and>
     log_all Mutation_known (rep_log s) \<and> waits_on (client_toks net i) s"

text \<open>A vote that was granted at \<open>ts\<close> over the end \<open>src\<close> goes to the node that had dialled this connection, and while the
  lease of the vote lasts, the voter stands by that node.\<close>

definition vote_stands :: "Net \<Rightarrow> 'db Ext \<Rightarrow> 'db Cluster \<Rightarrow> Timespec \<Rightarrow> PeerID \<times> Token \<Rightarrow> PeerMsg \<Rightarrow> bool" where
  "vote_stands net E c ts src m \<longleftrightarrow>
     (\<exists>i k. conn net src = Some (i, k) \<and> k \<in> set (dialled net i) \<and>
        (VoteRes_get_success (PeerMsg_get_vote_res m) \<longrightarrow> time c < tadd E ts LEADER_DURATION \<longrightarrow>
           supports c i (tadd E ts LEADER_DURATION) (fst src)))"

definition message_ok :: "Net \<Rightarrow> 'db Ext \<Rightarrow> 'db Cluster \<Rightarrow> Timespec \<Rightarrow> PeerID \<times> Token \<Rightarrow> PeerMsg \<Rightarrow> bool" where
  "message_ok net E c ts src m \<longleftrightarrow>
     PeerMsg_get_srvid m = fst src \<and> list_all Mutation_known (Append_get_batch (PeerMsg_get_append m)) \<and>
     (PeerMsg_has_vote_req m \<longrightarrow> snd src \<in> set (dialled net (fst src))) \<and>
     (PeerMsg_has_vote_res m \<longrightarrow> vote_stands net E c ts src m)"

definition traffic_ok :: "Net \<Rightarrow> 'db Ext \<Rightarrow> 'db Cluster \<Rightarrow> bool" where
  "traffic_ok net E c \<longleftrightarrow>
     (\<forall>(ts, src, b) \<in> set (sent c). ts \<le> time c \<and>
        (conn net src \<noteq> None \<longrightarrow> (\<exists>m. parse_PeerMsg E b = Inr m \<and> message_ok net E c ts src m)))"

definition cluster_ok :: "Net \<Rightarrow> 'db Ext \<Rightarrow> 'db Cluster \<Rightarrow> bool" where
  "cluster_ok net E c \<longleftrightarrow> (\<forall>i \<in> set (members net). node_ok net i (node c i)) \<and> traffic_ok net E c"

text \<open>Support lasts: a step of any node keeps it while it has not run out.\<close>

lemma supports_acted:
  assumes "supports c i u j" and "time c < u" and "tadd_mono E" and "u \<le> tadd E (time c) LEADER_DURATION"
    and "server_step E (\<lambda>_. time c) ev (node c x) = Inr s'"
  shows "supports (acted net x s' c) i u j"
proof (cases "j = i \<or> j \<noteq> x")
  case True
  then show ?thesis using assms(1) by (auto simp: supports_def acted_def)
next
  case False
  then obtain trm k a v where v: "state (node c x) = Follower trm i k a v" "u \<le> v"
    using assms(1) by (auto simp: supports_def)
  have "state s' = state (node c x) \<or> state s' = Follower trm i k a (tadd E (time c) LEADER_DURATION)"
    using follower_step [OF v(1) _ assms(5)] assms(2) v(2) by simp
  then show ?thesis using False v assms(4) by (auto simp: supports_def acted_def)
qed

lemma tadd_monoD: "tadd_mono E \<Longrightarrow> t \<le> t' \<Longrightarrow> tadd E t d \<le> tadd E t' d"
  by (simp add: tadd_mono_def)

lemma message_ok_acted:
  assumes "message_ok net E c ts src m" and "ts \<le> time c" and "tadd_mono E"
    and "server_step E (\<lambda>_. time c) ev (node c x) = Inr s'"
  shows "message_ok net E (acted net x s' c) ts src m"
  using assms(1) supports_acted [OF _ _ assms(3) tadd_monoD [OF assms(3,2)] assms(4)]
  unfolding message_ok_def vote_stands_def by (fastforce simp: acted_def)

lemma message_ok_tick:
  assumes "message_ok net E c ts src m" and "time c \<le> t"
  shows "message_ok net E (c\<lparr>time := t\<rparr>) ts src m"
  using assms unfolding message_ok_def vote_stands_def supports_def by fastforce

section \<open>Steps keep the invariant\<close>

text \<open>The message that arrives with an event.\<close>

lemma arrives:
  assumes "cluster_ok net E c" and "may_happen net c i (PeerEvent env) ts"
  obtains src m where "conn net src = Some (i, tok env)" "ts \<le> time c" "parse_PeerMsg E (msg env) = Inr m"
    "message_ok net E c ts src m"
  using assms by (fastforce simp: cluster_ok_def traffic_ok_def may_happen_def)

lemma node_ok_step:
  assumes "cluster_ok net E c" and "i \<in> set (members net)" and "may_happen net c i ev ts"
    and "server_step E (\<lambda>_. time c) ev (node c i) = Inr s'"
  shows "node_ok net i s'"
proof -
  have n: "node_ok net i (node c i)" using assms(1,2) by (simp add: cluster_ok_def)
  have "tok env \<in> client_toks net i" if "ev = CliEvent env" for env
    using assms(3) that by (simp add: may_happen_def client_toks_def)
  then have "waits_on (client_toks net i) s'" using step_sends [OF assms(4)] n by (simp add: node_ok_def)
  moreover have "list_all Mutation_known (Append_get_batch (PeerMsg_get_append m))"
    if "ev = PeerEvent env" "parse_PeerMsg E (msg env) = Inr m" for env m
    using arrives [OF assms(1), of i env ts] assms(3) that by (auto simp: message_ok_def)
  then have "log_all Mutation_known (rep_log s')" using step_log_known [OF assms(4)] n by (simp add: node_ok_def)
  moreover have "server_inv s'" using server_step_inv [OF _ assms(4)] n by (simp add: node_ok_def)
  ultimately show ?thesis using server_step_peers [OF assms(4)] n by (simp add: node_ok_def)
qed

lemma typed_srvid: "peer_msg_typed i m \<Longrightarrow> PeerMsg_get_srvid m = i"
  by (auto simp: peer_msg_typed_def PeerMsg_accessors)

lemma norm_bodies:
  "PeerMsg_get_srvid (PeerMsg_norm m) = PeerMsg_get_srvid m"
  "PeerMsg_has_vote_req (PeerMsg_norm m) = PeerMsg_has_vote_req m"
  "PeerMsg_has_vote_res (PeerMsg_norm m) = PeerMsg_has_vote_res m"
  "VoteRes_get_success (PeerMsg_get_vote_res (PeerMsg_norm m)) = VoteRes_get_success (PeerMsg_get_vote_res m)"
  by (auto simp: PeerMsg_accessors PeerMsg_norm_def VoteRes_accessors VoteRes_norm_def split: option.split)

lemma norm_batch_known:
  assumes "PeerMsg_known m"
  shows "list_all Mutation_known (Append_get_batch (PeerMsg_get_append (PeerMsg_norm m)))"
proof -
  have "Mutation_known (Mutation_norm mu)" if "Mutation_known mu" for mu
    using that by (auto simp: Mutation_known_def Mutation_norm_def Version_known_def Version_norm_def option.pred_map comp_def
        elim: option.pred_mono_strong)
  then show ?thesis
    using assms
    by (auto simp: PeerMsg_known_def PeerMsg_accessors PeerMsg_norm_def Append_accessors Append_norm_def Append_known_def
        list.pred_map comp_def elim!: list.pred_mono_strong split: option.split)
qed

text \<open>A peer message that a step sends is in order on every connection over which it goes.\<close>

lemma step_msg_ok:
  assumes "net_ok net" and "cluster_ok net E c" and "may_happen net c i ev ts" and "srv_id (node c i) = i"
    and "step_msg E (\<lambda>_. time c) ev (node c i) s' e m" and "PeerMsg_known m"
    and "k \<in> set (if tok e = PEER_BROADCAST then dialled net i else [tok e])"
  shows "message_ok net E (acted net i s' c) (time c) (i, k) (PeerMsg_norm m)"
proof -
  have typed: "PeerMsg_get_srvid m = i" and req: "PeerMsg_has_vote_req m \<Longrightarrow> tok e = PEER_BROADCAST"
    using assms(4,5) by (auto simp: step_msg_def dest: typed_srvid)
  have "vote_stands net E (acted net i s' c) (time c) (i, k) (PeerMsg_norm m)" if vr: "PeerMsg_has_vote_res m"
  proof -
    obtain env q where ev: "ev = PeerEvent env" "tok e = tok env" "parse_PeerMsg E (msg env) = Inr q" "PeerMsg_has_vote_req q"
      and grant: "VoteRes_get_success (PeerMsg_get_vote_res m) \<longrightarrow> PeerMsg_get_srvid q = i \<or>
        (\<exists>trm k a. state s' = Follower trm (PeerMsg_get_srvid q) k a (tadd E (time c) LEADER_DURATION))"
      using assms(5) vr unfolding step_msg_def assms(4) by blast
    from assms(3) ev(1) have "may_happen net c i (PeerEvent env) ts" by simp
    from arrives [OF assms(2) this] obtain src q' where "conn net src = Some (i, tok env)" "parse_PeerMsg E (msg env) = Inr q'"
      "message_ok net E c ts src q'" .
    then have src: "conn net src = Some (i, tok env)" "message_ok net E c ts src q" using ev(3) by simp_all
    have ends: "conn net (i, tok env) = Some src" by (rule net_okD(1) [OF assms(1) src(1)])
    then have "tok env \<noteq> PEER_BROADCAST" using net_okD(3) [OF assms(1), of i] by auto
    then have k: "k = tok env" using assms(7) ev(2) by simp
    have q: "PeerMsg_get_srvid q = fst src" "snd src \<in> set (dialled net (fst src))"
      using src(2) ev(4) by (simp_all add: message_ok_def)
    have "supports (acted net i s' c) (fst src) (tadd E (time c) LEADER_DURATION) i"
      if "VoteRes_get_success (PeerMsg_get_vote_res m)"
      using grant [rule_format, OF that] q(1) by (auto simp: supports_def acted_def)
    then show ?thesis
      unfolding vote_stands_def norm_bodies k using ends q(2) by (intro exI [of _ "fst src"] exI [of _ "snd src"]) simp
  qed
  moreover have "k \<in> set (dialled net i)" if "PeerMsg_has_vote_req m" using req [OF that] assms(7) by simp
  ultimately show ?thesis
    using norm_batch_known [OF assms(6)] typed unfolding message_ok_def norm_bodies fst_conv snd_conv by blast
qed

lemma sends_new:
  assumes "sends E P C s s'" and "e \<in> set (drop (length (outbox s)) (outbox s'))"
  shows "(\<exists>m. write_PeerMsg E m = Inr (msg e) \<and> P e m) \<or> (\<exists>r. write_CliRes E r = Inr (msg e) \<and> C e r)"
  using assms by (auto simp: sends_def)

lemma in_posts:
  "(t, src, b) \<in> set (posts net i u ms) \<longleftrightarrow>
     (\<exists>e k. e \<in> set ms \<and> t = u \<and> src = (i, k) \<and> b = msg e \<and>
        k \<in> set (if tok e = PEER_BROADCAST then dialled net i else [tok e]))"
  unfolding posts_def by fastforce

lemma posted_ok:
  assumes "net_ok net" and "cluster_ok net E c" and "i \<in> set (members net)" and "may_happen net c i ev ts"
    and "server_step E (\<lambda>_. time c) ev (node c i) = Inr s'" and "pb_laws rt" and "wire_ext rt E"
    and "(t, src, b) \<in> set (posts net i (time c) (drop (length (outbox (node c i))) (outbox s')))"
  shows "t = time c \<and> (conn net src \<noteq> None \<longrightarrow>
    (\<exists>m. parse_PeerMsg E b = Inr m \<and> message_ok net E (acted net i s' c) t src m))"
proof -
  have id: "srv_id (node c i) = i" and w: "waits_on (client_toks net i) (node c i)"
    using assms(2,3) by (simp_all add: cluster_ok_def node_ok_def)
  have known: "log_all Mutation_known (rep_log s')" using node_ok_step [OF assms(2-5)] by (simp add: node_ok_def)
  have "tok env \<in> client_toks net i" if "ev = CliEvent env" for env
    using assms(4) that by (simp add: may_happen_def client_toks_def)
  then have sd: "sends E (step_msg E (\<lambda>_. time c) ev (node c i) s') (answers_on (client_toks net i)) (node c i) s'"
    using step_sends [OF assms(5) w] by blast
  obtain e k where e: "e \<in> set (drop (length (outbox (node c i))) (outbox s'))" "t = time c" "src = (i, k)" "b = msg e"
    and k: "k \<in> set (if tok e = PEER_BROADCAST then dialled net i else [tok e])"
    using assms(8) unfolding in_posts by blast
  from sends_new [OF sd e(1)] consider m where "write_PeerMsg E m = Inr b" "step_msg E (\<lambda>_. time c) ev (node c i) s' e m"
    | r where "answers_on (client_toks net i) e r"
    using e(4) by blast
  then show ?thesis
  proof cases
    case (1 m)
    then have pk: "PeerMsg_known m" using known by (simp add: step_msg_def)
    have "parse_PeerMsg E b = Inr (PeerMsg_norm m)" by (rule peer_message_parses [OF assms(6,7,7) pk 1(1)])
    then show ?thesis using step_msg_ok [OF assms(1,2,4) id 1(2) pk k] e by blast
  next
    case (2 r)
    then show ?thesis using e k by (auto simp: answers_on_def client_toks_def)
  qed
qed

lemma cluster_ok_step:
  assumes "net_ok net" and "pb_laws rt" and "wire_ext rt E" and "tadd_mono E" and "cluster_ok net E c"
    and "cluster_step net E c lab c'"
  shows "cluster_ok net E c'"
  using assms(6)
proof cases
  case (tick t)
  then show ?thesis using assms(5) message_ok_tick [of net E c]
    unfolding cluster_ok_def traffic_ok_def by (fastforce intro: order_trans)
next
  case (act i ev ts s')
  have "node_ok net j (node c' j)" if "j \<in> set (members net)" for j
    using that assms(5) node_ok_step [OF assms(5) act(3-5)] act(2) by (auto simp: cluster_ok_def acted_def)
  moreover have "traffic_ok net E c'"
    unfolding traffic_ok_def
  proof clarify
    fix t j k b
    assume "(t, (j, k), b) \<in> set (sent c')"
    then consider "(t, (j, k), b) \<in> set (sent c)"
      | "(t, (j, k), b) \<in> set (posts net i (time c) (drop (length (outbox (node c i))) (outbox s')))"
      using act(2) by (auto simp: acted_def)
    then have "t \<le> time c \<and> (conn net (j, k) \<noteq> None \<longrightarrow> (\<exists>m. parse_PeerMsg E b = Inr m \<and> message_ok net E c' t (j, k) m))"
    proof cases
      case 1
      then have "t \<le> time c" "conn net (j, k) \<noteq> None \<longrightarrow> (\<exists>m. parse_PeerMsg E b = Inr m \<and> message_ok net E c t (j, k) m)"
        using assms(5) by (auto simp: cluster_ok_def traffic_ok_def)
      then show ?thesis using message_ok_acted [OF _ _ assms(4) act(5)] act(2) by blast
    next
      case 2
      then show ?thesis using posted_ok [OF assms(1,5) act(3-5) assms(2,3) 2] act(2) order_refl by blast
    qed
    then show "t \<le> time c' \<and> (conn net (j, k) \<noteq> None \<longrightarrow> (\<exists>m. parse_PeerMsg E b = Inr m \<and> message_ok net E c' t (j, k) m))"
      using act(2) by (simp add: acted_def)
  qed
  ultimately show ?thesis by (simp add: cluster_ok_def)
qed

lemma cluster_run_ok:
  assumes "net_ok net" and "pb_laws rt" and "wire_ext rt E" and "tadd_mono E" and "cluster_run net E ok c"
  shows "cluster_ok net E c"
  using assms(5)
proof induction
  case (start c)
  have "node_ok net i (node c i)" if i: "i \<in> set (members net)" for i
  proof -
    obtain pport cport ps d where s: "node c i = Server_init pport cport i ps d" and ps: "length ps = length (members net)"
      using start i unfolding cluster_start_def by blast
    have "srv_id (node c i) = i" "peers (node c i) = ps" "rep_log (node c i) = empty_log (length ps)" "srv_pending (node c i) = []"
      using s by (simp_all add: Server_init_def)
    then show ?thesis
      using ps Server_init_inv [of pport cport i ps d] s by (simp add: node_ok_def log_all_def empty_log_def waits_on_def)
  qed
  moreover have "sent c = []" using start by (simp add: cluster_start_def)
  ultimately show ?case by (simp add: cluster_ok_def traffic_ok_def)
next
  case (step c lab c')
  then show ?case using cluster_ok_step [OF assms(1-4)] by blast
qed

section \<open>Leases that a majority stands by\<close>

text \<open>Every connection of \<open>H\<close> leads to a node that stands by \<open>i\<close> up to \<open>u\<close>, unless \<open>u\<close> is over.\<close>

definition backed :: "Net \<Rightarrow> 'db Ext \<Rightarrow> 'db Cluster \<Rightarrow> PeerID \<Rightarrow> Timespec \<Rightarrow> Token list \<Rightarrow> bool" where
  "backed net E c i u H \<longleftrightarrow>
     distinct H \<and> u \<le> tadd E (time c) LEADER_DURATION \<and>
     (\<forall>k \<in> set H. k \<in> set (dialled net i) \<and> conn net (i, k) \<noteq> None \<and> (time c < u \<longrightarrow> supports c i u (peer_at net i k)))"

definition lease_ok :: "Net \<Rightarrow> 'db Ext \<Rightarrow> 'db Cluster \<Rightarrow> PeerID \<Rightarrow> bool" where
  "lease_ok net E c i \<longleftrightarrow>
     (case state (node c i) of
        Candidate _ h _ u \<Rightarrow> backed net E c i u h
      | Leader _ _ _ u \<Rightarrow> \<exists>H. length H = length (members net) div 2 + 1 \<and> backed net E c i u H
      | _ \<Rightarrow> True)"

lemma backed_acted:
  assumes "backed net E c i u H" and "tadd_mono E" and "server_step E (\<lambda>_. time c) ev (node c x) = Inr s'"
  shows "backed net E (acted net x s' c) i u H"
proof -
  have u: "u \<le> tadd E (time c) LEADER_DURATION" using assms(1) by (simp add: backed_def)
  show ?thesis
    using assms(1) supports_acted [OF _ _ assms(2) u assms(3), of i _ net] by (auto simp: backed_def acted_def)
qed

lemma backed_tick:
  assumes "backed net E c i u H" and "tadd_mono E" and "time c \<le> t"
  shows "backed net E (c\<lparr>time := t\<rparr>) i u H"
proof -
  have "u \<le> tadd E t LEADER_DURATION"
    using assms(1) tadd_monoD [OF assms(2,3)] order_trans unfolding backed_def by blast
  then show ?thesis using assms(1,3) by (auto simp: backed_def supports_def)
qed

text \<open>A vote that a candidate counts in time backs its lease.\<close>

lemma counted_backed:
  assumes "net_ok net" and "cluster_ok net E c" and "backed net E c i u h" and "time c < u"
    and "may_happen net c i (PeerEvent env) ts" and "parse_PeerMsg E (msg env) = Inr m" and "PeerMsg_has_vote_res m"
    and "VoteRes_get_success (PeerMsg_get_vote_res m)" and "u \<le> tadd E ts LEADER_DURATION" and "distinct (h @ [tok env])"
  shows "backed net E c i u (h @ [tok env])"
proof -
  from arrives [OF assms(2,5)] obtain src m' where src: "conn net src = Some (i, tok env)"
    and m': "parse_PeerMsg E (msg env) = Inr m'" "message_ok net E c ts src m'" .
  have "vote_stands net E c ts src m" using m' assms(6,7) by (simp add: message_ok_def)
  then have stands: "tok env \<in> set (dialled net i)" "supports c i (tadd E ts LEADER_DURATION) (fst src)"
    using src assms(4,8,9) by (auto simp: vote_stands_def)
  have "supports c i u (fst src)" using stands(2) assms(9) unfolding supports_def by (meson order_trans)
  then show ?thesis
    using assms(3,10) stands(1) net_okD(1) [OF assms(1) src] by (auto simp: backed_def)
qed

lemma lease_ok_acting:
  assumes "net_ok net" and "tadd_mono E" and "cluster_ok net E c" and "lease_ok net E c i" and "length (members net) < 510"
    and "i \<in> set (members net)" and "may_happen net c i ev ts" and st: "server_step E (\<lambda>_. time c) ev (node c i) = Inr s'"
    and "timely E c (Act i ev ts) (acted net i s' c)"
  shows "lease_ok net E (acted net i s' c) i"
proof -
  let ?c = "acted net i s' c"
  have n: "state (node ?c i) = state s'" "time ?c = time c" by (simp_all add: acted_def)
  have ok: "role_inv (node c i)" "length (peers (node c i)) = length (members net)"
    using assms(3,6) by (simp_all add: cluster_ok_def node_ok_def server_inv_def)
  note keep = backed_acted [OF _ assms(2) st, of net]
  from st ok(1) show ?thesis
  proof (rule step_role_cases)
    show "length (peers (node c i)) < 510" using ok(2) assms(5) by simp
  next
    assume "state s' = state (node c i)"
    then show ?thesis using assms(4) keep n by (auto simp: lease_ok_def split: State.splits)
  next
    assume "state s' = Init \<or> is_follower (state s')"
    then show ?thesis using n by (auto simp: lease_ok_def split: State.splits)
  next
    fix trm nd
    assume "state s' = Candidate trm [] nd (tadd E (time c) LEADER_DURATION)"
    then show ?thesis using n by (simp add: lease_ok_def backed_def)
  next
    fix env m trm h nd u
    assume ev: "ev = PeerEvent env" "parse_PeerMsg E (msg env) = Inr m" "PeerMsg_has_vote_res m"
        "VoteRes_get_success (PeerMsg_get_vote_res m)"
      and s: "state (node c i) = Candidate trm h nd u" and u: "time c < u" and d: "distinct (h @ [tok env])"
      and s': "state s' = Candidate trm (h @ [tok env]) nd u \<or>
         state s' = Leader trm [] nd u \<and> length (h @ [tok env]) = length (peers (node c i)) div 2 + 1"
    have "u \<le> tadd E ts LEADER_DURATION" using assms(9) s ev by (simp add: timely_def votes_in_def)
    moreover have "backed net E c i u h" using assms(4) s by (simp add: lease_ok_def)
    ultimately have "backed net E ?c i u (h @ [tok env])"
      using counted_backed [OF assms(1,3) _ u _ ev(2-4) _ d] assms(7) ev(1) keep by blast
    then show ?thesis
      using s'
    proof (elim disjE conjE)
      assume "state s' = Candidate trm (h @ [tok env]) nd u"
      then show ?thesis using \<open>backed net E ?c i u (h @ [tok env])\<close> n by (simp add: lease_ok_def)
    next
      assume "state s' = Leader trm [] nd u" "length (h @ [tok env]) = length (peers (node c i)) div 2 + 1"
      then show ?thesis
        using \<open>backed net E ?c i u (h @ [tok env])\<close> n ok(2) unfolding lease_ok_def by (auto intro!: exI [of _ "h @ [tok env]"])
    qed
  next
    fix trm h nd u h' u'
    assume s: "state (node c i) = Leader trm h nd u" and s': "state s' = Leader trm h' nd u'"
    have "u' = u" using assms(9) s s' n by (simp add: timely_def)
    then show ?thesis using assms(4) s s' n keep by (fastforce simp: lease_ok_def)
  qed
qed

lemma lease_ok_run:
  assumes "net_ok net" and "pb_laws rt" and "wire_ext rt E" and "tadd_mono E" and "length (members net) < 510"
    and "cluster_run net E (timely E) c"
  shows "\<forall>i \<in> set (members net). lease_ok net E c i"
  using assms(6)
proof induction
  case (start c)
  then show ?case by (fastforce simp: cluster_start_def lease_ok_def Server_init_def)
next
  case (step c lab c')
  have ok: "cluster_ok net E c" by (rule cluster_run_ok [OF assms(1-4) step(1)])
  show ?case
    using step(2)
  proof cases
    case (tick t)
    then show ?thesis using step.IH backed_tick [OF _ assms(4)] by (fastforce simp: lease_ok_def split: State.splits)
  next
    case (act i ev ts s')
    have "lease_ok net E c' j" if j: "j \<in> set (members net)" for j
    proof (cases "j = i")
      case True
      then show ?thesis using lease_ok_acting [OF assms(1,4) ok _ assms(5) act(3-5)] step act by simp
    next
      case False
      then have "node c' j = node c j" using act(2) by (simp add: acted_def)
      then show ?thesis
        using step.IH j backed_acted [OF _ assms(4) act(5), of net] act(2)
        by (fastforce simp: lease_ok_def split: State.splits)
    qed
    then show ?thesis by blast
  qed
qed

section \<open>Two majorities meet\<close>

lemma majorities_meet:
  assumes "finite M" and "A \<subseteq> M" and "B \<subseteq> M" and "card M div 2 < card A" and "card M div 2 < card B"
  shows "\<exists>x. x \<in> A \<and> x \<in> B"
proof (rule ccontr)
  assume "\<nexists>x. x \<in> A \<and> x \<in> B"
  then have "A \<inter> B = {}" by blast
  then have "card (A \<union> B) = card A + card B" using assms(1-3) by (meson card_Un_disjoint finite_subset)
  moreover have "card (A \<union> B) \<le> card M" using assms(1-3) by (simp add: card_mono)
  ultimately show False using assms(4,5) by linarith
qed

text \<open>The peers behind the connections of a majority.\<close>

lemma backed_peers:
  assumes "net_ok net" and "backed net E c i u H" and "length H = length (members net) div 2 + 1"
  shows "peer_at net i ` set H \<subseteq> set (members net)" and "card (set (members net)) div 2 < card (peer_at net i ` set H)"
proof -
  show "peer_at net i ` set H \<subseteq> set (members net)"
  proof clarify
    fix k assume "k \<in> set H"
    then obtain y where "conn net (i, k) = Some y" using assms(2) by (auto simp: backed_def)
    then show "peer_at net i k \<in> set (members net)" using net_okD(1,2) [OF assms(1)] by (metis option.sel)
  qed
  have "set H \<subseteq> set (dialled net i)" "distinct H" using assms(2) by (auto simp: backed_def)
  then have "card (peer_at net i ` set H) = length H"
    using net_okD(4) [OF assms(1), of i] by (metis card_image distinct_card inj_on_subset)
  then show "card (set (members net)) div 2 < card (peer_at net i ` set H)"
    using assms(3) distinct_card [OF net_okD(5) [OF assms(1)]] by simp
qed

end
