(* ===== verification/Two_Leaders.thy ===== *)
theory Two_Leaders
  imports Cluster
begin

text \<open>
  A cluster of three nodes that runs on encoded messages: the property of \<open>Cluster\<close> is applied to it, and a run is
  given in which two nodes lead at the same time, because \<^verbatim>\<open>handle_vote_res\<close> starts an extended lease at the
  arrival of a vote and not at its sending.
\<close>

section \<open>Three nodes\<close>

abbreviation abc_ext :: "(bytes \<Rightarrow> bytes option) Ext" where
  "abc_ext \<equiv> wire_mem pb_varint"

lemma wire_mem_mono: "tadd_mono (wire_mem rt)"
  by (auto simp: tadd_mono_def less_eq_Timespec_def)

text \<open>Each node has dialled \<open>a\<close>, \<open>b\<close> and \<open>c\<close> (itself included, as its list of peers says) under the tokens 2, 3 and 4; the connections
  that \<open>a\<close>, \<open>b\<close> and \<open>c\<close> have dialled to it are its tokens 5, 6 and 7.\<close>

definition abc_end :: "Token \<Rightarrow> Token \<Rightarrow> (PeerID \<times> Token) option" where
  "abc_end k j =
     (if k = 2 then Some (''a'', 5 + j) else if k = 3 then Some (''b'', 5 + j) else if k = 4 then Some (''c'', 5 + j)
      else if k = 5 then Some (''a'', 2 + j) else if k = 6 then Some (''b'', 2 + j) else if k = 7 then Some (''c'', 2 + j)
      else None)"

fun abc_conn :: "PeerID \<times> Token \<Rightarrow> (PeerID \<times> Token) option" where
  "abc_conn (i, k) =
     (if i = ''a'' then abc_end k 0 else if i = ''b'' then abc_end k 1 else if i = ''c'' then abc_end k 2 else None)"

definition abc_net :: Net where
  "abc_net =
     \<lparr>members = [''a'', ''b'', ''c''], conn = abc_conn,
      dialled = (\<lambda>i. if i \<in> set [''a'', ''b'', ''c''] then [2, 3, 4] else [])\<rparr>"

definition abc_start :: "(bytes \<Rightarrow> bytes option) Cluster" where
  "abc_start =
     \<lparr>time = Timespec 0 0, node = (\<lambda>i. Server_init 1 2 i [''a'', ''b'', ''c''] Map.empty), sent = []\<rparr>"

lemma abc_conn_sym:
  assumes "abc_conn x = Some y"
  shows "abc_conn y = Some x" and "fst x \<in> set [''a'', ''b'', ''c'']"
proof -
  obtain i k where x: "x = (i, k)" by fastforce
  have i: "i = ''a'' \<or> i = ''b'' \<or> i = ''c''" using assms x by (simp split: if_splits)
  have k: "k = 2 \<or> k = 3 \<or> k = 4 \<or> k = 5 \<or> k = 6 \<or> k = 7" using assms x by (simp add: abc_end_def split: if_splits)
  have "abc_conn (the (abc_conn (i, k))) = Some (i, k)"
    using i k by (elim disjE) (simp_all add: abc_end_def)
  then show "abc_conn y = Some x" using assms x by simp
  show "fst x \<in> set [''a'', ''b'', ''c'']" using i x by simp
qed

lemma abc_net_ok: "net_ok abc_net"
proof -
  have "conn abc_net y = Some x \<and> fst x \<in> set (members abc_net)" if "conn abc_net x = Some y" for x y
    using abc_conn_sym [of x y] that unfolding abc_net_def Net.select_convs by blast
  moreover have "conn abc_net (i, PEER_BROADCAST) = None" for i
    by (simp add: abc_net_def abc_end_def PEER_BROADCAST_def)
  moreover have "inj_on (peer_at abc_net i) (set (dialled abc_net i))" for i
    by (simp add: abc_net_def abc_end_def inj_on_def)
  moreover have "distinct (members abc_net)" by (simp add: abc_net_def)
  ultimately show ?thesis unfolding net_ok_def by blast
qed

lemma abc_conn_tok: "abc_conn x = Some (j, k) \<Longrightarrow> k \<noteq> PEER_BROADCAST"
  using net_okD(3) [OF abc_net_ok, of j] abc_conn_sym(1) [of x "(j, k)"] unfolding abc_net_def Net.select_convs by fastforce

declare abc_conn.simps [simp del]

lemma abc_start_ok: "cluster_start abc_net abc_start"
  unfolding cluster_start_def abc_start_def abc_net_def by fastforce

text \<open>The two messages of the run and their bytes.\<close>

definition request_msg :: "PeerID \<Rightarrow> Term \<Rightarrow> PeerMsg" where
  "request_msg i t = PeerMsg_set_vote_req
     (VoteReq_set_last_learned_txid 0 (VoteReq_set_last_learned_term 0 (VoteReq_set_last_accepted_txid 0
       (VoteReq_set_last_accepted_term 0 (VoteReq_set_term t VoteReq_new)))))
     (PeerMsg_set_srvid i PeerMsg_new)"

definition grant_msg :: "PeerID \<Rightarrow> Term \<Rightarrow> PeerMsg" where
  "grant_msg i t = PeerMsg_set_vote_res (VoteRes_set_success True (VoteRes_set_term t VoteRes_new))
     (PeerMsg_set_srvid i PeerMsg_new)"

definition wire_bytes :: "PeerMsg \<Rightarrow> bytes" where
  "wire_bytes m = (case write_PeerMsg abc_ext m of Inl _ \<Rightarrow> [] | Inr b \<Rightarrow> b)"

lemma abc_messages:
  "PeerMsg_known (request_msg i t)" "PeerMsg_known (grant_msg i t)"
  "PeerMsg_norm (request_msg i t) = request_msg i t" "PeerMsg_norm (grant_msg i t) = grant_msg i t"
  "PeerMsg_get_srvid (request_msg i t) = i" "PeerMsg_get_srvid (grant_msg i t) = i"
  "PeerMsg_has_vote_req (request_msg i t)" "\<not> PeerMsg_has_vote_res (request_msg i t)" "PeerMsg_has_vote_res (grant_msg i t)"
  "VoteReq_get_term (PeerMsg_get_vote_req (request_msg i t)) = t"
  "VoteReq_get_last_learned_term (PeerMsg_get_vote_req (request_msg i t)) = 0"
  "VoteReq_get_last_accepted_txid (PeerMsg_get_vote_req (request_msg i t)) = 0"
  "VoteRes_get_term (PeerMsg_get_vote_res (grant_msg i t)) = t" "VoteRes_get_success (PeerMsg_get_vote_res (grant_msg i t))"
  by (simp_all add: request_msg_def grant_msg_def PeerMsg_known_def VoteReq_known_def VoteRes_known_def PeerMsg_norm_def
      VoteReq_norm_def VoteRes_norm_def PeerMsg_accessors VoteReq_accessors VoteRes_accessors)

lemma abc_prints:
  assumes "i \<in> set [''a'', ''b'', ''c'']" and "t \<in> {1, 2}"
  shows "write_PeerMsg abc_ext (request_msg i t) = Inr (wire_bytes (request_msg i t))"
    and "write_PeerMsg abc_ext (grant_msg i t) = Inr (wire_bytes (grant_msg i t))"
proof -
  have it: "i = ''a'' \<or> i = ''b'' \<or> i = ''c''" "t = 1 \<or> t = 2" using assms by auto
  have ok: "write_PeerMsg abc_ext m = Inr (wire_bytes m)"
    if "PeerMsg_is_initialized m" "PeerMsg_known m" "\<exists>n m'. PeerMsg_compute_size pb_varint m = Inr (n, m')" for m
    using that PeerMsg_wire [OF pb_varint_laws] unfolding wire_ok_def
    by (fastforce simp: wire_bytes_def wire_mem_def write_with_def)
  have init: "PeerMsg_is_initialized (request_msg i t)" "PeerMsg_is_initialized (grant_msg i t)"
    by (simp_all add: request_msg_def grant_msg_def PeerMsg_is_initialized_def PeerMsg_accessors)
  have "\<exists>n m'. PeerMsg_compute_size pb_varint (request_msg i t) = Inr (n, m')"
    using it
    by (elim disjE) (simp_all add: request_msg_def PeerMsg_accessors VoteReq_accessors VoteReq_compute_size_def demo_sizes)
  then show "write_PeerMsg abc_ext (request_msg i t) = Inr (wire_bytes (request_msg i t))"
    using ok init(1) abc_messages(1) by blast
  have "\<exists>n m'. PeerMsg_compute_size pb_varint (grant_msg i t) = Inr (n, m')"
    using it by (elim disjE) (simp_all add: grant_msg_def PeerMsg_accessors VoteRes_accessors demo_sizes)
  then show "write_PeerMsg abc_ext (grant_msg i t) = Inr (wire_bytes (grant_msg i t))"
    using ok init(2) abc_messages(2) by blast
qed

lemma abc_parses:
  assumes "i \<in> set [''a'', ''b'', ''c'']" and "t \<in> {1, 2}"
  shows "parse_PeerMsg abc_ext (wire_bytes (request_msg i t)) = Inr (request_msg i t)"
    and "parse_PeerMsg abc_ext (wire_bytes (grant_msg i t)) = Inr (grant_msg i t)"
  using peer_message_parses [OF pb_varint_laws wire_mem_ext wire_mem_ext _ abc_prints(1) [OF assms]]
    peer_message_parses [OF pb_varint_laws wire_mem_ext wire_mem_ext _ abc_prints(2) [OF assms]]
  by (simp_all add: abc_messages)

section \<open>Steps of the three nodes\<close>

text \<open>The nodes before anything is replicated, and what a step at one of them changes: its role and the messages under way.\<close>

definition abc_ok :: "'db Cluster \<Rightarrow> bool" where
  "abc_ok c \<longleftrightarrow> (\<forall>i \<in> set [''a'', ''b'', ''c'']. srv_id (node c i) = i \<and> length (peers (node c i)) = 3 \<and>
     rep_log (node c i) = empty_log 3)"

definition role :: "'db Cluster \<Rightarrow> PeerID \<Rightarrow> State \<times> Term" where
  "role c i = (state (node c i), highest_term (node c i))"

definition moved ::
  "'db Cluster \<Rightarrow> PeerID \<Rightarrow> State \<times> Term \<Rightarrow> (Timespec \<times> (PeerID \<times> Token) \<times> bytes) set \<Rightarrow> 'db Cluster \<Rightarrow> bool" where
  "moved c i r M c' \<longleftrightarrow> abc_ok c' \<and> time c' = time c \<and> role c' = (role c)(i := r) \<and> set (sent c) \<union> M \<subseteq> set (sent c')"

lemma moved_acted:
  assumes "abc_ok c" and "i \<in> set [''a'', ''b'', ''c'']" and "outbox s' = outbox (node c i) @ ms"
    and "srv_id s' = srv_id (node c i)" and "peers s' = peers (node c i)" and "rep_log s' = rep_log (node c i)"
    and "role c' = (role c)(i := (state s', highest_term s'))" and "c' = acted abc_net i s' c"
  shows "moved c i (state s', highest_term s') (set (posts abc_net i (time c) ms)) c'"
  using assms by (auto simp: moved_def abc_ok_def acted_def)

lemma abc_act:
  assumes "abc_ok c" and "i \<in> set [''a'', ''b'', ''c'']" and "may_happen abc_net c i ev ts"
    and "server_step E (\<lambda>_. time c) ev (node c i) = Inr s'" and "outbox s' = outbox (node c i) @ ms"
    and "rep_log s' = rep_log (node c i)"
  shows "\<exists>c'. cluster_step abc_net E c (Act i ev ts) c' \<and>
    moved c i (state s', highest_term s') (set (posts abc_net i (time c) ms)) c'"
proof -
  have "cluster_step abc_net E c (Act i ev ts) (acted abc_net i s' c)"
    using cluster_step.act [of i abc_net c ev ts E s'] assms(2-4) by (simp add: abc_net_def)
  moreover have "role (acted abc_net i s' c) = (role c)(i := (state s', highest_term s'))"
    by (auto simp: role_def acted_def)
  ultimately show ?thesis
    using moved_acted [OF assms(1,2,5) _ _ assms(6)] server_step_peers [OF assms(4)] by blast
qed

text \<open>A message as the event loop of the receiver hands it on.\<close>

definition recv :: "Token \<Rightarrow> bytes \<Rightarrow> Event" where
  "recv k b = PeerEvent \<lparr>address = Some ([127, 0, 0, 1], 7777), tok = k, msg = b\<rparr>"

lemma may_recv: "(ts, src, b) \<in> set (sent c) \<Longrightarrow> abc_conn src = Some (i, k) \<Longrightarrow> may_happen abc_net c i (recv k b) ts"
  by (auto simp: may_happen_def recv_def abc_net_def)

lemma abc_nodeD:
  assumes "abc_ok c" and "i \<in> set [''a'', ''b'', ''c'']"
  shows "srv_id (node c i) = i" "length (peers (node c i)) = 3" "rep_log (node c i) = empty_log 3"
  using assms unfolding abc_ok_def by blast+

lemma sent_requests:
  assumes "abc_ok c" and "i \<in> set [''a'', ''b'', ''c'']" and "rep_log s = empty_log 3" and "srv_id s = i"
  shows "vote_request s t = request_msg i t" and "vote_reply s t True = grant_msg i t"
  using assms by (simp_all add: vote_request_def vote_reply_def request_msg_def grant_msg_def empty_log_def)

text \<open>A node without a lease campaigns.\<close>

lemma abc_campaign:
  assumes "abc_ok c" and i: "i \<in> set [''a'', ''b'', ''c'']" and "role c i = (st, h)" and "\<not> valid_leader st (time c)"
    and "\<not> valid_candidate st (time c)" and "h = 0 \<or> h = 1"
  shows "\<exists>c'. cluster_step abc_net abc_ext c (Act i CronEvent ts) c' \<and>
    moved c i (Candidate (h + 1) [] 2 (Timespec (sec (time c) + 12) (nsec (time c))), h + 1)
      {(time c, (i, k), wire_bytes (request_msg i (h + 1))) | k. k \<in> {2, 3, 4}} c'"
proof -
  note n = abc_nodeD [OF assms(1) i]
  have st: "state (node c i) = st" "highest_term (node c i) = h" using assms(3) by (simp_all add: role_def)
  let ?b = "wire_bytes (request_msg i (h + 1))"
  let ?s = "(node c i)\<lparr>highest_term := h + 1, state := Candidate (h + 1) [] 2 (Timespec (sec (time c) + 12) (nsec (time c)))\<rparr>"
  have h: "h + 1 \<in> {1, 2}" "checked_add h 1 = Inr (h + 1)" using assms(6) by (auto simp: checked_add_def)
  have "become_candidate abc_ext (\<lambda>_. time c) (node c i) = Inr ?s"
    using st assms(4,5) h n(2) by (simp add: become_candidate_def LEADER_DURATION_def)
  moreover have "write_PeerMsg abc_ext (vote_request ?s (h + 1)) = Inr ?b"
    using sent_requests(1) [OF assms(1) i, of ?s] n abc_prints(1) [OF i h(1)] by simp
  ultimately have "server_step abc_ext (\<lambda>_. time c) CronEvent (node c i) = Inr (peer_broadcast ?b ?s)"
    by (simp add: server_step_def cron_def less_Timespec_def)
  from abc_act [OF assms(1) i _ this, of ts "[\<lparr>address = None, tok = PEER_BROADCAST, msg = ?b\<rparr>]"]
  show ?thesis using i by (auto simp: peer_broadcast_def may_happen_def posts_def abc_net_def moved_def)
qed

text \<open>A leader close to the end of its lease asks again.\<close>

lemma abc_remind:
  assumes "abc_ok c" and i: "i \<in> set [''a'', ''b'', ''c'']" and "role c i = (Leader t h 2 u, ht)" and "time c < u"
    and "u \<le> Timespec (sec (time c) + 6) (nsec (time c))" and t: "t \<in> {1, 2}"
  shows "\<exists>c'. cluster_step abc_net abc_ext c (Act i CronEvent ts) c' \<and>
    moved c i (role c i) {(time c, (i, k), wire_bytes (request_msg i t)) | k. k \<in> {2, 3, 4}} c'"
proof -
  note n = abc_nodeD [OF assms(1) i]
  let ?b = "wire_bytes (request_msg i t)"
  have st: "state (node c i) = Leader t h 2 u" using assms(3) by (simp add: role_def)
  have "write_PeerMsg abc_ext (vote_request (node c i) t) = Inr ?b"
    using sent_requests(1) [OF assms(1) i, of "node c i"] n abc_prints(1) [OF i t] by simp
  then have "server_step abc_ext (\<lambda>_. time c) CronEvent (node c i) = Inr (peer_broadcast ?b (node c i))"
    using st assms(4,5) by (simp add: server_step_def cron_def become_candidate_def LEADER_REFRESH_def)
  from abc_act [OF assms(1) i _ this, of ts "[\<lparr>address = None, tok = PEER_BROADCAST, msg = ?b\<rparr>]"]
  show ?thesis using i by (auto simp: peer_broadcast_def may_happen_def posts_def abc_net_def moved_def role_def)
qed

text \<open>A node without a lease grants its vote to another; a node grants itself any.\<close>

lemma abc_grant:
  assumes "abc_ok c" and i: "i \<in> set [''a'', ''b'', ''c'']" and j: "j \<in> set [''a'', ''b'', ''c'']" and t: "t \<in> {1, 2}"
    and "(ts, (i, k), wire_bytes (request_msg i t)) \<in> set (sent c)" and "abc_conn (i, k) = Some (j, k')"
    and "role c j = (st, h)" and "i \<noteq> j" and "\<not> valid_leader st (time c)" and "\<not> following st i"
  shows "\<exists>c'. cluster_step abc_net abc_ext c (Act j (recv k' (wire_bytes (request_msg i t))) ts) c' \<and>
    moved c j (Follower t i k' ([127, 0, 0, 1], 7777) (Timespec (sec (time c) + 12) (nsec (time c))), t)
      {(time c, (j, k'), wire_bytes (grant_msg j t))} c'"
proof -
  note n = abc_nodeD [OF assms(1) j]
  let ?b = "wire_bytes (grant_msg j t)" let ?m = "request_msg i t"
  let ?e = "\<lparr>address = Some ([127, 0, 0, 1], 7777), tok = k', msg = wire_bytes ?m\<rparr>"
  let ?s = "(node c j)\<lparr>highest_term := t, state := Follower t i k' ([127, 0, 0, 1], 7777)
    (Timespec (sec (time c) + 12) (nsec (time c)))\<rparr>"
  have st: "state (node c j) = st" using assms(7) by (simp add: role_def)
  have w: "write_PeerMsg abc_ext (vote_reply ?s t True) = Inr ?b"
    using sent_requests(2) [OF assms(1) j, of ?s] n abc_prints(2) [OF j t] by simp
  have d: "vote_req_decide abc_ext (\<lambda>_. time c) ?e i (PeerMsg_get_vote_req ?m) (node c j) = Inr (?s, t, True)"
    using n st assms(8-10) by (simp add: vote_req_decide_def should_grant_vote_def abc_messages empty_log_def LEADER_DURATION_def)
  have "handle_vote_req abc_ext (\<lambda>_. time c) ?e i (PeerMsg_get_vote_req ?m) (node c j) = Inr (reply ?e ?b ?s)"
    unfolding handle_vote_req_def d using w by (simp add: reply_peer_def)
  then have "server_step abc_ext (\<lambda>_. time c) (recv k' (wire_bytes ?m)) (node c j) = Inr (reply ?e ?b ?s)"
    by (simp add: server_step_def recv_def handle_peer_def abc_parses(1) [OF i t] abc_messages Let_def)
  from abc_act [OF assms(1) j may_recv [OF assms(5,6)] this, of "[?e\<lparr>msg := ?b\<rparr>]"]
  have "\<exists>c'. cluster_step abc_net abc_ext c (Act j (recv k' (wire_bytes ?m)) ts) c' \<and>
    moved c j (state ?s, t) (set (posts abc_net j (time c) [?e\<lparr>msg := ?b\<rparr>])) c'" by (simp add: reply_def)
  then show ?thesis using abc_conn_tok [OF assms(6)] by (simp add: posts_def)
qed

lemma abc_own:
  assumes "abc_ok c" and i: "i \<in> set [''a'', ''b'', ''c'']" and t: "t \<in> {1, 2}"
    and "(ts, (i, k), wire_bytes (request_msg i t)) \<in> set (sent c)" and "abc_conn (i, k) = Some (i, k')"
  shows "\<exists>c'. cluster_step abc_net abc_ext c (Act i (recv k' (wire_bytes (request_msg i t))) ts) c' \<and>
    moved c i (role c i) {(time c, (i, k'), wire_bytes (grant_msg i t))} c'"
proof -
  note n = abc_nodeD [OF assms(1) i]
  let ?b = "wire_bytes (grant_msg i t)" let ?m = "request_msg i t"
  let ?e = "\<lparr>address = Some ([127, 0, 0, 1], 7777), tok = k', msg = wire_bytes ?m\<rparr>"
  have w: "write_PeerMsg abc_ext (vote_reply (node c i) t True) = Inr ?b"
    using sent_requests(2) [OF assms(1) i, of "node c i"] n abc_prints(2) [OF i t] by simp
  have "handle_vote_req abc_ext (\<lambda>_. time c) ?e i (PeerMsg_get_vote_req ?m) (node c i) = Inr (reply ?e ?b (node c i))"
    using w n(1) by (simp add: handle_vote_req_def vote_req_decide_def abc_messages reply_peer_def)
  then have "server_step abc_ext (\<lambda>_. time c) (recv k' (wire_bytes ?m)) (node c i) = Inr (reply ?e ?b (node c i))"
    by (simp add: server_step_def recv_def handle_peer_def abc_parses(1) [OF i t] abc_messages Let_def)
  from abc_act [OF assms(1) i may_recv [OF assms(4,5)] this, of "[?e\<lparr>msg := ?b\<rparr>]"]
  have "\<exists>c'. cluster_step abc_net abc_ext c (Act i (recv k' (wire_bytes ?m)) ts) c' \<and>
    moved c i (role c i) (set (posts abc_net i (time c) [?e\<lparr>msg := ?b\<rparr>])) c'" by (simp add: reply_def role_def)
  then show ?thesis using abc_conn_tok [OF assms(5)] by (simp add: posts_def)
qed

text \<open>A candidate or leader counts a vote.\<close>

lemma abc_count:
  assumes "abc_ok c" and i: "i \<in> set [''a'', ''b'', ''c'']" and j: "j \<in> set [''a'', ''b'', ''c'']" and t: "t \<in> {1, 2}"
    and "(ts, (j, k'), wire_bytes (grant_msg j t)) \<in> set (sent c)" and "abc_conn (j, k') = Some (i, k)"
    and "role c i = (st, ht)" and "time c < u" and "k \<notin> set h"
    and "st = Candidate t h 2 u \<and> st' = (if h = [] then Candidate t [k] 2 u else Leader t [] 2 u) \<or>
      st = Leader t h 2 u \<and> st' = (if h = [] then Leader t [k] 2 u
        else Leader t [] 2 (Timespec (sec (time c) + 12) (nsec (time c))))"
  shows "\<exists>c'. cluster_step abc_net abc_ext c (Act i (recv k (wire_bytes (grant_msg j t))) ts) c' \<and> moved c i (st', ht) {} c'"
proof -
  let ?m = "grant_msg j t"
  let ?e = "\<lparr>address = Some ([127, 0, 0, 1], 7777), tok = k, msg = wire_bytes ?m\<rparr>"
  have st: "state (node c i) = st" "highest_term (node c i) = ht" using assms(7) by (simp_all add: role_def)
  let ?s = "(update_rep_peers j (Some ([127, 0, 0, 1], 7777)) k (node c i))\<lparr>state := st'\<rparr>"
  have "handle_vote_res abc_ext (\<lambda>_. time c) ?e j (PeerMsg_get_vote_res ?m) (node c i) = Inr ?s"
    using st assms(8-10)
    by (elim disjE conjE) (simp_all add: handle_vote_res_def count_vote_def abc_messages LEADER_DURATION_def Suc_le_eq split: if_split)
  then have "server_step abc_ext (\<lambda>_. time c) (recv k (wire_bytes ?m)) (node c i) = Inr ?s"
    by (simp add: server_step_def recv_def handle_peer_def abc_parses(2) [OF j t] abc_messages Let_def)
  from abc_act [OF assms(1) i may_recv [OF assms(5,6)] this, of "[]"] show ?thesis
    using st by (simp add: posts_def)
qed

section \<open>Runs of the three nodes\<close>

text \<open>A run with steps in \<open>ok\<close> can come to time \<open>t\<close> with the roles \<open>r\<close> and at least the messages \<open>M\<close> under way.\<close>

definition comes_to ::
  "((bytes \<Rightarrow> bytes option) Cluster \<Rightarrow> Label \<Rightarrow> (bytes \<Rightarrow> bytes option) Cluster \<Rightarrow> bool) \<Rightarrow> Timespec \<Rightarrow>
     (PeerID \<Rightarrow> State \<times> Term) \<Rightarrow> (Timespec \<times> (PeerID \<times> Token) \<times> bytes) set \<Rightarrow> bool" where
  "comes_to ok t r M \<longleftrightarrow>
     (\<exists>c. cluster_run abc_net abc_ext ok c \<and> abc_ok c \<and> time c = t \<and> role c = r \<and> M \<subseteq> set (sent c))"

lemma comes_to_step:
  assumes "comes_to ok t r M"
    and "\<And>c. abc_ok c \<Longrightarrow> time c = t \<Longrightarrow> role c = r \<Longrightarrow> M \<subseteq> set (sent c) \<Longrightarrow>
      \<exists>c'. cluster_step abc_net abc_ext c lab c' \<and> moved c i x N c'"
    and "\<And>c c'. role c = r \<Longrightarrow> ok c lab c'"
  shows "comes_to ok t (r(i := x)) (M \<union> N)"
proof -
  obtain c where c: "cluster_run abc_net abc_ext ok c" "abc_ok c" "time c = t" "role c = r" "M \<subseteq> set (sent c)"
    using assms(1) unfolding comes_to_def by blast
  obtain c' where c': "cluster_step abc_net abc_ext c lab c'" "moved c i x N c'" using assms(2) [OF c(2-5)] by blast
  have "cluster_run abc_net abc_ext ok c'" by (rule cluster_run.step [OF c(1) c'(1) assms(3) [OF c(4)]])
  then show ?thesis using c'(2) c unfolding comes_to_def moved_def by blast
qed

lemma comes_to_start: "comes_to ok (Timespec 0 0) (\<lambda>i. (Init, 0)) {}"
proof -
  have "abc_ok abc_start" "time abc_start = Timespec 0 0" "role abc_start = (\<lambda>i. (Init, 0))"
    by (auto simp: abc_ok_def abc_start_def role_def Server_init_def numeral_3_eq_3)
  then show ?thesis using cluster_run.start [OF abc_start_ok, of abc_ext ok] unfolding comes_to_def by blast
qed

lemma comes_to_tick:
  assumes "comes_to ok t r M" and "t \<le> t'" and "\<And>c c'. ok c (Tick t') c'"
  shows "comes_to ok t' r M"
proof -
  obtain c where c: "cluster_run abc_net abc_ext ok c" "abc_ok c" "time c = t" "role c = r" "M \<subseteq> set (sent c)"
    using assms(1) unfolding comes_to_def by blast
  have "cluster_run abc_net abc_ext ok (c\<lparr>time := t'\<rparr>)"
    by (rule cluster_run.step [OF c(1) cluster_step.tick assms(3)]) (use c assms in simp)
  moreover have "abc_ok (c\<lparr>time := t'\<rparr>)" "role (c\<lparr>time := t'\<rparr>) = r" using c by (auto simp: abc_ok_def role_def)
  ultimately show ?thesis using c unfolding comes_to_def by (intro exI [of _ "c\<lparr>time := t'\<rparr>"]) simp
qed

lemma run_campaign:
  assumes "comes_to ok (Timespec q 0) r M" and "i \<in> set [''a'', ''b'', ''c'']" and "r i = (st, h)"
    and "\<not> valid_leader st (Timespec q 0)" and "\<not> valid_candidate st (Timespec q 0)" and "h = 0 \<or> h = 1"
    and "\<And>c c'. role c = r \<Longrightarrow> ok c (Act i CronEvent (Timespec q 0)) c'"
  shows "comes_to ok (Timespec q 0) (r(i := (Candidate (h + 1) [] 2 (Timespec (q + 12) 0), h + 1)))
    (M \<union> {(Timespec q 0, (i, k), wire_bytes (request_msg i (h + 1))) | k. k \<in> {2, 3, 4}})"
proof (rule comes_to_step [OF assms(1) _ assms(7)])
  fix c :: "(bytes \<Rightarrow> bytes option) Cluster"
  assume c: "abc_ok c" "time c = Timespec q 0" "role c = r"
  show "\<exists>c'. cluster_step abc_net abc_ext c (Act i CronEvent (Timespec q 0)) c' \<and>
      moved c i (Candidate (h + 1) [] 2 (Timespec (q + 12) 0), h + 1)
        {(Timespec q 0, (i, k), wire_bytes (request_msg i (h + 1))) | k. k \<in> {2, 3, 4}} c'"
    using abc_campaign [OF c(1) assms(2), of st h "Timespec q 0"] c(2,3) assms(3-6) by simp
qed

lemma run_remind:
  assumes "comes_to ok (Timespec q 0) r M" and "i \<in> set [''a'', ''b'', ''c'']" and "r i = (Leader t h 2 u, ht)"
    and "Timespec q 0 < u" and "u \<le> Timespec (q + 6) 0" and "t \<in> {1, 2}"
    and "\<And>c c'. role c = r \<Longrightarrow> ok c (Act i CronEvent (Timespec q 0)) c'"
  shows "comes_to ok (Timespec q 0) r (M \<union> {(Timespec q 0, (i, k), wire_bytes (request_msg i t)) | k. k \<in> {2, 3, 4}})"
proof -
  have "comes_to ok (Timespec q 0) (r(i := r i)) (M \<union> {(Timespec q 0, (i, k), wire_bytes (request_msg i t)) | k. k \<in> {2, 3, 4}})"
  proof (rule comes_to_step [OF assms(1) _ assms(7)])
    fix c :: "(bytes \<Rightarrow> bytes option) Cluster"
    assume c: "abc_ok c" "time c = Timespec q 0" "role c = r"
    show "\<exists>c'. cluster_step abc_net abc_ext c (Act i CronEvent (Timespec q 0)) c' \<and>
        moved c i (r i) {(Timespec q 0, (i, k), wire_bytes (request_msg i t)) | k. k \<in> {2, 3, 4}} c'"
      using abc_remind [OF c(1) assms(2), of t h u ht "Timespec q 0"] c(2,3) assms(3-5) assms(6) by simp
  qed
  then show ?thesis by simp
qed

lemma run_grant:
  assumes "comes_to ok (Timespec q 0) r M" and "i \<in> set [''a'', ''b'', ''c'']" and "j \<in> set [''a'', ''b'', ''c'']"
    and "t \<in> {1, 2}" and "(ts, (i, k), wire_bytes (request_msg i t)) \<in> M" and "abc_conn (i, k) = Some (j, k')"
    and "i \<noteq> j" and "r j = (st, h)" and "\<not> valid_leader st (Timespec q 0)" and "\<not> following st i"
    and "\<And>c c'. role c = r \<Longrightarrow> ok c (Act j (recv k' (wire_bytes (request_msg i t))) ts) c'"
  shows "comes_to ok (Timespec q 0)
    (r(j := (Follower t i k' ([127, 0, 0, 1], 7777) (Timespec (q + 12) 0), t)))
    (M \<union> {(Timespec q 0, (j, k'), wire_bytes (grant_msg j t))})"
proof (rule comes_to_step [OF assms(1) _ assms(11)])
  fix c :: "(bytes \<Rightarrow> bytes option) Cluster"
  assume c: "abc_ok c" "time c = Timespec q 0" "role c = r" "M \<subseteq> set (sent c)"
  show "\<exists>c'. cluster_step abc_net abc_ext c (Act j (recv k' (wire_bytes (request_msg i t))) ts) c' \<and>
      moved c j (Follower t i k' ([127, 0, 0, 1], 7777) (Timespec (q + 12) 0), t)
        {(Timespec q 0, (j, k'), wire_bytes (grant_msg j t))} c'"
    using abc_grant [OF c(1) assms(2-4) _ assms(6), of ts st h] c assms by auto
qed

lemma run_own:
  assumes "comes_to ok (Timespec q 0) r M" and "i \<in> set [''a'', ''b'', ''c'']" and "t \<in> {1, 2}"
    and "(ts, (i, k), wire_bytes (request_msg i t)) \<in> M" and "abc_conn (i, k) = Some (i, k')"
    and "\<And>c c'. role c = r \<Longrightarrow> ok c (Act i (recv k' (wire_bytes (request_msg i t))) ts) c'"
  shows "comes_to ok (Timespec q 0) r (M \<union> {(Timespec q 0, (i, k'), wire_bytes (grant_msg i t))})"
proof -
  have "comes_to ok (Timespec q 0) (r(i := r i)) (M \<union> {(Timespec q 0, (i, k'), wire_bytes (grant_msg i t))})"
  proof (rule comes_to_step [OF assms(1) _ assms(6)])
    fix c :: "(bytes \<Rightarrow> bytes option) Cluster"
    assume c: "abc_ok c" "time c = Timespec q 0" "role c = r" "M \<subseteq> set (sent c)"
    show "\<exists>c'. cluster_step abc_net abc_ext c (Act i (recv k' (wire_bytes (request_msg i t))) ts) c' \<and>
        moved c i (r i) {(Timespec q 0, (i, k'), wire_bytes (grant_msg i t))} c'"
      using abc_own [OF c(1) assms(2,3) _ assms(5), of ts] c assms(4) by auto
  qed
  then show ?thesis by simp
qed

lemma run_count:
  assumes "comes_to ok (Timespec q 0) r M" and "i \<in> set [''a'', ''b'', ''c'']" and "j \<in> set [''a'', ''b'', ''c'']"
    and "t \<in> {1, 2}" and "(ts, (j, k'), wire_bytes (grant_msg j t)) \<in> M" and "abc_conn (j, k') = Some (i, k)"
    and "r i = (st, ht)" and "Timespec q 0 < u" and "k \<notin> set h"
    and "st = Candidate t h 2 u \<and> st' = (if h = [] then Candidate t [k] 2 u else Leader t [] 2 u) \<or>
      st = Leader t h 2 u \<and> st' = (if h = [] then Leader t [k] 2 u else Leader t [] 2 (Timespec (q + 12) 0))"
    and "\<And>c c'. role c = r \<Longrightarrow> ok c (Act i (recv k (wire_bytes (grant_msg j t))) ts) c'"
  shows "comes_to ok (Timespec q 0) (r(i := (st', ht))) M"
proof -
  have "comes_to ok (Timespec q 0) (r(i := (st', ht))) (M \<union> {})"
  proof (rule comes_to_step [OF assms(1) _ assms(11)])
    fix c :: "(bytes \<Rightarrow> bytes option) Cluster"
    assume c: "abc_ok c" "time c = Timespec q 0" "role c = r" "M \<subseteq> set (sent c)"
    show "\<exists>c'. cluster_step abc_net abc_ext c (Act i (recv k (wire_bytes (grant_msg j t))) ts) c' \<and> moved c i (st', ht) {} c'"
      by (rule abc_count [OF c(1) assms(2-4) _ assms(6) _ _ assms(9), of ts st ht u]) (use c assms(5,7,8,10) in auto)
  qed
  then show ?thesis by simp
qed

section \<open>An election and an extension\<close>

abbreviation follows :: "PeerID \<Rightarrow> Token \<Rightarrow> Term \<Rightarrow> int \<Rightarrow> State \<times> Term" where
  "follows i k t u \<equiv> (Follower t i k ([127, 0, 0, 1], 7777) (Timespec u 0), t)"

abbreviation request_at :: "PeerID \<Rightarrow> Term \<Rightarrow> int \<Rightarrow> Token \<Rightarrow> Timespec \<times> (PeerID \<times> Token) \<times> bytes" where
  "request_at i t q k \<equiv> (Timespec q 0, (i, k), wire_bytes (request_msg i t))"

abbreviation grant_at :: "PeerID \<Rightarrow> Term \<Rightarrow> int \<Rightarrow> Token \<Rightarrow> Timespec \<times> (PeerID \<times> Token) \<times> bytes" where
  "grant_at j t q k \<equiv> (Timespec q 0, (j, k), wire_bytes (grant_msg j t))"

lemma comes_to_weaken: "comes_to ok t r M \<Longrightarrow> M' \<subseteq> M \<Longrightarrow> r' = r \<Longrightarrow> comes_to ok t r' M'"
  unfolding comes_to_def by blast

lemmas abc_eval = abc_conn.simps abc_end_def less_Timespec_def less_eq_Timespec_def

lemma timely_fresh:
  assumes "role c = r" and "\<not> is_leader (fst (r i))"
    and "\<And>trm h n u. fst (r i) = Candidate trm h n u \<Longrightarrow> u \<le> Timespec (sec ts + 12) (nsec ts)"
  shows "timely abc_ext c (Act i ev ts) c'"
  using assms by (auto simp: timely_def role_def LEADER_DURATION_def split: State.splits)

text \<open>Node \<open>a\<close> is elected by itself and \<open>b\<close>, while the vote of \<open>c\<close> is still under way.\<close>

lemma abc_elects:
  assumes ok: "\<And>c lab c'. timely abc_ext c lab c' \<Longrightarrow> ok c lab c'"
  shows "comes_to ok (Timespec 2 0)
    (\<lambda>i. if i = ''a'' then (Leader 1 [] 2 (Timespec 12 0), 1) else if i = ''b'' \<or> i = ''c'' then follows ''a'' 5 1 13 else (Init, 0))
    {grant_at ''c'' 1 1 5}"
proof -
  let ?a = "\<lambda>st r. r(''a'' := (st, 1))"
  let ?c0 = "Candidate 1 [] 2 (Timespec 12 0)" and ?c1 = "Candidate 1 [3] 2 (Timespec 12 0)" and ?l = "Leader 1 [] 2 (Timespec 12 0)"
  let ?r0 = "\<lambda>i. (Init, 0)"
  let ?r1 = "?r0(''b'' := follows ''a'' 5 1 13)" let ?r2 = "?r1(''c'' := follows ''a'' 5 1 13)"
  let ?M = "{request_at ''a'' 1 0 2, request_at ''a'' 1 0 3, request_at ''a'' 1 0 4}"
  have tick: "ok c (Tick t) c'" for c t c' by (rule ok) (simp add: timely_def)
  have "comes_to ok (Timespec 0 0) (?a ?c0 ?r0) ?M"
    by (rule comes_to_weaken [OF run_campaign [OF comes_to_start, of "''a''" Init 0]])
       (auto intro!: ok timely_fresh)
  then have "comes_to ok (Timespec 1 0) (?a ?c0 ?r0) ?M"
    by (rule comes_to_tick) (simp_all add: abc_eval tick)
  then have "comes_to ok (Timespec 1 0) (?a ?c0 ?r1) (?M \<union> {grant_at ''b'' 1 1 5})"
    by (rule comes_to_weaken [OF run_grant [where i = "''a''" and j = "''b''" and t = 1 and k = 3 and k' = 5 and st = Init and h = 0
          and ts = "Timespec 0 0"]]) (auto simp: abc_eval intro!: ok timely_fresh)
  then have "comes_to ok (Timespec 1 0) (?a ?c0 ?r2) (?M \<union> {grant_at ''b'' 1 1 5, grant_at ''c'' 1 1 5})"
    by (rule comes_to_weaken [OF run_grant [where i = "''a''" and j = "''c''" and t = 1 and k = 4 and k' = 5 and st = Init and h = 0
          and ts = "Timespec 0 0"]]) (auto simp: abc_eval intro!: ok timely_fresh)
  then have "comes_to ok (Timespec 1 0) (?a ?c0 ?r2) {grant_at ''b'' 1 1 5, grant_at ''c'' 1 1 5, grant_at ''a'' 1 1 5}"
    by (rule comes_to_weaken [OF run_own [where i = "''a''" and t = 1 and k = 2 and k' = 5 and ts = "Timespec 0 0"]])
       (auto simp: abc_eval intro!: ok timely_fresh)
  then have "comes_to ok (Timespec 2 0) (?a ?c0 ?r2) {grant_at ''b'' 1 1 5, grant_at ''c'' 1 1 5, grant_at ''a'' 1 1 5}"
    by (rule comes_to_tick) (simp_all add: abc_eval tick)
  then have "comes_to ok (Timespec 2 0) (?a ?c1 ?r2) {grant_at ''c'' 1 1 5, grant_at ''a'' 1 1 5}"
    by (rule comes_to_weaken [OF run_count [where i = "''a''" and j = "''b''" and t = 1 and k = 3 and k' = 5 and st = ?c0 and st' = ?c1
          and ht = 1 and u = "Timespec 12 0" and h = "[]" and ts = "Timespec 1 0"]])
       (auto simp: abc_eval intro!: ok timely_fresh)
  then show ?thesis
    by (rule comes_to_weaken [OF run_count [where i = "''a''" and j = "''a''" and t = 1 and k = 2 and k' = 5 and st = ?c1 and st' = ?l
          and ht = 1 and u = "Timespec 12 0" and h = "[3]" and ts = "Timespec 1 0"]])
       (auto simp: abc_eval fun_eq_iff intro!: ok timely_fresh)
qed

text \<open>At 11, node \<open>a\<close> gets the vote that \<open>c\<close> has sent at 1 and one from itself, and takes its lease up to 23. The leases of \<open>b\<close> and \<open>c\<close> end at
  13; at 14 they elect \<open>b\<close>.\<close>

lemma abc_splits:
  "comes_to (\<lambda>_ _ _. True) (Timespec 14 0)
    (\<lambda>i. if i = ''a'' then (Leader 1 [] 2 (Timespec 23 0), 1) else if i = ''b'' then (Leader 2 [] 2 (Timespec 26 0), 2)
      else if i = ''c'' then follows ''b'' 6 2 26 else (Init, 0)) {}"
proof -
  let ?ok = "\<lambda>_ _ _. True"
  let ?r0 = "\<lambda>i. if i = ''a'' then (Leader 1 [] 2 (Timespec 12 0), 1) else if i = ''b'' \<or> i = ''c'' then follows ''a'' 5 1 13 else (Init, 0)"
  let ?l1 = "Leader 1 [4] 2 (Timespec 12 0)" and ?l2 = "Leader 1 [] 2 (Timespec 23 0)"
  let ?c0 = "Candidate 2 [] 2 (Timespec 26 0)" and ?c1 = "Candidate 2 [4] 2 (Timespec 26 0)" and ?l = "Leader 2 [] 2 (Timespec 26 0)"
  let ?r1 = "?r0(''a'' := (?l1, 1))" and ?r2 = "?r0(''a'' := (?l2, 1))"
  let ?r3 = "?r2(''b'' := (?c0, 2))" let ?r4 = "?r3(''c'' := follows ''b'' 6 2 26)"
  have "comes_to ?ok (Timespec 2 0) ?r0 {grant_at ''c'' 1 1 5}" by (rule abc_elects) simp
  then have "comes_to ?ok (Timespec 11 0) ?r0 {grant_at ''c'' 1 1 5}" by (rule comes_to_tick) (simp_all add: abc_eval)
  then have "comes_to ?ok (Timespec 11 0) ?r1 {grant_at ''c'' 1 1 5}"
    by (rule comes_to_weaken [OF run_count [where i = "''a''" and j = "''c''" and t = 1 and k = 4 and k' = 5 and st = "Leader 1 [] 2 (Timespec 12 0)"
          and st' = ?l1 and ht = 1 and u = "Timespec 12 0" and h = "[]" and ts = "Timespec 1 0"]])
       (auto simp: abc_eval)
  then have "comes_to ?ok (Timespec 11 0) ?r1 {request_at ''a'' 1 11 2}"
    by (rule comes_to_weaken [OF run_remind [where i = "''a''" and t = 1 and h = "[4]" and u = "Timespec 12 0" and ht = 1]])
       (auto simp: abc_eval)
  then have "comes_to ?ok (Timespec 11 0) ?r1 {grant_at ''a'' 1 11 5}"
    by (rule comes_to_weaken [OF run_own [where i = "''a''" and t = 1 and k = 2 and k' = 5 and ts = "Timespec 11 0"]])
       (auto simp: abc_eval)
  then have "comes_to ?ok (Timespec 11 0) ?r2 {}"
    by (rule comes_to_weaken [OF run_count [where i = "''a''" and j = "''a''" and t = 1 and k = 2 and k' = 5 and st = ?l1 and st' = ?l2
          and ht = 1 and u = "Timespec 12 0" and h = "[4]" and ts = "Timespec 11 0"]])
       (auto simp: abc_eval)
  then have "comes_to ?ok (Timespec 14 0) ?r2 {}" by (rule comes_to_tick) (simp_all add: abc_eval)
  then have "comes_to ?ok (Timespec 14 0) ?r3 {request_at ''b'' 2 14 3, request_at ''b'' 2 14 4}"
    by (rule comes_to_weaken [OF run_campaign [where i = "''b''" and h = 1
          and st = "Follower 1 ''a'' 5 ([127, 0, 0, 1], 7777) (Timespec 13 0)"]]) (auto simp: abc_eval)
  then have "comes_to ?ok (Timespec 14 0) ?r4 {request_at ''b'' 2 14 3, grant_at ''c'' 2 14 6}"
    by (rule comes_to_weaken [OF run_grant [where i = "''b''" and j = "''c''" and t = 2 and k = 4 and k' = 6 and h = 1
          and st = "Follower 1 ''a'' 5 ([127, 0, 0, 1], 7777) (Timespec 13 0)" and ts = "Timespec 14 0"]]) (auto simp: abc_eval)
  then have "comes_to ?ok (Timespec 14 0) ?r4 {grant_at ''b'' 2 14 6, grant_at ''c'' 2 14 6}"
    by (rule comes_to_weaken [OF run_own [where i = "''b''" and t = 2 and k = 3 and k' = 6 and ts = "Timespec 14 0"]])
       (auto simp: abc_eval)
  then have "comes_to ?ok (Timespec 14 0) (?r4(''b'' := (?c1, 2))) {grant_at ''b'' 2 14 6}"
    by (rule comes_to_weaken [OF run_count [where i = "''b''" and j = "''c''" and t = 2 and k = 4 and k' = 6 and st = ?c0 and st' = ?c1
          and ht = 2 and u = "Timespec 26 0" and h = "[]" and ts = "Timespec 14 0"]]) (auto simp: abc_eval)
  then show ?thesis
    by (rule comes_to_weaken [OF run_count [where i = "''b''" and j = "''b''" and t = 2 and k = 3 and k' = 6 and st = ?c1 and st' = ?l
          and ht = 2 and u = "Timespec 26 0" and h = "[4]" and ts = "Timespec 14 0"]])
       (auto simp: abc_eval fun_eq_iff)
qed

section \<open>Properties\<close>

text \<open>C1. A lease excludes other leaders: in a cluster whose nodes exchange printed messages that may be delayed,
  repeated, reordered and lost, if no candidate counts a vote older than its candidacy and no leader moves its lease,
  then at any time at most one node is a leader with a lease that still runs. The cluster has fewer than 510 members: the code keeps the
  majority in a \<^verbatim>\<open>u8\<close>, which truncates from there on.\<close>

theorem unextended_lease_excludes:
  assumes "net_ok net" and "length (members net) < 510" and "pb_laws rt" and "wire_ext rt E" and "tadd_mono E"
    and "cluster_run net E (timely E) c" and "i \<in> set (members net)" and "j \<in> set (members net)"
    and "is_leader (state (node c i))" and "valid_leader (state (node c i)) (time c)"
    and "is_leader (state (node c j))" and "valid_leader (state (node c j)) (time c)"
  shows "i = j"
proof (rule ccontr)
  assume "i \<noteq> j"
  obtain a h n u where i: "state (node c i) = Leader a h n u" "time c < u"
    using assms(9,10) by (auto simp: is_leader_iff)
  obtain b k m v where j: "state (node c j) = Leader b k m v" "time c < v"
    using assms(11,12) by (auto simp: is_leader_iff)
  have "lease_ok net E c i" "lease_ok net E c j" using lease_ok_run [OF assms(1,3-5,2,6)] assms(7,8) by blast+
  then obtain H K where H: "length H = length (members net) div 2 + 1" "backed net E c i u H"
    and K: "length K = length (members net) div 2 + 1" "backed net E c j v K"
    using i j by (auto simp: lease_ok_def)
  obtain x where x: "x \<in> peer_at net i ` set H" "x \<in> peer_at net j ` set K"
    using majorities_meet [OF _ backed_peers(1) [OF assms(1) H(2,1)] backed_peers(1) [OF assms(1) K(2,1)]
        backed_peers(2) [OF assms(1) H(2,1)] backed_peers(2) [OF assms(1) K(2,1)]] by auto
  then have "supports c i u x" "supports c j v x" using H(2) K(2) i(2) j(2) by (auto simp: backed_def)
  then show False using \<open>i \<noteq> j\<close> i(1) j(1) by (auto simp: supports_def)
qed

theorem unextended_lease_excludes_witness:
  "\<exists>c. cluster_run abc_net abc_ext (timely abc_ext) c \<and> time c = Timespec 2 0 \<and> is_leader (state (node c ''a'')) \<and>
     valid_leader (state (node c ''a'')) (time c) \<and>
     \<not> (is_leader (state (node c ''b'')) \<and> valid_leader (state (node c ''b'')) (time c))"
proof -
  obtain c where c: "cluster_run abc_net abc_ext (timely abc_ext) c" "time c = Timespec 2 0"
      "role c ''a'' = (Leader 1 [] 2 (Timespec 12 0), 1)"
    using abc_elects [of "timely abc_ext"] unfolding comes_to_def by auto
  have a: "is_leader (state (node c ''a''))" "valid_leader (state (node c ''a'')) (time c)"
    using c by (simp_all add: role_def less_Timespec_def)
  have m: "length (members abc_net) < 510" "''a'' \<in> set (members abc_net)" "''b'' \<in> set (members abc_net)"
    by (simp_all add: abc_net_def)
  show ?thesis
    using unextended_lease_excludes [OF abc_net_ok m(1) pb_varint_laws wire_mem_ext wire_mem_mono c(1) m(2,3) a] a c by auto
qed

text \<open>C4. An extended lease does not exclude: there is a run of a cluster of three nodes with one clock and unchanged connections
  in which two nodes are leaders at the same time, each with a lease that still runs. The lease of one was extended by a vote
  that had been sent ten seconds before it arrived.\<close>

theorem extended_lease_overlaps:
  "\<exists>c. cluster_run abc_net abc_ext (\<lambda>_ _ _. True) c \<and> time c = Timespec 14 0 \<and>
     is_leader (state (node c ''a'')) \<and> valid_leader (state (node c ''a'')) (time c) \<and>
     is_leader (state (node c ''b'')) \<and> valid_leader (state (node c ''b'')) (time c)"
proof -
  obtain c where c: "cluster_run abc_net abc_ext (\<lambda>_ _ _. True) c" "time c = Timespec 14 0"
      "role c ''a'' = (Leader 1 [] 2 (Timespec 23 0), 1)" "role c ''b'' = (Leader 2 [] 2 (Timespec 26 0), 2)"
    using abc_splits unfolding comes_to_def by auto
  then show ?thesis by (intro exI [of _ c]) (simp add: role_def less_Timespec_def)
qed

end
