(* ===== verification/Process_Answers.thy ===== *)
theory Process_Answers
  imports Process
begin

text \<open>
  A request through the whole node: from the bytes on the socket of a client over the event loop, the channel, the
  handler thread, the server and back to the bytes of the response on the same socket.
\<close>

section \<open>What the event loop does with one connection\<close>

text \<open>A client connection that is idle: everything received has been passed on, everything queued has been written.\<close>

definition client_idle :: "'sl SlabOps \<Rightarrow> 'sl TrafficCop \<Rightarrow> Token \<Rightarrow> ServerConn \<Rightarrow> bool" where
  "client_idle S cop t c \<longleftrightarrow> sl_get S (conns (cli_handler cop)) t = Some c \<and> 1024 \<le> unat t \<and> unat t \<le> 4096 \<and>
     framed_bytes (req_codec c) = [] \<and> res_bufs c = [] \<and> unat (res_remaining c) < 2 ^ 63"

text \<open>A socket that hands over a whole frame in one read and takes whatever is written.\<close>

definition client_socket :: "Os \<Rightarrow> sock \<Rightarrow> Token \<Rightarrow> SocketAddr \<Rightarrow> bytes \<Rightarrow> bool" where
  "client_socket os k t a b \<longleftrightarrow> os_writes_ok os \<and> os_read os k 1024 = Inr (Some (frame b)) \<and> os_peer_addr os k = Inr a \<and>
     os_reregister os k t = Inr () \<and> (\<forall>bs. os_write os k bs = Inr (Some (length bs)))"

abbreviation with_client :: "'sl SlabOps \<Rightarrow> Token \<Rightarrow> 'sl TrafficCop \<Rightarrow> ServerConn \<Rightarrow> 'sl TrafficCop" where
  "with_client S t cop c \<equiv> cop\<lparr>cli_handler := (cli_handler cop)\<lparr>conns := sl_set S (conns (cli_handler cop)) t c\<rparr>\<rparr>"

lemma client_token:
  assumes "1024 \<le> unat t" and "unat t \<le> 4096"
  shows "t \<noteq> SERVER_PEERS" "t \<noteq> SERVER_CLIENTS" "t \<noteq> PEER_BROADCAST"
  using assms by (auto simp: SERVER_PEERS_def SERVER_CLIENTS_def PEER_BROADCAST_def unsigned_minus_1_eq_mask mask_eq_exp_minus_1)

lemma response_fits:
  fixes x :: u64
  assumes "unat x < 2 ^ 63" and "4 + n < 2 ^ 32"
  shows "checked_add x (of_nat (4 + n)) = Inr (x + of_nat (4 + n))" and "unat (x + of_nat (4 + n)) = unat x + (4 + n)"
proof -
  have n: "unat (of_nat (4 + n) :: u64) = 4 + n" using assms(2) by (simp only: unat_of_nat) simp
  then show "checked_add x (of_nat (4 + n)) = Inr (x + of_nat (4 + n))" using assms by (simp only: checked_add_Inr_iff) simp
  then show "unat (x + of_nat (4 + n)) = unat x + (4 + n)" using checked_add_unat n by metis
qed

lemma client_reads:
  assumes "buf_laws rd" and "set_ok S (cli_handler cop)" and "client_idle S cop t c" and "client_socket os (sock c) t a b"
    and "length b < 2 ^ 32"
  shows "\<exists>f. TrafficCop_ready S os rd t {Readable} cop = Some (Inr (with_client S t cop (c\<lparr>req_codec := f\<rparr>),
      [Queue (cs_req_tx (cli_handler cop)) \<lparr>address = Some a, tok = t, msg = b\<rparr>, Reregister (sock c) t (interest c)]))"
proof -
  have c: "token c = Some t" "req_tx c = cs_req_tx (cli_handler cop)" "framed_inv (req_codec c)"
    using assms(2,3) by (auto simp: set_ok_def client_idle_def conn_ok_def)
  obtain f where "ServerConn_readable os rd c = Some (Inr (Inr (), c\<lparr>req_codec := f\<rparr>,
      [Queue (req_tx c) \<lparr>address = Some a, tok = t, msg = b\<rparr>, Reregister (sock c) t (interest c)]))"
    using ServerConn_readable_one [OF assms(1) c(3) _ c(1) _ assms(5), of os a] assms(3,4)
    by (auto simp: client_idle_def client_socket_def)
  then show ?thesis using assms(3) client_token [of t] c(2)
    by (intro exI [of _ f]) (simp add: client_idle_def TrafficCop_ready_def ready_read_def conn_readable_def Let_def)
qed

lemma client_notified:
  assumes "buf_laws rd" and "sl_get S (conns (cli_handler cop)) t = Some c" and "1024 \<le> unat t" and "unat t \<le> 4096"
    and "unat (res_remaining c) < 2 ^ 63" and "4 + length resp < 2 ^ 32" and "tok e = t" and "msg e = resp"
  shows "TrafficCop_notify S rd e cop = Inr (with_client S t cop
      (c\<lparr>res_remaining := res_remaining c + of_nat (4 + length resp), res_bufs := res_bufs c @ [frame resp],
         interest := interest c \<union> {Writable}\<rparr>), [Reregister (sock c) t (interest c \<union> {Writable})])"
proof -
  note response_fits(1) [OF assms(5,6)]
  then have "queue_response rd resp c = Inr (c\<lparr>res_remaining := res_remaining c + of_nat (4 + length resp),
      res_bufs := res_bufs c @ [frame resp], interest := interest c \<union> {Writable}\<rparr>)"
    by (simp only: queue_response_eq [OF assms(1,6)] and_then_simps)
  then show ?thesis using assms client_token [of t]
    by (simp add: TrafficCop_notify_def notify_targets_def notify_one_def tok_to_sc_def Let_def)
qed

lemma client_written:
  assumes "sl_get S (conns (cli_handler cop)) t = Some c" and "1024 \<le> unat t" and "unat t \<le> 4096" and "token c = Some t"
    and "res_bufs c = [frame resp]" and "length (frame resp) \<le> unat (res_remaining c)" and "client_socket os (sock c) t a b"
  shows "\<exists>c' i. TrafficCop_ready S os rd t {Writable} cop = Some (Inr (with_client S t cop c',
      [Sent (sock c) (frame resp), Reregister (sock c) t i]))"
proof -
  have "unat (res_remaining c) < 2 ^ 64" using unsigned_less [of "res_remaining c"] by simp
  then have "length (frame resp) < 2 ^ 64" using assms(6) by simp
  then have "unat (of_nat (length (frame resp)) :: u64) = length (frame resp)" by (simp only: unat_of_nat) simp
  then have "(of_nat (length (frame resp)) :: u64) \<le> res_remaining c" using assms(6) by (simp add: word_le_nat_alt)
  then obtain c' i where "ServerConn_writable os c = Inr (Inr (), c', [Sent (sock c) (frame resp), Reregister (sock c) t i])"
    using assms(4,5,7) by (auto simp: ServerConn_writable_def client_socket_def reregister_conn_def push_back_def checked_sub_def Let_def)
  then show ?thesis using assms client_token [of t]
    by (intro exI [of _ c'] exI [of _ i]) (simp add: TrafficCop_ready_def ready_write_def conn_writable_def Let_def)
qed

section \<open>Answers that a handler gives at once\<close>

definition immediate_answer :: "'db Ext \<Rightarrow> 'db Server \<Rightarrow> CliReq \<Rightarrow> CliRes option" where
  "immediate_answer E s r =
     (let res = CliRes_set_req_id (CliReq_get_req_id r) CliRes_new in
      if \<not> is_leader (state s) then Some (CliRes_set_redirect (redirect_response E (state s)) res)
      else if CliReq_has_get r then Some (CliRes_set_get (get_response E (GetReq_get_key (CliReq_get_get r)) s) res)
      else None)"

lemma immediate_answer_step:
  assumes "parse_CliReq E (msg env) = Inr r" and "immediate_answer E s r = Some ans" and "write_CliRes E ans = Inr resp"
  shows "server_step E now (CliEvent env) s = Inr (reply env resp s)"
  using assms by (auto simp: server_step_def handle_cli_def immediate_answer_def reply_cli_def Let_def split: if_splits)

lemma proc_run_more:
  assumes "proc_run E S rd p0 tr p" and "sched_ok ev" and "proc_turn E S rd ev p = Some (p', obs)" and "halted p = None"
  shows "proc_run E S rd p0 (tr @ obs) p'"
  using proc_run.turn [OF assms(1,2)] assms(3,4) by (simp add: proc_step_def)

lemma proc_run_trans:
  assumes "proc_run E S rd p0 tr p" and "proc_run E S rd p tr' p'"
  shows "proc_run E S rd p0 (tr @ tr') p'"
  using assms(2)
proof induction
  case (turn tr'' q ev q' obs)
  then show ?case using proc_run.turn [of E S rd p0 "tr @ tr''"] by simp
qed (simp add: assms(1))

text \<open>A request that is answered by the first message it makes the server send.\<close>

lemma node_answers:
  assumes "slab_laws S" and "buf_laws rd" and "cop_reachable S rd cop" and "halted p = None" and "server p = Some s" and "CliHandler \<in> live p"
    and "cli_reqs p = []" and "notifications p = []" and "io_loop p = Looping cop"
    and "client_idle S cop t c" and "client_socket os (sock c) t a b" and "length b < 2 ^ 32" and "4 + length resp < 2 ^ 32"
    and env: "env = \<lparr>address = Some a, tok = t, msg = b\<rparr>" and e: "e = \<lparr>address = Some a, tok = t, msg = resp\<rparr>"
    and step: "server_step E now (CliEvent env) s = Inr s'" and out: "outbox s' = outbox s @ e # rest"
  shows "\<exists>p' cop'. proc_run E S rd p [Arrived CliReqs env, Handled now (CliEvent env), Notified e, Wrote (sock c) (frame resp)] p' \<and>
    server p' = Some s' \<and> cli_reqs p' = [] \<and> notifications p' = rest \<and> halted p' = None \<and> live p' = live p \<and>
    io_loop p' = Looping cop' \<and> cop_reachable S rd cop' \<and> (\<forall>u. u \<noteq> t \<longrightarrow> sl_get S (conns (cli_handler cop')) u = sl_get S (conns (cli_handler cop)) u)"
proof -
  have inv: "cop_inv S cop"
    by (rule cop_reachable_inv [OF assms(3,1,2)])
  then have cli: "set_ok S (cli_handler cop)" "cs_req_tx (cli_handler cop) = CliReqs" by (simp_all add: cop_inv_def)
  have c: "sl_get S (conns (cli_handler cop)) t = Some c" "1024 \<le> unat t" "unat t \<le> 4096" "token c = Some t" "res_bufs c = []"
    "unat (res_remaining c) < 2 ^ 63"
    using assms(10) cli(1) by (auto simp: client_idle_def set_ok_def)
  have ok: "os_writes_ok os" using assms(11) by (simp add: client_socket_def)
  obtain f where rd: "TrafficCop_ready S os rd t {Readable} cop = Some (Inr (with_client S t cop (c\<lparr>req_codec := f\<rparr>),
      [Queue CliReqs env, Reregister (sock c) t (interest c)]))"
    using client_reads [OF assms(2) cli(1) assms(10,11,12)] unfolding cli(2) env by blast
  let ?c1 = "c\<lparr>req_codec := f\<rparr>" let ?cop1 = "with_client S t cop ?c1"
  let ?p1 = "p\<lparr>io_loop := Looping ?cop1, cli_reqs := [env]\<rparr>"
  have "proc_turn E S rd (IoTurn os (EvReady t {Readable})) p = Some (?p1, [Arrived CliReqs env])"
    using assms(6,7,9) by (simp add: io_turn_def rd deliver_def loop_obs_def requests_on_def)
  from proc_run_more [OF proc_run.start _ this assms(4)] ok
  have r1: "proc_run E S rd p ([Arrived CliReqs env]) ?p1" by simp
  let ?p2 = "?p1\<lparr>cli_reqs := [], server := Some s', notifications := e # rest\<rparr>"
  have "proc_turn E S rd (HandlerTurn CliHandler \<lparr>readings = now, accepts = \<lambda>_. True, sent_before = []\<rparr>) ?p1 =
      Some (?p2, [Handled now (CliEvent env)])"
    using assms(5,6,8) step out by (simp add: handler_turn_def send_msgs_def)
  from proc_run_more [OF r1 _ this] assms(4)
  have r2: "proc_run E S rd p ([Arrived CliReqs env, Handled now (CliEvent env)]) ?p2" by simp
  have g1: "sl_get S (conns (cli_handler ?cop1)) t = Some ?c1" using slab_set(2) [OF assms(1)] c(1) by simp
  let ?c2 = "?c1\<lparr>res_remaining := res_remaining c + of_nat (4 + length resp), res_bufs := [frame resp], interest := interest c \<union> {Writable}\<rparr>"
  let ?cop2 = "with_client S t ?cop1 ?c2" let ?p3 = "?p2\<lparr>io_loop := Looping ?cop2, notifications := rest\<rparr>"
  have n: "TrafficCop_notify S rd e ?cop1 = Inr (?cop2, [Reregister (sock c) t (interest c \<union> {Writable})])"
    using client_notified [OF assms(2) g1 c(2,3) _ assms(13), of e] c(5,6) by (simp add: e)
  then have "proc_turn E S rd (IoTurn os (EvNotify e)) ?p2 = Some (?p3, [Notified e])"
    by (simp add: io_turn_def deliver_def loop_obs_def requests_on_def)
  from proc_run_more [OF r2 _ this] assms(4) ok
  have r3: "proc_run E S rd p ([Arrived CliReqs env, Handled now (CliEvent env), Notified e]) ?p3" by simp
  have g2: "sl_get S (conns (cli_handler ?cop2)) t = Some ?c2" using slab_set(2) [OF assms(1)] c(1) by simp
  have "length (frame resp) \<le> unat (res_remaining ?c2)" using response_fits(2) [OF c(6) assms(13)] by (simp add: frame_def)
  then obtain c' j where w: "TrafficCop_ready S os rd t {Writable} ?cop2 = Some (Inr (with_client S t ?cop2 c',
      [Sent (sock c) (frame resp), Reregister (sock c) t j]))"
    using client_written [OF g2 c(2,3), of resp os a b rd] assms(11) c(4) by auto
  have cr: "cop_reachable S rd (with_client S t ?cop2 c')"
    using cop_reachable.Step [OF cop_reachable.Step [OF cop_reachable.Step [OF assms(3) ok, where ev = "EvReady t {Readable}"] ok,
        where ev = "EvNotify e"] ok, where ev = "EvReady t {Writable}"] rd n w by simp
  from w have "proc_turn E S rd (IoTurn os (EvReady t {Writable})) ?p3 =
      Some (?p3\<lparr>io_loop := Looping (with_client S t ?cop2 c')\<rparr>, [Wrote (sock c) (frame resp)])"
    by (simp add: io_turn_def deliver_def loop_obs_def requests_on_def)
  from proc_run_more [OF r3 _ this] assms(4) ok show ?thesis
    using slab_set(2) [OF assms(1)] cr
    by (intro exI [of _ "?p3\<lparr>io_loop := Looping (with_client S t ?cop2 c')\<rparr>"] exI [of _ "with_client S t ?cop2 c'"]) simp
qed


text \<open>A process that has accepted a client.\<close>

definition demo_cop2 :: "demo_slab TrafficCop" where
  "demo_cop2 = demo_cop0\<lparr>cli_handler := (cli_handler demo_cop0)\<lparr>conns :=
     ((1024, 4096), (\<lambda>_. None)(1024 := Some (ServerConn_new 10 CliReqs\<lparr>token := Some 1024\<rparr>)))\<rparr>\<rparr>"

lemma slab_tokens_clients: "\<exists>ts. slab_tokens (1024, 4096) = 1024 # ts"
  by (simp add: slab_tokens_def in_slots_def upt_rec [of 0])

lemma demo_process_accepts:
  "proc_run E demo_slab_ops mem_buf (demo_process (Starting demo_cop0) []) [] (demo_process (Looping demo_cop2) [])"
proof -
  have "proc_turn E demo_slab_ops mem_buf (IoStart (demo_os [])) (demo_process (Starting demo_cop0) []) =
      Some (demo_process (Looping demo_cop0) [], [])"
    by (simp add: io_start_def demo_process_def run_event_loop_def demo_os_def)
  from proc_run_more [OF proc_run.start _ this]
  have r1: "proc_run E demo_slab_ops mem_buf (demo_process (Starting demo_cop0) []) [] (demo_process (Looping demo_cop0) [])"
    by (simp add: demo_process_def)
  obtain ts where "slab_tokens (1024, 4096) = 1024 # ts" using slab_tokens_clients by blast
  then have "TrafficCop_ready demo_slab_ops (demo_os []) mem_buf SERVER_CLIENTS {Readable} demo_cop0 =
      Some (Inr (demo_cop2, [Reregister 7778 0 {Readable}, Register 10 1024 {Readable}]))"
    by (simp add: TrafficCop_ready_def ready_read_def SERVER_CLIENTS_def SERVER_PEERS_def ConnSet_accept_def ConnSet_register_def
        slab_index_def in_slots_def Let_def demo_cop0_def demo_cop2_def demo_os_def demo_slab_ops_def)
  then have "proc_turn E demo_slab_ops mem_buf (IoTurn (demo_os []) (EvReady SERVER_CLIENTS {Readable})) (demo_process (Looping demo_cop0) []) =
      Some (demo_process (Looping demo_cop2) [], [])"
    by (simp add: io_turn_def demo_process_def deliver_def loop_obs_def requests_on_def)
  from proc_run_more [OF r1 _ this] show ?thesis by (simp add: demo_process_def)
qed

section \<open>Property\<close>

text \<open>C15. A node answers on the connection of the client: when an idle client connection gets a whole request that its server answers
  at once (a redirect, or a read on a leader), then the turns of the event loop that reads it, of the handler of clients, of
  the event loop that takes the response and of the event loop that writes it put exactly the frame of the response on the
  socket of this client, and the server has changed in nothing but what it has sent.\<close>

theorem node_answers_client:
  assumes "slab_laws S" and "buf_laws rd" and "cop_reachable S rd cop" and "halted p = None" and "server p = Some s" and "CliHandler \<in> live p"
    and "cli_reqs p = []" and "notifications p = []" and "io_loop p = Looping cop"
    and "client_idle S cop t c" and "client_socket os (sock c) t a b" and "length b < 2 ^ 32" and "4 + length resp < 2 ^ 32"
    and "parse_CliReq E b = Inr r" and "immediate_answer E s r = Some ans" and "write_CliRes E ans = Inr resp"
    and "env = \<lparr>address = Some a, tok = t, msg = b\<rparr>" and "e = \<lparr>address = Some a, tok = t, msg = resp\<rparr>"
  shows "\<exists>p'. proc_run E S rd p [Arrived CliReqs env, Handled now (CliEvent env), Notified e, Wrote (sock c) (frame resp)] p' \<and>
    server p' = Some (s\<lparr>outbox := outbox s @ [e]\<rparr>) \<and> cli_reqs p' = [] \<and> notifications p' = [] \<and> halted p' = None"
proof -
  have "server_step E now (CliEvent env) s = Inr (s\<lparr>outbox := outbox s @ [e]\<rparr>)"
    using immediate_answer_step [of E env r s ans resp now] assms(14-16) by (simp add: assms(17,18) reply_def)
  then show ?thesis
    using node_answers [OF assms(1-13,17,18), where E = E and now = now and rest = "[]"] by fastforce
qed

theorem node_answers_client_witness:
  "\<exists>p0 env e p'. demo_Server_run = Inr p0 \<and>
     proc_run demo_ext demo_slab_ops mem_buf p0
       [Arrived CliReqs env, Handled demo_now (CliEvent env), Notified e, Wrote 10 [0, 0, 0, 0]] p' \<and> msg env = [2]"
proof -
  let ?c = "ServerConn_new 10 CliReqs\<lparr>token := Some 1024\<rparr>" and ?os = "demo_os [0, 0, 0, 1, 2]" and ?a = "([127, 0, 0, 1], 7770)"
  let ?env = "\<lparr>address = Some ?a, tok = 1024, msg = [2]\<rparr>" and ?e = "\<lparr>address = Some ?a, tok = 1024, msg = []\<rparr>"
  have f: "frame [2] = [0, 0, 0, 1, 2]" "frame [] = [0, 0, 0, 0]" by (simp_all add: frame_def usize_to_array_def)
  have idle: "client_idle demo_slab_ops demo_cop2 1024 ?c"
    by (simp add: client_idle_def demo_slab_ops_def demo_cop2_def in_slots_def ServerConn_new_def)
  have sock: "client_socket ?os (sock ?c) 1024 ?a [2]" by (simp add: client_socket_def f) (simp add: demo_os_def)
  have p: "halted (demo_process (Looping demo_cop2) []) = None" "server (demo_process (Looping demo_cop2) []) = Some demo_process_server"
    "CliHandler \<in> live (demo_process (Looping demo_cop2) [])" "cli_reqs (demo_process (Looping demo_cop2) []) = []"
    "notifications (demo_process (Looping demo_cop2) []) = []" "io_loop (demo_process (Looping demo_cop2) []) = Looping demo_cop2"
    by (simp_all add: demo_process_def)
  have parse: "parse_CliReq demo_ext [2] = Inr demo_set" by (simp add: demo_ext_def)
  obtain ans where ans: "immediate_answer demo_ext demo_process_server demo_set = Some ans" "CliRes_is_initialized ans"
    by (simp add: immediate_answer_def Server_init_def CliRes_is_initialized_def CliRes_accessors)
  then have "write_CliRes demo_ext ans = Inr []" by (simp add: demo_ext_def)
  from node_answers_client [OF demo_slab_laws buf_laws_mem _ p idle sock _ _ parse ans(1) this refl refl, of demo_now]
  obtain p' where "proc_run demo_ext demo_slab_ops mem_buf (demo_process (Looping demo_cop2) [])
      [Arrived CliReqs ?env, Handled demo_now (CliEvent ?env), Notified ?e, Wrote 10 [0, 0, 0, 0]] p'"
    using process_reachable(2) [OF demo_Server_run_eq demo_process_accepts, of demo_cop2] p(6) by (auto simp: f(2) ServerConn_new_def)
  from proc_run_trans [OF demo_process_accepts this] show ?thesis
    by (intro exI [of _ "demo_process (Starting demo_cop0) []"] exI [of _ ?env] exI [of _ ?e] exI [of _ p']) (simp add: demo_Server_run_eq)
qed

end
