(* ===== verification/Client_Requests.thy ===== *)
theory Client_Requests
  imports Replication_Safety
begin

text \<open>
  Client requests: what \<^verbatim>\<open>handle_cli\<close> of \<^verbatim>\<open>server/server.rs\<close> answers, and what a write leaves in the
  log of the leader and in the messages to its peers.
\<close>

section \<open>Writes\<close>

definition is_write :: "CliReq \<Rightarrow> bool" where
  "is_write r \<longleftrightarrow> \<not> CliReq_has_get r \<and> (CliReq_has_set r \<or> CliReq_has_cas r \<or> CliReq_has_del r)"

text \<open>The mutation that a write request asks for.\<close>

definition request_mutation :: "CliReq \<Rightarrow> TXID \<Rightarrow> Term \<Rightarrow> Mutation" where
  "request_mutation r =
     (if CliReq_has_set r then set_mutation (CliReq_get_set r)
      else if CliReq_has_cas r then cas_mutation (CliReq_get_cas r)
      else del_mutation (CliReq_get_del r))"

lemma request_mutation_version: "Mutation_get_version (request_mutation r x t) = new_version x t"
  by (simp add: request_mutation_def)

lemma handle_cli_write:
  assumes "parse_CliReq E (msg req) = Inr r" and "is_leader (state s)" and "is_write r"
  shows "handle_cli E req s = submit E req (CliReq_get_req_id r) (request_mutation r) s"
  using assms by (auto simp: handle_cli_def Let_def is_write_def request_mutation_def)

text \<open>The message for one peer: sent to its connection, from its recorded position, with the
  entries that follow what it was sent before, at most ninety-nine of them.\<close>

definition sent_to :: "'db Ext \<Rightarrow> PeerID \<Rightarrow> Mutation InMemoryLog \<Rightarrow> RepPeer \<Rightarrow> Envelope \<Rightarrow> bool" where
  "sent_to E i l p env \<longleftrightarrow>
     tok env = rp_tok p \<and> address env = rp_addr p \<and>
     write_PeerMsg E (append_message i p (last_learned_txid l)
       (List.map_filter (log_get l) (map (\<lambda>n. rp_max_sent_txid p + of_nat n) [1 ..< 100]))) = Inr (msg env)"

lemma u64_range_batch:
  assumes "checked_add x 1 = Inr lo" and "checked_add x 100 = Inr hi"
  shows "u64_range lo hi = map (\<lambda>n. x + of_nat n) [1 ..< 100]"
proof -
  have "unat lo = unat x + 1" "unat hi = unat x + 100" "lo = x + 1"
    using assms checked_add_unat [OF assms(1)] checked_add_unat [OF assms(2)] by (auto simp: checked_add_Inr_iff)
  then have "u64_range lo hi = map (\<lambda>i. x + 1 + of_nat i) [0 ..< 99]" by (simp add: u64_range_def)
  also have "\<dots> = map (\<lambda>n. x + of_nat n) (map Suc [0 ..< 99])"
    by (simp add: comp_def add.assoc)
  also have "map Suc [0 ..< 99] = [1 ..< 100]" by (simp add: map_Suc_upt)
  finally show ?thesis .
qed

lemma send_to_peers_sent:
  assumes "send_to_peers E i l es = Inr (es', envs)"
  shows "list_all2 (\<lambda>e env. sent_to E i l (snd e) env) es envs"
  by (rule list_all2_mono [OF send_to_peers_envelopes [OF assms]])
     (auto simp: sent_to_def u64_range_batch simp del: upt.simps)

lemma submit_effect:
  assumes "server_inv s" and "\<And>x t. Mutation_get_version (mk x t) = new_version x t"
    and "submit E req i mk s = Inr s'"
  shows "\<exists>x t replies envs. x = max_generated_txid s + 1 \<and> max_generated_txid s < x \<and> state_term (state s) = Some t \<and>
    last_accepted_txid (rep_log s') = x \<and> last_accepted_term (rep_log s') = t \<and>
    log_get (rep_log s') x = Some (mk x t) \<and> (\<forall>y. y \<noteq> x \<longrightarrow> log_get (rep_log s') y = log_get (rep_log s) y) \<and>
    outbox s' = outbox s @ replies @ envs \<and>
    list_all2 (\<lambda>e env. sent_to E (srv_id s) (rep_log s') (snd e) env) (rep_peers s) envs"
  using assms(3)
proof (cases rule: submit_cases)
  case (1 x t s1 ps envs)
  have inv: "log_inv (rep_log s)" using assms(1) by (simp add: server_inv_def log_sync_def)
  from 1(3) obtain l where app: "log_append t x (mk x t) (rep_log s) = Inr l"
    and l: "rep_log s1 = fst (ack_up_to x (srv_id s) l)"
    and core: "rep_peers s1 = rep_peers s" "srv_id s1 = srv_id s"
    by (cases rule: replicate_mutation_Inr) (auto simp: assms(2) same_core_def dest!: learn_each_frame(1))
  from 1(3) obtain replies where ob: "outbox s1 = outbox s @ replies"
    by (cases rule: replicate_mutation_Inr) (auto dest!: learn_each_outbox)
  note A = iml.append_then_ack [OF inv app] iml.append_then_ack_keeps [OF inv app]
  have "list_all2 (\<lambda>e env. sent_to E (srv_id s) (rep_log s') (snd e) env) (rep_peers s) envs"
    using send_to_peers_sent [OF 1(4)] 1(5) core by simp
  moreover have "x = max_generated_txid s + 1" "max_generated_txid s < x"
    using 1(1) checked_add_1_greater [OF 1(1)] by (simp_all add: checked_add_Inr_iff)
  ultimately show ?thesis
    using 1(2,5) ob A l by (intro exI [of _ x] exI [of _ t] exI [of _ replies] exI [of _ envs]) simp
qed

lemma get_response_reads:
  assumes "store_laws E view"
  shows "(case db_get E (db s) k of
       DBError e \<Rightarrow> \<not> GetRes_get_success (get_response E k s) \<and> GetRes_get_err (get_response E k s) = op_err
     | _ \<Rightarrow> GetRes_value (get_response E k s) = view (db s) k \<and>
         GetRes_get_success (get_response E k s) = (view (db s) k \<noteq> None)) \<and>
    GetRes_txid (get_response E k s) = Some (last_learned_txid (rep_log s))"
  using store_lawsD(1,2) [OF assms(1), of "db s" k]
  by (cases "db_get E (db s) k") (simp_all add: get_response_def GetRes_accessors)

section \<open>Properties\<close>

text \<open>C18. A write request on a leader, of any of the three kinds: it gets the txid after the last
  one issued and the leader's term, its mutation is appended to the log as its last entry,
  every other entry stays as it was, and after any responses to clients exactly one message
  goes to each replication peer, with the entries which that peer has not been sent.\<close>

theorem leader_write_replicates:
  assumes "reachable E s" and "is_leader (state s)" and "parse_CliReq E (msg req) = Inr r" and "is_write r"
    and "handle_cli E req s = Inr s'"
  shows "\<exists>x t replies envs. x = max_generated_txid s + 1 \<and> max_generated_txid s < x \<and> state_term (state s) = Some t \<and>
    last_accepted_txid (rep_log s') = x \<and> last_accepted_term (rep_log s') = t \<and>
    log_get (rep_log s') x = Some (request_mutation r x t) \<and>
    (\<forall>y. y \<noteq> x \<longrightarrow> log_get (rep_log s') y = log_get (rep_log s) y) \<and>
    outbox s' = outbox s @ replies @ envs \<and>
    list_all2 (\<lambda>e env. sent_to E (srv_id s) (rep_log s') (snd e) env) (rep_peers s) envs"
  using submit_effect [OF reachable_inv [OF assms(1)] request_mutation_version] assms(5)
    handle_cli_write [OF assms(3,2,4)] by simp

theorem leader_write_replicates_witness:
  "\<exists>s' replies env. handle_cli trio_ext (trio_env 9 2) trio_leader = Inr s' \<and>
     outbox s' = outbox trio_leader @ replies @ [env] \<and> tok env = 6 \<and>
     log_get (rep_log s') 1 = Some (request_mutation demo_set 1 1)"
proof -
  obtain s' where s': "handle_cli trio_ext (trio_env 9 2) trio_leader = Inr s'"
    using trio_replicated by (auto simp: server_step_def)
  have lead: "is_leader (state trio_leader)" "state_term (state trio_leader) = Some 1"
    "max_generated_txid trio_leader = 0" "rep_peers trio_leader = [(''b'', trio_b)]"
    by (simp_all add: trio_leader_def trio_candidate_def peer_broadcast_def Server_init_def)
  have p: "parse_CliReq trio_ext (msg (trio_env 9 2)) = Inr demo_set" by (simp add: trio_ext_def trio_env_def)
  have w: "is_write demo_set" by (simp add: is_write_def demo_msgs)
  obtain replies envs where "log_get (rep_log s') 1 = Some (request_mutation demo_set 1 1)"
    and o': "outbox s' = outbox trio_leader @ replies @ envs"
    and sent: "list_all2 (\<lambda>e env. sent_to trio_ext (srv_id trio_leader) (rep_log s') (snd e) env) [(''b'', trio_b)] envs"
    using leader_write_replicates [OF trio_reachable lead(1) p w s'] lead(2-4) by auto
  moreover from sent obtain env where "envs = [env]" "tok env = 6"
    by (auto simp: list_all2_Cons1 sent_to_def trio_b_def)
  ultimately show ?thesis using s' by auto
qed

text \<open>A read on a leader answers from the store and changes nothing else: unless the store fails, it
  succeeds with the stored value exactly when the key is present; it carries the learned txid.\<close>

theorem leader_get_reads_store:
  assumes "store_laws E view" and "is_leader (state s)"
    and "parse_CliReq E (msg req) = Inr r" and "CliReq_has_get r" and "handle_cli E req s = Inr s'"
  shows "\<exists>b g. s' = reply req b s \<and>
    write_CliRes E (CliRes_set_get g (CliRes_set_req_id (CliReq_get_req_id r) CliRes_new)) = Inr b \<and>
    (case db_get E (db s) (GetReq_get_key (CliReq_get_get r)) of
       DBError e \<Rightarrow> \<not> GetRes_get_success g \<and> GetRes_get_err g = op_err
     | _ \<Rightarrow> GetRes_value g = view (db s) (GetReq_get_key (CliReq_get_get r)) \<and>
         GetRes_get_success g = (view (db s) (GetReq_get_key (CliReq_get_get r)) \<noteq> None)) \<and>
    GetRes_txid g = Some (last_learned_txid (rep_log s))"
  using get_response_reads [OF assms(1), where s = s and k = "GetReq_get_key (CliReq_get_get r)"] assms(2-5)
  by (auto simp: handle_cli_def Let_def reply_cli_Inr)

theorem leader_get_reads_store_witness:
  "\<exists>s' b. handle_cli (mem_ext [] [([2], CliReq_set_get (GetReq_set_key [7] GetReq_new) CliReq_new)])
      (demo_env 2) demo_leader = Inr s' \<and> s' = reply (demo_env 2) b demo_leader"
proof -
  let ?q = "CliReq_set_get (GetReq_set_key [7] GetReq_new) CliReq_new"
  let ?E = "mem_ext [] [([2], ?q)]"
  have l: "is_leader (state demo_leader)" by (simp add: demo_leader_def)
  have p: "parse_CliReq ?E (msg (demo_env 2)) = Inr ?q" by (simp add: demo_env_def)
  have g: "CliReq_has_get ?q" by (simp add: CliReq_accessors)
  obtain s' where s': "handle_cli ?E (demo_env 2) demo_leader = Inr s'"
    using l p g by (simp add: handle_cli_def Let_def reply_cli_def)
  then show ?thesis using leader_get_reads_store [OF mem_ext_store(1) l p g s'] by blast
qed

text \<open>A node that does not lead changes nothing on a client request, whatever it asks: it
  redirects to the leader's address if it follows one, and reports that there is none
  otherwise.\<close>

theorem non_leader_redirects:
  assumes "\<not> is_leader (state s)" and "parse_CliReq E (msg req) = Inr r" and "handle_cli E req s = Inr s'"
  shows "\<exists>b rr. s' = reply req b s \<and>
    write_CliRes E (CliRes_set_redirect rr (CliRes_set_req_id (CliReq_get_req_id r) CliRes_new)) = Inr b \<and>
    (case state s of
       Follower _ _ _ a _ \<Rightarrow> RedirectRes_get_success rr \<and> RedirectRes_get_address rr = fmt_addr E a
     | _ \<Rightarrow> \<not> RedirectRes_get_success rr \<and> RedirectRes_get_err rr = ''No leader has been elected yet'')"
proof -
  have "case state s of
       Follower _ _ _ a _ \<Rightarrow> RedirectRes_get_success (redirect_response E (state s)) \<and>
         RedirectRes_get_address (redirect_response E (state s)) = fmt_addr E a
     | _ \<Rightarrow> \<not> RedirectRes_get_success (redirect_response E (state s)) \<and>
         RedirectRes_get_err (redirect_response E (state s)) = ''No leader has been elected yet''"
    by (cases "state s") (simp_all add: redirect_response_def RedirectRes_accessors)
  then show ?thesis
    using assms by (auto simp: handle_cli_def Let_def reply_cli_Inr)
qed

theorem non_leader_redirects_witness:
  "\<exists>s' b. handle_cli demo_ext (demo_env 2) follow_state = Inr s' \<and> s' = reply (demo_env 2) b follow_state"
proof -
  have l: "\<not> is_leader (state follow_state)" by (simp add: follow_state_def reply_def)
  have p: "parse_CliReq demo_ext (msg (demo_env 2)) = Inr demo_set" by (simp add: demo_ext_def demo_env_def)
  obtain s' where s': "handle_cli demo_ext (demo_env 2) follow_state = Inr s'"
    using l p by (simp add: handle_cli_def Let_def reply_cli_def demo_ext_def)
  then show ?thesis using non_leader_redirects [OF l p s'] by blast
qed

end
