(* ===== verification/End_To_End.thy ===== *)
theory End_To_End
  imports Single_Node Client_Requests Election_Safety Wire_Format
begin

text \<open>
  From one end to the other: a client operation of \<^verbatim>\<open>client/mod.rs\<close>, the encoding of its request, the handler of the server, the store,
  the encoding of the response and what the operation returns.
\<close>

section \<open>The two requests and their responses on the wire\<close>

abbreviation set_request :: "u64 \<Rightarrow> bytes \<Rightarrow> bytes \<Rightarrow> CliReq" where
  "set_request n k v \<equiv> CliReq_set_req_id n (CliReq_set_set (SetReq_set_value v (SetReq_set_key k SetReq_new)) CliReq_new)"

abbreviation get_request :: "u64 \<Rightarrow> bytes \<Rightarrow> CliReq" where
  "get_request n k \<equiv> CliReq_set_req_id n (CliReq_set_get (GetReq_set_key k GetReq_new) CliReq_new)"

abbreviation set_answer :: "bool \<Rightarrow> u64 \<Rightarrow> CliRes" where
  "set_answer ok n \<equiv> CliRes_set_req_id n (CliRes_set_set (set_verdict ok) CliRes_new)"

abbreviation set_done :: "u64 \<Rightarrow> CliRes" where
  "set_done n \<equiv> CliRes_set_req_id n (CliRes_set_set (SetRes_set_success True SetRes_new) CliRes_new)"

lemma requests_on_wire:
  "CliReq_known (set_request n k v)" "CliReq_norm (set_request n k v) = set_request n k v"
  "CliReq_known (get_request n k)" "CliReq_norm (get_request n k) = get_request n k"
  by (simp_all add: CliReq_known_def SetReq_known_def GetReq_known_def CliReq_norm_def SetReq_norm_def GetReq_norm_def
      CliReq_accessors SetReq_accessors GetReq_accessors)

lemma requests_fields:
  "\<not> CliReq_has_get (set_request n k v)" "CliReq_has_set (set_request n k v)" "CliReq_get_req_id (set_request n k v) = n"
  "SetReq_get_key (CliReq_get_set (set_request n k v)) = k" "SetReq_get_value (CliReq_get_set (set_request n k v)) = v"
  "CliReq_has_get (get_request n k)" "CliReq_get_req_id (get_request n k) = n"
  "GetReq_get_key (CliReq_get_get (get_request n k)) = k"
  by (simp_all add: CliReq_accessors SetReq_accessors GetReq_accessors)

lemma set_answer_on_wire:
  "CliRes_known (set_answer ok n)" "\<not> CliRes_has_redirect (CliRes_norm (set_answer ok n))"
  "SetRes_get_success (CliRes_get_set (CliRes_norm (set_answer ok n))) = ok"
  by (simp_all add: set_verdict_def CliRes_known_def SetRes_known_def CliRes_norm_def SetRes_norm_def CliRes_accessors SetRes_accessors)

lemma get_done_on_wire:
  fixes E s k n
  defines "r \<equiv> CliRes_set_get (get_response E k s) (CliRes_set_req_id n CliRes_new)"
  shows "CliRes_known r" "\<not> CliRes_has_redirect (CliRes_norm r)"
    "GetRes_value (CliRes_get_get (CliRes_norm r)) = GetRes_value (get_response E k s)"
    "GetRes_get_success (CliRes_get_get (CliRes_norm r)) = GetRes_get_success (get_response E k s)"
proof -
  have "GetRes_known (get_response E k s)"
    by (auto simp: GetRes_known_def get_response_def GetRes_accessors split: DBResult.split)
  then show "CliRes_known r" by (simp add: r_def CliRes_known_def CliRes_accessors)
qed (simp_all add: r_def CliRes_norm_def GetRes_norm_def CliRes_accessors GetRes_accessors)

text \<open>What the operations return when the first server they try answers.\<close>

lemma Client_set_answered:
  assumes "buf_laws rd" and "unat (req_counter self) < 2 ^ 64 - 1" and "cl_servers self = p # qs"
    and "write_CliReq X (set_request (req_counter self + 1) k v) = Inr b" and "answers b m (net 0 p)"
    and "parse_CliRes X m = Inr res" and "\<not> CliRes_has_redirect res"
  shows "Client_set X rd net k v self = Some (Inr (Inr (CliRes_get_set res), self\<lparr>req_counter := req_counter self + 1\<rparr>))"
  using req_loop_answers [OF assms(4,1) _ assms(6,7), of net 0 p qs] assms(3,5)
  by (simp add: Client_set_def numbered_req_def get_id_ok [OF assms(2)] Client_req_def)

lemma Client_get_answered:
  assumes "buf_laws rd" and "unat (req_counter self) < 2 ^ 64 - 1" and "cl_servers self = p # qs"
    and "write_CliReq X (get_request (req_counter self + 1) k) = Inr b" and "answers b m (net 0 p)"
    and "parse_CliRes X m = Inr res" and "\<not> CliRes_has_redirect res"
  shows "Client_get X rd net k self = Some (Inr (Inr (CliRes_get_get res), self\<lparr>req_counter := req_counter self + 1\<rparr>))"
  using req_loop_answers [OF assms(4,1) _ assms(6,7), of net 0 p qs] assms(3,5)
  by (simp add: Client_get_def numbered_req_def get_id_ok [OF assms(2)] Client_req_def)

section \<open>A write and a read\<close>

text \<open>What a client learns of a set and a get of the same key after it, on a store \<open>d\<close>: the set reports what the store
  answered to the write; after a write that succeeded, a get that succeeds returns the value, and one that does not was
  refused by the store; after a write that failed, a get that succeeds returns the value from before.\<close>

definition write_then_read :: "'db Ext \<Rightarrow> ('db \<Rightarrow> kv) \<Rightarrow> 'db \<Rightarrow> bytes \<Rightarrow> bytes \<Rightarrow> SetRes \<Rightarrow> GetRes \<Rightarrow> bool" where
  "write_then_read E view d k v r g \<longleftrightarrow>
     (SetRes_get_success r \<longleftrightarrow> is_ok (fst (db_put E d k v))) \<and>
     (if SetRes_get_success r then
        if GetRes_get_success g then GetRes_get_value g = v else \<exists>e. db_get E (snd (db_put E d k v)) k = DBError e
      else GetRes_get_success g \<longrightarrow> view d k = Some (GetRes_get_value g))"

text \<open>In a cluster of one, when the request of \<^verbatim>\<open>Client::set\<close> is handled by the leader and its response reaches the
  client, and then those of a \<^verbatim>\<open>Client::get\<close> of the same key, both operations return, with such results. Requests and
  responses are encoded, framed and arrive in any pieces.\<close>

lemma client_reads_answers:
  assumes "pb_laws rt" and "wire_ext rt E" and "wire_cli_ext rt X" and "buf_laws rd" and "store_laws E view"
    and "lone s" and "is_leader (state s)" and "unat (req_counter self) < 2 ^ 64 - 2" and "cl_servers self = p # qs"
    and "write_CliReq X (set_request (req_counter self + 1) k v) = Inr (msg env)" and "handle_cli E env s = Inr s1"
    and "answers (msg env) (msg (outbox s1 ! length (outbox s))) (net 0 p)"
    and "write_CliReq X (get_request (req_counter self + 2) k) = Inr (msg env')" and "handle_cli E env' s1 = Inr s2"
    and "answers (msg env') (msg (outbox s2 ! length (outbox s1))) (net' 0 p)"
  shows "\<exists>r self' g self''. Client_set X rd net k v self = Some (Inr (Inr r, self')) \<and>
    Client_get X rd net' k self' = Some (Inr (Inr g, self'')) \<and> write_then_read E view (db s) k v r g"
proof -
  let ?n = "req_counter self + 1"
  let ?self = "self\<lparr>req_counter := ?n\<rparr>"
  have n: "unat (req_counter self) < 2 ^ 64 - 1" "unat (req_counter ?self) < 2 ^ 64 - 1"
    using assms(8) by (simp_all add: unat_word_ariths)
  have p1: "parse_CliReq E (msg env) = Inr (set_request ?n k v)"
    using client_request_parses [OF assms(1,3,2) _ assms(10)] by (simp add: requests_on_wire)
  have p2: "parse_CliReq E (msg env') = Inr (get_request (req_counter self + 2) k)"
    using client_request_parses [OF assms(1,3,2) _ assms(13)] by (simp add: requests_on_wire)
  obtain q d1 where put: "db_put E (db s) k v = (q, d1)" by fastforce
  from lone_set [OF assms(5-7) p1 _ _ assms(11), of k v q d1] put
  obtain b envs where d1: "db s1 = d1" and view: "view (db s1) = (if is_ok q then (view (db s))(k \<mapsto> v) else view (db s))"
    and out: "outbox s1 = outbox s @ \<lparr>address = address env, tok = tok env, msg = b\<rparr> # envs"
    and b: "write_CliRes E (set_answer (is_ok q) ?n) = Inr b"
    by (auto simp: requests_fields)
  let ?r = "CliRes_get_set (CliRes_norm (set_answer (is_ok q) ?n))"
  have "parse_CliRes X b = Inr (CliRes_norm (set_answer (is_ok q) ?n))"
    by (rule client_response_parses [OF assms(1-3) set_answer_on_wire(1) b])
  then have set: "Client_set X rd net k v self = Some (Inr (Inr ?r, ?self))"
    using Client_set_answered [OF assms(4) n(1) assms(9,10) _ _ set_answer_on_wire(2), of b net] assms(12) out by simp
  let ?g = "CliRes_set_get (get_response E k s1) (CliRes_set_req_id (req_counter self + 2) CliRes_new)"
  have "is_leader (state s1)" using handle_cli_state [OF assms(11)] assms(7) by simp
  then obtain b' where b': "write_CliRes E ?g = Inr b'" "s2 = reply env' b' s1"
    using assms(14) p2 by (auto simp: handle_cli_def Let_def requests_fields reply_cli_Inr)
  have "parse_CliRes X b' = Inr (CliRes_norm ?g)"
    by (rule client_response_parses [OF assms(1-3) get_done_on_wire(1) b'(1)])
  then have get: "Client_get X rd net' k ?self =
      Some (Inr (Inr (CliRes_get_get (CliRes_norm ?g)), ?self\<lparr>req_counter := req_counter ?self + 1\<rparr>))"
    using Client_get_answered [OF assms(4) n(2), of p qs X k "msg env'" b' net'] get_done_on_wire(2) [where E = E and k = k and s = s1 and n = "req_counter self + 2"] assms(9,13,15) b'(2)
    by (simp add: reply_def add.assoc)
  have "write_then_read E view (db s) k v ?r (CliRes_get_get (CliRes_norm ?g))"
    using get_response_reads [OF assms(5), where s = s1 and k = k] view put d1
    by (auto simp: write_then_read_def set_answer_on_wire(3) get_done_on_wire(3,4) GetRes_value_field_def split: DBResult.splits)
  with set get show ?thesis by blast
qed

text \<open>An instance: a lone leader with an empty store, and the messages of a client that sets a key and reads it.\<close>

abbreviation lone_ext :: "(bytes \<Rightarrow> bytes option) Ext" where
  "lone_ext \<equiv> wire_mem pb_varint"

definition lone_leader :: "(bytes \<Rightarrow> bytes option) Server" where
  "lone_leader = (Server_init 1 2 ''a'' [''a''] Map.empty)\<lparr>state := Leader 0 [] 1 (Timespec 12 0)\<rparr>"

lemma lone_leader_ok: "lone lone_leader" "is_leader (state lone_leader)" "outbox lone_leader = []"
  by (simp_all add: lone_leader_def lone_def Server_init_def server_inv_defs empty_log_def log_inv_def)

lemma lone_ext_store: "store_laws lone_ext (\<lambda>d. d)"
  by (auto simp: store_laws_def wire_mem_def split: option.splits)

lemma printed:
  assumes "wire_ok compute_size write merge dflt norm known cached" and "known m" and "initialized m"
    and "\<exists>m'. compute_size m = Inr (n, m')"
  shows "\<exists>b. write_with initialized compute_size write m = Inr b \<and> length b = unat n"
  using assms unfolding wire_ok_def by (fastforce simp: write_with_def)

lemmas client_sizes = CliReq_compute_size_def SetReq_compute_size_def GetReq_compute_size_def CliRes_compute_size_def
  SetRes_compute_size_def GetRes_compute_size_def demo_sizes

lemma lone_prints:
  "\<exists>b. write_CliReq (wire_cli pb_varint) (set_request 1 [7] [9]) = Inr b \<and> length b = unat (10 :: u32)"
  "\<exists>b. write_CliReq (wire_cli pb_varint) (get_request 2 [7]) = Inr b \<and> length b = unat (7 :: u32)"
  "\<exists>b. write_CliRes lone_ext (set_done 1) = Inr b \<and> length b = unat (6 :: u32)"
proof -
  show "\<exists>b. write_CliReq (wire_cli pb_varint) (set_request 1 [7] [9]) = Inr b \<and> length b = unat (10 :: u32)"
    unfolding wire_cli_def Cli_Ext.select_convs
    by (rule printed [OF CliReq_wire [OF pb_varint_laws] requests_on_wire(1)])
       (simp_all add: CliReq_is_initialized_def CliReq_accessors SetReq_accessors client_sizes)
  show "\<exists>b. write_CliReq (wire_cli pb_varint) (get_request 2 [7]) = Inr b \<and> length b = unat (7 :: u32)"
    unfolding wire_cli_def Cli_Ext.select_convs
    by (rule printed [OF CliReq_wire [OF pb_varint_laws] requests_on_wire(3)])
       (simp_all add: CliReq_is_initialized_def CliReq_accessors GetReq_accessors client_sizes)
  show "\<exists>b. write_CliRes lone_ext (set_done 1) = Inr b \<and> length b = unat (6 :: u32)"
    unfolding wire_mem_writes
    by (rule printed [OF CliRes_wire [OF pb_varint_laws] set_answer_on_wire(1) [where ok = True, unfolded set_verdict_def if_True]])
       (simp_all add: CliRes_is_initialized_def CliRes_accessors SetRes_accessors client_sizes)
qed

lemma demo_link_answers: "length m < 2 ^ 32 \<Longrightarrow> answers b m (demo_link [frame m])"
  unfolding answers_def by (auto simp: demo_link_takes read_data_def intro!: exI [of _ 1]) (simp_all add: demo_link_def)

lemma lone_run:
  assumes "parse_CliReq lone_ext (msg env) = Inr (set_request 1 [7] [9])" and "write_CliRes lone_ext (set_done 1) = Inr b"
  shows "\<exists>s. handle_cli lone_ext env lone_leader = Inr s \<and> db s = [[7] \<mapsto> [9]] \<and> last_learned_txid (rep_log s) = 1 \<and>
    outbox s = [\<lparr>address = address env, tok = tok env, msg = b\<rparr>]"
proof -
  have "handle_cli lone_ext env lone_leader = submit lone_ext env 1 (set_mutation (SetReq_set_value [9] (SetReq_set_key [7] SetReq_new))) lone_leader"
    using assms(1) lone_leader_ok(2) by (simp add: handle_cli_def Let_def CliReq_accessors)
  then show ?thesis
    using assms(2)
    by (simp add: Let_def submit_def new_txid_def lone_leader_def Server_init_def checked_add_def replicate_def
      replicate_mutation_def log_append_def empty_log_def ack_up_to_eq drain_spec_def push_ack_def learn_each_def
      learn_def learn_mutation_def learn_set_def log_get_def set_mutation_def new_version_def
      reply_cli_def reply_def entry_id_def learn_entry_def Mutation_accessors Version_accessors SetReq_accessors)
qed

lemma get_done_printed:
  "\<exists>b. write_CliRes lone_ext (CliRes_set_get (GetRes_set_txid 1 (GetRes_set_value [9] (GetRes_set_success True GetRes_new)))
      (CliRes_set_req_id 2 CliRes_new)) = Inr b \<and> length b = unat (11 :: u32)"
  unfolding wire_mem_writes
  by (rule printed [OF CliRes_wire [OF pb_varint_laws]])
     (simp_all add: CliRes_known_def GetRes_known_def CliRes_is_initialized_def CliRes_accessors GetRes_accessors client_sizes)

end
