(* ===== verification/Node_Client.thy ===== *)
theory Node_Client
  imports Process_Answers End_To_End
begin

text \<open>
  A client and a node from end to end: a client operation of \<^verbatim>\<open>client/mod.rs\<close>, the encoding of its request, the event loop and the threads of
  the node, the store, the encoding of the response, the way back through the event loop, and what the operation returns.
\<close>

text \<open>A lone leader without replication peers sends the response to a set request and nothing else.\<close>

lemma lone_set_reply:
  assumes "lone s" and "is_leader (state s)" and "rep_peers s = []"
    and "parse_CliReq E (msg req) = Inr r" and "\<not> CliReq_has_get r" and "CliReq_has_set r" and "handle_cli E req s = Inr s'"
  shows "\<exists>b. outbox s' = outbox s @ [\<lparr>address = address req, tok = tok req, msg = b\<rparr>]"
proof -
  have "submit E req (CliReq_get_req_id r) (set_mutation (CliReq_get_set r)) s = Inr s'"
    using assms(2,4-7) by (simp add: handle_cli_def Let_def)
  from lone_submit [OF assms(1) mutation_versions(3) this] show ?thesis using assms(3) by (metis (no_types, lifting))
qed

lemma get_reply:
  assumes "is_leader (state s)" and "parse_CliReq E (msg req) = Inr r" and "CliReq_has_get r" and "handle_cli E req s = Inr s'"
  shows "\<exists>b. outbox s' = outbox s @ [\<lparr>address = address req, tok = tok req, msg = b\<rparr>]"
  using assms by (auto simp: handle_cli_def Let_def reply_cli_Inr reply_def)

text \<open>An instance: the process of a lone leader with two client connections.\<close>

definition demo_cop3 :: "demo_slab TrafficCop" where
  "demo_cop3 = demo_cop2\<lparr>cli_handler := (cli_handler demo_cop2)\<lparr>conns :=
     ((1024, 4096), (\<lambda>_. None)(1024 := Some (ServerConn_new 10 CliReqs\<lparr>token := Some 1024\<rparr>),
        1025 := Some (ServerConn_new 11 CliReqs\<lparr>token := Some 1025\<rparr>)))\<rparr>\<rparr>"

lemma slab_tokens_two: "\<exists>ts. slab_tokens (1024, 4096) = 1024 # 1025 # ts"
  by (simp add: slab_tokens_def in_slots_def upt_rec [of 0] upt_rec [of "Suc 0"])

lemma demo_cop3_reachable: "cop_reachable demo_slab_ops mem_buf demo_cop3"
proof -
  let ?os = "demo_os []\<lparr>os_accept := \<lambda>s. Inr (Some 11)\<rparr>"
  obtain ts where "slab_tokens (1024, 4096) = 1024 # 1025 # ts" using slab_tokens_two by blast
  then have "cop_step demo_slab_ops ?os mem_buf (EvReady SERVER_CLIENTS {Readable}) demo_cop2 =
      Some (Inr (demo_cop3, [Reregister 7778 0 {Readable}, Register 11 1025 {Readable}]))"
    by (simp add: TrafficCop_ready_def ready_read_def SERVER_CLIENTS_def SERVER_PEERS_def ConnSet_accept_def ConnSet_register_def
        slab_index_def in_slots_def Let_def demo_cop0_def demo_cop2_def demo_cop3_def demo_os_def demo_slab_ops_def fun_eq_iff)
  moreover have "os_writes_ok ?os" by (simp add: os_writes_ok_def demo_os_def)
  moreover have "cop_reachable demo_slab_ops mem_buf demo_cop2"
    using process_reachable(2) [OF demo_Server_run_eq demo_process_accepts] by (simp add: demo_process_def)
  ultimately show ?thesis by (blast intro: cop_reachable.Step)
qed

lemma demo_cop3_idle:
  "client_idle demo_slab_ops demo_cop3 1024 (ServerConn_new 10 CliReqs\<lparr>token := Some 1024\<rparr>)"
  "client_idle demo_slab_ops demo_cop3 1025 (ServerConn_new 11 CliReqs\<lparr>token := Some 1025\<rparr>)"
  by (simp_all add: client_idle_def demo_slab_ops_def demo_cop3_def in_slots_def ServerConn_new_def)

lemma demo_client_socket: "client_socket (demo_os (frame b)) k t ([127, 0, 0, 1], 7770) b"
  by (simp add: client_socket_def) (simp add: demo_os_def)

lemma lone_session:
  assumes "write_CliReq (wire_cli pb_varint) (set_request 1 [7] [9]) = Inr q1" and "write_CliReq (wire_cli pb_varint) (get_request 2 [7]) = Inr q2"
  shows "\<exists>s1 s2. handle_cli lone_ext \<lparr>address = a, tok = t, msg = q1\<rparr> lone_leader = Inr s1 \<and>
    handle_cli lone_ext \<lparr>address = a, tok = t', msg = q2\<rparr> s1 = Inr s2 \<and>
    4 + length (msg (outbox s1 ! length (outbox lone_leader))) < 2 ^ 32 \<and> 4 + length (msg (outbox s2 ! length (outbox s1))) < 2 ^ 32"
proof -
  obtain b1 b2 where b1: "write_CliRes lone_ext (set_done 1) = Inr b1" "length b1 = 6"
    and b2: "write_CliRes lone_ext (CliRes_set_get (GetRes_set_txid 1 (GetRes_set_value [9] (GetRes_set_success True GetRes_new)))
        (CliRes_set_req_id 2 CliRes_new)) = Inr b2" "length b2 = 11"
    using lone_prints(3) get_done_printed by fastforce
  let ?env = "\<lambda>t q. \<lparr>address = a, tok = t, msg = q\<rparr>"
  have p: "parse_CliReq lone_ext q1 = Inr (set_request 1 [7] [9])" "parse_CliReq lone_ext q2 = Inr (get_request 2 [7])"
    using client_request_parses [OF pb_varint_laws wire_cli_cli_ext wire_mem_ext _ assms(1)]
      client_request_parses [OF pb_varint_laws wire_cli_cli_ext wire_mem_ext _ assms(2)] by (simp_all add: requests_on_wire)
  obtain s1 where s1: "handle_cli lone_ext (?env t q1) lone_leader = Inr s1" "db s1 = [[7] \<mapsto> [9]]" "last_learned_txid (rep_log s1) = 1"
      "outbox s1 = [?env t b1]"
    using lone_run [of "?env t q1" b1] p(1) b1(1) by auto
  have "get_response lone_ext [7] s1 = GetRes_set_txid 1 (GetRes_set_value [9] (GetRes_set_success True GetRes_new))"
    using s1(2,3) by (simp add: get_response_def)
  moreover have "is_leader (state s1)" using handle_cli_state [OF s1(1)] lone_leader_ok(2) by simp
  ultimately have "handle_cli lone_ext (?env t' q2) s1 = Inr (reply (?env t' q2) b2 s1)"
    using p(2) b2(1) by (simp add: handle_cli_def Let_def requests_fields reply_cli_def)
  then show ?thesis using s1 lone_leader_ok(3) b1(2) b2(2) by (simp add: reply_def)
qed

definition lone_process :: "(bytes \<Rightarrow> bytes option, demo_slab) Process" where
  "lone_process = (demo_process (Looping demo_cop3) [])\<lparr>server := Some lone_leader\<rparr>"

lemma lone_process_ok:
  "halted lone_process = None" "server lone_process = Some lone_leader" "CliHandler \<in> live lone_process"
  "cli_reqs lone_process = []" "notifications lone_process = []" "io_loop lone_process = Looping demo_cop3" "rep_peers lone_leader = []"
  by (simp_all add: lone_process_def demo_process_def lone_leader_def Server_init_def)

section \<open>Property\<close>

text \<open>C5. A client reads what it has written: in a cluster of one, when the requests of \<^verbatim>\<open>Client::set\<close> and of a \<^verbatim>\<open>Client::get\<close> of the same key
  reach the process of the leader, one after the other on two idle connections, then the process puts the frame of a response on each of these
  connections; and when the client gets them, in any pieces, both operations return.  The set reports success exactly when the store took the
  write; then the get returns the value, unless the store fails to read it and the get reports that.  After a write that failed, a get
  that succeeds returns the value from before.  Requests and responses are encoded and framed; any operation of the store may fail.\<close>

theorem client_reads_its_write:
  assumes "pb_laws rt" and "wire_ext rt E" and "wire_cli_ext rt X" and "buf_laws rd" and "slab_laws S" and "store_laws E view"
    and "cop_reachable S rd cop" and "halted p = None" and "server p = Some s" and "CliHandler \<in> live p"
    and "cli_reqs p = []" and "notifications p = []" and "io_loop p = Looping cop"
    and "lone s" and "is_leader (state s)" and "rep_peers s = []"
    and "client_idle S cop t c" and "client_socket os (sock c) t a b" and "client_idle S cop t' c'" and "client_socket os' (sock c') t' a' b'" and "t' \<noteq> t"
    and "unat (req_counter self) < 2 ^ 64 - 2" and "cl_servers self = pr # qs"
    and "write_CliReq X (set_request (req_counter self + 1) k v) = Inr b" and "length b < 2 ^ 32"
    and "write_CliReq X (get_request (req_counter self + 2) k) = Inr b'" and "length b' < 2 ^ 32"
    and "env = \<lparr>address = Some a, tok = t, msg = b\<rparr>" and "handle_cli E env s = Inr s1"
    and "env' = \<lparr>address = Some a', tok = t', msg = b'\<rparr>" and "handle_cli E env' s1 = Inr s2"
    and "resp = msg (outbox s1 ! length (outbox s))" and "4 + length resp < 2 ^ 32"
    and "resp' = msg (outbox s2 ! length (outbox s1))" and "4 + length resp' < 2 ^ 32"
  shows "(\<exists>p'. proc_run E S rd p
      [Arrived CliReqs env, Handled now (CliEvent env), Notified (env\<lparr>msg := resp\<rparr>), Wrote (sock c) (frame resp),
       Arrived CliReqs env', Handled now' (CliEvent env'), Notified (env'\<lparr>msg := resp'\<rparr>), Wrote (sock c') (frame resp')] p') \<and>
    (\<forall>net net'. answers b resp (net 0 pr) \<longrightarrow> answers b' resp' (net' 0 pr) \<longrightarrow>
      (\<exists>r self' g self''. Client_set X rd net k v self = Some (Inr (Inr r, self')) \<and>
        Client_get X rd net' k self' = Some (Inr (Inr g, self'')) \<and> write_then_read E view (db s) k v r g))"
proof
  have p1: "parse_CliReq E b = Inr (set_request (req_counter self + 1) k v)"
    using client_request_parses [OF assms(1,3,2) _ assms(24)] by (simp add: requests_on_wire)
  have p2: "parse_CliReq E b' = Inr (get_request (req_counter self + 2) k)"
    using client_request_parses [OF assms(1,3,2) _ assms(26)] by (simp add: requests_on_wire)
  obtain x where "outbox s1 = outbox s @ [\<lparr>address = address env, tok = tok env, msg = x\<rparr>]"
    using lone_set_reply [OF assms(14-16) _ _ _ assms(29)] p1 assms(28) by (auto simp: requests_fields)
  then have o1: "outbox s1 = outbox s @ [env\<lparr>msg := resp\<rparr>]" using assms(28,32) by simp
  have l1: "is_leader (state s1)" using handle_cli_state [OF assms(29)] assms(15) by simp
  obtain y where "outbox s2 = outbox s1 @ [\<lparr>address = address env', tok = tok env', msg = y\<rparr>]"
    using get_reply [OF l1 _ _ assms(31)] p2 assms(30) by (auto simp: requests_fields)
  then have o2: "outbox s2 = outbox s1 @ [env'\<lparr>msg := resp'\<rparr>]" using assms(30,34) by simp
  from node_answers [OF assms(5,4,7-13,17,18,25,33,28), of "env\<lparr>msg := resp\<rparr>" E now s1 "[]"]
  obtain p1 cop1 where r1: "proc_run E S rd p [Arrived CliReqs env, Handled now (CliEvent env), Notified (env\<lparr>msg := resp\<rparr>),
      Wrote (sock c) (frame resp)] p1" "server p1 = Some s1" "cli_reqs p1 = []" "notifications p1 = []" "halted p1 = None" "live p1 = live p"
      "io_loop p1 = Looping cop1" "cop_reachable S rd cop1"
      "\<forall>u. u \<noteq> t \<longrightarrow> sl_get S (conns (cli_handler cop1)) u = sl_get S (conns (cli_handler cop)) u"
    using o1 assms(28,29) by (auto simp: server_step_def)
  have "client_idle S cop1 t' c'" "CliHandler \<in> live p1" using assms(10,19,21) r1(6,9) by (simp_all add: client_idle_def)
  from node_answers [OF assms(5,4) r1(8,5,2) this(2) r1(3,4,7) this(1) assms(20,27,35,30), of "env'\<lparr>msg := resp'\<rparr>" E now' s2 "[]"]
  obtain p2 where "proc_run E S rd p1 [Arrived CliReqs env', Handled now' (CliEvent env'), Notified (env'\<lparr>msg := resp'\<rparr>),
      Wrote (sock c') (frame resp')] p2"
    using o2 assms(30,31) by (auto simp: server_step_def)
  from proc_run_trans [OF r1(1) this]
  show "\<exists>p'. proc_run E S rd p
      [Arrived CliReqs env, Handled now (CliEvent env), Notified (env\<lparr>msg := resp\<rparr>), Wrote (sock c) (frame resp),
       Arrived CliReqs env', Handled now' (CliEvent env'), Notified (env'\<lparr>msg := resp'\<rparr>), Wrote (sock c') (frame resp')] p'"
    by auto
next
  have "write_CliReq X (set_request (req_counter self + 1) k v) = Inr (msg env)"
    "write_CliReq X (get_request (req_counter self + 2) k) = Inr (msg env')"
    using assms(24,26,28,30) by simp_all
  note H = client_reads_answers [OF assms(1-4,6,14,15,22,23) this(1) assms(29) _ this(2) assms(31)]
  show "\<forall>net net'. answers b resp (net 0 pr) \<longrightarrow> answers b' resp' (net' 0 pr) \<longrightarrow>
      (\<exists>r self' g self''. Client_set X rd net k v self = Some (Inr (Inr r, self')) \<and>
        Client_get X rd net' k self' = Some (Inr (Inr g, self'')) \<and> write_then_read E view (db s) k v r g)"
    using H assms(28,30,32,34) by simp
qed

theorem client_reads_its_write_witness:
  "\<exists>p' tr net net' q q' r self' g self'' resp resp'.
     proc_run lone_ext demo_slab_ops mem_buf lone_process tr p' \<and> Wrote 10 (frame resp) \<in> set tr \<and> Wrote 11 (frame resp') \<in> set tr \<and>
     answers q resp (net 0 ([127, 0, 0, 1], 8880)) \<and> answers q' resp' (net' 0 ([127, 0, 0, 1], 8880)) \<and>
     Client_set (wire_cli pb_varint) mem_buf net [7] [9] (Client_new [([127, 0, 0, 1], 8880)] 1) = Some (Inr (Inr r, self')) \<and>
     SetRes_get_success r \<and> Client_get (wire_cli pb_varint) mem_buf net' [7] self' = Some (Inr (Inr g, self'')) \<and>
     GetRes_get_success g \<and> GetRes_get_value g = [9]"
proof -
  let ?env = "\<lambda>t q. \<lparr>address = Some ([127, 0, 0, 1], 7770), tok = t, msg = q\<rparr>" and ?pr = "([127, 0, 0, 1], 8880)"
  let ?self = "Client_new [?pr] 1"
  obtain q1 q2 where q: "write_CliReq (wire_cli pb_varint) (set_request 1 [7] [9]) = Inr q1" "length q1 < 2 ^ 32"
      "write_CliReq (wire_cli pb_varint) (get_request 2 [7]) = Inr q2" "length q2 < 2 ^ 32"
    using lone_prints by fastforce
  obtain s1 s2 b1 b2 where s: "handle_cli lone_ext (?env 1024 q1) lone_leader = Inr s1" "handle_cli lone_ext (?env 1025 q2) s1 = Inr s2"
      "msg (outbox s1 ! length (outbox lone_leader)) = b1" "msg (outbox s2 ! length (outbox s1)) = b2" "4 + length b1 < 2 ^ 32" "4 + length b2 < 2 ^ 32"
    using lone_session [OF q(1,3), of "Some ([127, 0, 0, 1], 7770)" 1024 1025] by blast
  let ?net = "\<lambda>b _ _. demo_link [frame b]"
  have a: "answers q1 b1 (demo_link [frame b1])" "answers q2 b2 (demo_link [frame b2])"
    using demo_link_answers s(5,6) by simp_all
  have self: "unat (req_counter ?self) < 2 ^ 64 - 2" "cl_servers ?self = ?pr # []"
      "write_CliReq (wire_cli pb_varint) (set_request (req_counter ?self + 1) [7] [9]) = Inr q1"
      "write_CliReq (wire_cli pb_varint) (get_request (req_counter ?self + 2) [7]) = Inr q2"
    using q by (simp_all add: Client_new_def)
  have ne: "1025 \<noteq> (1024 :: Token)" by simp
  note client_reads_its_write [OF pb_varint_laws wire_mem_ext wire_cli_cli_ext buf_laws_mem demo_slab_laws lone_ext_store demo_cop3_reachable
      lone_process_ok(1-6) lone_leader_ok(1,2) lone_process_ok(7) demo_cop3_idle(1) demo_client_socket demo_cop3_idle(2) demo_client_socket ne
      self(1,2,3) q(2) self(4) q(4) refl s(1) refl s(2) s(3) [symmetric] s(5) s(4) [symmetric] s(6), of demo_now demo_now]
  note run = conjunct1 [OF this] and ops = conjunct2 [OF this]
  from ops [THEN spec, THEN spec, THEN mp, THEN mp, of "?net b1" "?net b2"] a
  obtain r self' g self'' where c:
     "Client_set (wire_cli pb_varint) mem_buf (?net b1) [7] [9] ?self = Some (Inr (Inr r, self'))"
     "Client_get (wire_cli pb_varint) mem_buf (?net b2) [7] self' = Some (Inr (Inr g, self''))" "write_then_read lone_ext (\<lambda>d. d) (db lone_leader) [7] [9] r g" by blast
  then have "SetRes_get_success r" "GetRes_get_success g" "GetRes_get_value g = [9]"
    by (auto simp: write_then_read_def wire_mem_def split: if_splits)
  note c = c(1,2) this
  from run obtain p' tr where "proc_run lone_ext demo_slab_ops mem_buf lone_process tr p'" "Wrote 10 (frame b1) \<in> set tr" "Wrote 11 (frame b2) \<in> set tr"
    by (fastforce simp: ServerConn_new_def)
  with c a show ?thesis
    by (intro exI [of _ p'] exI [of _ tr] exI [of _ "?net b1"] exI [of _ "?net b2"] exI [of _ q1] exI [of _ q2] exI [of _ r] exI [of _ self']
        exI [of _ g] exI [of _ self''] exI [of _ b1] exI [of _ b2]) simp
qed

end
