(* ===== verification/Logging.thy ===== *)
theory Logging
  imports Prelude
begin

text \<open>
  \<^verbatim>\<open>logging/mod.rs\<close>: the two loggers and how one is installed.  Levels belong to the \<^verbatim>\<open>log\<close> crate and are a
  linear order; files and directories belong to the operating system and answer through a parameter.
\<close>

section \<open>Strings and paths of the standard library\<close>

text \<open>\<^verbatim>\<open>split(c)\<close>.\<close>

fun split_on :: "char \<Rightarrow> string \<Rightarrow> string list" where
  "split_on d [] = [[]]"
| "split_on d (c # cs) =
     (if c = d then [] # split_on d cs
      else case split_on d cs of [] \<Rightarrow> [[c]] | w # ws \<Rightarrow> (c # w) # ws)"

fun join_on :: "char \<Rightarrow> string list \<Rightarrow> string" where
  "join_on d [] = []"
| "join_on d [w] = w"
| "join_on d (w # ws) = w @ d # join_on d ws"

text \<open>\<^verbatim>\<open>Path::parent\<close>. Of the parts between slashes the empty ones are no components, nor is a dot unless it
  starts a relative path. The last component goes, with what separates it from the one before.\<close>

definition is_component :: "bool \<Rightarrow> nat \<times> string \<Rightarrow> bool" where
  "is_component rooted p \<longleftrightarrow> snd p \<noteq> [] \<and> (snd p = ''.'' \<longrightarrow> fst p = 0 \<and> \<not> rooted)"

definition trim_parts :: "bool \<Rightarrow> string list \<Rightarrow> string list" where
  "trim_parts rooted ps = map snd (rev (dropWhile (\<lambda>p. \<not> is_component rooted p) (rev (enumerate 0 ps))))"

definition path_parent :: "string \<Rightarrow> string option" where
  "path_parent path =
     (let parts = split_on (CHR ''/'') path;
          rooted = (path \<noteq> [] \<and> hd path = CHR ''/'');
          ps = trim_parts rooted (if rooted then tl parts else parts)
      in if ps = [] then None
         else Some ((if rooted then ''/'' else []) @ join_on (CHR ''/'') (trim_parts rooted (butlast ps))))"

text \<open>\<^verbatim>\<open>trim_left\<close> on ASCII text.\<close>

definition is_space :: "char \<Rightarrow> bool" where
  "is_space c \<longleftrightarrow> of_char c \<in> {9, 10, 11, 12, 13, 32 :: nat}"

definition trim_left :: "string \<Rightarrow> string" where
  "trim_left s = dropWhile is_space s"

text \<open>Decimal printing.\<close>

fun dec_nat :: "nat \<Rightarrow> string" where
  "dec_nat n = (if n < 10 then [] else dec_nat (n div 10)) @ [char_of (48 + n mod 10)]"

declare dec_nat.simps [simp del]

definition dec_int :: "int \<Rightarrow> string" where
  "dec_int i = (if i < 0 then CHR ''-'' # dec_nat (nat (- i)) else dec_nat (nat i))"

section \<open>Records and loggers\<close>

record 'lvl LogRecord =
  rec_level :: 'lvl
  rec_file :: string
  rec_line :: u32
  rec_args :: string

text \<open>The printing of a level, directories and files. A write may fail.\<close>

record ('lvl, 'fs, 'file) LogOps =
  fmt_level :: "'lvl \<Rightarrow> string"
  create_dir_all :: "string \<Rightarrow> 'fs \<Rightarrow> (string + unit) \<times> 'fs"
  open_append :: "string \<Rightarrow> 'fs \<Rightarrow> (string + 'file) \<times> 'fs"
  write_all :: "'file \<Rightarrow> string \<Rightarrow> 'fs \<Rightarrow> (string + unit) \<times> 'fs"

record 'lvl StdoutLogger =
  so_level :: 'lvl

record ('lvl, 'file) FileLogger =
  fl_file :: 'file
  fl_level :: 'lvl

text \<open>The line of a record: level, seconds, file name without its directories, line number and text.\<close>

definition log_line :: "('lvl, 'fs, 'file) LogOps \<Rightarrow> int \<Rightarrow> 'lvl LogRecord \<Rightarrow> string" where
  "log_line L sec r =
     fmt_level L (rec_level r) @ '' '' @ dec_int sec @ '' '' @ last (split_on (CHR ''/'') (rec_file r)) @ '':'' @
     dec_nat (unat (rec_line r)) @ ''] '' @ rec_args r"

definition StdoutLogger_enabled :: "'lvl::linorder StdoutLogger \<Rightarrow> 'lvl \<Rightarrow> bool" where
  "StdoutLogger_enabled lg lvl \<longleftrightarrow> lvl \<le> so_level lg"

definition StdoutLogger_log ::
  "('lvl::linorder, 'fs, 'file) LogOps \<Rightarrow> int \<Rightarrow> 'lvl StdoutLogger \<Rightarrow> 'lvl LogRecord \<Rightarrow> string \<Rightarrow> string" where
  "StdoutLogger_log L sec lg r out =
     (if StdoutLogger_enabled lg (rec_level r) then out @ log_line L sec r @ [CHR 0x0A] else out)"

definition FileLogger_new ::
  "('lvl, 'fs, 'file) LogOps \<Rightarrow> string \<Rightarrow> 'lvl \<Rightarrow> 'fs \<Rightarrow> (string + ('lvl, 'file) FileLogger) \<times> 'fs" where
  "FileLogger_new L path lvl fs =
     (case path_parent path of
        None \<Rightarrow> (Inl (''Failed to use log directory: '' @ path), fs)
      | Some dir \<Rightarrow>
          (case create_dir_all L dir fs of
             (Inl e, fs1) \<Rightarrow> (Inl (''Failed to create log directory: '' @ e), fs1)
           | (Inr _, fs1) \<Rightarrow>
               (case open_append L path fs1 of
                  (Inl e, fs2) \<Rightarrow> (Inl e, fs2)
                | (Inr file, fs2) \<Rightarrow> (Inr \<lparr>fl_file = file, fl_level = lvl\<rparr>, fs2))))"

definition FileLogger_enabled :: "('lvl::linorder, 'file) FileLogger \<Rightarrow> 'lvl \<Rightarrow> bool" where
  "FileLogger_enabled lg lvl \<longleftrightarrow> lvl \<le> fl_level lg"

text \<open>The result of the write is dropped; the lock cannot be poisoned, since nothing panics while it is held.\<close>

definition FileLogger_log ::
  "('lvl::linorder, 'fs, 'file) LogOps \<Rightarrow> int \<Rightarrow> ('lvl, 'file) FileLogger \<Rightarrow> 'lvl LogRecord \<Rightarrow> 'fs \<Rightarrow> 'fs" where
  "FileLogger_log L sec lg r fs =
     (if FileLogger_enabled lg (rec_level r) then snd (write_all L (fl_file lg) (log_line L sec r @ [CHR 0x0A]) fs) else fs)"

datatype ('lvl, 'file) Logger = ToStdout "'lvl StdoutLogger" | ToFile "('lvl, 'file) FileLogger"

text \<open>\<^verbatim>\<open>log::set_logger\<close> installs a logger with its greatest level, once in a process: \<open>installed\<close> is what was
  installed before. The filter of the sources is the level \<^verbatim>\<open>Debug\<close>.\<close>

definition init_logger ::
  "('lvl, 'fs, 'file) LogOps \<Rightarrow> 'lvl \<Rightarrow> ('lvl \<times> ('lvl, 'file) Logger) option \<Rightarrow> string option \<Rightarrow> 'lvl \<Rightarrow> 'fs \<Rightarrow>
     ((unit + 'lvl \<times> ('lvl, 'file) Logger) \<times> 'fs) res" where
  "init_logger L debug installed path lvl fs =
     and_then (case path of
         Some p \<Rightarrow> (case FileLogger_new L (trim_left p) lvl fs of
                     (r, fs') \<Rightarrow> and_then (unwrap_res r) (\<lambda>lg. Inr (ToFile lg, fs')))
       | None \<Rightarrow> Inr (ToStdout \<lparr>so_level = lvl\<rparr>, fs)) (\<lambda>(logger, fs').
       Inr (case installed of None \<Rightarrow> Inr (debug, logger) | Some _ \<Rightarrow> Inl (), fs'))"

section \<open>Lemmas\<close>

lemma split_on_nonempty [simp]: "split_on d s \<noteq> []"
  by (induction s) (auto split: list.splits)

lemma split_on_word: "d \<notin> set w \<Longrightarrow> split_on d w = [w]"
  by (induction w) auto

lemma split_on_sep: "split_on d (w @ d # s) = split_on d w @ split_on d s"
  by (induction w) (auto split: list.splits)

lemma split_on_append: "d \<notin> set w \<Longrightarrow> split_on d (w @ d # s) = w # split_on d s"
  by (simp add: split_on_sep split_on_word)

lemma split_on_parts: "w \<in> set (split_on d s) \<Longrightarrow> d \<notin> set w"
  by (induction s arbitrary: w) (auto split: list.splits if_splits)

lemma join_on_Cons: "ws \<noteq> [] \<Longrightarrow> join_on d (w # ws) = w @ d # join_on d ws"
  by (cases ws) simp_all

lemma join_on_char: "join_on d ((c # w) # ws) = c # join_on d (w # ws)"
  by (cases ws) simp_all

lemma join_split: "join_on d (split_on d s) = s"
  by (induction s) (auto simp: join_on_Cons join_on_char split: list.splits)

lemma split_join: "ws \<noteq> [] \<Longrightarrow> \<forall>w \<in> set ws. d \<notin> set w \<Longrightarrow> split_on d (join_on d ws) = ws"
proof (induction ws rule: join_on.induct)
  case (3 d w v ws)
  then show ?case by (simp add: split_on_append)
qed (simp_all add: split_on_word)

text \<open>The name in a log line is the part of the file after its last slash.\<close>

lemma log_file_name: "CHR ''/'' \<notin> set n \<Longrightarrow> last (split_on (CHR ''/'') (d @ CHR ''/'' # n)) = n"
  by (simp add: split_on_sep split_on_word)

text \<open>The parent of a path: none for the root and the empty path, the directory otherwise.\<close>

lemma path_parent_examples:
  "path_parent ''/'' = None" "path_parent [] = None"
  "path_parent ''rasputind.log'' = Some []"
  "path_parent ''/var/log/rasputind.log'' = Some ''/var/log''"
  "path_parent ''/rasputind.log'' = Some ''/''"
  "path_parent ''log//./r.log/'' = Some ''log''"
  by (simp_all add: path_parent_def trim_parts_def is_component_def)

lemma trim_left_no_space: "trim_left p = [] \<or> \<not> is_space (hd (trim_left p))"
  unfolding trim_left_def by (metis hd_dropWhile)

text \<open>A logger that is installed writes the records up to its level. When a write appends its text to the file, and to
  that file alone, the file holds the enabled lines in order.\<close>

definition appends :: "('lvl, 'fs, 'file) LogOps \<Rightarrow> ('fs \<Rightarrow> 'file \<Rightarrow> string) \<Rightarrow> bool" where
  "appends L content \<longleftrightarrow>
     (\<forall>f t fs u fs'. write_all L f t fs = (u, fs') \<longrightarrow> u = Inr () \<and> content fs' = (content fs)(f := content fs f @ t))"

lemma FileLogger_log_content:
  assumes "appends L content"
  shows "content (FileLogger_log L sec lg r fs) = (content fs)(fl_file lg := content fs (fl_file lg) @
    (if rec_level r \<le> fl_level lg then log_line L sec r @ [CHR 0x0A] else []))"
proof (cases "rec_level r \<le> fl_level lg")
  case True
  obtain u fs' where w: "write_all L (fl_file lg) (log_line L sec r @ [CHR 0x0A]) fs = (u, fs')" by fastforce
  then have "content fs' = (content fs)(fl_file lg := content fs (fl_file lg) @ log_line L sec r @ [CHR 0x0A])"
    using assms unfolding appends_def by blast
  then show ?thesis using True by (simp add: FileLogger_log_def FileLogger_enabled_def w)
qed (simp add: FileLogger_log_def FileLogger_enabled_def)

lemma FileLogger_logs_in_order:
  assumes "appends L content"
  shows "content (fold (\<lambda>(sec, r). FileLogger_log L sec lg r) rs fs) (fl_file lg) =
    content fs (fl_file lg) @
    concat (map (\<lambda>(sec, r). log_line L sec r @ [CHR 0x0A]) (filter (\<lambda>(sec, r). rec_level r \<le> fl_level lg) rs))"
  by (induction rs arbitrary: fs) (auto simp: FileLogger_log_content [OF assms])

text \<open>Installing: a second logger is refused, and a log file whose directory cannot be made ends the program.\<close>

lemma init_logger_twice: "init_logger L debug (Some g) path lvl fs \<noteq> Inr (Inr lg, fs')"
  by (auto simp: init_logger_def)

lemma init_logger_stdout:
  "init_logger L debug None None lvl fs = Inr (Inr (debug, ToStdout \<lparr>so_level = lvl\<rparr>), fs)"
  by (simp add: init_logger_def)

lemma init_logger_root: "init_logger L debug g (Some '' /'') lvl fs = Inl UnwrapErr"
  by (simp add: init_logger_def FileLogger_new_def trim_left_def is_space_def path_parent_examples)

lemma init_logger_file:
  assumes "path_parent (trim_left p) = Some dir" and "create_dir_all L dir fs = (Inr u, fs1)"
    and "open_append L (trim_left p) fs1 = (Inr file, fs2)"
  shows "init_logger L debug None (Some p) lvl fs = Inr (Inr (debug, ToFile \<lparr>fl_file = file, fl_level = lvl\<rparr>), fs2)"
  using assms by (simp add: init_logger_def FileLogger_new_def)

end
