(* ===== verification/Binaries.thy ===== *)
theory Binaries
  imports Client_Lib Logging Process
begin

text \<open>
  \<^verbatim>\<open>bin/rasputinc.rs\<close> and \<^verbatim>\<open>bin/rasputind.rs\<close>: what the two programs make of their command lines, which \<^verbatim>\<open>docopt\<close> has
  decoded.
\<close>

section \<open>Splitting at commas\<close>

text \<open>\<^verbatim>\<open>splitn(2, ",")\<close> of the standard library.\<close>

abbreviation split_comma :: "string \<Rightarrow> string list" where
  "split_comma \<equiv> split_on (CHR '','')"

fun splitn2_comma :: "string \<Rightarrow> string list" where
  "splitn2_comma [] = [[]]"
| "splitn2_comma (c # cs) =
     (if c = CHR '','' then [[], cs]
      else case splitn2_comma cs of [] \<Rightarrow> [[c]] | w # ws \<Rightarrow> (c # w) # ws)"

definition as_bytes :: "string \<Rightarrow> bytes" where
  "as_bytes s = map (\<lambda>c. of_nat (of_char c)) s"

lemma splitn2_comma_nonempty [simp]: "splitn2_comma s \<noteq> []"
  by (induction s) (auto split: list.splits)

text \<open>Words joined with commas.\<close>

abbreviation joined :: "string \<Rightarrow> string list \<Rightarrow> string" where
  "joined w ws \<equiv> w @ concat (map (\<lambda>x. CHR '','' # x) ws)"

lemma split_joined: "\<forall>x \<in> set (w # ws). CHR '','' \<notin> set x \<Longrightarrow> split_comma (joined w ws) = w # ws"
  by (induction ws arbitrary: w) (simp_all add: split_on_word split_on_append)

lemma splitn2_comma_append: "CHR '','' \<notin> set k \<Longrightarrow> splitn2_comma (k @ CHR '','' # v) = [k, v]"
  by (induction k) auto

lemma splitn2_comma_none: "CHR '','' \<notin> set k \<Longrightarrow> splitn2_comma k = [k]"
  by (induction k) auto

section \<open>The client program\<close>

record Cli_Args =
  flag_peers :: "string option"
  flag_set :: "string option"
  flag_get :: "string option"
  flag_cas :: "string option"
  flag_del :: "string option"

text \<open>\<^verbatim>\<open>process::exit(1)\<close> after the usage text, or the end of \<^verbatim>\<open>main\<close>.\<close>

datatype Exit = UsageError | Success

primrec parse_addrs :: "(string \<Rightarrow> string + SocketAddr) \<Rightarrow> string list \<Rightarrow> SocketAddr list res" where
  "parse_addrs parse [] = Inr []"
| "parse_addrs parse (s # ss) =
     and_then (unwrap_res (parse s)) (\<lambda>a. and_then (parse_addrs parse ss) (\<lambda>as. Inr (a # as)))"

definition rasputinc_main ::
  "Cli_Ext \<Rightarrow> BufOps \<Rightarrow> (nat \<Rightarrow> SocketAddr \<Rightarrow> Link) \<Rightarrow> (string \<Rightarrow> string + SocketAddr) \<Rightarrow> Cli_Args \<Rightarrow> Exit res option" where
  "rasputinc_main X rd net parse args =
     (case parse_addrs parse (split_comma (case flag_peers args of Some p \<Rightarrow> p | None \<Rightarrow> ''127.0.0.1:8888'')) of
        Inl p \<Rightarrow> Some (Inl p)
      | Inr addrs \<Rightarrow>
          let cli = Client_new addrs 1 in
          (case flag_set args of
             None \<Rightarrow> Some (Inr Success)
           | Some kv \<Rightarrow>
               let kvs = take 2 (splitn2_comma kv) in
               if length kvs \<noteq> 2 then Some (Inr UsageError)
               else map_option (\<lambda>x. and_then x (\<lambda>(r, _). and_then (unwrap_res r) (\<lambda>_. Inr Success)))
                      (Client_set X rd net (as_bytes (kvs ! 0)) (as_bytes (kvs ! 1)) cli)))"

text \<open>The key ends at the first comma, the value is the rest; without a comma the usage is printed; nothing else of the command line has an
  effect.\<close>

lemma rasputinc_sets:
  assumes "flag_peers args = Some (joined w ws)" and "\<forall>x \<in> set (w # ws). CHR '','' \<notin> set x"
    and "parse_addrs parse (w # ws) = Inr addrs" and "flag_set args = Some (k @ CHR '','' # v)" and "CHR '','' \<notin> set k"
    and "Client_set X rd net (as_bytes k) (as_bytes v) (Client_new addrs 1) = Some (Inr (Inr r, cli))"
  shows "rasputinc_main X rd net parse args = Some (Inr Success)"
  using assms(1,4,6)
  by (simp add: rasputinc_main_def split_joined [OF assms(2)] assms(3) splitn2_comma_append [OF assms(5)] del: parse_addrs.simps)

lemma rasputinc_usage:
  assumes "parse_addrs parse (split_comma p) = Inr addrs" and "flag_peers args = Some p" and "flag_set args = Some k"
    and "CHR '','' \<notin> set k"
  shows "rasputinc_main X rd net parse args = Some (Inr UsageError)"
  using assms by (simp add: rasputinc_main_def splitn2_comma_none)

lemma rasputinc_ignores:
  "flag_set args = None \<Longrightarrow> flag_peers args = Some p \<Longrightarrow> parse_addrs parse (split_comma p) = Inr addrs \<Longrightarrow>
     rasputinc_main X rd net parse args = Some (Inr Success)"
  by (simp add: rasputinc_main_def)

section \<open>The server program\<close>

record Srv_Args =
  flag_cli_port :: "u16 option"
  flag_peer_port :: "u16 option"
  flag_seed_peers :: string
  flag_logfile :: "string option"
  flag_storage_dir :: "string option"

text \<open>The arguments of \<^verbatim>\<open>Server::run\<close>: peer port, client port, storage directory and seed peers.\<close>

definition server_args :: "Srv_Args \<Rightarrow> u16 \<times> u16 \<times> string \<times> string list" where
  "server_args args =
     (let peer_port = (case flag_peer_port args of Some p \<Rightarrow> p | None \<Rightarrow> 7770);
          cli_port = (case flag_cli_port args of Some p \<Rightarrow> p | None \<Rightarrow> 8880);
          storage_dir = (case flag_storage_dir args of Some d \<Rightarrow> d | None \<Rightarrow> ''/var/lib/rasputin'');
          seed_peers = filter (\<lambda>s. s \<noteq> []) (split_comma (flag_seed_peers args))
      in (peer_port, cli_port, storage_dir, seed_peers))"

text \<open>The logger is installed first, then the server runs: the result has what \<^verbatim>\<open>main\<close> starts. \<^verbatim>\<open>Server::run\<close> does not return; it
  ends with the process.\<close>

definition rasputind_main ::
  "('lvl, 'fs, 'file) LogOps \<Rightarrow> 'lvl \<Rightarrow> 'lvl \<Rightarrow> 'db DbOps \<Rightarrow> 'sl SlabOps \<Rightarrow> Os \<Rightarrow> (string \<Rightarrow> SocketAddr option) \<Rightarrow> io \<Rightarrow>
     (Thread \<Rightarrow> io) \<Rightarrow> PeerID \<Rightarrow> Srv_Args \<Rightarrow> 'fs \<Rightarrow> (('lvl \<times> ('lvl, 'file) Logger) \<times> 'fs \<times> ('db, 'sl) Process) res" where
  "rasputind_main L debug info D S os parse loop_new spawn i args fs =
     and_then (init_logger L debug None (flag_logfile args) info fs) (\<lambda>(r, fs').
     and_then (unwrap_res r) (\<lambda>logger.
       let (peer_port, cli_port, storage_dir, seed_peers) = server_args args in
       and_then (Server_run D S os parse loop_new spawn i peer_port cli_port storage_dir seed_peers) (\<lambda>p.
         Inr (logger, fs', p))))"

text \<open>A list of addresses that is joined with commas is taken apart again, and empty parts never become peers.\<close>

lemma server_args_seeds:
  assumes "\<forall>x \<in> set (w # ws). CHR '','' \<notin> set x \<and> x \<noteq> []" and "flag_seed_peers args = joined w ws"
  shows "snd (snd (snd (server_args args))) = w # ws"
  using split_joined [of w ws] assms by (simp add: server_args_def filter_id_conv)

lemma server_args_no_empty_peer: "[] \<notin> set (snd (snd (snd (server_args args))))"
  by (simp add: server_args_def)

text \<open>Without a log file the records up to \<^verbatim>\<open>info\<close> go to the standard output, and the process is the one of \<^verbatim>\<open>Server::run\<close>.\<close>

lemma rasputind_starts:
  assumes "flag_logfile args = None" and "server_args args = (pport, cport, dir, ps)"
  shows "rasputind_main L debug info D S os parse loop_new spawn i args fs =
    and_then (Server_run D S os parse loop_new spawn i pport cport dir ps) (\<lambda>p. Inr ((debug, ToStdout \<lparr>so_level = info\<rparr>), fs, p))"
  using assms by (simp add: rasputind_main_def init_logger_stdout)

text \<open>A seed peer that is no socket address, such as a host name, ends the program.\<close>

lemma parse_peers_fails: "x \<in> set ps \<Longrightarrow> parse x = None \<Longrightarrow> parse_peers parse ps = Inl UnwrapNone"
  by (induction ps) (auto simp: unwrap_def and_then_def split: option.splits)

lemma rasputind_bad_peer:
  assumes "x \<in> set (snd (snd (snd (server_args args))))" and "parse x = None"
  shows "\<not> is_ok (rasputind_main L debug info D S os parse loop_new spawn i args fs)"
proof -
  obtain pport cport dir ps where a: "server_args args = (pport, cport, dir, ps)" by (cases "server_args args")
  then have "parse_peers parse ps = Inl UnwrapNone" using assms parse_peers_fails by simp
  then have "\<not> is_ok (Server_run D S os parse loop_new spawn i pport cport dir ps)"
    by (auto simp: is_ok_iff Server_run_def TrafficCop_new_def split: sum.splits)
  then show ?thesis using a by (auto simp: is_ok_iff rasputind_main_def)
qed

end
