(* ===== verification/Spec2Isabelle.thy ===== *)
theory Spec2Isabelle
  imports Process_Stop Two_Leaders Node_Client Binaries
begin

text \<open>
  \<^bold>\<open>Rasputin, a replicated key-value store.\<close>

  \<^bold>\<open>The program.\<close> A cluster of \<^verbatim>\<open>rasputind\<close> nodes elects a leader that holds a lease, replicates the
  writes of clients through a log, and applies what a majority has acknowledged to RocksDB. Inside a
  node, \<^verbatim>\<open>src/src/server/traffic_cop.rs\<close> runs the event loop: its connections (\<^verbatim>\<open>connset.rs\<close>,
  \<^verbatim>\<open>server_conn.rs\<close>) cut the byte streams into frames (\<^verbatim>\<open>codec.rs\<close>) and pass them as envelopes to the
  threads of \<^verbatim>\<open>server.rs\<close> over channels. These parse a message (\<^verbatim>\<open>serialization.rs\<close>), change the server state under
  a lock (roles and leases in \<^verbatim>\<open>server/mod.rs\<close>, the log in \<^verbatim>\<open>acked_log.rs\<close>) and send envelopes back to
  the event loop. A client (\<^verbatim>\<open>client/mod.rs\<close>) sends a request to one server after the other.

  \<^bold>\<open>Conventions.\<close> A definition carries the name of the function it translates, prefixed with the type
  where names repeat. A panic (\<^verbatim>\<open>unwrap\<close>, \<^verbatim>\<open>assert!\<close>, \<^verbatim>\<open>panic!\<close>, an overflow, a bad index) is the value
  \<open>Inl\<close> of \<open>'a res\<close>, a returned \<^verbatim>\<open>Err\<close> is an inner sum, a loop that need not end is a
  \<^theory_text>\<open>partial_function\<close> whose \<open>None\<close> is divergence; there is no fuel anywhere. Machine integers are words of
  their width; \<^verbatim>\<open>usize\<close> has 64 bits. Code outside \<^verbatim>\<open>src/\<close> is a parameter: the record \<open>Ext\<close> (clock arithmetic,
  RocksDB, parsing and printing of whole messages), \<open>Cli_Ext\<close> and \<open>Link\<close> (the same for the client and its sockets), \<open>Pb\<close> (the
  \<^verbatim>\<open>protobuf\<close> runtime that the generated code calls),
  \<open>Os\<close> (sockets and poll of the event loop), \<open>DbOps\<close> (opening RocksDB), \<open>LogOps\<close> (log files), \<open>SlabOps\<close> (\<^verbatim>\<open>mio::util::Slab\<close>) and \<open>BufOps\<close> (copying of the \<^verbatim>\<open>bytes\<close>
  and \<^verbatim>\<open>mio\<close> crates). Every operation of RocksDB may fail: \<open>store_laws\<close> only says what a result that is no error means, and that a
  failed write changes nothing. What the code relies on is a named predicate on the parameter (\<open>store_laws\<close>, \<open>ext_writes\<close>,
  \<open>slab_laws\<close>, \<open>buf_laws\<close>, \<open>os_writes_ok\<close>, \<open>os_reads_ok\<close>, \<open>os_registers_ok\<close>, \<open>pb_laws\<close>, \<open>pb_consumes\<close>, and \<open>wire_ext\<close>, \<open>wire_cli_ext\<close> for printers and
  parsers that are the generated code), and each property is applied to concrete instances
  (\<open>mem_ext\<close>, \<open>demo_os\<close>, \<open>demo_slab_ops\<close>, \<open>mem_buf\<close>, \<open>demo_link\<close>, \<open>pb_varint\<close>, \<open>wire_mem\<close>, \<open>wire_cli\<close>).

  \<^bold>\<open>Theories.\<close>
  \<^item> Prelude: machine types, results, checked arithmetic, loops that may panic.
  \<^item> Btree_Map: \<^verbatim>\<open>std::collections::BTreeMap\<close> behind the locale \<open>ordered_map\<close>.
  \<^item> Clock (\<^verbatim>\<open>clock.rs\<close>), Range_Bounds (\<^verbatim>\<open>range_bounds.rs\<close>): time stamps, the settable clock and its 32-bit arithmetic; key ranges
    and what their comparison means.
  \<^item> Node_State (\<^verbatim>\<open>server/mod.rs\<close>): envelopes, replication peers, roles with their leases.
  \<^item> Acked_Log, Log_History (\<^verbatim>\<open>server/acked_log.rs\<close>): the log, its invariant, the locale \<open>acked_log\<close> that the server relies on;
    what is committed, readable and refused after any history of operations.
  \<^item> Msg_Log, Msg_Peer, Msg_Client (\<^verbatim>\<open>serialization.rs\<close>): every message with its fields, accessors, \<^verbatim>\<open>clear\<close>, \<^verbatim>\<open>is_initialized\<close>
    and equality; the locales \<open>singular_field\<close> and \<open>mutable_field\<close> are interpreted for each field.
  \<^item> Wire_Rt, Wire_Log, Wire_Peer, Wire_Client (\<^verbatim>\<open>serialization.rs\<close>): \<^verbatim>\<open>merge_from\<close>, \<^verbatim>\<open>compute_size\<close> and \<^verbatim>\<open>write_to_with_cached_sizes\<close> of every message,
    with a round trip for each; Wire_Varint is a runtime with base 128 varints that keeps the laws. Wire_Format: the round trip of whole
    messages, that parsing returns on every input, and what one side prints the other parses.
  \<^item> Server, Server_Election, Server_Replication, Server_Node (\<^verbatim>\<open>server/server.rs\<close>): the server record and every handler,
    the dispatch, one step per event, and the states reachable from \<^verbatim>\<open>Server::run\<close>.
  \<^item> Server_Invariant, Server_Total: the invariant of reachable servers; when a step returns and which panics are impossible.
  \<^item> Election_Safety: when a vote is granted, that it binds for the lease, that leadership needs a majority, who campaigns, and
    that a majority of grants elects.
  \<^item> Replication_Safety, Client_Requests, Single_Node: what followers accept and leaders count, what a client request does on a
    leader and elsewhere, and the whole path from request to response in a cluster of one.
  \<^item> Server_Store: learning refines an abstract map, and the store is the replay of the committed log, without the entries on which
    the store failed.
  \<^item> Server_Output: the shape and the destination of every message that a step sends, and the state that a granted vote leaves.
  \<^item> Cluster, Two_Leaders: nodes that exchange encoded messages over connections (\<open>conn\<close> and \<open>dialled\<close> stand for the sockets of the event
    loops, \<open>posts\<close> for \<^verbatim>\<open>TrafficCop::notify\<close>); messages may be delayed, repeated, reordered and lost, all nodes read one clock. A lease
    that is not extended excludes other leaders, an extended one does not.
  \<^item> End_To_End: a client operation over the wire, the handler of the server and the store, and back.
  \<^item> Rocksdb (\<^verbatim>\<open>server/rocksdb.rs\<close>), Logging (\<^verbatim>\<open>logging/mod.rs\<close>): how the store is opened; what the loggers write and how one is installed.
  \<^item> Process (\<^verbatim>\<open>Server::run\<close>): the start of a node and its threads, the channels and the mutex between them, with one step per turn of a
    thread. The process is its server, fed from the channels in order, whatever the schedule. Process_Stop: a panic in a handler stops the node, it does
    not outlive its event loop, and a message that does not parse takes it down. Process_Answers: from the bytes of a request on the socket of
    a client, through the event loop and the threads, to the bytes of the response on the same socket. Node_Client: End_To_End over such a
    process.
  \<^item> Binaries (\<^verbatim>\<open>bin/rasputinc.rs\<close>, \<^verbatim>\<open>bin/rasputind.rs\<close>): what the programs make of their arguments, and what they start.
  \<^item> Memory_Ext: concrete externals and three runs for the instances.
  \<^item> Codec (\<^verbatim>\<open>codec.rs\<close>): the framing refines \<open>parse_frames\<close>, returns on every input and survives any fragmentation.
  \<^item> Server_Conn, Conn_Set, Traffic_Cop (\<^verbatim>\<open>server_conn.rs\<close>, \<^verbatim>\<open>connset.rs\<close>, \<^verbatim>\<open>traffic_cop.rs\<close>): connections deliver messages in order,
    the handler keeps its tables consistent, never panics on a known token, and a broadcast reaches each connected peer once.
  \<^item> Client_Lib (\<^verbatim>\<open>client/mod.rs\<close>): the first proper answer is returned, and when the loops do not end.

  \<^bold>\<open>Flaws that the theorems show.\<close> A leader extends its lease from the arrival of a vote, so two leaders can hold running leases
  (Two_Leaders); an acknowledgement names no entry and refusals count (Replication_Safety, Log_History);
  a commit past several entries forgets all but the last (Log_History); a voter can vote twice in a term once its lease
  has run out (Election_Safety); an entry stays committed when the store fails to apply it, and store and log part (Server_Store); the majority is
  kept in 8 bits, so it is wrong from 510 nodes on (the bound in Two_Leaders and Election_Safety); a connection is polled once until it is answered (Server_Conn); a client
  beyond token 4096 takes the event loop down (Traffic_Cop); a client waits forever for a server that
  went silent (Client_Lib); a message that does not parse stops the process, and the panic of the timer thread is not noticed before
  the next request (Process_Stop); the comparison of ranges is not an order (Range_Bounds).

  \<^bold>\<open>Not modelled.\<close> The reflection of \<^verbatim>\<open>serialization.rs\<close> (descriptors, \<^verbatim>\<open>type_id\<close>, the text of \<^verbatim>\<open>Debug\<close>), which only reads
  the messages and is built by \<^verbatim>\<open>protobuf\<close>; the bytes of the embedded schema. How long a thread sleeps or waits: a turn comes at any time. The text
  of the log records that handlers write, and the banner; the level is the one that \<^verbatim>\<open>init_logger\<close> sets, at which \<^verbatim>\<open>debug!\<close> evaluates its arguments. The decoding of command lines by \<^verbatim>\<open>docopt\<close>. What a handler that panics has
  done to the state by then: the mutex is poisoned and nobody reads it again, and what it had sent is arbitrary. In a
  cluster, connections that break and come back, and clocks that differ. Allocation of buffers is taken to succeed. \<^verbatim>\<open>lib.rs\<close> only declares modules.
\<close>

end
